(* ===== verification/Prelude.thy ===== *)
theory Prelude
  imports "HOL-Library.Word" "HOL-Library.Monad_Syntax"
begin

text \<open>
  The shared vocabulary of the development: the C integer types as fixed-width words, the byte
  order of the host, the conversions between integers and the bytes they occupy in memory
  (\<open>memcpy\<close>, \<open>htons\<close>, \<open>ntohl\<close>), and the lemmas on bits and byte lists that the components share.

  \<^item> \<open>uint8_t\<close>, \<open>uint16_t\<close>, \<open>uint32_t\<close>, \<open>uint64_t\<close> are \<open>u8\<close>, \<open>u16\<close>, \<open>u32\<close>, \<open>u64\<close>;
  \<^item> \<open>size_t\<close> is \<open>nat\<close> (object sizes and offsets inside one object; where a \<open>size_t\<close> is filled
    from outside, as \<open>Content-Length\<close> is, the width is written out);
  \<^item> a byte slice (\<open>U8Slice99\<close>, a \<open>struct iovec\<close>) is a \<open>u8 list\<close>, a character slice
    (\<open>CharSlice99\<close>) a \<open>string\<close>: the sequence the pointer and the length denote;
  \<^item> a computation that may leave defined behaviour (an out-of-bounds access, a failed
    \<open>assert\<close>) is an \<open>option\<close>, \<open>None\<close> standing for the fault.
\<close>

unbundle bit_operations_syntax

type_synonym u8 = "8 word"
type_synonym u16 = "16 word"
type_synonym u32 = "32 word"
type_synonym u64 = "64 word"

text \<open>
  \<open>word_masks\<close>: a masked word as \<^const>\<open>take_bit\<close>; \<open>word_bits\<close>: the bits of the operations
  the code uses; \<open>wire\<close>: integers and their big-endian bytes.
\<close>

named_theorems word_masks
named_theorems word_bits
named_theorems wire

section \<open>Bits\<close>

lemma not_bit_u8 [word_bits]: "8 \<le> n \<Longrightarrow> \<not> bit (w :: u8) n"
  using bit_imp_le_length by fastforce

lemma not_bit_u16 [word_bits]: "16 \<le> n \<Longrightarrow> \<not> bit (w :: u16) n"
  using bit_imp_le_length by fastforce

lemma not_bit_u32 [word_bits]: "32 \<le> n \<Longrightarrow> \<not> bit (w :: u32) n"
  using bit_imp_le_length by fastforce

lemmas [word_bits] = bit_simps

lemma and_mask_word [word_masks]:
  fixes w :: "'a::len word"
  shows "w AND 1 = take_bit 1 w" "w AND 3 = take_bit 2 w" "w AND 7 = take_bit 3 w"
    "w AND 15 = take_bit 4 w" "w AND 31 = take_bit 5 w" "w AND 63 = take_bit 6 w"
    "w AND 127 = take_bit 7 w" "w AND 255 = take_bit 8 w" "w AND 65535 = take_bit 16 w"
  by (simp_all add: take_bit_eq_mask mask_eq_exp_minus_1)

lemma unat_take_bit_less:
  fixes w :: "'a::len word"
  shows "unat (take_bit n w) < 2 ^ n"
  by (simp add: unsigned_take_bit_eq take_bit_nat_less_exp)

text \<open>
  An index below a small bound, one case per bit: the way a statement on the bits of a single
  octet is decided.
\<close>

lemma nat_less_8_cases:
  "(n :: nat) < 8 \<Longrightarrow>
     n = 0 \<or> n = 1 \<or> n = 2 \<or> n = 3 \<or> n = 4 \<or> n = 5 \<or> n = 6 \<or> n = 7"
  by arith

lemma u8_eqI:
  fixes a b :: u8
  assumes "bit a 0 = bit b 0" "bit a 1 = bit b 1" "bit a 2 = bit b 2" "bit a 3 = bit b 3"
    "bit a 4 = bit b 4" "bit a 5 = bit b 5" "bit a 6 = bit b 6" "bit a 7 = bit b 7"
  shows "a = b"
proof (rule bit_word_eqI)
  fix n assume "n < LENGTH(8)"
  then have "n < 8" by simp
  from nat_less_8_cases [OF this] show "bit a n = bit b n"
    by (elim disjE) (simp_all only: assms)
qed

lemma small_u8_bits:
  fixes w :: u8
  assumes "unat w < 2 ^ k" "k \<le> n"
  shows "\<not> bit w n"
proof
  assume "bit w n"
  with assms have "bit (take_bit k (unat w)) n" by (simp add: take_bit_nat_eq_self bit_unsigned_iff)
  with assms show False by (simp add: bit_take_bit_iff)
qed

text \<open>The comparison of secrets: the differences of all octets, collected.\<close>

lemma xor_u8_eq_0: "(a :: u8) XOR b = 0 \<longleftrightarrow> a = b"
  by (metis xor.assoc xor.left_neutral xor.right_neutral xor_self_eq)

lemma octet_diff_eq_0:
  "fold (\<lambda>i diff. diff OR (f i XOR g i)) [0..<n] (0 :: u8) = 0 \<longleftrightarrow> (\<forall>i < n. f i = g i)"
  by (induction n) (auto simp: less_Suc_eq or_eq_0_iff xor_u8_eq_0)

section \<open>The host's byte order\<close>

datatype endian = LittleEndian | BigEndian

text \<open>The bytes of an integer, most significant first, and back.\<close>

definition be16 :: "u16 \<Rightarrow> u8 list" where
  "be16 w = [ucast (drop_bit 8 w), ucast w]"

definition be32 :: "u32 \<Rightarrow> u8 list" where
  "be32 w = [ucast (drop_bit 24 w), ucast (drop_bit 16 w), ucast (drop_bit 8 w), ucast w]"

definition of_be16 :: "u8 list \<Rightarrow> u16" where
  "of_be16 bs = push_bit 8 (ucast (bs ! 0)) OR ucast (bs ! 1)"

definition of_be32 :: "u8 list \<Rightarrow> u32" where
  "of_be32 bs = push_bit 24 (ucast (bs ! 0)) OR push_bit 16 (ucast (bs ! 1))
     OR push_bit 8 (ucast (bs ! 2)) OR ucast (bs ! 3)"

text \<open>Reversing the bytes of an integer; \<open>htons\<close> and \<open>ntohs\<close> are the same function, and so are
  \<open>htonl\<close> and \<open>ntohl\<close>.\<close>

definition swap16 :: "u16 \<Rightarrow> u16" where
  "swap16 w = of_be16 (rev (be16 w))"

definition swap32 :: "u32 \<Rightarrow> u32" where
  "swap32 w = of_be32 (rev (be32 w))"

fun htons :: "endian \<Rightarrow> u16 \<Rightarrow> u16" where
  "htons LittleEndian w = swap16 w"
| "htons BigEndian w = w"

fun htonl :: "endian \<Rightarrow> u32 \<Rightarrow> u32" where
  "htonl LittleEndian w = swap32 w"
| "htonl BigEndian w = w"

text \<open>
  What \<open>memcpy\<close> from an integer object to a buffer writes (\<open>store\<close>), and what \<open>memcpy\<close> from a
  buffer to an integer object reads (\<open>load\<close>), on a host of the given byte order.
\<close>

fun store16 :: "endian \<Rightarrow> u16 \<Rightarrow> u8 list" where
  "store16 LittleEndian w = rev (be16 w)"
| "store16 BigEndian w = be16 w"

fun store32 :: "endian \<Rightarrow> u32 \<Rightarrow> u8 list" where
  "store32 LittleEndian w = rev (be32 w)"
| "store32 BigEndian w = be32 w"

fun load16 :: "endian \<Rightarrow> u8 list \<Rightarrow> u16" where
  "load16 LittleEndian bs = of_be16 (rev (take 2 bs))"
| "load16 BigEndian bs = of_be16 (take 2 bs)"

fun load32 :: "endian \<Rightarrow> u8 list \<Rightarrow> u32" where
  "load32 LittleEndian bs = of_be32 (rev (take 4 bs))"
| "load32 BigEndian bs = of_be32 (take 4 bs)"

subsection \<open>Integers and their bytes\<close>

lemma length_be16 [simp]: "length (be16 w) = 2"
  by (simp add: be16_def)

lemma length_be32 [simp]: "length (be32 w) = 4"
  by (simp add: be32_def)

lemma of_be16_be16 [simp]: "of_be16 (be16 w) = w"
  by (rule bit_word_eqI) (auto simp: of_be16_def be16_def word_bits)

lemma of_be32_be32 [simp]: "of_be32 (be32 w) = w"
proof (rule bit_word_eqI)
  fix n assume "n < LENGTH(32)"
  then show "bit (of_be32 (be32 w)) n = bit w n"
    by (cases "n < 8"; cases "n < 16"; cases "n < 24")
      (auto simp: of_be32_def be32_def word_bits)
qed

lemma be16_of_be16 [simp]: "be16 (of_be16 [a, b]) = [a, b]"
proof -
  have "(ucast (drop_bit 8 (of_be16 [a, b])) :: u8) = a"
    by (rule bit_word_eqI) (auto simp: of_be16_def word_bits)
  moreover have "(ucast (of_be16 [a, b]) :: u8) = b"
    by (rule bit_word_eqI) (auto simp: of_be16_def word_bits)
  ultimately show ?thesis by (simp add: be16_def)
qed

lemma be32_of_be32 [simp]: "be32 (of_be32 [a, b, c, d]) = [a, b, c, d]"
proof -
  have "(ucast (drop_bit 24 (of_be32 [a, b, c, d])) :: u8) = a"
    by (rule bit_word_eqI) (auto simp: of_be32_def word_bits)
  moreover have "(ucast (drop_bit 16 (of_be32 [a, b, c, d])) :: u8) = b"
    by (rule bit_word_eqI) (auto simp: of_be32_def word_bits)
  moreover have "(ucast (drop_bit 8 (of_be32 [a, b, c, d])) :: u8) = c"
    by (rule bit_word_eqI) (auto simp: of_be32_def word_bits)
  moreover have "(ucast (of_be32 [a, b, c, d]) :: u8) = d"
    by (rule bit_word_eqI) (auto simp: of_be32_def word_bits)
  ultimately show ?thesis by (simp add: be32_def)
qed

lemma length_2E: "length xs = 2 \<Longrightarrow> \<exists>a b. xs = [a, b]"
  by (auto simp: numeral_2_eq_2 length_Suc_conv)

lemma length_4E: "length xs = 4 \<Longrightarrow> \<exists>a b c d. xs = [a, b, c, d]"
  by (auto simp: eval_nat_numeral length_Suc_conv)

lemma be16_of_be16_list: "length bs = 2 \<Longrightarrow> be16 (of_be16 bs) = bs"
  using length_2E by force

lemma be32_of_be32_list: "length bs = 4 \<Longrightarrow> be32 (of_be32 bs) = bs"
  using length_4E by force

lemma be16_swap16: "be16 (swap16 w) = rev (be16 w)"
  by (simp add: swap16_def be16_of_be16_list)

lemma be32_swap32: "be32 (swap32 w) = rev (be32 w)"
  by (simp add: swap32_def be32_of_be32_list)

lemma swap16_swap16 [simp]: "swap16 (swap16 w) = w"
  by (simp add: swap16_def [of "swap16 w"] be16_swap16)

lemma swap32_swap32 [simp]: "swap32 (swap32 w) = w"
  by (simp add: swap32_def [of "swap32 w"] be32_swap32)

lemma htons_htons [simp]: "htons en (htons en w) = w"
  by (cases en) simp_all

lemma htonl_htonl [simp]: "htonl en (htonl en w) = w"
  by (cases en) simp_all

lemma htons_0 [simp]: "htons en 0 = 0"
  by (cases en) (simp_all add: swap16_def be16_def of_be16_def)

lemma length_store16 [simp]: "length (store16 en w) = 2"
  by (cases en) simp_all

lemma length_store32 [simp]: "length (store32 en w) = 4"
  by (cases en) simp_all

text \<open>
  An integer converted to network order and copied into a buffer is its big-endian bytes, on
  every host; read back and converted, it is the integer again.
\<close>

lemma store16_htons [wire, simp]: "store16 en (htons en w) = be16 w"
  by (cases en) (simp_all add: be16_swap16)

lemma store32_htonl [wire, simp]: "store32 en (htonl en w) = be32 w"
  by (cases en) (simp_all add: be32_swap32)

lemma load16_store16 [wire, simp]: "load16 en (store16 en w @ bs) = w"
  by (cases en) simp_all

lemma load32_store32 [wire, simp]: "load32 en (store32 en w @ bs) = w"
  by (cases en) simp_all

lemma htons_load16 [wire]: "2 \<le> length bs \<Longrightarrow> htons en (load16 en bs) = of_be16 (take 2 bs)"
  by (cases en) (simp_all add: swap16_def be16_of_be16_list)

lemma htonl_load32 [wire]: "4 \<le> length bs \<Longrightarrow> htonl en (load32 en bs) = of_be32 (take 4 bs)"
  by (cases en) (simp_all add: swap32_def be32_of_be32_list)

lemma htons_load16_be16 [wire, simp]: "htons en (load16 en (be16 w @ bs)) = w"
  by (simp add: htons_load16)

lemma htonl_load32_be32 [wire, simp]: "htonl en (load32 en (be32 w @ bs)) = w"
  by (simp add: htonl_load32)

lemma load16_be16: "load16 en (be16 w @ bs) = htons en w"
  using htons_load16_be16 [of en w bs] by (metis htons_htons)

lemma load32_be32: "load32 en (be32 w @ bs) = htonl en w"
  using htonl_load32_be32 [of en w bs] by (metis htonl_htonl)

lemma store32_load32: "length bs = 4 \<Longrightarrow> store32 en (load32 en bs) = bs"
  by (cases en) (simp_all add: be32_of_be32_list)

lemma store16_load16: "length bs = 2 \<Longrightarrow> store16 en (load16 en bs) = bs"
  by (cases en) (simp_all add: be16_of_be16_list)

section \<open>Characters and octets\<close>

text \<open>
  The casts between \<open>char\<close> and \<open>uint8_t\<close>: HOL's characters are the 256 octets.
\<close>

definition u8_of_char :: "char \<Rightarrow> u8" where
  "u8_of_char c = word_of_nat (of_char c)"

definition char_of_u8 :: "u8 \<Rightarrow> char" where
  "char_of_u8 b = char_of (unat b)"

lemma char_of_u8_of_char [simp]: "char_of_u8 (u8_of_char c) = c"
  by (simp add: char_of_u8_def u8_of_char_def unat_of_nat take_bit_eq_mod)

lemma u8_of_char_of_u8 [simp]: "u8_of_char (char_of_u8 b) = b"
proof -
  have "unat b < 256" using unsigned_less [of b] by simp
  then show ?thesis by (simp add: char_of_u8_def u8_of_char_def)
qed

lemma u8_of_char_inject [simp]: "u8_of_char c = u8_of_char d \<longleftrightarrow> c = d"
  by (metis char_of_u8_of_char)

lemma map_char_of_u8_of_char [simp]: "map (char_of_u8 \<circ> u8_of_char) s = s"
  by (simp add: comp_def)

lemma map_u8_of_char_of_u8 [simp]: "map (u8_of_char \<circ> char_of_u8) bs = bs"
  by (simp add: comp_def)

end
