(* ===== verification/Base64.thy ===== *)
theory Base64
  imports Prelude
begin

text \<open>
  Base64 encoding and decoding, \<open>src/base64.c\<close>. The state is the caller's output buffer: each
  function returns the C return value and the bytes it wrote there. The component is used by
  the SRTP key-management helpers, which embed a key and a salt in an SDP attribute.
\<close>

section \<open>The code\<close>

definition b64_table :: string where
  "b64_table = ''ABCDEFGHIJKLMNOPQRSTUVWXYZabcdefghijklmnopqrstuvwxyz0123456789+/''"

text \<open>The designated initialisers; every other of the 256 entries is 0.\<close>

definition b64_decode_entries :: "(char \<times> u8) list" where
  "b64_decode_entries =
    [(CHR ''A'', 0), (CHR ''B'', 1), (CHR ''C'', 2), (CHR ''D'', 3), (CHR ''E'', 4),
     (CHR ''F'', 5), (CHR ''G'', 6), (CHR ''H'', 7), (CHR ''I'', 8), (CHR ''J'', 9),
     (CHR ''K'', 10), (CHR ''L'', 11), (CHR ''M'', 12), (CHR ''N'', 13), (CHR ''O'', 14),
     (CHR ''P'', 15), (CHR ''Q'', 16), (CHR ''R'', 17), (CHR ''S'', 18), (CHR ''T'', 19),
     (CHR ''U'', 20), (CHR ''V'', 21), (CHR ''W'', 22), (CHR ''X'', 23), (CHR ''Y'', 24),
     (CHR ''Z'', 25), (CHR ''a'', 26), (CHR ''b'', 27), (CHR ''c'', 28), (CHR ''d'', 29),
     (CHR ''e'', 30), (CHR ''f'', 31), (CHR ''g'', 32), (CHR ''h'', 33), (CHR ''i'', 34),
     (CHR ''j'', 35), (CHR ''k'', 36), (CHR ''l'', 37), (CHR ''m'', 38), (CHR ''n'', 39),
     (CHR ''o'', 40), (CHR ''p'', 41), (CHR ''q'', 42), (CHR ''r'', 43), (CHR ''s'', 44),
     (CHR ''t'', 45), (CHR ''u'', 46), (CHR ''v'', 47), (CHR ''w'', 48), (CHR ''x'', 49),
     (CHR ''y'', 50), (CHR ''z'', 51), (CHR ''0'', 52), (CHR ''1'', 53), (CHR ''2'', 54),
     (CHR ''3'', 55), (CHR ''4'', 56), (CHR ''5'', 57), (CHR ''6'', 58), (CHR ''7'', 59),
     (CHR ''8'', 60), (CHR ''9'', 61), (CHR ''+'', 62), (CHR ''/'', 63)]"

definition b64_decode_table :: "char \<Rightarrow> u8" where
  "b64_decode_table c = (case map_of b64_decode_entries c of Some v \<Rightarrow> v | None \<Rightarrow> 0)"

definition b64_valid_char :: "u8 \<Rightarrow> bool" where
  "b64_valid_char c \<longleftrightarrow>
     (u8_of_char CHR ''A'' \<le> c \<and> c \<le> u8_of_char CHR ''Z'') \<or>
     (u8_of_char CHR ''a'' \<le> c \<and> c \<le> u8_of_char CHR ''z'') \<or>
     (u8_of_char CHR ''0'' \<le> c \<and> c \<le> u8_of_char CHR ''9'') \<or>
     c = u8_of_char CHR ''+'' \<or> c = u8_of_char CHR ''/'' \<or> c = u8_of_char CHR ''=''"

definition b64_char :: "u32 \<Rightarrow> char" where
  "b64_char sextet = b64_table ! unat (sextet AND 0x3F)"

text \<open>
  The loop over whole groups of three octets: the characters it writes, and the octets
  left when \<open>i + 2 < len\<close> fails.
\<close>

fun b64_encode_loop :: "u8 list \<Rightarrow> string \<times> u8 list" where
  "b64_encode_loop (a # b # c # src) =
     (let triplet = push_bit 16 (ucast a) OR push_bit 8 (ucast b) OR ucast c :: u32;
          (out, rest) = b64_encode_loop src
      in (b64_char (drop_bit 18 triplet) # b64_char (drop_bit 12 triplet) #
          b64_char (drop_bit 6 triplet) # b64_char triplet # out, rest))"
| "b64_encode_loop src = ([], src)"

definition b64_encode_tail :: "u8 list \<Rightarrow> string" where
  "b64_encode_tail rest =
     (case rest of
        [] \<Rightarrow> []
      | a # more \<Rightarrow>
          let triplet0 = push_bit 16 (ucast a) :: u32;
              triplet = (case more of [] \<Rightarrow> triplet0
                         | b # _ \<Rightarrow> triplet0 OR push_bit 8 (ucast b))
          in [b64_char (drop_bit 18 triplet), b64_char (drop_bit 12 triplet),
              (case more of [] \<Rightarrow> CHR ''='' | _ # _ \<Rightarrow> b64_char (drop_bit 6 triplet)),
              CHR ''=''])"

definition compy_base64_encode :: "u8 list \<Rightarrow> nat \<Rightarrow> int \<times> string" where
  "compy_base64_encode data out_max =
     (let needed = ((length data + 2) div 3) * 4 + 1
      in if out_max < needed then (-1, [])
         else let (out, rest) = b64_encode_loop data;
                  out = out @ b64_encode_tail rest
              in (int (length out), out @ [CHR 0x00]))"

text \<open>
  The decoding loop writes each octet of a group only while \<open>oi < decoded_len\<close>. The final
  equation is never reached: the length has been checked to be a multiple of four.
\<close>

definition b64_put :: "nat \<Rightarrow> u8 \<Rightarrow> u8 list \<Rightarrow> u8 list" where
  "b64_put decoded_len b dst = (if length dst < decoded_len then dst @ [b] else dst)"

fun b64_decode_loop :: "nat \<Rightarrow> string \<Rightarrow> u8 list \<Rightarrow> u8 list" where
  "b64_decode_loop decoded_len (a # b # c # d # b64) dst =
     (let sextet_a = ucast (b64_decode_table a) :: u32;
          sextet_b = ucast (b64_decode_table b) :: u32;
          sextet_c = ucast (b64_decode_table c) :: u32;
          sextet_d = ucast (b64_decode_table d) :: u32;
          triple = push_bit 18 sextet_a OR push_bit 12 sextet_b OR push_bit 6 sextet_c
                     OR sextet_d;
          dst = b64_put decoded_len (ucast (drop_bit 16 triple AND 0xFF)) dst;
          dst = b64_put decoded_len (ucast (drop_bit 8 triple AND 0xFF)) dst;
          dst = b64_put decoded_len (ucast (triple AND 0xFF)) dst
      in b64_decode_loop decoded_len b64 dst)"
| "b64_decode_loop decoded_len b64 dst = dst"

definition compy_base64_decode :: "string \<Rightarrow> nat \<Rightarrow> int \<times> u8 list" where
  "compy_base64_decode b64 out_max =
     (if length b64 = 0 then (0, [])
      else if length b64 mod 4 \<noteq> 0 then (-1, [])
      else if \<not> list_all (\<lambda>c. b64_valid_char (u8_of_char c)) b64 then (-1, [])
      else
        let len = length b64;
            pad = (if b64 ! (len - 1) = CHR ''='' then 1 else 0)
                + (if len > 1 \<and> b64 ! (len - 2) = CHR ''='' then 1 else 0);
            decoded_len = (len div 4) * 3 - pad
        in if out_max < decoded_len then (-1, [])
           else (int decoded_len, b64_decode_loop decoded_len b64 []))"

section \<open>The alphabet\<close>

lemma b64_alphabet:
  "list_all (\<lambda>i. b64_decode_table (b64_table ! i) = word_of_nat i \<and>
      b64_valid_char (u8_of_char (b64_table ! i)) \<and> b64_table ! i \<noteq> CHR ''='') [0..<64]"
  by code_simp

lemma b64_pad_char:
  "b64_decode_table CHR ''='' = 0" "b64_valid_char (u8_of_char CHR ''='')"
  by code_simp+

section \<open>One group\<close>

lemma unat_sextet: "unat ((x :: u32) AND 0x3F) < 64"
  by (simp add: and_mask_word unsigned_take_bit_eq take_bit_nat_def)

lemma b64_table_sextet:
  assumes "i < 64"
  shows "b64_decode_table (b64_table ! i) = word_of_nat i"
    and "b64_valid_char (u8_of_char (b64_table ! i))"
    and "b64_table ! i \<noteq> CHR ''=''"
  using b64_alphabet assms by (auto simp: list_all_iff)

lemma b64_decode_char: "(ucast (b64_decode_table (b64_char x)) :: u32) = take_bit 6 x"
proof -
  have "b64_decode_table (b64_char x) = word_of_nat (unat (x AND 0x3F))"
    unfolding b64_char_def by (rule b64_table_sextet(1) [OF unat_sextet])
  also have "\<dots> = ucast (take_bit 6 x)"
    by (simp add: and_mask_word)
  finally show ?thesis
    by simp (rule bit_word_eqI, auto simp: word_bits)
qed

lemma b64_valid_b64_char [simp]: "b64_valid_char (u8_of_char (b64_char x))"
  unfolding b64_char_def by (rule b64_table_sextet(2) [OF unat_sextet])

lemma b64_char_not_pad [simp]: "b64_char x \<noteq> CHR ''=''"
  unfolding b64_char_def by (rule b64_table_sextet(3) [OF unat_sextet])

lemma sextets_join:
  fixes t :: u32
  shows "push_bit 18 (take_bit 6 (drop_bit 18 t)) OR push_bit 12 (take_bit 6 (drop_bit 12 t))
     OR push_bit 6 (take_bit 6 (drop_bit 6 t)) OR take_bit 6 t = take_bit 24 t"
proof (rule bit_word_eqI)
  fix n assume "n < LENGTH(32)"
  then show "bit (push_bit 18 (take_bit 6 (drop_bit 18 t))
      OR push_bit 12 (take_bit 6 (drop_bit 12 t)) OR push_bit 6 (take_bit 6 (drop_bit 6 t))
      OR take_bit 6 t) n = bit (take_bit 24 t) n"
    by (cases "n < 6"; cases "n < 12"; cases "n < 18"; cases "n < 24") (auto simp: word_bits)
qed

text \<open>A whole group of four characters decodes to the three octets of the triplet.\<close>

lemma triplet_octets:
  fixes a b c :: u8
  defines "t \<equiv> push_bit 16 (ucast a) OR push_bit 8 (ucast b) OR ucast c :: u32"
  shows "take_bit 24 t = t" "(ucast (take_bit 8 (drop_bit 16 t)) :: u8) = a"
    "(ucast (take_bit 8 (drop_bit 8 t)) :: u8) = b" "(ucast (take_bit 8 t) :: u8) = c"
  by (rule bit_word_eqI; auto simp: t_def word_bits)+

lemma pair_octets:
  fixes a b :: u8
  defines "t \<equiv> push_bit 16 (ucast a) OR push_bit 8 (ucast b) :: u32"
  defines "d \<equiv> push_bit 18 (take_bit 6 (drop_bit 18 t)) OR push_bit 12 (take_bit 6 (drop_bit 12 t))
     OR push_bit 6 (take_bit 6 (drop_bit 6 t))"
  shows "(ucast (take_bit 8 (drop_bit 16 d)) :: u8) = a"
    "(ucast (take_bit 8 (drop_bit 8 d)) :: u8) = b"
  by (rule u8_eqI; auto simp: t_def d_def word_bits)+

lemma single_octet:
  fixes a :: u8
  defines "t \<equiv> push_bit 16 (ucast a) :: u32"
  defines "d \<equiv> push_bit 18 (take_bit 6 (drop_bit 18 t)) OR push_bit 12 (take_bit 6 (drop_bit 12 t))"
  shows "(ucast (take_bit 8 (drop_bit 16 d)) :: u8) = a"
  by (rule u8_eqI; auto simp: t_def d_def word_bits)

section \<open>The whole text\<close>

definition b64_text :: "u8 list \<Rightarrow> string" where
  "b64_text data = fst (b64_encode_loop data) @ b64_encode_tail (snd (b64_encode_loop data))"

lemma b64_text_simps:
  "b64_text [] = []"
  "b64_text (a # b # c # src) =
     (let t = push_bit 16 (ucast a) OR push_bit 8 (ucast b) OR ucast c
      in [b64_char (drop_bit 18 t), b64_char (drop_bit 12 t), b64_char (drop_bit 6 t), b64_char t])
     @ b64_text src"
  by (simp_all add: b64_text_def b64_encode_tail_def Let_def split: prod.splits)

lemma b64_text_induct [case_names Nil One Two Three]:
  assumes "P []" "\<And>a. P [a]" "\<And>a b. P [a, b]"
    and "\<And>a b c src. P src \<Longrightarrow> P (a # b # c # src)"
  shows "P (data :: u8 list)"
  by (induction data rule: b64_encode_loop.induct) (use assms in auto)

lemma compy_base64_encode_eq:
  "compy_base64_encode data out_max =
     (if out_max < ((length data + 2) div 3) * 4 + 1 then (-1, [])
      else (int (length (b64_text data)), b64_text data @ [CHR 0x00]))"
  by (simp add: compy_base64_encode_def b64_text_def Let_def split: prod.splits)

lemma length_b64_text: "length (b64_text data) = (length data + 2) div 3 * 4"
proof (induction data rule: b64_text_induct)
  case (Three a b c src)
  have "(length (a # b # c # src) + 2) div 3 = (length src + 2) div 3 + 1" by simp
  with Three show ?case by (simp add: b64_text_simps Let_def)
qed (simp_all add: b64_text_def b64_encode_tail_def Let_def)

lemma b64_text_valid: "c \<in> set (b64_text data) \<Longrightarrow> b64_valid_char (u8_of_char c)"
proof (induction data rule: b64_text_induct)
  case (Three a b c src)
  then show ?case by (auto simp: b64_text_simps Let_def)
qed (auto simp: b64_text_def b64_encode_tail_def Let_def b64_pad_char)

text \<open>The number of padding characters at the end of the text.\<close>

lemma b64_text_last:
  "data \<noteq> [] \<Longrightarrow> b64_text data ! (length (b64_text data) - 1) = CHR ''='' \<longleftrightarrow> length data mod 3 \<noteq> 0"
proof (induction data rule: b64_text_induct)
  case (Three a b c src)
  show ?case
  proof (cases "src = []")
    case False
    then have "length (b64_text src) \<noteq> 0" by (cases src) (simp_all add: length_b64_text)
    moreover have "length (a # b # c # src) mod 3 = length src mod 3" by simp
    ultimately show ?thesis using Three.IH [OF False]
      by (simp add: b64_text_simps Let_def nth_append)
  qed (simp add: b64_text_simps Let_def)
qed (simp_all add: b64_text_def b64_encode_tail_def Let_def)

lemma b64_text_last2:
  "data \<noteq> [] \<Longrightarrow> b64_text data ! (length (b64_text data) - 2) = CHR ''='' \<longleftrightarrow> length data mod 3 = 1"
proof (induction data rule: b64_text_induct)
  case (Three a b c src)
  show ?case
  proof (cases "src = []")
    case False
    then have "2 \<le> length (b64_text src)" by (cases src) (simp_all add: length_b64_text)
    then obtain k where "length (b64_text src) = Suc (Suc k)"
      by (metis add_2_eq_Suc le_Suc_ex)
    moreover have "length (a # b # c # src) mod 3 = length src mod 3" by simp
    ultimately show ?thesis using Three.IH [OF False]
      by (simp add: b64_text_simps Let_def nth_append)
  qed (simp add: b64_text_simps Let_def)
qed (simp_all add: b64_text_def b64_encode_tail_def Let_def)

lemma b64_decode_loop_text:
  "b64_decode_loop (length dst + length data) (b64_text data) dst = dst @ data"
proof (induction data arbitrary: dst rule: b64_text_induct)
  case (One a)
  then show ?case
    by (simp add: b64_text_def b64_encode_tail_def Let_def b64_decode_char b64_pad_char
        and_mask_word single_octet b64_put_def del: take_bit_or drop_bit_or)
next
  case (Two a b)
  then show ?case
    by (simp add: b64_text_def b64_encode_tail_def Let_def b64_decode_char b64_pad_char
        and_mask_word pair_octets b64_put_def del: take_bit_or drop_bit_or)
next
  case (Three a b c src)
  have "length dst + length (a # b # c # src) = length (dst @ [a, b, c]) + length src" by simp
  then show ?case using Three [of "dst @ [a, b, c]"]
    by (simp add: b64_text_simps Let_def b64_decode_char sextets_join triplet_octets
        and_mask_word b64_put_def del: take_bit_or drop_bit_or)
qed (simp add: b64_text_simps)

lemma b64_text_mult4: "length (b64_text data) mod 4 = 0"
  by (simp add: length_b64_text)

lemma ceil_third:
  fixes n :: nat
  shows "(n + 2) div 3 * 3 - ((if n mod 3 \<noteq> 0 then 1 else 0) + (if n mod 3 = 1 then 1 else 0)) = n"
proof -
  define q r where "q = n div 3" and "r = n mod 3"
  then have n: "n = r + 3 * q" and "r < 3" by simp_all
  then consider "r = 0" | "r = 1" | "r = 2" by arith
  then have d: "(n + 2) div 3 = q + (if r = 0 then 0 else 1)" by cases (simp_all add: n)
  have m: "n mod 3 = r" by (simp add: r_def)
  show ?thesis unfolding d m using n \<open>r < 3\<close> by auto
qed

lemma b64_decoded_len:
  assumes "data \<noteq> []"
  defines "t \<equiv> b64_text data"
  shows "length t div 4 * 3 - ((if t ! (length t - 1) = CHR ''='' then 1 else 0)
     + (if length t > 1 \<and> t ! (length t - 2) = CHR ''='' then 1 else 0)) = length data"
proof -
  have "length t > 1" using assms by (cases data) (simp_all add: length_b64_text)
  moreover have "length t div 4 = (length data + 2) div 3" by (simp add: t_def length_b64_text)
  ultimately show ?thesis
    using b64_text_last [OF assms(1)] b64_text_last2 [OF assms(1)] ceil_third [of "length data"]
    by (simp add: t_def)
qed

lemma compy_base64_decode_text:
  assumes "length data \<le> out_max"
  shows "compy_base64_decode (b64_text data) out_max = (int (length data), data)"
proof (cases "data = []")
  case True
  then show ?thesis by (simp add: compy_base64_decode_def b64_text_simps)
next
  case False
  then have ne: "length (b64_text data) \<noteq> 0" by (cases data) (simp_all add: length_b64_text)
  have valid: "list_all (\<lambda>c. b64_valid_char (u8_of_char c)) (b64_text data)"
    by (simp add: list_all_iff b64_text_valid)
  show ?thesis
    unfolding compy_base64_decode_def Let_def b64_decoded_len [OF False]
    using ne valid b64_text_mult4 assms b64_decode_loop_text [of "[]" data] by simp
qed

section \<open>Properties\<close>

text \<open>
  C33. Encoding and decoding are inverse: given a buffer of the size the encoder asks for, the
  encoder returns the length of a text of \<open>4 * ceil(len / 3)\<close> characters followed by a
  terminator, and decoding that text into a buffer that holds the data returns the data and
  its length. For every input, of any length.
\<close>

theorem base64_roundtrip:
  assumes "((length data + 2) div 3) * 4 + 1 \<le> out_max" and "length data \<le> out_max'"
  shows "\<exists>b64. compy_base64_encode data out_max = (int (length b64), b64 @ [CHR 0x00]) \<and>
     length b64 = (length data + 2) div 3 * 4 \<and>
     compy_base64_decode b64 out_max' = (int (length data), data)"
  using assms compy_base64_encode_eq [of data out_max] length_b64_text [of data]
    compy_base64_decode_text [of data out_max'] by force

theorem base64_roundtrip_witness:
  "\<exists>b64. compy_base64_encode [0x4D, 0x61] 5 = (int (length b64), b64 @ [CHR 0x00]) \<and>
     length b64 = 4 \<and> compy_base64_decode b64 2 = (2, [0x4D, 0x61])"
  using base64_roundtrip [of "[0x4D, 0x61]" 5 2] by simp

lemma length_b64_put: "length (b64_put n b dst) = (if length dst < n then Suc (length dst) else length dst)"
  by (simp add: b64_put_def)

lemma length_b64_decode_loop:
  "length dst \<le> n \<Longrightarrow>
     length (b64_decode_loop n b64 dst) = min n (length dst + 3 * (length b64 div 4))"
proof (induction n b64 dst rule: b64_decode_loop.induct)
  case (1 n a b c d b64 dst)
  let ?put = "\<lambda>x dst. b64_put n x dst"
  have len: "length (?put z (?put y (?put x dst))) = min n (length dst + 3)" for x y z
    using "1.prems" by (auto simp: length_b64_put)
  have groups: "length (a # b # c # d # b64) div 4 = Suc (length b64 div 4)" by simp
  show ?case
    unfolding b64_decode_loop.simps Let_def groups
    by (subst "1.IH" [OF refl refl refl refl refl refl refl]) (auto simp: len min_def)
qed (simp_all add: min_def)

text \<open>
  The decoder is safe on every input, valid or not: it writes nothing when it fails, and
  otherwise exactly as many octets as it returns, which is at most the size of the buffer.
\<close>

theorem base64_decode_in_bounds:
  "case compy_base64_decode b64 out_max of (ret, out) \<Rightarrow>
     length out \<le> out_max \<and> (ret = -1 \<and> out = [] \<or> ret = int (length out))"
  unfolding compy_base64_decode_def Let_def
  by (auto simp: length_b64_decode_loop min_def)

end
