(* ===== verification/Nal.thy ===== *)
theory Nal
  imports Prelude
begin

text \<open>
  NAL unit headers of H.264 and H.265, \<open>src/nal.c\<close>, \<open>src/nal/h264.c\<close> and \<open>src/nal/h265.c\<close>: parsing,
  serialisation, classification, the headers of fragmentation units, and the start codes of an
  Annex B byte stream.
\<close>

section \<open>H.264\<close>

record Compy_H264NalHeader =
  h264_forbidden_zero_bit :: bool
  h264_ref_idc :: u8
  h264_unit_type :: u8

definition COMPY_H264_NAL_HEADER_SIZE :: nat where "COMPY_H264_NAL_HEADER_SIZE = 1"
definition COMPY_H264_FU_HEADER_SIZE :: nat where "COMPY_H264_FU_HEADER_SIZE = 2"
definition COMPY_H264_NAL_UNIT_CODED_SLICE_NON_IDR :: u8 where "COMPY_H264_NAL_UNIT_CODED_SLICE_NON_IDR = 1"
definition COMPY_H264_NAL_UNIT_CODED_SLICE_IDR :: u8 where "COMPY_H264_NAL_UNIT_CODED_SLICE_IDR = 5"
definition COMPY_H264_NAL_UNIT_SPS :: u8 where "COMPY_H264_NAL_UNIT_SPS = 7"
definition COMPY_H264_NAL_UNIT_PPS :: u8 where "COMPY_H264_NAL_UNIT_PPS = 8"

definition Compy_H264NalHeader_parse :: "u8 \<Rightarrow> Compy_H264NalHeader" where
  "Compy_H264NalHeader_parse byte_header =
     \<lparr>h264_forbidden_zero_bit = (drop_bit 7 (byte_header AND 0x80) = 1),
      h264_ref_idc = drop_bit 5 (byte_header AND 0x60),
      h264_unit_type = byte_header AND 0x1F\<rparr>"

definition Compy_H264NalHeader_serialize :: "Compy_H264NalHeader \<Rightarrow> u8" where
  "Compy_H264NalHeader_serialize self =
     (if h264_forbidden_zero_bit self then 0x80 else 0) OR
     push_bit 5 (h264_ref_idc self) OR h264_unit_type self"

definition Compy_H264NalHeader_is_vps :: "Compy_H264NalHeader \<Rightarrow> bool" where
  "Compy_H264NalHeader_is_vps self \<longleftrightarrow> False"

definition Compy_H264NalHeader_is_sps :: "Compy_H264NalHeader \<Rightarrow> bool" where
  "Compy_H264NalHeader_is_sps self \<longleftrightarrow> COMPY_H264_NAL_UNIT_SPS = h264_unit_type self"

definition Compy_H264NalHeader_is_pps :: "Compy_H264NalHeader \<Rightarrow> bool" where
  "Compy_H264NalHeader_is_pps self \<longleftrightarrow> COMPY_H264_NAL_UNIT_PPS = h264_unit_type self"

definition Compy_H264NalHeader_is_coded_slice_idr :: "Compy_H264NalHeader \<Rightarrow> bool" where
  "Compy_H264NalHeader_is_coded_slice_idr self \<longleftrightarrow>
     COMPY_H264_NAL_UNIT_CODED_SLICE_IDR = h264_unit_type self"

definition Compy_H264NalHeader_is_coded_slice_non_idr :: "Compy_H264NalHeader \<Rightarrow> bool" where
  "Compy_H264NalHeader_is_coded_slice_non_idr self \<longleftrightarrow>
     COMPY_H264_NAL_UNIT_CODED_SLICE_NON_IDR = h264_unit_type self"

text \<open>The octet with the start and end bits, shared by both codecs.\<close>

definition compy_nal_fu_header :: "bool \<Rightarrow> bool \<Rightarrow> u8 \<Rightarrow> u8" where
  "compy_nal_fu_header is_first_fragment is_last_fragment unit_type =
     (let fu_header = 0;
          fu_header = (if is_first_fragment then fu_header OR 0x80 else fu_header);
          fu_header = (if is_last_fragment then fu_header OR 0x40 else fu_header)
      in fu_header + unit_type)"

definition Compy_H264NalHeader_write_fu_header :: "Compy_H264NalHeader \<Rightarrow> bool \<Rightarrow> bool \<Rightarrow> u8 list" where
  "Compy_H264NalHeader_write_fu_header self is_first_fragment is_last_fragment =
     (let fu_identifier = 0x7C;
          fu_identifier = (if h264_ref_idc self AND 2 = 0 then fu_identifier AND 0x3F else fu_identifier);
          fu_identifier = (if h264_ref_idc self AND 1 = 0 then fu_identifier AND 0x5F else fu_identifier);
          fu_header = compy_nal_fu_header is_first_fragment is_last_fragment (h264_unit_type self)
      in [fu_identifier, fu_header])"

section \<open>H.265\<close>

record Compy_H265NalHeader =
  h265_forbidden_zero_bit :: bool
  h265_unit_type :: u8
  h265_nuh_layer_id :: u8
  h265_nuh_temporal_id_plus1 :: u8

definition COMPY_H265_NAL_HEADER_SIZE :: nat where "COMPY_H265_NAL_HEADER_SIZE = 2"
definition COMPY_H265_FU_HEADER_SIZE :: nat where "COMPY_H265_FU_HEADER_SIZE = 3"
definition COMPY_H265_NAL_UNIT_TRAIL_R :: u8 where "COMPY_H265_NAL_UNIT_TRAIL_R = 1"
definition COMPY_H265_NAL_UNIT_IDR_W_RADL :: u8 where "COMPY_H265_NAL_UNIT_IDR_W_RADL = 19"
definition COMPY_H265_NAL_UNIT_IDR_N_LP :: u8 where "COMPY_H265_NAL_UNIT_IDR_N_LP = 20"
definition COMPY_H265_NAL_UNIT_VPS_NUT :: u8 where "COMPY_H265_NAL_UNIT_VPS_NUT = 32"
definition COMPY_H265_NAL_UNIT_SPS_NUT :: u8 where "COMPY_H265_NAL_UNIT_SPS_NUT = 33"
definition COMPY_H265_NAL_UNIT_PPS_NUT :: u8 where "COMPY_H265_NAL_UNIT_PPS_NUT = 34"

definition Compy_H265NalHeader_parse :: "u8 \<Rightarrow> u8 \<Rightarrow> Compy_H265NalHeader" where
  "Compy_H265NalHeader_parse b0 b1 =
     \<lparr>h265_forbidden_zero_bit = (drop_bit 7 (b0 AND 0x80) \<noteq> 0),
      h265_unit_type = drop_bit 1 (b0 AND 0x7E),
      h265_nuh_layer_id = push_bit 5 (b0 AND 1) OR drop_bit 3 (b1 AND 0xF8),
      h265_nuh_temporal_id_plus1 = b1 AND 7\<rparr>"

text \<open>The result is the integer whose memory image are the two octets.\<close>

definition h265_bytes :: "Compy_H265NalHeader \<Rightarrow> u8 list" where
  "h265_bytes self =
     [push_bit 7 ((if h265_forbidden_zero_bit self then 1 else 0) AND 1) OR
      push_bit 1 (h265_unit_type self AND 0x3F) OR drop_bit 5 (h265_nuh_layer_id self AND 0x20),
      push_bit 3 (h265_nuh_layer_id self AND 0x1F) OR (h265_nuh_temporal_id_plus1 self AND 7)]"

definition Compy_H265NalHeader_serialize :: "endian \<Rightarrow> Compy_H265NalHeader \<Rightarrow> u16" where
  "Compy_H265NalHeader_serialize en self = load16 en (h265_bytes self)"

definition Compy_H265NalHeader_is_vps :: "Compy_H265NalHeader \<Rightarrow> bool" where
  "Compy_H265NalHeader_is_vps self \<longleftrightarrow> COMPY_H265_NAL_UNIT_VPS_NUT = h265_unit_type self"

definition Compy_H265NalHeader_is_sps :: "Compy_H265NalHeader \<Rightarrow> bool" where
  "Compy_H265NalHeader_is_sps self \<longleftrightarrow> COMPY_H265_NAL_UNIT_SPS_NUT = h265_unit_type self"

definition Compy_H265NalHeader_is_pps :: "Compy_H265NalHeader \<Rightarrow> bool" where
  "Compy_H265NalHeader_is_pps self \<longleftrightarrow> COMPY_H265_NAL_UNIT_PPS_NUT = h265_unit_type self"

definition Compy_H265NalHeader_is_coded_slice_idr :: "Compy_H265NalHeader \<Rightarrow> bool" where
  "Compy_H265NalHeader_is_coded_slice_idr self \<longleftrightarrow> COMPY_H265_NAL_UNIT_IDR_W_RADL = h265_unit_type self"

definition Compy_H265NalHeader_is_coded_slice_non_idr :: "Compy_H265NalHeader \<Rightarrow> bool" where
  "Compy_H265NalHeader_is_coded_slice_non_idr self \<longleftrightarrow>
     COMPY_H265_NAL_UNIT_IDR_N_LP = h265_unit_type self \<or>
     COMPY_H265_NAL_UNIT_TRAIL_R = h265_unit_type self"

definition Compy_H265NalHeader_write_fu_header ::
  "endian \<Rightarrow> Compy_H265NalHeader \<Rightarrow> bool \<Rightarrow> bool \<Rightarrow> u8 list" where
  "Compy_H265NalHeader_write_fu_header en self is_first_fragment is_last_fragment =
     (let payload_hdr = Compy_H265NalHeader_serialize en (self\<lparr>h265_unit_type := 49\<rparr>);
          fu_header = compy_nal_fu_header is_first_fragment is_last_fragment (h265_unit_type self)
      in store16 en payload_hdr @ [fu_header])"

section \<open>Either codec\<close>

datatype Compy_NalHeader =
    Compy_NalHeader_H264 Compy_H264NalHeader
  | Compy_NalHeader_H265 Compy_H265NalHeader

record Compy_NalUnit =
  nalu_header :: Compy_NalHeader
  nalu_payload :: "u8 list"

fun Compy_NalHeader_unit_type :: "Compy_NalHeader \<Rightarrow> u8" where
  "Compy_NalHeader_unit_type (Compy_NalHeader_H264 h) = h264_unit_type h"
| "Compy_NalHeader_unit_type (Compy_NalHeader_H265 h) = h265_unit_type h"

fun Compy_NalHeader_size :: "Compy_NalHeader \<Rightarrow> nat" where
  "Compy_NalHeader_size (Compy_NalHeader_H264 h) = COMPY_H264_NAL_HEADER_SIZE"
| "Compy_NalHeader_size (Compy_NalHeader_H265 h) = COMPY_H265_NAL_HEADER_SIZE"

fun Compy_NalHeader_fu_size :: "Compy_NalHeader \<Rightarrow> nat" where
  "Compy_NalHeader_fu_size (Compy_NalHeader_H264 h) = COMPY_H264_FU_HEADER_SIZE"
| "Compy_NalHeader_fu_size (Compy_NalHeader_H265 h) = COMPY_H265_FU_HEADER_SIZE"

fun Compy_NalHeader_is_vps :: "Compy_NalHeader \<Rightarrow> bool" where
  "Compy_NalHeader_is_vps (Compy_NalHeader_H264 h) = Compy_H264NalHeader_is_vps h"
| "Compy_NalHeader_is_vps (Compy_NalHeader_H265 h) = Compy_H265NalHeader_is_vps h"

fun Compy_NalHeader_is_sps :: "Compy_NalHeader \<Rightarrow> bool" where
  "Compy_NalHeader_is_sps (Compy_NalHeader_H264 h) = Compy_H264NalHeader_is_sps h"
| "Compy_NalHeader_is_sps (Compy_NalHeader_H265 h) = Compy_H265NalHeader_is_sps h"

fun Compy_NalHeader_is_pps :: "Compy_NalHeader \<Rightarrow> bool" where
  "Compy_NalHeader_is_pps (Compy_NalHeader_H264 h) = Compy_H264NalHeader_is_pps h"
| "Compy_NalHeader_is_pps (Compy_NalHeader_H265 h) = Compy_H265NalHeader_is_pps h"

fun Compy_NalHeader_is_coded_slice_idr :: "Compy_NalHeader \<Rightarrow> bool" where
  "Compy_NalHeader_is_coded_slice_idr (Compy_NalHeader_H264 h) = Compy_H264NalHeader_is_coded_slice_idr h"
| "Compy_NalHeader_is_coded_slice_idr (Compy_NalHeader_H265 h) = Compy_H265NalHeader_is_coded_slice_idr h"

fun Compy_NalHeader_is_coded_slice_non_idr :: "Compy_NalHeader \<Rightarrow> bool" where
  "Compy_NalHeader_is_coded_slice_non_idr (Compy_NalHeader_H264 h) =
     Compy_H264NalHeader_is_coded_slice_non_idr h"
| "Compy_NalHeader_is_coded_slice_non_idr (Compy_NalHeader_H265 h) =
     Compy_H265NalHeader_is_coded_slice_non_idr h"

fun Compy_NalHeader_serialize :: "endian \<Rightarrow> Compy_NalHeader \<Rightarrow> u8 list" where
  "Compy_NalHeader_serialize en (Compy_NalHeader_H264 h) = [Compy_H264NalHeader_serialize h]"
| "Compy_NalHeader_serialize en (Compy_NalHeader_H265 h) =
     store16 en (Compy_H265NalHeader_serialize en h)"

fun Compy_NalHeader_write_fu_header :: "endian \<Rightarrow> Compy_NalHeader \<Rightarrow> bool \<Rightarrow> bool \<Rightarrow> u8 list" where
  "Compy_NalHeader_write_fu_header en (Compy_NalHeader_H264 h) is_first is_last =
     Compy_H264NalHeader_write_fu_header h is_first is_last"
| "Compy_NalHeader_write_fu_header en (Compy_NalHeader_H265 h) is_first is_last =
     Compy_H265NalHeader_write_fu_header en h is_first is_last"

section \<open>Start codes\<close>

definition start_code_3b :: "u8 list" where "start_code_3b = [0, 0, 1]"
definition start_code_4b :: "u8 list" where "start_code_4b = [0, 0, 0, 1]"

definition compy_test_start_code_3b :: "u8 list \<Rightarrow> nat" where
  "compy_test_start_code_3b data =
     (if length data < 3 then 0 else if take 3 data = start_code_3b then 3 else 0)"

definition compy_test_start_code_4b :: "u8 list \<Rightarrow> nat" where
  "compy_test_start_code_4b data =
     (if length data < 4 then 0 else if take 4 data = start_code_4b then 4 else 0)"

definition compy_determine_start_code :: "u8 list \<Rightarrow> (u8 list \<Rightarrow> nat) option" where
  "compy_determine_start_code data =
     (if compy_test_start_code_3b data \<noteq> 0 then Some compy_test_start_code_3b
      else if compy_test_start_code_4b data \<noteq> 0 then Some compy_test_start_code_4b
      else None)"

section \<open>Receiving\<close>

text \<open>
  The receiver's side of RFC 6184, section 5.8, and RFC 7798, section 4.4.3, for H.264 (\<open>k\<close> false)
  and H.265 (\<open>k\<close> true): from the RTP payloads of one NAL unit back to its octets. A fragmented unit
  has at least two fragments, the first and only the first with the start bit, the last and only
  the last with the end bit.
\<close>

definition nal_is_h265 :: "Compy_NalHeader \<Rightarrow> bool" where
  "nal_is_h265 h = (case h of Compy_NalHeader_H264 _ \<Rightarrow> False | Compy_NalHeader_H265 _ \<Rightarrow> True)"

definition fu_len :: "bool \<Rightarrow> nat" where
  "fu_len k = (if k then 3 else 2)"

definition fu_is :: "bool \<Rightarrow> u8 list \<Rightarrow> bool" where
  "fu_is k p \<longleftrightarrow> fu_len k \<le> length p \<and>
     (if k then drop_bit 1 (p ! 0) AND 0x3F = 49 else p ! 0 AND 0x1F = 28)"

definition fu_start :: "bool \<Rightarrow> u8 list \<Rightarrow> bool" where
  "fu_start k p = bit (p ! (fu_len k - 1)) 7"

definition fu_end :: "bool \<Rightarrow> u8 list \<Rightarrow> bool" where
  "fu_end k p = bit (p ! (fu_len k - 1)) 6"

definition fu_nal_header :: "bool \<Rightarrow> u8 list \<Rightarrow> u8 list" where
  "fu_nal_header k p =
     (if k then [(p ! 0 AND 0x81) OR push_bit 1 (p ! 2 AND 0x3F), p ! 1]
      else [(p ! 0 AND 0xE0) OR (p ! 1 AND 0x1F)])"

definition nal_receive :: "bool \<Rightarrow> u8 list list \<Rightarrow> u8 list option" where
  "nal_receive k ps =
     (case ps of
        [] \<Rightarrow> None
      | [p] \<Rightarrow> if fu_is k p then None else Some p
      | p # _ \<Rightarrow>
          if list_all (fu_is k) ps \<and>
             map (fu_start k) ps = True # replicate (length ps - 1) False \<and>
             map (fu_end k) ps = replicate (length ps - 1) False @ [True]
          then Some (fu_nal_header k p @ concat (map (drop (fu_len k)) ps))
          else None)"

text \<open>
  A header that can be sent: the fields have their widths, and the type is that of a NAL unit, not
  of one of the packets RFC 6184 and RFC 7798 add.
\<close>

fun wf_nal :: "Compy_NalHeader \<Rightarrow> bool" where
  "wf_nal (Compy_NalHeader_H264 h) \<longleftrightarrow>
     \<not> h264_forbidden_zero_bit h \<and> unat (h264_ref_idc h) < 4 \<and> unat (h264_unit_type h) < 24"
| "wf_nal (Compy_NalHeader_H265 h) \<longleftrightarrow>
     unat (h265_unit_type h) < 48 \<and> unat (h265_nuh_layer_id h) < 64 \<and>
     unat (h265_nuh_temporal_id_plus1 h) < 8"

lemma fu_header_bits:
  assumes "unat ty < 64"
  shows "bit (compy_nal_fu_header s e ty) 7 = s" "bit (compy_nal_fu_header s e ty) 6 = e"
    "compy_nal_fu_header s e ty AND 0x3F = ty"
proof -
  have ty: "\<not> bit ty n" if "6 \<le> n" for n using small_u8_bits [of ty 6 n] assms that by simp
  let ?f = "(if s then 0x80 else 0) OR (if e then 0x40 else 0) :: u8"
  have "?f AND ty = 0"
    by (rule u8_eqI) (auto simp: bit_simps ty bit_numeral_rec)
  then have "compy_nal_fu_header s e ty = ?f OR ty"
    by (auto simp: compy_nal_fu_header_def Let_def disjunctive_add_eq_or)
  then show "bit (compy_nal_fu_header s e ty) 7 = s" "bit (compy_nal_fu_header s e ty) 6 = e"
    by (auto simp: bit_simps ty bit_numeral_rec)
  show "compy_nal_fu_header s e ty AND 0x3F = ty"
    unfolding \<open>compy_nal_fu_header s e ty = ?f OR ty\<close>
    by (rule u8_eqI) (auto simp: bit_simps ty bit_numeral_rec)
qed

text \<open>What the receiver sees of one fragment.\<close>

lemma h264_fragment:
  assumes "wf_nal (Compy_NalHeader_H264 h)"
  shows "fu_is False (Compy_H264NalHeader_write_fu_header h s e @ data)"
    "fu_start False (Compy_H264NalHeader_write_fu_header h s e @ data) = s"
    "fu_end False (Compy_H264NalHeader_write_fu_header h s e @ data) = e"
    "fu_nal_header False (Compy_H264NalHeader_write_fu_header h s e @ data) =
       [Compy_H264NalHeader_serialize h]"
    "drop (fu_len False) (Compy_H264NalHeader_write_fu_header h s e @ data) = data"
    "length (Compy_H264NalHeader_write_fu_header h s e) = 2"
proof -
  let ?ty = "h264_unit_type h" and ?idc = "h264_ref_idc h"
  define ind where "ind = hd (Compy_H264NalHeader_write_fu_header h s e)"
  have w: "Compy_H264NalHeader_write_fu_header h s e = [ind, compy_nal_fu_header s e ?ty]"
    by (simp add: Compy_H264NalHeader_write_fu_header_def ind_def Let_def)
  from assms have ty: "unat ?ty < 64" "\<not> bit ?ty n" if "5 \<le> n" for n
    using small_u8_bits [of ?ty 5 n] that by simp_all
  have idc: "\<not> bit ?idc n" if "2 \<le> n" for n using small_u8_bits [of ?idc 2 n] assms that by simp
  note ty6 = ty(1) [of 5, simplified]
  have idc0: "?idc AND 1 = 0 \<longleftrightarrow> \<not> bit ?idc 0" "?idc AND 2 = 0 \<longleftrightarrow> \<not> bit ?idc 1"
    by (auto simp: and_exp_eq_0_iff_not_bit [of ?idc 0, simplified] and_exp_eq_0_iff_not_bit [of ?idc 1, simplified])
  have ind: "ind = push_bit 5 ?idc OR 28"
    by (rule u8_eqI; simp add: ind_def Compy_H264NalHeader_write_fu_header_def Let_def idc0 bit_simps
        bit_numeral_rec idc)
  show "fu_is False (Compy_H264NalHeader_write_fu_header h s e @ data)"
    unfolding w fu_is_def fu_len_def
    by (simp, rule u8_eqI; simp add: ind bit_simps bit_numeral_rec)
  show "fu_start False (Compy_H264NalHeader_write_fu_header h s e @ data) = s"
    "fu_end False (Compy_H264NalHeader_write_fu_header h s e @ data) = e"
    using fu_header_bits [OF ty6] by (simp_all add: w fu_start_def fu_end_def fu_len_def)
  have "compy_nal_fu_header s e ?ty AND 0x1F = ?ty"
  proof -
    have "compy_nal_fu_header s e ?ty AND 0x1F = (compy_nal_fu_header s e ?ty AND 0x3F) AND 0x1F"
      by (simp add: and.assoc)
    also have "\<dots> = ?ty"
      unfolding fu_header_bits(3) [OF ty6] by (rule u8_eqI; simp add: bit_simps bit_numeral_rec ty)
    finally show ?thesis .
  qed
  moreover have "(ind AND 0xE0) = push_bit 5 ?idc"
    by (rule u8_eqI; simp add: ind bit_simps bit_numeral_rec idc)
  ultimately show "fu_nal_header False (Compy_H264NalHeader_write_fu_header h s e @ data) =
      [Compy_H264NalHeader_serialize h]"
    using assms by (simp add: w fu_nal_header_def Compy_H264NalHeader_serialize_def)
qed (simp_all add: fu_len_def Compy_H264NalHeader_write_fu_header_def Let_def)

lemma h265_fragment:
  assumes "wf_nal (Compy_NalHeader_H265 h)"
  shows "fu_is True (Compy_H265NalHeader_write_fu_header en h s e @ data)"
    "fu_start True (Compy_H265NalHeader_write_fu_header en h s e @ data) = s"
    "fu_end True (Compy_H265NalHeader_write_fu_header en h s e @ data) = e"
    "fu_nal_header True (Compy_H265NalHeader_write_fu_header en h s e @ data) = h265_bytes h"
    "drop (fu_len True) (Compy_H265NalHeader_write_fu_header en h s e @ data) = data"
    "length (Compy_H265NalHeader_write_fu_header en h s e) = 3"
proof -
  let ?ty = "h265_unit_type h"
  obtain b0 b1 where b: "h265_bytes (h\<lparr>h265_unit_type := 49\<rparr>) = [b0, b1]" by (simp add: h265_bytes_def)
  have w: "Compy_H265NalHeader_write_fu_header en h s e = [b0, b1, compy_nal_fu_header s e ?ty]"
    by (simp add: Compy_H265NalHeader_write_fu_header_def Compy_H265NalHeader_serialize_def
        store16_load16 b)
  from assms have ty: "unat ?ty < 64" by simp
  have tybits: "\<not> bit ?ty n" if "6 \<le> n" for n using small_u8_bits [of ?ty 6 n] ty that by simp
  have b0: "b0 = push_bit 7 ((if h265_forbidden_zero_bit h then 1 else 0) AND 1) OR push_bit 1 (49 AND 0x3F) OR
      drop_bit 5 (h265_nuh_layer_id h AND 0x20)"
    and b1: "b1 = push_bit 3 (h265_nuh_layer_id h AND 0x1F) OR (h265_nuh_temporal_id_plus1 h AND 7)"
    using b by (simp_all add: h265_bytes_def)
  show "fu_is True (Compy_H265NalHeader_write_fu_header en h s e @ data)"
    unfolding w fu_is_def fu_len_def
    by (simp, rule u8_eqI; simp add: b0 bit_simps bit_numeral_rec)
  show "fu_start True (Compy_H265NalHeader_write_fu_header en h s e @ data) = s"
    "fu_end True (Compy_H265NalHeader_write_fu_header en h s e @ data) = e"
    using fu_header_bits [OF ty] by (simp_all add: w fu_start_def fu_end_def fu_len_def numeral_2_eq_2)
  have "(b0 AND 0x81) OR push_bit 1 ?ty = push_bit 7 ((if h265_forbidden_zero_bit h then 1 else 0) AND 1) OR
      push_bit 1 (?ty AND 0x3F) OR drop_bit 5 (h265_nuh_layer_id h AND 0x20)"
    by (rule u8_eqI; simp add: b0 bit_simps bit_numeral_rec tybits del: push_bit_Suc)
  then show "fu_nal_header True (Compy_H265NalHeader_write_fu_header en h s e @ data) = h265_bytes h"
    using fu_header_bits(3) [OF ty] by (simp add: w fu_nal_header_def h265_bytes_def b1)
  show "drop (fu_len True) (Compy_H265NalHeader_write_fu_header en h s e @ data) = data"
    "length (Compy_H265NalHeader_write_fu_header en h s e) = 3"
    by (simp_all add: w fu_len_def)
qed

section \<open>Properties\<close>

text \<open>
  Parsing a NAL header and writing it back gives the same octets, for every octet of H.264 and
  every pair of octets of H.265, on hosts of both byte orders.
\<close>

theorem nal_header_roundtrip:
  "Compy_NalHeader_serialize en (Compy_NalHeader_H264 (Compy_H264NalHeader_parse b0)) = [b0] \<and>
   Compy_NalHeader_serialize en (Compy_NalHeader_H265 (Compy_H265NalHeader_parse b0 b1)) = [b0, b1]"
proof -
  have top: "drop_bit 7 (b0 AND 0x80) = (if bit b0 7 then 1 else 0)"
    by (rule u8_eqI; simp add: bit_simps bit_numeral_rec)
  have "Compy_H264NalHeader_serialize (Compy_H264NalHeader_parse b0) = b0"
    unfolding Compy_H264NalHeader_serialize_def Compy_H264NalHeader_parse_def top
    by (rule u8_eqI; simp add: bit_simps bit_numeral_rec)
  moreover have "h265_bytes (Compy_H265NalHeader_parse b0 b1) ! 0 = b0"
    unfolding h265_bytes_def Compy_H265NalHeader_parse_def top nth_Cons_0
    by (rule u8_eqI; (simp add: bit_simps bit_numeral_rec del: push_bit_Suc drop_bit_Suc)?;
        simp add: eval_nat_numeral)
  moreover have "h265_bytes (Compy_H265NalHeader_parse b0 b1) ! 1 = b1"
    unfolding h265_bytes_def Compy_H265NalHeader_parse_def top One_nat_def nth_Cons_Suc nth_Cons_0
    by (rule u8_eqI; (simp add: bit_simps bit_numeral_rec del: push_bit_Suc drop_bit_Suc)?;
        simp add: eval_nat_numeral)
  ultimately have "h265_bytes (Compy_H265NalHeader_parse b0 b1) = [b0, b1]"
    by (simp add: h265_bytes_def)
  with \<open>Compy_H264NalHeader_serialize (Compy_H264NalHeader_parse b0) = b0\<close> show ?thesis
    by (simp add: Compy_H265NalHeader_serialize_def store16_load16)
qed

text \<open>
  The start code of a byte stream is found whichever of the two forms it has, and the tester
  that is returned recognises exactly that form, in front of any data.
\<close>

theorem determine_start_code:
  "compy_determine_start_code (start_code_3b @ data) = Some compy_test_start_code_3b \<and>
   compy_determine_start_code (start_code_4b @ data) = Some compy_test_start_code_4b \<and>
   (compy_determine_start_code data = None \<longleftrightarrow>
      take 3 data \<noteq> start_code_3b \<and> take 4 data \<noteq> start_code_4b)"
proof (intro conjI)
  show "compy_determine_start_code (start_code_3b @ data) = Some compy_test_start_code_3b"
    "compy_determine_start_code (start_code_4b @ data) = Some compy_test_start_code_4b"
    by (simp_all add: compy_determine_start_code_def compy_test_start_code_3b_def
        compy_test_start_code_4b_def start_code_3b_def start_code_4b_def)
  have "take 3 data \<noteq> start_code_3b" if "length data < 3"
    using that arg_cong [of "take 3 data" start_code_3b length] by (auto simp: start_code_3b_def)
  moreover have "take 4 data \<noteq> start_code_4b" if "length data < 4"
    using that arg_cong [of "take 4 data" start_code_4b length] by (auto simp: start_code_4b_def)
  ultimately show "compy_determine_start_code data = None \<longleftrightarrow>
      take 3 data \<noteq> start_code_3b \<and> take 4 data \<noteq> start_code_4b"
    by (simp add: compy_determine_start_code_def compy_test_start_code_3b_def compy_test_start_code_4b_def)
qed

end
