(* ===== verification/Rtp.thy ===== *)
theory Rtp
  imports Prelude
begin

text \<open>
  The RTP header, \<open>src/types/rtp.c\<close>, in memory of a host of the given byte order. The multi-byte
  fields are in network order in the structure and are copied as they are; the one exception is
  \<open>extension_payload_len\<close>. A pointer field is the list of elements it points to; reading behind the
  end of such a list, and a loop that does not end, give \<open>None\<close>.
\<close>

section \<open>Definitions\<close>

record Compy_RtpHeader =
  rtp_version :: u8
  rtp_padding :: bool
  rtp_extension :: bool
  rtp_csrc_count :: u8
  rtp_marker :: bool
  rtp_payload_ty :: u8
  rtp_sequence_number :: u16
  rtp_timestamp :: u32
  rtp_ssrc :: u32
  rtp_csrc :: "u32 list"
  rtp_extension_profile :: u16
  rtp_extension_payload_len :: u16
  rtp_extension_payload :: "u8 list"

definition Compy_RtpHeader_size :: "Compy_RtpHeader \<Rightarrow> nat" where
  "Compy_RtpHeader_size self =
     (let size = (2 + 1 + 1 + 4 + 1 + 7 + 16 + 32 + 32) div 8 + unat (rtp_csrc_count self) * 4
      in if rtp_extension self then size + (2 + 2 + unat (rtp_extension_payload_len self) * 4) else size)"

text \<open>The loop over the contributing sources, counted by a \<open>uint8_t\<close>.\<close>

fun rtp_csrc_loop :: "endian \<Rightarrow> u32 list \<Rightarrow> nat \<Rightarrow> u8 list option" where
  "rtp_csrc_loop en csrc 0 = Some []"
| "rtp_csrc_loop en [] (Suc n) = None"
| "rtp_csrc_loop en (c # csrc) (Suc n) =
     (case rtp_csrc_loop en csrc n of None \<Rightarrow> None | Some bs \<Rightarrow> Some (store32 en c @ bs))"

text \<open>
  The loop over the extension, whose counter is a \<open>uint16_t\<close> while its bound is a \<open>size_t\<close>: the
  counter wraps around.
\<close>

partial_function (option) rtp_ext_loop :: "u8 list \<Rightarrow> nat \<Rightarrow> u16 \<Rightarrow> u8 list \<Rightarrow> u8 list option" where
  "rtp_ext_loop payload bound i buffer =
     (if unat i < bound then
        (if unat i < length payload then rtp_ext_loop payload bound (i + 1) (buffer @ [payload ! unat i])
         else None)
      else Some buffer)"

definition Compy_RtpHeader_serialize :: "endian \<Rightarrow> Compy_RtpHeader \<Rightarrow> u8 list option" where
  "Compy_RtpHeader_serialize en self =
     (let b0 = push_bit 6 (rtp_version self) OR rtp_csrc_count self;
          b0 = (if rtp_padding self then b0 OR push_bit 5 1 else b0);
          b0 = (if rtp_extension self then b0 OR push_bit 4 1 else b0);
          b1 = rtp_payload_ty self;
          b1 = (if rtp_marker self then b1 OR push_bit 7 1 else b1)
      in case rtp_csrc_loop en (rtp_csrc self) (unat (rtp_csrc_count self)) of
           None \<Rightarrow> None
         | Some csrc \<Rightarrow>
             (let buffer = [b0, b1] @ store16 en (rtp_sequence_number self) @
                    store32 en (rtp_timestamp self) @ store32 en (rtp_ssrc self) @ csrc
              in if rtp_extension self then
                   (let buffer = buffer @ store16 en (rtp_extension_profile self) @
                          store16 en (htons en (rtp_extension_payload_len self))
                    in rtp_ext_loop (rtp_extension_payload self)
                         (unat (rtp_extension_payload_len self) * 4) 0 buffer)
                 else Some buffer))"

text \<open>
  The parser returns the header as it is at the return, with the size of the header or \<open>-1\<close>.
  \<open>csrc\<close> points into the packet.
\<close>

definition rtp_deserialize_extension ::
  "endian \<Rightarrow> Compy_RtpHeader \<Rightarrow> u8 list \<Rightarrow> nat \<Rightarrow> int \<times> Compy_RtpHeader" where
  "rtp_deserialize_extension en self data p =
     (if length data < p + 4 then (-1, self)
      else
        let self = self\<lparr>rtp_extension_profile := load16 en (drop p data)\<rparr>;
            p = p + 2;
            self = self\<lparr>rtp_extension_payload_len := load16 en (drop p data)\<rparr>;
            p = p + 2;
            ext_bytes = unat (htons en (rtp_extension_payload_len self)) * 4
        in if length data < p + ext_bytes then (-1, self)
           else (int (p + ext_bytes),
                 self\<lparr>rtp_extension_payload := take ext_bytes (drop p data)\<rparr>))"

definition Compy_RtpHeader_deserialize ::
  "endian \<Rightarrow> Compy_RtpHeader \<Rightarrow> u8 list \<Rightarrow> int \<times> Compy_RtpHeader" where
  "Compy_RtpHeader_deserialize en self data =
     (if length data < 12 then (-1, self)
      else
        let self = self\<lparr>rtp_version := drop_bit 6 (data ! 0) AND 3\<rparr>
        in if rtp_version self \<noteq> 2 then (-1, self)
           else
             let self = self\<lparr>rtp_padding := bit (data ! 0) 5,
                             rtp_extension := bit (data ! 0) 4,
                             rtp_csrc_count := data ! 0 AND 15,
                             rtp_marker := bit (data ! 1) 7,
                             rtp_payload_ty := data ! 1 AND 127,
                             rtp_sequence_number := load16 en (drop 2 data),
                             rtp_timestamp := load32 en (drop 4 data),
                             rtp_ssrc := load32 en (drop 8 data)\<rparr>;
                 csrc_count = unat (rtp_csrc_count self)
             in if length data < 12 + csrc_count * 4 then (-1, self)
                else
                  let self = self\<lparr>rtp_csrc :=
                               map (\<lambda>i. load32 en (drop (12 + 4 * i) data)) [0..<csrc_count],
                             rtp_extension_profile := 0,
                             rtp_extension_payload_len := 0,
                             rtp_extension_payload := []\<rparr>;
                      p = 12 + csrc_count * 4
                  in if rtp_extension self then rtp_deserialize_extension en self data p
                     else (int p, self))"

section \<open>The loops\<close>

lemma rtp_csrc_loop_eq:
  "rtp_csrc_loop en csrc n =
     (if n \<le> length csrc then Some (concat (map (store32 en) (take n csrc))) else None)"
  by (induction en csrc n rule: rtp_csrc_loop.induct) auto

lemma length_concat_store32: "length (concat (map (store32 en) ws)) = 4 * length ws"
  by (induction ws) auto

lemma rtp_ext_loop_ends:
  assumes "bound \<le> length payload" "bound < 2 ^ 16" "unat i \<le> bound"
  shows "rtp_ext_loop payload bound i buffer = Some (buffer @ drop (unat i) (take bound payload))"
  using assms(3)
proof (induction "bound - unat i" arbitrary: i buffer)
  case 0
  then show ?case by (subst rtp_ext_loop.simps) simp
next
  case (Suc k)
  then have lt: "unat i < bound" by simp
  then have inc: "unat (i + 1) = unat i + 1"
    using assms(2) by (simp add: unat_word_ariths)
  have "rtp_ext_loop payload bound i buffer =
      rtp_ext_loop payload bound (i + 1) (buffer @ [payload ! unat i])"
    using lt assms(1) by (subst rtp_ext_loop.simps) simp
  also have "\<dots> = Some ((buffer @ [payload ! unat i]) @ drop (unat (i + 1)) (take bound payload))"
    using Suc lt inc by (intro Suc.hyps(1)) auto
  also have "\<dots> = Some (buffer @ drop (unat i) (take bound payload))"
    using lt assms(1) inc by (simp add: Cons_nth_drop_Suc [of "unat i" "take bound payload", symmetric])
  finally show ?case .
qed

lemma rtp_ext_loop_overrun:
  assumes "2 ^ 16 \<le> bound"
  shows "rtp_ext_loop payload bound i buffer = None"
proof -
  have ends: "b < 2 ^ 16" if "rtp_ext_loop payload b j buf = Some r" for b j buf r
    using that
  proof (rule rtp_ext_loop.raw_induct [of "\<lambda>_ b _ _ _. b < 2 ^ 16", rotated], goal_cases)
    case (1 loop payload b j buf r)
    have "unat j < 2 ^ 16" using unsigned_less [of j] by simp
    with 1 show ?case by (auto split: if_splits)
  qed
  show ?thesis
  proof (cases "rtp_ext_loop payload bound i buffer")
    case (Some r)
    with ends assms show ?thesis by fastforce
  qed
qed

lemma rtp_ext_loop_short:
  assumes "length payload < bound" "bound < 2 ^ 16" "unat i \<le> length payload"
  shows "rtp_ext_loop payload bound i buffer = None"
  using assms(3)
proof (induction "length payload - unat i" arbitrary: i buffer)
  case 0
  with assms show ?case by (subst rtp_ext_loop.simps) simp
next
  case (Suc k)
  then have lt: "unat i < length payload" by simp
  then have "unat (i + 1) = unat i + 1" using assms by (simp add: unat_word_ariths)
  with Suc lt assms show ?case by (subst rtp_ext_loop.simps) simp
qed

section \<open>The first two octets\<close>

definition rtp_octet0 :: "u8 \<Rightarrow> bool \<Rightarrow> bool \<Rightarrow> u8 \<Rightarrow> u8" where
  "rtp_octet0 v p x cc =
     (let b = push_bit 6 v OR cc; b = (if p then b OR push_bit 5 1 else b)
      in if x then b OR push_bit 4 1 else b)"

definition rtp_octet1 :: "bool \<Rightarrow> u8 \<Rightarrow> u8" where
  "rtp_octet1 m pt = (if m then pt OR push_bit 7 1 else pt)"

lemma rtp_octet0_fields:
  assumes "unat v < 4" "unat cc < 16"
  shows "drop_bit 6 (rtp_octet0 v p x cc) AND 3 = v" "bit (rtp_octet0 v p x cc) 5 = p"
    "bit (rtp_octet0 v p x cc) 4 = x" "rtp_octet0 v p x cc AND 15 = cc"
proof -
  have v: "\<not> bit v n" if "2 \<le> n" for n using small_u8_bits [of v 2 n] assms that by simp
  have cc: "\<not> bit cc n" if "4 \<le> n" for n using small_u8_bits [of cc 4 n] assms that by simp
  show "drop_bit 6 (rtp_octet0 v p x cc) AND 3 = v" "rtp_octet0 v p x cc AND 15 = cc"
    by (rule u8_eqI; simp add: rtp_octet0_def Let_def and_mask_word word_bits v cc)+
  show "bit (rtp_octet0 v p x cc) 5 = p" "bit (rtp_octet0 v p x cc) 4 = x"
    by (simp_all add: rtp_octet0_def Let_def word_bits v cc)
qed

lemma rtp_octet1_fields:
  assumes "unat pt < 128"
  shows "bit (rtp_octet1 m pt) 7 = m" "rtp_octet1 m pt AND 127 = pt"
proof -
  have pt: "\<not> bit pt n" if "7 \<le> n" for n using small_u8_bits [of pt 7 n] assms that by simp
  show "rtp_octet1 m pt AND 127 = pt"
    by (rule u8_eqI; simp add: rtp_octet1_def and_mask_word word_bits pt)
  show "bit (rtp_octet1 m pt) 7 = m" by (simp add: rtp_octet1_def word_bits pt)
qed

text \<open>The octets of a header, as a specification.\<close>

definition rtp_octets :: "endian \<Rightarrow> Compy_RtpHeader \<Rightarrow> u8 list" where
  "rtp_octets en h =
     [rtp_octet0 (rtp_version h) (rtp_padding h) (rtp_extension h) (rtp_csrc_count h),
      rtp_octet1 (rtp_marker h) (rtp_payload_ty h)] @
     store16 en (rtp_sequence_number h) @ store32 en (rtp_timestamp h) @ store32 en (rtp_ssrc h) @
     concat (map (store32 en) (rtp_csrc h)) @
     (if rtp_extension h
      then store16 en (rtp_extension_profile h) @ be16 (rtp_extension_payload_len h) @
           rtp_extension_payload h
      else [])"

text \<open>A header whose fields have the widths of RFC 3550 and whose arrays have the stated sizes.\<close>

definition wf_rtp :: "Compy_RtpHeader \<Rightarrow> bool" where
  "wf_rtp h \<longleftrightarrow>
     unat (rtp_version h) < 4 \<and> unat (rtp_csrc_count h) < 16 \<and> unat (rtp_payload_ty h) < 128 \<and>
     length (rtp_csrc h) = unat (rtp_csrc_count h) \<and>
     (if rtp_extension h
      then length (rtp_extension_payload h) = unat (rtp_extension_payload_len h) * 4 \<and>
           unat (rtp_extension_payload_len h) < 2 ^ 14
      else rtp_extension_profile h = 0 \<and> rtp_extension_payload_len h = 0 \<and>
           rtp_extension_payload h = [])"

lemma serialize_octets:
  assumes "wf_rtp h"
  shows "Compy_RtpHeader_serialize en h = Some (rtp_octets en h)"
proof (cases "rtp_extension h")
  case True
  with assms have "rtp_ext_loop (rtp_extension_payload h) (unat (rtp_extension_payload_len h) * 4) 0 buf =
      Some (buf @ rtp_extension_payload h)" for buf
    using rtp_ext_loop_ends [of "unat (rtp_extension_payload_len h) * 4" "rtp_extension_payload h" 0 buf]
    by (simp add: wf_rtp_def)
  with assms True show ?thesis
    by (simp add: Compy_RtpHeader_serialize_def rtp_octets_def rtp_octet0_def rtp_octet1_def
        rtp_csrc_loop_eq wf_rtp_def Let_def)
next
  case False
  with assms show ?thesis
    by (simp add: Compy_RtpHeader_serialize_def rtp_octets_def rtp_octet0_def rtp_octet1_def
        rtp_csrc_loop_eq wf_rtp_def Let_def)
qed

lemma length_rtp_octets: "wf_rtp h \<Longrightarrow> length (rtp_octets en h) = Compy_RtpHeader_size h"
  by (auto simp: rtp_octets_def Compy_RtpHeader_size_def wf_rtp_def length_concat_store32)

lemma load32_concat:
  "map (\<lambda>i. load32 en (drop (4 * i) (concat (map (store32 en) ws) @ rest))) [0..<length ws] = ws"
proof (induction ws)
  case (Cons w ws)
  have "[0..<length (w # ws)] = 0 # map Suc [0..<length ws]"
    by (simp add: upt_conv_Cons map_Suc_upt del: upt_Suc)
  with Cons show ?case by (simp add: comp_def)
qed simp

text \<open>The fixed part and the CSRC list of a header that reads as \<open>h\<close>, up to its extension.\<close>

lemma deserialize_head:
  assumes "rtp_version h = 2" and bounds: "12 + unat (rtp_csrc_count h) * 4 \<le> length data"
    and fields: "drop_bit 6 (data ! 0) AND 3 = 2" "bit (data ! 0) 5 = rtp_padding h"
      "bit (data ! 0) 4 = rtp_extension h" "data ! 0 AND 15 = rtp_csrc_count h"
      "bit (data ! Suc 0) 7 = rtp_marker h" "data ! Suc 0 AND 127 = rtp_payload_ty h"
      "load16 en (drop 2 data) = rtp_sequence_number h"
      "load32 en (drop 4 data) = rtp_timestamp h" "load32 en (drop 8 data) = rtp_ssrc h"
    and csrc: "map (\<lambda>i. load32 en (drop (12 + 4 * i) data)) [0..<unat (rtp_csrc_count h)] = rtp_csrc h"
    and p: "p = 12 + unat (rtp_csrc_count h) * 4"
    and h': "h' = h\<lparr>rtp_extension_profile := 0, rtp_extension_payload_len := 0, rtp_extension_payload := []\<rparr>"
  shows "Compy_RtpHeader_deserialize en self data =
     (if rtp_extension h then rtp_deserialize_extension en h' data p else (int p, h'))"
proof -
  have h: "\<lparr>rtp_version = 2, rtp_padding = rtp_padding h, rtp_extension = rtp_extension h,
      rtp_csrc_count = rtp_csrc_count h, rtp_marker = rtp_marker h,
      rtp_payload_ty = rtp_payload_ty h, rtp_sequence_number = rtp_sequence_number h,
      rtp_timestamp = rtp_timestamp h, rtp_ssrc = rtp_ssrc h, rtp_csrc = rtp_csrc h,
      rtp_extension_profile = 0, rtp_extension_payload_len = 0, rtp_extension_payload = []\<rparr> = h'"
    using assms(1) unfolding h' by (cases h) simp
  have "\<not> length data < 12" "\<not> length data < 12 + unat (rtp_csrc_count h) * 4" using bounds by simp_all
  then show ?thesis
    unfolding Compy_RtpHeader_deserialize_def Let_def h [symmetric]
    by (cases self) (simp add: fields csrc p)
qed

lemma deserialize_octets:
  assumes "wf_rtp h" "rtp_version h = 2"
  shows "Compy_RtpHeader_deserialize en self (rtp_octets en h @ rest) =
     (int (Compy_RtpHeader_size h),
      h\<lparr>rtp_extension_payload_len := htons en (rtp_extension_payload_len h)\<rparr>)"
proof -
  let ?o0 = "rtp_octet0 (rtp_version h) (rtp_padding h) (rtp_extension h) (rtp_csrc_count h)"
    and ?o1 = "rtp_octet1 (rtp_marker h) (rtp_payload_ty h)"
  let ?csrc = "concat (map (store32 en) (rtp_csrc h))"
  define ext where "ext = (if rtp_extension h
      then store16 en (rtp_extension_profile h) @ be16 (rtp_extension_payload_len h) @
           rtp_extension_payload h else []) @ rest"
  define data where "data = ?o0 # ?o1 # store16 en (rtp_sequence_number h) @ store32 en (rtp_timestamp h) @
      store32 en (rtp_ssrc h) @ ?csrc @ ext"
  define p where "p = 12 + unat (rtp_csrc_count h) * 4"
  from assms have len: "length (rtp_csrc h) = unat (rtp_csrc_count h)"
    and f0: "unat (rtp_version h) < 4" "unat (rtp_csrc_count h) < 16"
    and f1: "unat (rtp_payload_ty h) < 128" by (auto simp: wf_rtp_def)
  have octets: "rtp_octets en h @ rest = data" by (simp add: rtp_octets_def ext_def data_def)
  have d12: "drop 12 data = ?csrc @ ext" by (simp add: data_def)
  have o0: "data ! 0 = ?o0" "data ! 1 = ?o1" by (simp_all add: data_def)
  have fields: "drop_bit 6 (data ! 0) AND 3 = 2" "bit (data ! 0) 5 = rtp_padding h"
    "bit (data ! 0) 4 = rtp_extension h" "data ! 0 AND 15 = rtp_csrc_count h"
    "bit (data ! Suc 0) 7 = rtp_marker h" "data ! Suc 0 AND 127 = rtp_payload_ty h"
    "load16 en (drop 2 data) = rtp_sequence_number h"
    "load32 en (drop 4 data) = rtp_timestamp h" "load32 en (drop 8 data) = rtp_ssrc h"
    using rtp_octet0_fields [OF f0] rtp_octet1_fields [OF f1] assms(2)
    unfolding o0 [unfolded One_nat_def] by (simp_all add: data_def)
  have "drop (12 + 4 * i) data = drop (4 * i) (?csrc @ ext)" for i
    by (metis add.commute d12 drop_drop)
  then have csrc: "map (\<lambda>i. load32 en (drop (12 + 4 * i) data)) [0..<unat (rtp_csrc_count h)] = rtp_csrc h"
    using load32_concat [of en "rtp_csrc h" ext] len by simp
  have dp: "drop p data = ext"
    unfolding p_def using length_concat_store32 [of en "rtp_csrc h"] len
    by (metis (no_types, lifting) add.commute append_eq_conv_conj d12 drop_drop mult.commute)
  have drops: "drop (p + 2) data = drop 2 ext" "drop (p + 2 + 2) data = drop 4 ext"
    unfolding dp [symmetric] by (simp_all add: add.commute eval_nat_numeral)
  have lens: "length data = p + length ext" "p = 12 + unat (rtp_csrc_count h) * 4"
    using length_concat_store32 [of en "rtp_csrc h"] len by (simp_all add: data_def p_def)
  let ?self = "h\<lparr>rtp_extension_profile := 0, rtp_extension_payload_len := 0, rtp_extension_payload := []\<rparr>"
  have "12 + unat (rtp_csrc_count h) * 4 \<le> length data" using lens by simp
  note head = deserialize_head [OF assms(2) this fields csrc p_def [unfolded atomize_eq] refl]
  show ?thesis
  proof (cases "rtp_extension h")
    case True
    with assms have "rtp_deserialize_extension en ?self data p =
        (int (p + 4 + unat (rtp_extension_payload_len h) * 4),
         h\<lparr>rtp_extension_payload_len := htons en (rtp_extension_payload_len h)\<rparr>)"
      using lens(1) drops dp
      by (simp add: rtp_deserialize_extension_def Let_def ext_def load16_be16 wf_rtp_def)
    with True show ?thesis
      unfolding octets head by (simp add: Compy_RtpHeader_size_def p_def)
  next
    case False
    with assms show ?thesis
      unfolding octets head
      by (cases h) (auto simp: Compy_RtpHeader_size_def p_def wf_rtp_def)
  qed
qed

text \<open>
  A header may carry more than it sends: only the counted elements of its arrays, and of the
  extension nothing at all if the bit is not set.
\<close>

definition rtp_sent :: "Compy_RtpHeader \<Rightarrow> Compy_RtpHeader" where
  "rtp_sent h = h\<lparr>rtp_csrc := take (unat (rtp_csrc_count h)) (rtp_csrc h),
     rtp_extension_profile := (if rtp_extension h then rtp_extension_profile h else 0),
     rtp_extension_payload_len := (if rtp_extension h then rtp_extension_payload_len h else 0),
     rtp_extension_payload := (if rtp_extension h
       then take (unat (rtp_extension_payload_len h) * 4) (rtp_extension_payload h) else [])\<rparr>"

lemma serialize_sent:
  assumes "wf_rtp (rtp_sent h)"
  shows "Compy_RtpHeader_serialize en h = Some (rtp_octets en (rtp_sent h))"
proof -
  from assms have csrc: "rtp_csrc_loop en (rtp_csrc h) (unat (rtp_csrc_count h)) =
      Some (concat (map (store32 en) (rtp_csrc (rtp_sent h))))"
    by (auto simp: wf_rtp_def rtp_sent_def rtp_csrc_loop_eq)
  show ?thesis
  proof (cases "rtp_extension h")
    case True
    with assms have "unat (rtp_extension_payload_len h) * 4 \<le> length (rtp_extension_payload h)"
      "unat (rtp_extension_payload_len h) < 2 ^ 14"
      by (auto simp: wf_rtp_def rtp_sent_def min_def split: if_splits)
    with True have "rtp_ext_loop (rtp_extension_payload h) (unat (rtp_extension_payload_len h) * 4) 0 buf =
        Some (buf @ rtp_extension_payload (rtp_sent h))" for buf
      using rtp_ext_loop_ends [of "unat (rtp_extension_payload_len h) * 4" "rtp_extension_payload h" 0 buf]
      by (simp add: rtp_sent_def)
    with csrc True show ?thesis
      by (simp add: Compy_RtpHeader_serialize_def rtp_octets_def rtp_octet0_def rtp_octet1_def
          Let_def) (simp add: rtp_sent_def)
  next
    case False
    with csrc show ?thesis
      by (simp add: Compy_RtpHeader_serialize_def rtp_octets_def rtp_octet0_def rtp_octet1_def
          Let_def) (simp add: rtp_sent_def)
  qed
qed

section \<open>Properties\<close>

text \<open>
  C36. An RTP header written to a packet and read back: the serialiser fills exactly
  \<open>Compy_RtpHeader_size\<close> octets, and the parser returns this size and the header, in front of every
  payload. The one field that comes back changed is \<open>extension_payload_len\<close>: it is written in
  network order but read without conversion.
\<close>

theorem rtp_header_roundtrip:
  assumes "wf_rtp h" "rtp_version h = 2"
  shows "\<exists>octets. Compy_RtpHeader_serialize en h = Some octets \<and>
     length octets = Compy_RtpHeader_size h \<and>
     Compy_RtpHeader_deserialize en self (octets @ payload) =
       (int (Compy_RtpHeader_size h),
        h\<lparr>rtp_extension_payload_len := htons en (rtp_extension_payload_len h)\<rparr>)"
  using serialize_octets [OF assms(1), of en] length_rtp_octets [OF assms(1), of en]
    deserialize_octets [OF assms] by simp

definition sample_rtp :: Compy_RtpHeader where
  "sample_rtp = \<lparr>rtp_version = 2, rtp_padding = False, rtp_extension = True, rtp_csrc_count = 1,
     rtp_marker = True, rtp_payload_ty = 96, rtp_sequence_number = 0x1234, rtp_timestamp = 0xDEADBEEF,
     rtp_ssrc = 7, rtp_csrc = [9], rtp_extension_profile = 0xABAC, rtp_extension_payload_len = 1,
     rtp_extension_payload = [1, 2, 3, 4]\<rparr>"

theorem rtp_header_roundtrip_witness:
  "\<exists>octets. Compy_RtpHeader_serialize LittleEndian sample_rtp = Some octets \<and>
     length octets = Compy_RtpHeader_size sample_rtp \<and>
     Compy_RtpHeader_deserialize LittleEndian sample_rtp (octets @ [0x65]) =
       (int (Compy_RtpHeader_size sample_rtp),
        sample_rtp\<lparr>rtp_extension_payload_len :=
          htons LittleEndian (rtp_extension_payload_len sample_rtp)\<rparr>)"
  by (rule rtp_header_roundtrip) (simp_all add: wf_rtp_def sample_rtp_def)

text \<open>
  The parser stays inside the packet whatever it contains: it returns \<open>-1\<close> or a header size
  between 12 and the length of the packet, and then the contributing sources and the extension are
  the octets of the packet.
\<close>

theorem rtp_deserialize_in_bounds:
  "case Compy_RtpHeader_deserialize en self data of (n, h) \<Rightarrow>
     n = -1 \<or>
     12 \<le> n \<and> n \<le> int (length data) \<and> rtp_version h = 2 \<and>
     length (rtp_csrc h) = unat (rtp_csrc_count h) \<and> unat (rtp_csrc_count h) < 16 \<and>
     n = int (12 + 4 * length (rtp_csrc h) +
           (if rtp_extension h then 4 + length (rtp_extension_payload h) else 0))"
proof -
  have "unat (data ! 0 AND 15) < 16"
    using unat_take_bit_less [of 4 "data ! 0"] by (simp add: and_mask_word)
  then show ?thesis
    by (auto simp: Compy_RtpHeader_deserialize_def rtp_deserialize_extension_def Let_def
        simp del: of_nat_unat)
qed

text \<open>
  C37. The serialiser returns exactly when the arrays of the header are as long as its counts say and
  the extension has fewer than \<open>2 ^ 14\<close> words: from that length on the 16-bit counter of the
  copying loop wraps around before it reaches its bound, and the loop does not end.
\<close>

theorem rtp_serialize_returns:
  "(\<exists>octets. Compy_RtpHeader_serialize en h = Some octets) \<longleftrightarrow>
     unat (rtp_csrc_count h) \<le> length (rtp_csrc h) \<and>
     (if rtp_extension h
      then unat (rtp_extension_payload_len h) * 4 \<le> length (rtp_extension_payload h) \<and>
           unat (rtp_extension_payload_len h) < 2 ^ 14
      else True)"
proof -
  let ?n = "unat (rtp_extension_payload_len h) * 4"
  have "(\<exists>r. rtp_ext_loop (rtp_extension_payload h) ?n 0 buf = Some r) \<longleftrightarrow>
      ?n \<le> length (rtp_extension_payload h) \<and> ?n < 2 ^ 16" for buf
    using rtp_ext_loop_ends [of ?n "rtp_extension_payload h" 0 buf] rtp_ext_loop_overrun [of ?n]
      rtp_ext_loop_short [of "rtp_extension_payload h" ?n 0 buf]
    by (cases "?n < 2 ^ 16"; cases "?n \<le> length (rtp_extension_payload h)") auto
  then show ?thesis
    by (auto simp: Compy_RtpHeader_serialize_def rtp_csrc_loop_eq Let_def)
qed

end
