(* ===== verification/CLib.thy ===== *)
theory CLib
  imports Prelude
begin

text \<open>
  What the sources use of the C library, on character strings: \<open>c_str\<close> is what a C function sees
  of a buffer (the characters before the first NUL), and the conversions are those of glibc's
  \<open>printf\<close> and \<open>sscanf\<close> in the C locale. Slices come from Slice99: a slice is the list it denotes,
  \<open>advance\<close> is \<^const>\<open>drop\<close>, and \<open>from_ptrdiff\<close> is the part between two positions of one buffer.
\<close>

section \<open>Slices\<close>

definition from_ptrdiff :: "'a list \<Rightarrow> 'a list \<Rightarrow> 'a list" where
  \<comment> \<open>The slice that starts where \<open>a\<close> does and ends where its suffix \<open>b\<close> starts.\<close>
  "from_ptrdiff a b = take (length a - length b) a"

definition starts_with :: "'a list \<Rightarrow> 'a list \<Rightarrow> bool" where
  "starts_with s prefix \<longleftrightarrow> take (length prefix) s = prefix"

definition ends_with :: "'a list \<Rightarrow> 'a list \<Rightarrow> bool" where
  "ends_with s suffix \<longleftrightarrow> length suffix \<le> length s \<and> drop (length s - length suffix) s = suffix"

lemma starts_with_append [simp]: "starts_with (p @ s) p"
  by (simp add: starts_with_def)

lemma from_ptrdiff_append [simp]: "from_ptrdiff (a @ b) b = a"
  by (simp add: from_ptrdiff_def)

lemma ends_with_single: "ends_with s [c] \<longleftrightarrow> s \<noteq> [] \<and> last s = c"
  by (cases s rule: rev_cases) (auto simp: ends_with_def)

section \<open>Character classes\<close>

definition CRLF :: string where
  "CRLF = [CHR 0x0D, CHR 0x0A]"

definition isdigit :: "char \<Rightarrow> bool" where
  "isdigit c \<longleftrightarrow> (48 :: nat) \<le> of_char c \<and> (of_char c :: nat) \<le> 57"

definition isalpha :: "char \<Rightarrow> bool" where
  "isalpha c \<longleftrightarrow> ((65 :: nat) \<le> of_char c \<and> (of_char c :: nat) \<le> 90)
     \<or> ((97 :: nat) \<le> of_char c \<and> (of_char c :: nat) \<le> 122)"

definition isalnum :: "char \<Rightarrow> bool" where
  "isalnum c \<longleftrightarrow> isalpha c \<or> isdigit c"

definition isspace :: "char \<Rightarrow> bool" where
  "isspace c \<longleftrightarrow> c = CHR '' '' \<or> ((9 :: nat) \<le> of_char c \<and> (of_char c :: nat) \<le> 13)"

section \<open>C strings\<close>

definition c_str :: "string \<Rightarrow> string" where
  "c_str s = takeWhile (\<lambda>c. c \<noteq> CHR 0x00) s"

lemma c_str_id: "CHR 0x00 \<notin> set s \<Longrightarrow> c_str s = s"
  by (simp add: c_str_def takeWhile_eq_all_conv) metis

section \<open>Decimal numbers\<close>

definition digit_char :: "nat \<Rightarrow> char" where
  "digit_char d = char_of (48 + d)"

definition digit_val :: "char \<Rightarrow> nat" where
  "digit_val c = of_char c - 48"

text \<open>\<open>printf\<close> with \<open>%u\<close> (and \<open>%zd\<close> on a size).\<close>

fun show_nat :: "nat \<Rightarrow> string" where
  "show_nat n = (if n < 10 then [digit_char n] else show_nat (n div 10) @ [digit_char (n mod 10)])"

declare show_nat.simps [simp del]

fun scan_digits :: "nat \<Rightarrow> string \<Rightarrow> nat \<times> string" where
  "scan_digits acc (c # cs) =
     (if isdigit c then scan_digits (acc * 10 + digit_val c) cs else (acc, c # cs))"
| "scan_digits acc [] = (acc, [])"

text \<open>
  The matching part of an integer conversion of \<open>sscanf\<close>: leading white space, an optional sign,
  and at least one digit. The result is the sign, the magnitude and the rest of the input.
\<close>

definition scan_sign :: "string \<Rightarrow> bool \<times> string" where
  "scan_sign s = (case s of c # cs \<Rightarrow> if c = CHR ''-'' then (True, cs)
                      else if c = CHR ''+'' then (False, cs) else (False, s) | [] \<Rightarrow> (False, s))"

definition scan_integer :: "string \<Rightarrow> (bool \<times> nat \<times> string) option" where
  "scan_integer s =
     (let (neg, t) = scan_sign (dropWhile isspace s)
      in case t of c # _ \<Rightarrow> if isdigit c then (let (v, rest) = scan_digits 0 t in Some (neg, v, rest))
                             else None
         | [] \<Rightarrow> None)"

text \<open>
  The value an unsigned conversion stores before it is truncated to the width of its target: the
  result of \<open>strtoul\<close>, which saturates, and negates modulo \<open>2 ^ 64\<close>. A signed one (\<open>%zd\<close>, here
  always read back as a \<open>size_t\<close>) saturates at the ends of the signed range.
\<close>

definition strtoul_value :: "bool \<Rightarrow> nat \<Rightarrow> nat" where
  "strtoul_value neg v =
     (if v \<ge> 2 ^ 64 then 2 ^ 64 - 1 else if neg then (2 ^ 64 - v) mod 2 ^ 64 else v)"

definition strtol_value :: "bool \<Rightarrow> nat \<Rightarrow> nat" where
  "strtol_value neg v =
     (if neg then 2 ^ 64 - min v (2 ^ 63) else min v (2 ^ 63 - 1)) mod 2 ^ 64"

definition sscanf_unsigned :: "string \<Rightarrow> 'a::len word option" where
  "sscanf_unsigned s =
     (case scan_integer (c_str s) of
        None \<Rightarrow> None
      | Some (neg, v, _) \<Rightarrow> Some (word_of_nat (strtoul_value neg v)))"

definition sscanf_zd :: "string \<Rightarrow> nat option" where
  "sscanf_zd s =
     (case scan_integer (c_str s) of
        None \<Rightarrow> None
      | Some (neg, v, _) \<Rightarrow> Some (strtol_value neg v))"

subsection \<open>Printing and scanning are inverse\<close>

lemma of_char_digit_char: "d < 10 \<Longrightarrow> of_char (digit_char d) = (48 + d :: nat)"
  by (simp add: digit_char_def)

lemma isdigit_digit_char [simp]: "d < 10 \<Longrightarrow> isdigit (digit_char d)"
  by (simp add: isdigit_def of_char_digit_char)

lemma digit_val_digit_char [simp]: "d < 10 \<Longrightarrow> digit_val (digit_char d) = d"
  by (simp add: digit_val_def of_char_digit_char)

lemma show_nat_digits: "c \<in> set (show_nat n) \<Longrightarrow> isdigit c"
proof (induction n rule: show_nat.induct)
  case (1 n)
  then show ?case by (cases "n < 10") (auto simp: show_nat.simps [of n])
qed

lemma show_nat_not_Nil [simp]: "show_nat n \<noteq> []"
  by (simp add: show_nat.simps [of n])

lemma scan_digits_show_nat: "scan_digits 0 (show_nat n @ rest) = scan_digits n rest"
proof (induction n arbitrary: rest rule: show_nat.induct)
  case (1 n)
  show ?case
  proof (cases "n < 10")
    case False
    with "1.IH" show ?thesis by (simp add: show_nat.simps [of n])
  qed (simp add: show_nat.simps [of n])
qed

lemma isdigit_not_space: "isdigit c \<Longrightarrow> \<not> isspace c"
  by (auto simp: isdigit_def isspace_def)

lemma isdigit_not_sign: "isdigit c \<Longrightarrow> c \<noteq> CHR ''-'' \<and> c \<noteq> CHR ''+'' \<and> c \<noteq> CHR 0x00"
  by (auto simp: isdigit_def)

lemma scan_integer_show_nat:
  "scan_integer (show_nat n @ rest) = (let (v, r) = scan_digits n rest in Some (False, v, r))"
proof -
  obtain c cs where s: "show_nat n = c # cs" by (cases "show_nat n") auto
  then have c: "isdigit c" using show_nat_digits [of c n] by simp
  have "dropWhile isspace (show_nat n @ rest) = show_nat n @ rest"
    by (simp add: s isdigit_not_space [OF c])
  moreover have "scan_sign (show_nat n @ rest) = (False, show_nat n @ rest)"
    by (simp add: s scan_sign_def isdigit_not_sign [OF c])
  moreover have "scan_digits 0 (c # cs @ rest) = scan_digits n rest"
    using scan_digits_show_nat [of n rest] by (simp add: s del: scan_digits.simps)
  ultimately show ?thesis
    by (simp add: scan_integer_def s c del: scan_digits.simps)
qed

lemma scan_digits_stop [simp]:
  "rest = [] \<or> \<not> isdigit (hd rest) \<Longrightarrow> scan_digits n rest = (n, rest)"
  by (cases rest) auto

lemma show_nat_no_NUL: "CHR 0x00 \<notin> set (show_nat n)"
  using show_nat_digits isdigit_not_sign by blast

lemma c_str_show_nat [simp]: "c_str (show_nat n) = show_nat n"
  by (rule c_str_id [OF show_nat_no_NUL])

lemma sscanf_unsigned_show_nat:
  fixes w :: "'a::len word"
  assumes "LENGTH('a) \<le> 64"
  shows "sscanf_unsigned (show_nat (unat w)) = Some w"
proof -
  have "unat w < 2 ^ LENGTH('a)" by (rule unsigned_less)
  also have "\<dots> \<le> 2 ^ 64" by (rule power_increasing [OF assms]) simp
  finally have "strtoul_value False (unat w) = unat w" by (simp add: strtoul_value_def)
  then show ?thesis
    using scan_integer_show_nat [of "unat w" "[]"] by (simp add: sscanf_unsigned_def)
qed

lemma sscanf_zd_show_nat: "n < 2 ^ 63 \<Longrightarrow> sscanf_zd (show_nat n) = Some n"
  using scan_integer_show_nat [of n "[]"] by (simp add: sscanf_zd_def strtol_value_def)

end
