(* ===== verification/Parsing.thy ===== *)
theory Parsing
  imports CLib
begin

text \<open>
  The parsing primitives: the result types of \<open>include/compy/types/error.h\<close> and the matchers of
  \<open>src/types/parsing.c\<close>, on which every parser of \<open>src/types/\<close> is built. A matcher gets the rest
  of the input and answers that it consumed a prefix (\<open>Complete\<close> with an offset), that it needs
  more input (\<open>Partial\<close>), or that the input is wrong (\<open>Failure\<close>). The matchers that look at
  \<open>input.ptr[0]\<close> before they test the length leave the slice when it is empty: this is the
  fault \<open>None\<close>.
\<close>

section \<open>Results\<close>

datatype Compy_ParseType =
    Compy_ParseType_Int
  | Compy_ParseType_Ident
  | Compy_ParseType_HeaderName

datatype Compy_ParseError =
    Compy_ParseError_ContentLength string
  | Compy_ParseError_StrMismatch string string
  | Compy_ParseError_TypeMismatch Compy_ParseType string
  | Compy_ParseError_HeaderMapOverflow
  | Compy_ParseError_MissingCSeq
  | Compy_ParseError_InvalidCSeq string

datatype Compy_ParseStatus =
    Compy_ParseStatus_Complete nat
  | Compy_ParseStatus_Partial

datatype Compy_ParseResult =
    Compy_ParseResult_Success Compy_ParseStatus
  | Compy_ParseResult_Failure Compy_ParseError

abbreviation Compy_ParseResult_partial :: Compy_ParseResult where
  "Compy_ParseResult_partial \<equiv> Compy_ParseResult_Success Compy_ParseStatus_Partial"

abbreviation Compy_ParseResult_complete :: "nat \<Rightarrow> Compy_ParseResult" where
  "Compy_ParseResult_complete offset \<equiv>
     Compy_ParseResult_Success (Compy_ParseStatus_Complete offset)"

fun Compy_ParseStatus_is_complete :: "Compy_ParseStatus \<Rightarrow> bool" where
  "Compy_ParseStatus_is_complete (Compy_ParseStatus_Complete _) = True"
| "Compy_ParseStatus_is_complete Compy_ParseStatus_Partial = False"

fun Compy_ParseStatus_is_partial :: "Compy_ParseStatus \<Rightarrow> bool" where
  "Compy_ParseStatus_is_partial Compy_ParseStatus_Partial = True"
| "Compy_ParseStatus_is_partial (Compy_ParseStatus_Complete _) = False"

fun Compy_ParseResult_is_success :: "Compy_ParseResult \<Rightarrow> bool" where
  "Compy_ParseResult_is_success (Compy_ParseResult_Success _) = True"
| "Compy_ParseResult_is_success (Compy_ParseResult_Failure _) = False"

definition Compy_ParseResult_is_failure :: "Compy_ParseResult \<Rightarrow> bool" where
  "Compy_ParseResult_is_failure r \<longleftrightarrow> \<not> Compy_ParseResult_is_success r"

fun Compy_ParseResult_is_partial :: "Compy_ParseResult \<Rightarrow> bool" where
  "Compy_ParseResult_is_partial (Compy_ParseResult_Success status) =
     Compy_ParseStatus_is_partial status"
| "Compy_ParseResult_is_partial (Compy_ParseResult_Failure _) = False"

fun Compy_ParseResult_is_complete :: "Compy_ParseResult \<Rightarrow> bool" where
  "Compy_ParseResult_is_complete (Compy_ParseResult_Success status) =
     Compy_ParseStatus_is_complete status"
| "Compy_ParseResult_is_complete (Compy_ParseResult_Failure _) = False"

section \<open>Matchers\<close>

fun match_until_loop :: "(char \<Rightarrow> bool) \<Rightarrow> string \<Rightarrow> nat \<Rightarrow> Compy_ParseResult" where
  "match_until_loop matcher [] offset = Compy_ParseResult_partial"
| "match_until_loop matcher (c # input) offset =
     (if \<not> matcher c then Compy_ParseResult_complete offset
      else match_until_loop matcher input (offset + 1))"

definition compy_match_until :: "string \<Rightarrow> (char \<Rightarrow> bool) \<Rightarrow> Compy_ParseResult" where
  "compy_match_until input matcher = match_until_loop matcher input 0"

definition whitespace_matcher :: "char \<Rightarrow> bool" where
  "whitespace_matcher c \<longleftrightarrow> c = CHR '' ''"

definition non_whitespace_matcher :: "char \<Rightarrow> bool" where
  "non_whitespace_matcher c \<longleftrightarrow> \<not> whitespace_matcher c"

definition numeric_matcher :: "char \<Rightarrow> bool" where
  "numeric_matcher c \<longleftrightarrow> isdigit c"

definition ident_matcher :: "char \<Rightarrow> bool" where
  "ident_matcher c \<longleftrightarrow> isalnum c \<or> c = CHR ''_''"

definition header_name_char_matcher :: "char \<Rightarrow> bool" where
  "header_name_char_matcher c \<longleftrightarrow> isalpha c \<or> c = CHR ''-''"

definition char_matcher :: "char \<Rightarrow> char \<Rightarrow> bool" where
  "char_matcher expected c \<longleftrightarrow> c = expected"

text \<open>The loop of \<open>compy_match_until_str\<close>: \<open>input\<close> is what starts at \<open>input.ptr + i\<close>.\<close>

fun match_until_str_loop :: "string \<Rightarrow> string \<Rightarrow> nat \<Rightarrow> Compy_ParseResult" where
  "match_until_str_loop str [] offset = Compy_ParseResult_partial"
| "match_until_str_loop str (c # input) offset =
     (if length (c # input) < length str then Compy_ParseResult_partial
      else if take (length str) (c # input) = str
        then Compy_ParseResult_complete (offset + length str)
      else match_until_str_loop str input (offset + 1))"

definition compy_match_until_str :: "string \<Rightarrow> string \<Rightarrow> Compy_ParseResult" where
  "compy_match_until_str input str = match_until_str_loop str input 0"

definition compy_match_until_crlf :: "string \<Rightarrow> Compy_ParseResult" where
  "compy_match_until_crlf input = compy_match_until_str input CRLF"

definition compy_match_until_double_crlf :: "string \<Rightarrow> Compy_ParseResult" where
  "compy_match_until_double_crlf input = compy_match_until_str input (CRLF @ CRLF)"

definition compy_match_char :: "string \<Rightarrow> char \<Rightarrow> Compy_ParseResult" where
  "compy_match_char input c = compy_match_until input (char_matcher c)"

definition compy_match_str :: "string \<Rightarrow> string \<Rightarrow> Compy_ParseResult" where
  "compy_match_str input str =
     (let str_len = length str;
          min_len = (if length input < str_len then length input else str_len)
      in if take min_len input \<noteq> take min_len str
           then Compy_ParseResult_Failure
                  (Compy_ParseError_StrMismatch str (take min_len input))
         else if length input < str_len then Compy_ParseResult_partial
         else Compy_ParseResult_complete str_len)"

definition compy_match_whitespaces :: "string \<Rightarrow> Compy_ParseResult" where
  "compy_match_whitespaces input = compy_match_until input whitespace_matcher"

definition compy_match_non_whitespaces :: "string \<Rightarrow> Compy_ParseResult" where
  "compy_match_non_whitespaces input = compy_match_until input non_whitespace_matcher"

text \<open>The three matchers that read \<open>input.ptr[0]\<close> without looking at the length.\<close>

definition compy_match_numeric :: "string \<Rightarrow> Compy_ParseResult option" where
  "compy_match_numeric input =
     (case input of
        [] \<Rightarrow> None
      | c # _ \<Rightarrow>
          if \<not> numeric_matcher c
          then Some (Compy_ParseResult_Failure
                 (Compy_ParseError_TypeMismatch Compy_ParseType_Int input))
          else Some (compy_match_until input numeric_matcher))"

definition compy_match_ident :: "string \<Rightarrow> Compy_ParseResult option" where
  "compy_match_ident input =
     (case input of
        [] \<Rightarrow> None
      | c # _ \<Rightarrow>
          if \<not> ident_matcher c
          then Some (Compy_ParseResult_Failure
                 (Compy_ParseError_TypeMismatch Compy_ParseType_Ident input))
          else Some (compy_match_until input ident_matcher))"

definition compy_match_header_name :: "string \<Rightarrow> Compy_ParseResult option" where
  "compy_match_header_name input =
     (case input of
        [] \<Rightarrow> None
      | c # _ \<Rightarrow>
          if \<not> header_name_char_matcher c
          then Some (Compy_ParseResult_Failure
                 (Compy_ParseError_TypeMismatch Compy_ParseType_HeaderName input))
          else Some (compy_match_until input header_name_char_matcher))"

text \<open>
  The macro \<open>MATCH\<close>: continue after the consumed prefix, or return the result of the matcher
  together with the output object as it is at that point.
\<close>

definition MATCH ::
  "Compy_ParseResult option \<Rightarrow> string \<Rightarrow> 's \<Rightarrow>
     (string \<Rightarrow> (Compy_ParseResult \<times> 's) option) \<Rightarrow> (Compy_ParseResult \<times> 's) option" where
  "MATCH parse_res input self k =
     (case parse_res of
        None \<Rightarrow> None
      | Some (Compy_ParseResult_Success (Compy_ParseStatus_Complete offset)) \<Rightarrow>
          k (drop offset input)
      | Some res \<Rightarrow> Some (res, self))"

text \<open>\<open>MATCH\<close> around a parser that fills a part of the object: \<open>assign\<close> stores that part.\<close>

definition MATCH_INTO ::
  "(Compy_ParseResult \<times> 'a) option \<Rightarrow> string \<Rightarrow> ('a \<Rightarrow> 's) \<Rightarrow>
     ('s \<Rightarrow> string \<Rightarrow> (Compy_ParseResult \<times> 's) option) \<Rightarrow> (Compy_ParseResult \<times> 's) option" where
  "MATCH_INTO call input assign k =
     (case call of
        None \<Rightarrow> None
      | Some (res, x) \<Rightarrow> MATCH (Some res) input (assign x) (k (assign x)))"

section \<open>What the matchers accept\<close>

text \<open>
  \<open>parse_inv\<close> collects the inversion rules: what is known when a step of a parser completed.
\<close>

named_theorems parse_inv

lemma match_until_loop_eq:
  "match_until_loop m input offset =
     (if list_all m input then Compy_ParseResult_partial
      else Compy_ParseResult_complete (offset + length (takeWhile m input)))"
  by (induction input arbitrary: offset) auto

lemma compy_match_until_eq:
  "compy_match_until input m =
     (if list_all m input then Compy_ParseResult_partial
      else Compy_ParseResult_complete (length (takeWhile m input)))"
  by (simp add: compy_match_until_def match_until_loop_eq)

lemma compy_match_until_token [simp]:
  "list_all m t \<Longrightarrow> \<not> m d \<Longrightarrow>
     compy_match_until (t @ d # rest) m = Compy_ParseResult_complete (length t)"
  by (simp add: compy_match_until_eq list_all_iff takeWhile_append2)

lemma compy_match_until_never_fails [simp]:
  "compy_match_until input m \<noteq> Compy_ParseResult_Failure e"
  by (simp add: compy_match_until_eq)

lemma compy_match_until_complete [parse_inv]:
  "compy_match_until input m = Compy_ParseResult_complete n \<longleftrightarrow>
     (\<exists>t d rest. input = t @ d # rest \<and> list_all m t \<and> \<not> m d \<and> n = length t)"
proof
  assume *: "compy_match_until input m = Compy_ParseResult_complete n"
  then have "\<not> list_all m input" and n: "n = length (takeWhile m input)"
    by (auto simp: compy_match_until_eq split: if_splits)
  then obtain d rest where "dropWhile m input = d # rest" "\<not> m d"
    by (metis dropWhile_eq_Nil_conv hd_dropWhile list.exhaust list.sel(1) list_all_iff)
  moreover have "input = takeWhile m input @ dropWhile m input" by simp
  moreover have "list_all m (takeWhile m input)" by (auto simp: list_all_iff dest: set_takeWhileD)
  ultimately show "\<exists>t d rest. input = t @ d # rest \<and> list_all m t \<and> \<not> m d \<and> n = length t"
    using n by metis
qed auto

text \<open>A line: no carriage return followed by a line feed inside.\<close>

fun crlf_free :: "string \<Rightarrow> bool" where
  "crlf_free (c # d # s) \<longleftrightarrow> \<not> (c = CHR 0x0D \<and> d = CHR 0x0A) \<and> crlf_free (d # s)"
| "crlf_free s \<longleftrightarrow> True"

lemma match_until_crlf_loop:
  "crlf_free v \<Longrightarrow>
     match_until_str_loop CRLF (v @ CRLF @ rest) offset =
       Compy_ParseResult_complete (offset + length v + 2)"
  by (induction v arbitrary: offset rule: crlf_free.induct) (auto simp: CRLF_def)

lemma compy_match_until_crlf_line [simp]:
  "crlf_free v \<Longrightarrow>
     compy_match_until_crlf (v @ CRLF @ rest) = Compy_ParseResult_complete (length v + 2)"
  by (simp add: compy_match_until_crlf_def compy_match_until_str_def match_until_crlf_loop)

lemma match_until_str_loop_complete:
  assumes "str \<noteq> []"
  shows "match_until_str_loop str input offset = Compy_ParseResult_complete n \<Longrightarrow>
     \<exists>v rest. input = v @ str @ rest \<and> n = offset + length v + length str"
proof (induction str input offset rule: match_until_str_loop.induct)
  case (2 str c input offset)
  show ?case
  proof (cases "length (c # input) \<ge> length str \<and> take (length str) (c # input) = str")
    case True
    with 2(2) have "c # input = [] @ str @ drop (length str) (c # input)"
      and "n = offset + length ([] :: string) + length str"
      by (auto split: if_splits) (metis append_take_drop_id)
    then show ?thesis by blast
  next
    case False
    with 2 obtain v rest where "input = v @ str @ rest" "n = offset + 1 + length v + length str"
      by (auto split: if_splits)
    then have "c # input = (c # v) @ str @ rest" "n = offset + length (c # v) + length str" by auto
    then show ?thesis by blast
  qed
qed simp

lemma match_until_str_loop_extend:
  "match_until_str_loop str input offset = Compy_ParseResult_complete n \<Longrightarrow>
     match_until_str_loop str (input @ ext) offset = Compy_ParseResult_complete n"
proof (induction str input offset rule: match_until_str_loop.induct)
  case (2 str c input offset)
  have "\<not> Suc (length input) < length str \<Longrightarrow>
      take (length str) (c # input @ ext) = take (length str) (c # input)"
    using take_append [of "length str" "c # input" ext] by simp
  with 2 show ?case by (auto split: if_splits)
qed simp

lemma compy_match_until_crlf_complete:
  assumes "compy_match_until_crlf input = Compy_ParseResult_complete n"
  obtains v rest where "input = v @ CRLF @ rest" "n = length v + 2"
  using assms match_until_str_loop_complete [of CRLF input 0 n]
  by (auto simp: compy_match_until_crlf_def compy_match_until_str_def CRLF_def)

lemma compy_match_str_complete [parse_inv]:
  "compy_match_str input str = Compy_ParseResult_complete n \<longleftrightarrow>
     n = length str \<and> (\<exists>rest. input = str @ rest)"
  by (auto simp: compy_match_str_def Let_def split: if_splits) (metis append_take_drop_id)

lemma compy_match_str_append [simp]:
  "compy_match_str (str @ rest) str = Compy_ParseResult_complete (length str)"
  by (simp add: compy_match_str_complete)

section \<open>MATCH\<close>

lemma MATCH_simps [simp]:
  "MATCH None input self k = None"
  "MATCH (Some (Compy_ParseResult_complete n)) input self k = k (drop n input)"
  "MATCH (Some Compy_ParseResult_partial) input self k = Some (Compy_ParseResult_partial, self)"
  "MATCH (Some (Compy_ParseResult_Failure e)) input self k = Some (Compy_ParseResult_Failure e, self)"
  by (simp_all add: MATCH_def)

lemma MATCH_complete [parse_inv]:
  "MATCH r input self k = Some (Compy_ParseResult_complete off, s') \<longleftrightarrow>
     (\<exists>n. r = Some (Compy_ParseResult_complete n) \<and>
        k (drop n input) = Some (Compy_ParseResult_complete off, s'))"
  by (auto simp: MATCH_def split: option.splits Compy_ParseResult.splits Compy_ParseStatus.splits)

lemma MATCH_fault [parse_inv]:
  "MATCH r input self k = None \<longleftrightarrow>
     r = None \<or> (\<exists>n. r = Some (Compy_ParseResult_complete n) \<and> k (drop n input) = None)"
  by (auto simp: MATCH_def split: option.splits Compy_ParseResult.splits Compy_ParseStatus.splits)

lemma MATCH_INTO_complete [parse_inv]:
  "MATCH_INTO call input assign k = Some (Compy_ParseResult_complete off, s') \<longleftrightarrow>
     (\<exists>n x. call = Some (Compy_ParseResult_complete n, x) \<and>
        k (assign x) (drop n input) = Some (Compy_ParseResult_complete off, s'))"
  by (auto simp: MATCH_INTO_def MATCH_complete split: option.splits)

lemma MATCH_INTO_fault [parse_inv]:
  "MATCH_INTO call input assign k = None \<longleftrightarrow>
     call = None \<or> (\<exists>n x. call = Some (Compy_ParseResult_complete n, x) \<and>
        k (assign x) (drop n input) = None)"
  by (auto simp: MATCH_INTO_def MATCH_fault split: option.splits)

lemma MATCH_INTO_simps [simp]:
  "MATCH_INTO (Some (Compy_ParseResult_complete n, x)) input assign k = k (assign x) (drop n input)"
  by (simp add: MATCH_INTO_def)

section \<open>Growing input\<close>

text \<open>
  The reader appends what arrives to its buffer and parses again. A matcher that completed
  consumed a prefix, and completes in the same way when more input has arrived: \<open>extends r r'\<close>
  relates its result on the input to its result on the longer input.
\<close>

lemma match_until_bounds:
  "compy_match_until input m = Compy_ParseResult_complete n \<Longrightarrow> n < length input"
  by (auto simp: compy_match_until_complete)

lemma match_until_extend:
  "compy_match_until input m = Compy_ParseResult_complete n \<Longrightarrow>
     compy_match_until (input @ ext) m = Compy_ParseResult_complete n"
  by (fastforce simp: compy_match_until_complete)

lemma match_until_crlf_bounds:
  "compy_match_until_crlf input = Compy_ParseResult_complete n \<Longrightarrow> 2 \<le> n \<and> n \<le> length input"
  by (erule compy_match_until_crlf_complete) (simp add: CRLF_def)

lemma match_until_crlf_extend:
  "compy_match_until_crlf input = Compy_ParseResult_complete n \<Longrightarrow>
     compy_match_until_crlf (input @ ext) = Compy_ParseResult_complete n"
  by (simp add: compy_match_until_crlf_def compy_match_until_str_def match_until_str_loop_extend)

lemma match_str_extend:
  "compy_match_str input str = Compy_ParseResult_complete n \<Longrightarrow>
     compy_match_str (input @ ext) str = Compy_ParseResult_complete n"
  by (auto simp: compy_match_str_complete)

lemma match_str_bounds:
  "compy_match_str input str = Compy_ParseResult_complete n \<Longrightarrow> n \<le> length input"
  by (auto simp: compy_match_str_complete)

text \<open>The three matchers that inspect the first character consume at least that one.\<close>

lemma match_first_bounds:
  assumes "m c" "compy_match_until (c # input) m = Compy_ParseResult_complete n"
  shows "0 < n" "n < length (c # input)"
  using assms by (auto simp: compy_match_until_complete Cons_eq_append_conv)

lemma match_numeric_bounds:
  "compy_match_numeric input = Some (Compy_ParseResult_complete n) \<Longrightarrow> 0 < n \<and> n < length input"
  by (auto simp: compy_match_numeric_def dest: match_first_bounds split: list.splits if_splits)

lemma match_ident_bounds:
  "compy_match_ident input = Some (Compy_ParseResult_complete n) \<Longrightarrow> 0 < n \<and> n < length input"
  by (auto simp: compy_match_ident_def dest: match_first_bounds split: list.splits if_splits)

lemma match_header_name_bounds:
  "compy_match_header_name input = Some (Compy_ParseResult_complete n) \<Longrightarrow> 0 < n \<and> n < length input"
  by (auto simp: compy_match_header_name_def dest: match_first_bounds split: list.splits if_splits)

lemma match_numeric_extend:
  "compy_match_numeric input = Some (Compy_ParseResult_complete n) \<Longrightarrow>
     compy_match_numeric (input @ ext) = Some (Compy_ParseResult_complete n)"
  by (cases input) (auto simp: compy_match_numeric_def split: if_splits
      dest: match_until_extend [of "_ # _", simplified])

lemma match_ident_extend:
  "compy_match_ident input = Some (Compy_ParseResult_complete n) \<Longrightarrow>
     compy_match_ident (input @ ext) = Some (Compy_ParseResult_complete n)"
  by (cases input) (auto simp: compy_match_ident_def split: if_splits
      dest: match_until_extend [of "_ # _", simplified])

lemma match_header_name_extend:
  "compy_match_header_name input = Some (Compy_ParseResult_complete n) \<Longrightarrow>
     compy_match_header_name (input @ ext) = Some (Compy_ParseResult_complete n)"
  by (cases input) (auto simp: compy_match_header_name_def split: if_splits
      dest: match_until_extend [of "_ # _", simplified])

lemmas match_defs =
  compy_match_whitespaces_def compy_match_non_whitespaces_def compy_match_char_def

lemmas match_bounds =
  match_until_bounds match_until_crlf_bounds match_str_bounds match_numeric_bounds
  match_ident_bounds match_header_name_bounds

lemmas match_extend =
  match_until_extend match_until_crlf_extend match_str_extend match_numeric_extend
  match_ident_extend match_header_name_extend

lemma match_steps:
  "Some (compy_match_until input m) = Some (Compy_ParseResult_complete n) \<Longrightarrow>
     Some (compy_match_until (input @ ext) m) = Some (Compy_ParseResult_complete n) \<and> n \<le> length input"
  "Some (compy_match_until_crlf input) = Some (Compy_ParseResult_complete n) \<Longrightarrow>
     Some (compy_match_until_crlf (input @ ext)) = Some (Compy_ParseResult_complete n) \<and> n \<le> length input"
  "Some (compy_match_str input str) = Some (Compy_ParseResult_complete n) \<Longrightarrow>
     Some (compy_match_str (input @ ext) str) = Some (Compy_ParseResult_complete n) \<and> n \<le> length input"
  "compy_match_numeric input = Some (Compy_ParseResult_complete n) \<Longrightarrow>
     compy_match_numeric (input @ ext) = Some (Compy_ParseResult_complete n) \<and> n \<le> length input"
  "compy_match_ident input = Some (Compy_ParseResult_complete n) \<Longrightarrow>
     compy_match_ident (input @ ext) = Some (Compy_ParseResult_complete n) \<and> n \<le> length input"
  "compy_match_header_name input = Some (Compy_ParseResult_complete n) \<Longrightarrow>
     compy_match_header_name (input @ ext) = Some (Compy_ParseResult_complete n) \<and> n \<le> length input"
  by (simp_all add: match_extend order.strict_implies_order [OF match_until_bounds]
      match_until_crlf_bounds match_str_bounds order.strict_implies_order match_numeric_bounds
      match_ident_bounds match_header_name_bounds)

text \<open>One step of a parser on the longer input, and the rest of the parser after it.\<close>

lemma MATCH_extend:
  assumes "MATCH r input self k = Some (Compy_ParseResult_complete off, s')"
    and "\<And>n. r = Some (Compy_ParseResult_complete n) \<Longrightarrow>
        r' = Some (Compy_ParseResult_complete n) \<and> n \<le> length input"
    and "\<And>n. r = Some (Compy_ParseResult_complete n) \<Longrightarrow> n \<le> length input \<Longrightarrow>
        k (drop n input) = Some (Compy_ParseResult_complete off, s') \<Longrightarrow>
        k' (drop n input @ ext) = Some (Compy_ParseResult_complete off, s')"
  shows "MATCH r' (input @ ext) self k' = Some (Compy_ParseResult_complete off, s')"
  using assms by (auto simp: MATCH_complete)

lemma from_ptrdiff_extend [simp]:
  "length b \<le> length a \<Longrightarrow> from_ptrdiff (a @ ext) (b @ ext) = from_ptrdiff a b"
  by (simp add: from_ptrdiff_def)

text \<open>
  The contract of a parser of a part of a message. Extensions that end in a carriage return are
  left out: the header map takes such an input for an unfinished one.
\<close>

definition no_cr_end :: "string \<Rightarrow> bool" where
  "no_cr_end ext \<longleftrightarrow> \<not> ends_with ext [CHR 0x0D]"

locale incremental_parser =
  fixes p :: "'s \<Rightarrow> string \<Rightarrow> (Compy_ParseResult \<times> 's) option"
  assumes consumes: "p self input = Some (Compy_ParseResult_complete off, self') \<Longrightarrow>
      0 < off \<and> off \<le> length input"
    and stable: "p self input = Some (Compy_ParseResult_complete off, self') \<Longrightarrow> no_cr_end ext \<Longrightarrow>
      p self (input @ ext) = Some (Compy_ParseResult_complete off, self')"
begin

lemma consumes_prefix:
  assumes "p self input = Some (Compy_ParseResult_complete off, self')"
  shows "\<exists>pre rest. input = pre @ rest \<and> length pre = off \<and> pre \<noteq> []"
proof -
  from consumes [OF assms] have "0 < off" "off \<le> length input" by simp_all
  then have "input = take off input @ drop off input \<and> length (take off input) = off \<and> take off input \<noteq> []"
    by auto
  then show ?thesis by blast
qed

lemma stable_drop:
  assumes "p self input = Some (Compy_ParseResult_complete off, self')" "no_cr_end ext"
  shows "p self (input @ ext) = Some (Compy_ParseResult_complete off, self')"
    and "drop off (input @ ext) = drop off input @ ext"
  using stable [OF assms] consumes [OF assms(1)] by simp_all

lemma MATCH_INTO_step:
  assumes "MATCH_INTO (p a input) input assign k = Some (Compy_ParseResult_complete off, s')"
    and "no_cr_end ext"
    and "\<And>n x. 0 < n \<Longrightarrow> n \<le> length input \<Longrightarrow>
        k (assign x) (drop n input) = Some (Compy_ParseResult_complete off, s') \<Longrightarrow>
        k' (assign x) (drop n input @ ext) = Some (Compy_ParseResult_complete off, s')"
  shows "MATCH_INTO (p a (input @ ext)) (input @ ext) assign k' =
      Some (Compy_ParseResult_complete off, s')"
proof -
  from assms(1) obtain n x where n: "p a input = Some (Compy_ParseResult_complete n, x)"
    and k: "k (assign x) (drop n input) = Some (Compy_ParseResult_complete off, s')"
    by (auto simp: MATCH_INTO_complete)
  with assms(3) [of n x] consumes [OF n] show ?thesis by (simp add: stable_drop [OF n assms(2)])
qed

lemma MATCH_INTO_consumes:
  assumes "MATCH_INTO (p a input) input assign k = Some (Compy_ParseResult_complete off, s')"
  obtains n x where "p a input = Some (Compy_ParseResult_complete n, x)" "0 < n" "n \<le> length input"
    "k (assign x) (drop n input) = Some (Compy_ParseResult_complete off, s')"
  using assms consumes by (auto simp: MATCH_INTO_complete)

end

end
