(* ===== verification/Writers.thy ===== *)
theory Writers
  imports CLib
begin

text \<open>
  The \<open>Compy_Writer\<close> interface (\<open>include/compy/writer.h\<close>) as the record of its virtual functions,
  \<open>compy_write_slices\<close> and the error macro \<open>CHK_WRITE_ERR\<close>, and two of its implementations, over a
  string buffer and over a file descriptor. A call returns the C return value and the new state
  of the writer; \<open>None\<close> is a call without a defined result (an out-of-bounds access, or a system
  call that never returns). \<open>writef\<close> and \<open>vwritef\<close> get the text their format produces.

  The locale \<open>reliable_writer\<close> is the contract serialisers rely on; the string writer provides it.
\<close>

section \<open>The interface\<close>

record 'w Compy_Writer =
  w_write :: "'w \<Rightarrow> string \<Rightarrow> (int \<times> 'w) option"
  w_lock :: "'w \<Rightarrow> 'w"
  w_unlock :: "'w \<Rightarrow> 'w"
  w_filled :: "'w \<Rightarrow> nat"
  w_writef :: "'w \<Rightarrow> string \<Rightarrow> (int \<times> 'w) option"
  w_vwritef :: "'w \<Rightarrow> string \<Rightarrow> (int \<times> 'w) option"

text \<open>
  \<open>CHK_WRITE_ERR (result, call)\<close>: on a negative return value the enclosing function returns
  \<open>result\<close>, what has been written before; otherwise the value is added and it goes on.
\<close>

definition CHK_WRITE_ERR ::
  "int \<Rightarrow> (int \<times> 'w) option \<Rightarrow> (int \<Rightarrow> 'w \<Rightarrow> (int \<times> 'w) option) \<Rightarrow> (int \<times> 'w) option" where
  "CHK_WRITE_ERR result call k =
     (case call of
        None \<Rightarrow> None
      | Some (ret, w) \<Rightarrow> if ret < 0 then Some (result, w) else k (result + ret) w)"

text \<open>\<open>if (cond) { CHK_WRITE_ERR (result, call); }\<close>.\<close>

definition CHK_WRITE_IF ::
  "bool \<Rightarrow> int \<Rightarrow> ('w \<Rightarrow> (int \<times> 'w) option) \<Rightarrow> 'w \<Rightarrow> (int \<Rightarrow> 'w \<Rightarrow> (int \<times> 'w) option) \<Rightarrow>
     (int \<times> 'w) option" where
  "CHK_WRITE_IF cond result call w k =
     (if cond then CHK_WRITE_ERR result (call w) k else k result w)"

fun write_slices_loop ::
  "'w Compy_Writer \<Rightarrow> string list \<Rightarrow> int \<Rightarrow> 'w \<Rightarrow> (int \<times> 'w) option" where
  "write_slices_loop W [] result w = Some (result, w)"
| "write_slices_loop W (d # data) result w =
     CHK_WRITE_ERR result (w_write W w d) (write_slices_loop W data)"

definition compy_write_slices :: "'w Compy_Writer \<Rightarrow> 'w \<Rightarrow> string list \<Rightarrow> (int \<times> 'w) option" where
  "compy_write_slices W w data = write_slices_loop W data 0 w"

section \<open>The string writer\<close>

text \<open>
  The state is the C string in the buffer. \<open>strncat\<close> appends the slice up to its first NUL, and
  the caller has promised that the buffer is large enough.
\<close>

definition StringWriter_write :: "string \<Rightarrow> string \<Rightarrow> (int \<times> string) option" where
  "StringWriter_write self data = Some (int (length data), self @ c_str data)"

definition StringWriter_lock :: "string \<Rightarrow> string" where
  "StringWriter_lock self = self"

definition StringWriter_unlock :: "string \<Rightarrow> string" where
  "StringWriter_unlock self = self"

definition StringWriter_filled :: "string \<Rightarrow> nat" where
  "StringWriter_filled self = 0"

definition StringWriter_vwritef :: "string \<Rightarrow> string \<Rightarrow> (int \<times> string) option" where
  "StringWriter_vwritef self formatted = Some (int (length formatted), self @ c_str formatted)"

definition StringWriter_writef :: "string \<Rightarrow> string \<Rightarrow> (int \<times> string) option" where
  "StringWriter_writef self formatted = StringWriter_vwritef self formatted"

definition compy_string_writer :: "string Compy_Writer" where
  "compy_string_writer =
     \<lparr>w_write = StringWriter_write, w_lock = StringWriter_lock, w_unlock = StringWriter_unlock,
      w_filled = StringWriter_filled, w_writef = StringWriter_writef,
      w_vwritef = StringWriter_vwritef\<rparr>"

section \<open>The file-descriptor writer\<close>

text \<open>
  The environment is a script of what the next calls of \<open>write(2)\<close> return: a number of bytes
  accepted (never more than was asked for), an interruption, or another error. When the script
  ends the call does not return.
\<close>

datatype sys_write = Wrote nat | Interrupted | WriteError

record FdWriter =
  fd_out :: string
  fd_script :: "sys_write list"

fun fd_write_loop :: "sys_write list \<Rightarrow> string \<Rightarrow> string \<Rightarrow> nat \<Rightarrow> (int \<times> FdWriter) option" where
  "fd_write_loop script out [] len = Some (int len, \<lparr>fd_out = out, fd_script = script\<rparr>)"
| "fd_write_loop [] out (c # p) len = None"
| "fd_write_loop (r # script) out (c # p) len =
     (case r of
        Wrote n \<Rightarrow>
          (let n = min n (length (c # p))
           in if n > 0 then fd_write_loop script (out @ take n (c # p)) (drop n (c # p)) len
              else Some (int (len - length (c # p)), \<lparr>fd_out = out, fd_script = script\<rparr>))
      | Interrupted \<Rightarrow> fd_write_loop script out (c # p) len
      | WriteError \<Rightarrow> Some (-1, \<lparr>fd_out = out, fd_script = script\<rparr>))"

definition FdWriter_write :: "FdWriter \<Rightarrow> string \<Rightarrow> (int \<times> FdWriter) option" where
  "FdWriter_write self data = fd_write_loop (fd_script self) (fd_out self) data (length data)"

definition FdWriter_lock :: "FdWriter \<Rightarrow> FdWriter" where
  "FdWriter_lock self = self"

definition FdWriter_unlock :: "FdWriter \<Rightarrow> FdWriter" where
  "FdWriter_unlock self = self"

definition FdWriter_filled :: "FdWriter \<Rightarrow> nat" where
  "FdWriter_filled self = 0"

text \<open>
  \<open>vdprintf\<close>: the text goes out in as many writes as it takes, and every error, an interruption
  included, gives a negative result.
\<close>

fun fd_vdprintf_loop :: "sys_write list \<Rightarrow> string \<Rightarrow> string \<Rightarrow> nat \<Rightarrow> (int \<times> FdWriter) option" where
  "fd_vdprintf_loop script out [] len = Some (int len, \<lparr>fd_out = out, fd_script = script\<rparr>)"
| "fd_vdprintf_loop [] out (c # p) len = None"
| "fd_vdprintf_loop (r # script) out (c # p) len =
     (case r of
        Wrote n \<Rightarrow>
          (let n = min n (length (c # p))
           in if n > 0 then fd_vdprintf_loop script (out @ take n (c # p)) (drop n (c # p)) len
              else Some (-1, \<lparr>fd_out = out, fd_script = script\<rparr>))
      | _ \<Rightarrow> Some (-1, \<lparr>fd_out = out, fd_script = script\<rparr>))"

definition FdWriter_vwritef :: "FdWriter \<Rightarrow> string \<Rightarrow> (int \<times> FdWriter) option" where
  "FdWriter_vwritef self formatted =
     fd_vdprintf_loop (fd_script self) (fd_out self) formatted (length formatted)"

definition FdWriter_writef :: "FdWriter \<Rightarrow> string \<Rightarrow> (int \<times> FdWriter) option" where
  "FdWriter_writef self formatted = FdWriter_vwritef self formatted"

definition compy_fd_writer :: "FdWriter Compy_Writer" where
  "compy_fd_writer =
     \<lparr>w_write = FdWriter_write, w_lock = FdWriter_lock, w_unlock = FdWriter_unlock,
      w_filled = FdWriter_filled, w_writef = FdWriter_writef, w_vwritef = FdWriter_vwritef\<rparr>"

section \<open>The contract\<close>

text \<open>
  A call that emitted exactly \<open>s\<close> and counted it: what a serialiser needs of every write.
\<close>

definition emits :: "('w \<Rightarrow> string) \<Rightarrow> (int \<times> 'w) option \<Rightarrow> int \<Rightarrow> 'w \<Rightarrow> string \<Rightarrow> bool" where
  "emits out call result w s \<longleftrightarrow>
     (\<exists>w'. call = Some (result + int (length s), w') \<and> out w' = out w @ s)"

lemma emits_CHK_WRITE_ERR:
  assumes "emits out call 0 w s" and "\<And>w'. out w' = out w @ s \<Longrightarrow>
      emits out (k (result + int (length s)) w') (result + int (length s)) w' t"
    and "0 \<le> result"
  shows "emits out (CHK_WRITE_ERR result call k) result w (s @ t)"
  using assms by (fastforce simp: emits_def CHK_WRITE_ERR_def)

lemma emits_CHK_WRITE_IF:
  assumes "cond \<Longrightarrow> emits out (call w) 0 w s" and "\<And>w'. out w' = out w @ (if cond then s else []) \<Longrightarrow>
      emits out (k (result + int (length (if cond then s else []))) w')
        (result + int (length (if cond then s else []))) w' t"
    and "0 \<le> result"
  shows "emits out (CHK_WRITE_IF cond result call w k) result w ((if cond then s else []) @ t)"
  using assms emits_CHK_WRITE_ERR [of out "call w" w s k result t]
  by (cases cond) (auto simp: CHK_WRITE_IF_def)

lemma emits_done: "emits out (Some (result, w)) result w []"
  by (simp add: emits_def)

lemma emits_append_Nil: "emits out call result w (s @ []) \<Longrightarrow> emits out call result w s"
  by simp

locale reliable_writer =
  fixes W :: "'w Compy_Writer" and out :: "'w \<Rightarrow> string" and ok :: "string \<Rightarrow> bool"
  assumes write_emits: "ok d \<Longrightarrow> emits out (w_write W w d) 0 w d"
    and writef_emits: "ok d \<Longrightarrow> emits out (w_writef W w d) 0 w d"
    and vwritef_emits: "ok d \<Longrightarrow> emits out (w_vwritef W w d) 0 w d"
begin

lemma write_slices_loop_emits:
  "list_all ok data \<Longrightarrow> 0 \<le> result \<Longrightarrow> emits out (write_slices_loop W data result w) result w (concat data)"
proof (induction data arbitrary: result w)
  case (Cons d data)
  then show ?case by (auto intro!: emits_CHK_WRITE_ERR write_emits)
qed (simp add: emits_done)

lemma compy_write_slices_emits:
  "list_all ok data \<Longrightarrow> emits out (compy_write_slices W w data) 0 w (concat data)"
  by (simp add: compy_write_slices_def write_slices_loop_emits)

end

definition nul_free :: "string \<Rightarrow> bool" where
  "nul_free s \<longleftrightarrow> CHR 0x00 \<notin> set s"

lemma nul_free_simps [simp]:
  "nul_free []" "nul_free (s @ t) \<longleftrightarrow> nul_free s \<and> nul_free t"
  "nul_free (c # s) \<longleftrightarrow> c \<noteq> CHR 0x00 \<and> nul_free s" "nul_free (show_nat n)" "nul_free CRLF"
  using show_nat_no_NUL by (auto simp: nul_free_def CRLF_def)

interpretation string_writer: reliable_writer compy_string_writer "\<lambda>w. w" nul_free
  by unfold_locales
    (simp_all add: emits_def nul_free_def compy_string_writer_def StringWriter_write_def
      StringWriter_writef_def StringWriter_vwritef_def c_str_id)

text \<open>
  The contract of a writer of binary data: as long as the environment takes \<open>n\<close> more octets
  (\<open>good n w\<close>), a locked write of up to \<open>n\<close> octets emits all of them.
\<close>

locale binary_writer =
  fixes W :: "'w Compy_Writer" and out :: "'w \<Rightarrow> string" and good :: "nat \<Rightarrow> 'w \<Rightarrow> bool"
  assumes locked_write: "good (length d + n) w \<Longrightarrow>
      \<exists>w'. w_write W (w_lock W w) d = Some (int (length d), w') \<and>
        out (w_unlock W w') = out w @ d \<and> good n (w_unlock W w')"

text \<open>
  For a descriptor: no call fails or accepts nothing, and there are at least \<open>n\<close> calls that accept
  something.
\<close>

definition fd_good :: "nat \<Rightarrow> FdWriter \<Rightarrow> bool" where
  "fd_good n w \<longleftrightarrow>
     list_all (\<lambda>r. r \<noteq> WriteError \<and> r \<noteq> Wrote 0) (fd_script w) \<and>
     n \<le> length (filter (\<lambda>r. r \<noteq> Interrupted) (fd_script w))"

lemma fd_write_loop_good:
  "list_all (\<lambda>r. r \<noteq> WriteError \<and> r \<noteq> Wrote 0) script \<Longrightarrow>
     length p + n \<le> length (filter (\<lambda>r. r \<noteq> Interrupted) script) \<Longrightarrow>
     \<exists>rest. fd_write_loop script out p len = Some (int len, \<lparr>fd_out = out @ p, fd_script = rest\<rparr>) \<and>
       fd_good n \<lparr>fd_out = out @ p, fd_script = rest\<rparr>"
proof (induction script out p len rule: fd_write_loop.induct)
  case (3 r script out c p len)
  show ?case
  proof (cases r)
    case (Wrote k)
    let ?k = "min k (length (c # p))"
    have pos: "0 < ?k" using 3(3) Wrote by (cases k) auto
    have "length (drop ?k (c # p)) + n \<le> length (filter (\<lambda>r. r \<noteq> Interrupted) script)"
      using 3(4) pos unfolding Wrote by (simp add: min_def split: if_splits)
    then have "\<exists>rest. fd_write_loop script (out @ take ?k (c # p)) (drop ?k (c # p)) len =
        Some (int len, \<lparr>fd_out = (out @ take ?k (c # p)) @ drop ?k (c # p), fd_script = rest\<rparr>) \<and>
        fd_good n \<lparr>fd_out = (out @ take ?k (c # p)) @ drop ?k (c # p), fd_script = rest\<rparr>"
      using 3(1) [OF Wrote refl pos] 3(3) by simp
    then show ?thesis using Wrote pos
      by (simp only: fd_write_loop.simps Let_def sys_write.case append_assoc append_take_drop_id if_True)
  qed (use 3 in auto)
qed (auto simp: fd_good_def)

interpretation fd_writer: binary_writer compy_fd_writer fd_out fd_good
proof
  fix d :: string and n w
  assume "fd_good (length d + n) w"
  then show "\<exists>w'. w_write compy_fd_writer (w_lock compy_fd_writer w) d = Some (int (length d), w') \<and>
      fd_out (w_unlock compy_fd_writer w') = fd_out w @ d \<and> fd_good n (w_unlock compy_fd_writer w')"
    using fd_write_loop_good [of "fd_script w" d n "fd_out w" "length d"]
    by (auto simp: compy_fd_writer_def FdWriter_write_def FdWriter_lock_def FdWriter_unlock_def
        fd_good_def)
qed

section \<open>Properties\<close>

fun accepts :: "sys_write \<Rightarrow> nat" where
  "accepts (Wrote n) = n"
| "accepts Interrupted = 0"
| "accepts WriteError = 0"

lemma fd_write_loop_all:
  "list_all (\<lambda>r. r \<noteq> WriteError \<and> r \<noteq> Wrote 0) script \<Longrightarrow> length p \<le> sum_list (map accepts script) \<Longrightarrow>
     \<exists>rest. fd_write_loop script out p len = Some (int len, \<lparr>fd_out = out @ p, fd_script = rest\<rparr>)"
proof (induction script out p len rule: fd_write_loop.induct)
  case (3 r script out c p len)
  show ?case
  proof (cases r)
    case (Wrote n)
    let ?n = "min n (length (c # p))"
    have pos: "0 < ?n" using 3(3) Wrote by (cases n) auto
    have "length (drop ?n (c # p)) \<le> sum_list (map accepts script)"
      using 3(4) Wrote by (auto simp: min_def)
    then have "\<exists>rest. fd_write_loop script (out @ take ?n (c # p)) (drop ?n (c # p)) len =
        Some (int len, \<lparr>fd_out = (out @ take ?n (c # p)) @ drop ?n (c # p), fd_script = rest\<rparr>)"
      using 3(1) [OF Wrote refl pos] 3(3) by simp
    then show ?thesis using Wrote pos
      by (simp only: fd_write_loop.simps Let_def sys_write.case append_assoc append_take_drop_id if_True)
  qed (use 3 in auto)
qed auto

text \<open>
  The file-descriptor writer copes with short writes and interruptions: if the system calls
  neither fail nor accept nothing, and together accept the data, everything is written, in order,
  and the length of the data is returned.
\<close>

theorem FdWriter_write_complete:
  assumes "list_all (\<lambda>r. r \<noteq> WriteError \<and> r \<noteq> Wrote 0) (fd_script self)"
    and "length data \<le> sum_list (map accepts (fd_script self))"
  shows "\<exists>rest. FdWriter_write self data =
     Some (int (length data), \<lparr>fd_out = fd_out self @ data, fd_script = rest\<rparr>)"
  using fd_write_loop_all [OF assms] by (simp add: FdWriter_write_def)

theorem FdWriter_write_complete_witness:
  "\<exists>rest. FdWriter_write \<lparr>fd_out = ''x'', fd_script = [Wrote 2, Interrupted, Wrote 9]\<rparr> ''RTSP'' =
     Some (4, \<lparr>fd_out = ''xRTSP'', fd_script = rest\<rparr>)"
  using FdWriter_write_complete
    [of "\<lparr>fd_out = ''x'', fd_script = [Wrote 2, Interrupted, Wrote 9]\<rparr>" "''RTSP''"]
  by simp

end
