(* ===== verification/Messages.thy ===== *)
theory Messages
  imports Parsing Writers
begin

text \<open>
  The parts of an RTSP message, \<open>src/types/*.c\<close>: method, request URI, version, status code, reason
  phrase, header, header map, body, request line and response line, each with its parser, its
  serialiser and its equality. A parser gets the object it fills and returns it with the
  result, because some parsers assign part of it before a later step fails. A header map is
  the list of its used entries; the capacity of the array is \<open>COMPY_HEADER_MAP_CAPACITY\<close>.
\<close>

section \<open>Method, request URI, reason phrase\<close>

type_synonym Compy_Method = string
type_synonym Compy_RequestUri = string
type_synonym Compy_ReasonPhrase = string
type_synonym Compy_MessageBody = string
type_synonym Compy_StatusCode = u16

definition COMPY_METHOD_OPTIONS :: Compy_Method where "COMPY_METHOD_OPTIONS = ''OPTIONS''"
definition COMPY_METHOD_DESCRIBE :: Compy_Method where "COMPY_METHOD_DESCRIBE = ''DESCRIBE''"
definition COMPY_METHOD_SETUP :: Compy_Method where "COMPY_METHOD_SETUP = ''SETUP''"
definition COMPY_METHOD_PLAY :: Compy_Method where "COMPY_METHOD_PLAY = ''PLAY''"
definition COMPY_METHOD_PAUSE :: Compy_Method where "COMPY_METHOD_PAUSE = ''PAUSE''"
definition COMPY_METHOD_TEARDOWN :: Compy_Method where "COMPY_METHOD_TEARDOWN = ''TEARDOWN''"
definition COMPY_METHOD_GET_PARAMETER :: Compy_Method where
  "COMPY_METHOD_GET_PARAMETER = ''GET_PARAMETER''"

definition Compy_Method_parse ::
  "Compy_Method \<Rightarrow> string \<Rightarrow> (Compy_ParseResult \<times> Compy_Method) option" where
  "Compy_Method_parse self backup =
     MATCH (Some (compy_match_whitespaces backup)) backup self (\<lambda>start.
     MATCH (compy_match_ident start) start self (\<lambda>input.
       Some (Compy_ParseResult_complete (length backup - length input),
             from_ptrdiff start input)))"

definition Compy_Method_eq :: "Compy_Method \<Rightarrow> Compy_Method \<Rightarrow> bool" where
  "Compy_Method_eq lhs rhs \<longleftrightarrow> lhs = rhs"

definition Compy_RequestUri_parse ::
  "Compy_RequestUri \<Rightarrow> string \<Rightarrow> (Compy_ParseResult \<times> Compy_RequestUri) option" where
  "Compy_RequestUri_parse self backup =
     MATCH (Some (compy_match_whitespaces backup)) backup self (\<lambda>start.
     MATCH (Some (compy_match_non_whitespaces start)) start self (\<lambda>input.
       Some (Compy_ParseResult_complete (length backup - length input),
             from_ptrdiff start input)))"

definition Compy_RequestUri_eq :: "Compy_RequestUri \<Rightarrow> Compy_RequestUri \<Rightarrow> bool" where
  "Compy_RequestUri_eq lhs rhs \<longleftrightarrow> lhs = rhs"

text \<open>\<open>from_ptrdiff (start, input.ptr - strlen CRLF)\<close>: the line without its end.\<close>

definition line_before :: "string \<Rightarrow> string \<Rightarrow> string" where
  "line_before start input = take (length start - length input - length CRLF) start"

definition Compy_ReasonPhrase_parse ::
  "Compy_ReasonPhrase \<Rightarrow> string \<Rightarrow> (Compy_ParseResult \<times> Compy_ReasonPhrase) option" where
  "Compy_ReasonPhrase_parse self backup =
     MATCH (Some (compy_match_whitespaces backup)) backup self (\<lambda>start.
     MATCH (Some (compy_match_until_crlf start)) start self (\<lambda>input.
       Some (Compy_ParseResult_complete (length backup - length input),
             line_before start input)))"

definition Compy_ReasonPhrase_eq :: "Compy_ReasonPhrase \<Rightarrow> Compy_ReasonPhrase \<Rightarrow> bool" where
  "Compy_ReasonPhrase_eq lhs rhs \<longleftrightarrow> lhs = rhs"

section \<open>Version and status code\<close>

record Compy_RtspVersion =
  ver_major :: u8
  ver_minor :: u8

definition Compy_RtspVersion_serialize ::
  "Compy_RtspVersion \<Rightarrow> 'w Compy_Writer \<Rightarrow> 'w \<Rightarrow> (int \<times> 'w) option" where
  "Compy_RtspVersion_serialize self W w =
     w_writef W w (''RTSP/'' @ show_nat (unat (ver_major self)) @ ''.'' @
       show_nat (unat (ver_minor self)))"

definition Compy_RtspVersion_parse ::
  "Compy_RtspVersion \<Rightarrow> string \<Rightarrow> (Compy_ParseResult \<times> Compy_RtspVersion) option" where
  "Compy_RtspVersion_parse self backup =
     MATCH (Some (compy_match_whitespaces backup)) backup self (\<lambda>input.
     MATCH (Some (compy_match_str input ''RTSP/'')) input self (\<lambda>major_start.
     MATCH (compy_match_numeric major_start) major_start self (\<lambda>major_end.
     MATCH (Some (compy_match_char major_end CHR ''.'')) major_end self (\<lambda>minor_start.
     MATCH (compy_match_numeric minor_start) minor_start self (\<lambda>input.
       let major = from_ptrdiff major_start major_end;
           minor = from_ptrdiff minor_start input
       in case sscanf_unsigned major of
            None \<Rightarrow> Some (Compy_ParseResult_Failure
                      (Compy_ParseError_TypeMismatch Compy_ParseType_Int major), self)
          | Some major_int \<Rightarrow>
              (case sscanf_unsigned minor of
                 None \<Rightarrow> Some (Compy_ParseResult_Failure
                           (Compy_ParseError_TypeMismatch Compy_ParseType_Int minor), self)
               | Some minor_int \<Rightarrow>
                   Some (Compy_ParseResult_complete (length backup - length input),
                         \<lparr>ver_major = major_int, ver_minor = minor_int\<rparr>)))))))"

definition Compy_RtspVersion_eq :: "Compy_RtspVersion \<Rightarrow> Compy_RtspVersion \<Rightarrow> bool" where
  "Compy_RtspVersion_eq lhs rhs \<longleftrightarrow>
     ver_major lhs = ver_major rhs \<and> ver_minor lhs = ver_minor rhs"

definition Compy_StatusCode_serialize ::
  "Compy_StatusCode \<Rightarrow> 'w Compy_Writer \<Rightarrow> 'w \<Rightarrow> (int \<times> 'w) option" where
  "Compy_StatusCode_serialize self W w = w_writef W w (show_nat (unat self))"

definition Compy_StatusCode_parse ::
  "Compy_StatusCode \<Rightarrow> string \<Rightarrow> (Compy_ParseResult \<times> Compy_StatusCode) option" where
  "Compy_StatusCode_parse self backup =
     MATCH (Some (compy_match_whitespaces backup)) backup self (\<lambda>start.
     MATCH (compy_match_numeric start) start self (\<lambda>input.
       let code = from_ptrdiff start input
       in case sscanf_unsigned code of
            None \<Rightarrow> Some (Compy_ParseResult_Failure
                      (Compy_ParseError_TypeMismatch Compy_ParseType_Int code), self)
          | Some code_int \<Rightarrow>
              Some (Compy_ParseResult_complete (length backup - length input), code_int)))"

definition Compy_StatusCode_eq :: "Compy_StatusCode \<Rightarrow> Compy_StatusCode \<Rightarrow> bool" where
  "Compy_StatusCode_eq lhs rhs \<longleftrightarrow> lhs = rhs"

definition COMPY_STATUS_OK :: Compy_StatusCode where "COMPY_STATUS_OK = 200"
definition COMPY_STATUS_UNAUTHORIZED :: Compy_StatusCode where "COMPY_STATUS_UNAUTHORIZED = 401"
definition COMPY_STATUS_INTERNAL_SERVER_ERROR :: Compy_StatusCode where
  "COMPY_STATUS_INTERNAL_SERVER_ERROR = 500"
definition COMPY_STATUS_OPTION_NOT_SUPPORTED :: Compy_StatusCode where
  "COMPY_STATUS_OPTION_NOT_SUPPORTED = 551"

section \<open>Headers\<close>

record Compy_Header =
  hdr_key :: string
  hdr_value :: string

definition COMPY_HEADER_AUTHORIZATION :: string where "COMPY_HEADER_AUTHORIZATION = ''Authorization''"
definition COMPY_HEADER_CONTENT_LENGTH :: string where "COMPY_HEADER_CONTENT_LENGTH = ''Content-Length''"
definition COMPY_HEADER_C_SEQ :: string where "COMPY_HEADER_C_SEQ = ''CSeq''"
definition COMPY_HEADER_REQUIRE :: string where "COMPY_HEADER_REQUIRE = ''Require''"
definition COMPY_HEADER_UNSUPPORTED :: string where "COMPY_HEADER_UNSUPPORTED = ''Unsupported''"
definition COMPY_HEADER_WWW_AUTHENTICATE :: string where
  "COMPY_HEADER_WWW_AUTHENTICATE = ''WWW-Authenticate''"

definition Compy_Header_serialize ::
  "Compy_Header \<Rightarrow> 'w Compy_Writer \<Rightarrow> 'w \<Rightarrow> (int \<times> 'w) option" where
  "Compy_Header_serialize self W w =
     compy_write_slices W w [hdr_key self, '': '', hdr_value self, CRLF]"

definition Compy_Header_parse ::
  "Compy_Header \<Rightarrow> string \<Rightarrow> (Compy_ParseResult \<times> Compy_Header) option" where
  "Compy_Header_parse self backup =
     MATCH (Some (compy_match_whitespaces backup)) backup self (\<lambda>key_start.
     MATCH (compy_match_header_name key_start) key_start self (\<lambda>key_end.
     MATCH (Some (compy_match_whitespaces key_end)) key_end self (\<lambda>input.
     MATCH (Some (compy_match_char input CHR '':'')) input self (\<lambda>input.
     MATCH (Some (compy_match_whitespaces input)) input self (\<lambda>value_start.
     MATCH (Some (compy_match_until_crlf value_start)) value_start self (\<lambda>input.
       Some (Compy_ParseResult_complete (length backup - length input),
             \<lparr>hdr_key = from_ptrdiff key_start key_end,
              hdr_value = line_before value_start input\<rparr>)))))))"

definition Compy_Header_eq :: "Compy_Header \<Rightarrow> Compy_Header \<Rightarrow> bool" where
  "Compy_Header_eq lhs rhs \<longleftrightarrow> hdr_key lhs = hdr_key rhs \<and> hdr_value lhs = hdr_value rhs"

section \<open>The parsers consume a prefix, and are not disturbed by more input\<close>

lemma line_before_extend [simp]:
  "length b \<le> length a \<Longrightarrow> line_before (a @ ext) (b @ ext) = line_before a b"
  by (simp add: line_before_def)

lemmas part_defs =
  Compy_Method_parse_def Compy_RequestUri_parse_def Compy_ReasonPhrase_parse_def
  Compy_RtspVersion_parse_def Compy_StatusCode_parse_def Compy_Header_parse_def


interpretation method_parser: incremental_parser Compy_Method_parse
  unfolding part_defs match_defs
proof (unfold_locales, goal_cases)
  case 1
  then show ?case by (auto simp: MATCH_complete Let_def split: option.split_asm dest!: match_bounds)
next
  case (2 self input off self' ext)
  from 2(1) show ?case
    by - (erule MATCH_extend, erule match_steps,
      ((erule MATCH_extend, erule match_steps)+; auto simp: Let_def split: option.splits))
qed

interpretation uri_parser: incremental_parser Compy_RequestUri_parse
  unfolding part_defs match_defs
proof (unfold_locales, goal_cases)
  case 1
  then show ?case 
    by (fastforce simp: MATCH_complete compy_match_until_complete non_whitespace_matcher_def
      append_eq_Cons_conv Cons_eq_append_conv)
next
  case (2 self input off self' ext)
  from 2(1) show ?case
    by - (erule MATCH_extend, erule match_steps,
      ((erule MATCH_extend, erule match_steps)+; auto simp: Let_def split: option.splits))
qed

interpretation reason_parser: incremental_parser Compy_ReasonPhrase_parse
  unfolding part_defs match_defs
proof (unfold_locales, goal_cases)
  case 1
  then show ?case by (auto simp: MATCH_complete Let_def split: option.split_asm dest!: match_bounds)
next
  case (2 self input off self' ext)
  from 2(1) show ?case
    by - (erule MATCH_extend, erule match_steps,
      ((erule MATCH_extend, erule match_steps)+; auto simp: Let_def split: option.splits))
qed

interpretation version_parser: incremental_parser Compy_RtspVersion_parse
  unfolding part_defs match_defs
proof (unfold_locales, goal_cases)
  case 1
  then show ?case by (clarsimp simp: MATCH_complete Let_def) (auto split: option.split_asm dest!: match_bounds)
next
  case (2 self input off self' ext)
  from 2(1) show ?case
    by - (erule MATCH_extend, erule match_steps,
      ((erule MATCH_extend, erule match_steps)+; auto simp: Let_def split: option.splits))
qed

interpretation status_parser: incremental_parser Compy_StatusCode_parse
  unfolding part_defs match_defs
proof (unfold_locales, goal_cases)
  case 1
  then show ?case by (auto simp: MATCH_complete Let_def split: option.split_asm dest!: match_bounds)
next
  case (2 self input off self' ext)
  from 2(1) show ?case
    by - (erule MATCH_extend, erule match_steps,
      ((erule MATCH_extend, erule match_steps)+; auto simp: Let_def split: option.splits))
qed

interpretation header_parser: incremental_parser Compy_Header_parse
  unfolding part_defs match_defs
proof (unfold_locales, goal_cases)
  case 1
  then show ?case by (auto simp: MATCH_complete Let_def split: option.split_asm dest!: match_bounds)
next
  case (2 self input off self' ext)
  from 2(1) show ?case
    by - (erule MATCH_extend, erule match_steps,
      ((erule MATCH_extend, erule match_steps)+; auto simp: Let_def split: option.splits))
qed

section \<open>Header maps\<close>

type_synonym Compy_HeaderMap = "Compy_Header list"

definition COMPY_HEADER_MAP_CAPACITY :: nat where
  "COMPY_HEADER_MAP_CAPACITY = 32"

definition Compy_HeaderMap_empty :: Compy_HeaderMap where
  "Compy_HeaderMap_empty = []"

definition Compy_HeaderMap_is_full :: "Compy_HeaderMap \<Rightarrow> bool" where
  "Compy_HeaderMap_is_full self \<longleftrightarrow> COMPY_HEADER_MAP_CAPACITY = length self"

fun Compy_HeaderMap_find :: "Compy_HeaderMap \<Rightarrow> string \<Rightarrow> string option" where
  "Compy_HeaderMap_find [] key = None"
| "Compy_HeaderMap_find (h # self) key =
     (if hdr_key h = key then Some (hdr_value h) else Compy_HeaderMap_find self key)"

definition Compy_HeaderMap_contains_key :: "Compy_HeaderMap \<Rightarrow> string \<Rightarrow> bool" where
  "Compy_HeaderMap_contains_key self key \<longleftrightarrow> Compy_HeaderMap_find self key \<noteq> None"

text \<open>Appending to a full map fails its \<open>assert\<close>.\<close>

definition Compy_HeaderMap_append :: "Compy_HeaderMap \<Rightarrow> Compy_Header \<Rightarrow> Compy_HeaderMap option" where
  "Compy_HeaderMap_append self h =
     (if Compy_HeaderMap_is_full self then None else Some (self @ [h]))"

fun header_map_serialize_loop ::
  "Compy_HeaderMap \<Rightarrow> 'w Compy_Writer \<Rightarrow> int \<Rightarrow> 'w \<Rightarrow> (int \<times> 'w) option" where
  "header_map_serialize_loop [] W result w =
     CHK_WRITE_ERR result (w_write W w CRLF) (\<lambda>result w. Some (result, w))"
| "header_map_serialize_loop (h # self) W result w =
     CHK_WRITE_ERR result (Compy_Header_serialize h W w) (header_map_serialize_loop self W)"

definition Compy_HeaderMap_serialize ::
  "Compy_HeaderMap \<Rightarrow> 'w Compy_Writer \<Rightarrow> 'w \<Rightarrow> (int \<times> 'w) option" where
  "Compy_HeaderMap_serialize self W w = header_map_serialize_loop self W 0 w"

text \<open>
  The loop of the header map parser ends because a header that parses consumes input.
\<close>

function header_map_parse_loop ::
  "string \<Rightarrow> Compy_HeaderMap \<Rightarrow> string \<Rightarrow> (Compy_ParseResult \<times> Compy_HeaderMap) option" where
  "header_map_parse_loop backup self input =
     (if ends_with input [CHR 0x0D] then Some (Compy_ParseResult_partial, self)
      else if starts_with input CRLF
        then Some (Compy_ParseResult_complete
               (length backup - length input + length CRLF), self)
      else if Compy_HeaderMap_is_full self
        then Some (Compy_ParseResult_Failure Compy_ParseError_HeaderMapOverflow, self)
      else
        (case Compy_Header_parse \<lparr>hdr_key = [], hdr_value = []\<rparr> input of
           None \<Rightarrow> None
         | Some (Compy_ParseResult_Success (Compy_ParseStatus_Complete offset), header) \<Rightarrow>
             (case Compy_HeaderMap_append self header of
                None \<Rightarrow> None
              | Some self \<Rightarrow> header_map_parse_loop backup self (drop offset input))
         | Some (res, _) \<Rightarrow> Some (res, self)))"
  by pat_completeness auto
termination
  by (relation "measure (\<lambda>(_, _, input). length input)") (auto dest!: header_parser.consumes)

declare header_map_parse_loop.simps [simp del]

definition Compy_HeaderMap_parse ::
  "Compy_HeaderMap \<Rightarrow> string \<Rightarrow> (Compy_ParseResult \<times> Compy_HeaderMap) option" where
  "Compy_HeaderMap_parse self input = header_map_parse_loop input [] input"

fun header_map_eq_loop :: "Compy_HeaderMap \<Rightarrow> Compy_HeaderMap \<Rightarrow> bool" where
  "header_map_eq_loop (l # lhs) (r # rhs) \<longleftrightarrow>
     (if \<not> Compy_Header_eq l r then False else header_map_eq_loop lhs rhs)"
| "header_map_eq_loop _ _ \<longleftrightarrow> True"

definition Compy_HeaderMap_eq :: "Compy_HeaderMap \<Rightarrow> Compy_HeaderMap \<Rightarrow> bool" where
  "Compy_HeaderMap_eq lhs rhs \<longleftrightarrow>
     (if length lhs \<noteq> length rhs then False else header_map_eq_loop lhs rhs)"

section \<open>Body, request line, response line\<close>

definition Compy_MessageBody_empty :: Compy_MessageBody where
  "Compy_MessageBody_empty = []"

definition Compy_MessageBody_parse ::
  "Compy_MessageBody \<Rightarrow> string \<Rightarrow> nat \<Rightarrow> Compy_ParseResult \<times> Compy_MessageBody" where
  "Compy_MessageBody_parse self input content_length =
     (if length input < content_length then (Compy_ParseResult_partial, self)
      else if content_length = 0 then (Compy_ParseResult_complete 0, [])
      else (Compy_ParseResult_complete content_length, take content_length input))"

definition Compy_MessageBody_eq :: "Compy_MessageBody \<Rightarrow> Compy_MessageBody \<Rightarrow> bool" where
  "Compy_MessageBody_eq lhs rhs \<longleftrightarrow> lhs = rhs"

record Compy_RequestLine =
  rql_method :: Compy_Method
  rql_uri :: Compy_RequestUri
  rql_version :: Compy_RtspVersion

definition Compy_RequestLine_serialize ::
  "Compy_RequestLine \<Rightarrow> 'w Compy_Writer \<Rightarrow> 'w \<Rightarrow> (int \<times> 'w) option" where
  "Compy_RequestLine_serialize self W w =
     CHK_WRITE_ERR 0 (w_write W w (rql_method self)) (\<lambda>result w.
     CHK_WRITE_ERR result (w_write W w '' '') (\<lambda>result w.
     CHK_WRITE_ERR result (w_write W w (rql_uri self)) (\<lambda>result w.
     CHK_WRITE_ERR result (w_write W w '' '') (\<lambda>result w.
     CHK_WRITE_ERR result (Compy_RtspVersion_serialize (rql_version self) W w) (\<lambda>result w.
     CHK_WRITE_ERR result (w_write W w CRLF) (\<lambda>result w. Some (result, w)))))))"

definition Compy_RequestLine_parse ::
  "Compy_RequestLine \<Rightarrow> string \<Rightarrow> (Compy_ParseResult \<times> Compy_RequestLine) option" where
  "Compy_RequestLine_parse self backup =
     MATCH_INTO (Compy_Method_parse (rql_method self) backup) backup
       (\<lambda>x. self\<lparr>rql_method := x\<rparr>) (\<lambda>self input.
     MATCH_INTO (Compy_RequestUri_parse (rql_uri self) input) input
       (\<lambda>x. self\<lparr>rql_uri := x\<rparr>) (\<lambda>self input.
     MATCH_INTO (Compy_RtspVersion_parse (rql_version self) input) input
       (\<lambda>x. self\<lparr>rql_version := x\<rparr>) (\<lambda>self input.
     MATCH (Some (compy_match_str input CRLF)) input self (\<lambda>input.
       Some (Compy_ParseResult_complete (length backup - length input), self)))))"

definition Compy_RequestLine_eq :: "Compy_RequestLine \<Rightarrow> Compy_RequestLine \<Rightarrow> bool" where
  "Compy_RequestLine_eq lhs rhs \<longleftrightarrow>
     Compy_Method_eq (rql_method lhs) (rql_method rhs) \<and>
     Compy_RequestUri_eq (rql_uri lhs) (rql_uri rhs) \<and>
     Compy_RtspVersion_eq (rql_version lhs) (rql_version rhs)"

record Compy_ResponseLine =
  rsl_version :: Compy_RtspVersion
  rsl_code :: Compy_StatusCode
  rsl_reason :: Compy_ReasonPhrase

definition Compy_ResponseLine_serialize ::
  "Compy_ResponseLine \<Rightarrow> 'w Compy_Writer \<Rightarrow> 'w \<Rightarrow> (int \<times> 'w) option" where
  "Compy_ResponseLine_serialize self W w =
     CHK_WRITE_ERR 0 (Compy_RtspVersion_serialize (rsl_version self) W w) (\<lambda>result w.
     CHK_WRITE_ERR result (w_write W w '' '') (\<lambda>result w.
     CHK_WRITE_ERR result (Compy_StatusCode_serialize (rsl_code self) W w) (\<lambda>result w.
     CHK_WRITE_ERR result (w_write W w '' '') (\<lambda>result w.
     CHK_WRITE_ERR result (w_write W w (rsl_reason self)) (\<lambda>result w.
     CHK_WRITE_ERR result (w_write W w CRLF) (\<lambda>result w. Some (result, w)))))))"

definition Compy_ResponseLine_parse ::
  "Compy_ResponseLine \<Rightarrow> string \<Rightarrow> (Compy_ParseResult \<times> Compy_ResponseLine) option" where
  "Compy_ResponseLine_parse self backup =
     MATCH_INTO (Compy_RtspVersion_parse (rsl_version self) backup) backup
       (\<lambda>x. self\<lparr>rsl_version := x\<rparr>) (\<lambda>self input.
     MATCH_INTO (Compy_StatusCode_parse (rsl_code self) input) input
       (\<lambda>x. self\<lparr>rsl_code := x\<rparr>) (\<lambda>self input.
     MATCH_INTO (Compy_ReasonPhrase_parse (rsl_reason self) input) input
       (\<lambda>x. self\<lparr>rsl_reason := x\<rparr>) (\<lambda>self input.
       Some (Compy_ParseResult_complete (length backup - length input), self))))"

definition Compy_ResponseLine_eq :: "Compy_ResponseLine \<Rightarrow> Compy_ResponseLine \<Rightarrow> bool" where
  "Compy_ResponseLine_eq lhs rhs \<longleftrightarrow>
     Compy_RtspVersion_eq (rsl_version lhs) (rsl_version rhs) \<and>
     rsl_code lhs = rsl_code rhs \<and>
     Compy_ReasonPhrase_eq (rsl_reason lhs) (rsl_reason rhs)"

subsection \<open>The composed parsers keep the contract\<close>

interpretation request_line_parser: incremental_parser Compy_RequestLine_parse
  unfolding Compy_RequestLine_parse_def
proof (unfold_locales, goal_cases)
  case 1
  then show ?case
    by (auto elim!: method_parser.MATCH_INTO_consumes uri_parser.MATCH_INTO_consumes
        version_parser.MATCH_INTO_consumes simp: MATCH_complete dest!: match_str_bounds)
next
  case (2 self input off self' ext)
  from 2(1) show ?case
    by - (erule method_parser.MATCH_INTO_step [OF _ 2(2)], erule uri_parser.MATCH_INTO_step [OF _ 2(2)],
      erule version_parser.MATCH_INTO_step [OF _ 2(2)], erule MATCH_extend, erule match_steps, auto)
qed

interpretation response_line_parser: incremental_parser Compy_ResponseLine_parse
  unfolding Compy_ResponseLine_parse_def
proof (unfold_locales, goal_cases)
  case 1
  then show ?case
    by (auto elim!: status_parser.MATCH_INTO_consumes reason_parser.MATCH_INTO_consumes
        version_parser.MATCH_INTO_consumes)
next
  case (2 self input off self' ext)
  from 2(1) show ?case
    by - (erule version_parser.MATCH_INTO_step [OF _ 2(2)], erule status_parser.MATCH_INTO_step [OF _ 2(2)],
      erule reason_parser.MATCH_INTO_step [OF _ 2(2)], auto)
qed

lemma ends_with_append_cr:
  "no_cr_end ext \<Longrightarrow> \<not> ends_with input [CHR 0x0D] \<Longrightarrow> \<not> ends_with (input @ ext) [CHR 0x0D]"
  by (cases "ext = []") (auto simp: no_cr_end_def ends_with_single)

lemma starts_with_extend: "starts_with input pre \<Longrightarrow> starts_with (input @ ext) pre"
  unfolding starts_with_def by (metis append_take_drop_id append.assoc append_eq_conv_conj)

lemma starts_with_length: "starts_with input pre \<Longrightarrow> length pre \<le> length input"
  unfolding starts_with_def by (metis length_take min.cobounded1)

text \<open>One turn of the loop that ends in success.\<close>

lemma header_map_parse_loop_complete:
  "header_map_parse_loop backup self input = Some (Compy_ParseResult_complete off, self') \<longleftrightarrow>
     \<not> ends_with input [CHR 0x0D] \<and>
     (if starts_with input CRLF then off = length backup - length input + 2 \<and> self' = self
      else \<not> Compy_HeaderMap_is_full self \<and>
        (\<exists>n h. Compy_Header_parse \<lparr>hdr_key = [], hdr_value = []\<rparr> input =
             Some (Compy_ParseResult_complete n, h) \<and>
           header_map_parse_loop backup (self @ [h]) (drop n input) =
             Some (Compy_ParseResult_complete off, self')))"
  by (subst header_map_parse_loop.simps)
    (auto simp: Compy_HeaderMap_append_def CRLF_def
      split: option.split prod.split Compy_ParseResult.split Compy_ParseStatus.split)

lemma header_map_parse_loop_induct [consumes 1, case_names Done Step]:
  assumes "header_map_parse_loop backup self input = Some (Compy_ParseResult_complete off, self')"
    and "\<And>input. \<not> ends_with input [CHR 0x0D] \<Longrightarrow> starts_with input CRLF \<Longrightarrow>
        off = length backup - length input + 2 \<Longrightarrow> P self' input"
    and "\<And>self input n h. \<not> ends_with input [CHR 0x0D] \<Longrightarrow> \<not> starts_with input CRLF \<Longrightarrow>
        \<not> Compy_HeaderMap_is_full self \<Longrightarrow> 0 < n \<Longrightarrow> n \<le> length input \<Longrightarrow>
        Compy_Header_parse \<lparr>hdr_key = [], hdr_value = []\<rparr> input =
          Some (Compy_ParseResult_complete n, h) \<Longrightarrow>
        P (self @ [h]) (drop n input) \<Longrightarrow> P self input"
  shows "P self input"
  using assms(1)
proof (induction "length input" arbitrary: self input rule: less_induct)
  case less
  show ?case
  proof (cases "starts_with input CRLF")
    case True
    with less(2) assms(2) [of input] show ?thesis
      by (auto simp: header_map_parse_loop_complete [of backup self])
  next
    case False
    with less(2) obtain n h where *: "\<not> ends_with input [CHR 0x0D]" "\<not> Compy_HeaderMap_is_full self"
      "Compy_Header_parse \<lparr>hdr_key = [], hdr_value = []\<rparr> input = Some (Compy_ParseResult_complete n, h)"
      "header_map_parse_loop backup (self @ [h]) (drop n input) =
         Some (Compy_ParseResult_complete off, self')"
      by (auto simp: header_map_parse_loop_complete [of backup self])
    note n = header_parser.consumes [OF *(3)]
    with less(1) [OF _ *(4)] have "P (self @ [h]) (drop n input)" by auto
    with assms(3) [OF *(1) False *(2) _ _ *(3)] n show ?thesis by simp
  qed
qed

lemma header_map_parse_loop_consumes:
  assumes "header_map_parse_loop backup self input = Some (Compy_ParseResult_complete off, self')"
    and "length input \<le> length backup"
  shows "length backup - length input < off \<and> off \<le> length backup"
  using assms
proof (induction rule: header_map_parse_loop_induct)
  case (Done input)
  then show ?case using starts_with_length [OF Done(2)] by (auto simp: CRLF_def)
next
  case (Step self input n h)
  then have "length (drop n input) \<le> length backup" by simp
  with Step.IH Step.hyps Step.prems show ?case by (auto; linarith)
qed

lemma header_map_parse_loop_stable:
  assumes "header_map_parse_loop backup self input = Some (Compy_ParseResult_complete off, self')"
    and "length input \<le> length backup" "no_cr_end ext"
  shows "header_map_parse_loop (backup @ ext) self (input @ ext) =
     Some (Compy_ParseResult_complete off, self')"
  using assms
proof (induction rule: header_map_parse_loop_induct)
  case (Done input)
  then show ?case
    by (simp add: header_map_parse_loop_complete ends_with_append_cr starts_with_extend)
next
  case (Step self input n h)
  have "\<not> starts_with (input @ ext) CRLF"
  proof
    assume "starts_with (input @ ext) CRLF"
    then have "take 2 (input @ ext) = CRLF" by (simp add: starts_with_def CRLF_def numeral_2_eq_2)
    with Step show False
      by (cases input; cases "tl input") (auto simp: starts_with_def CRLF_def ends_with_single)
  qed
  with Step show ?case
    by (subst header_map_parse_loop_complete)
      (auto simp: ends_with_append_cr header_parser.stable)
qed

interpretation header_map_parser: incremental_parser Compy_HeaderMap_parse
proof (unfold_locales, goal_cases)
  case (1 self input off self')
  then show ?case
    using header_map_parse_loop_consumes [of input "[]" input] by (simp add: Compy_HeaderMap_parse_def)
next
  case (2 self input off self' ext)
  then show ?case
    using header_map_parse_loop_stable [of input "[]" input] by (simp add: Compy_HeaderMap_parse_def)
qed

text \<open>The parser never stores more than the capacity, and its \<open>assert\<close> never fails.\<close>

lemma header_map_parse_loop_capacity:
  assumes "header_map_parse_loop backup self input = Some (res, self')"
    and "length self \<le> COMPY_HEADER_MAP_CAPACITY"
  shows "length self' \<le> COMPY_HEADER_MAP_CAPACITY"
  using assms
proof (induction "length input" arbitrary: self input rule: less_induct)
  case less
  note turn = less(2) [unfolded header_map_parse_loop.simps [of backup self input]]
  have "length self' \<le> COMPY_HEADER_MAP_CAPACITY"
    if "Compy_Header_parse \<lparr>hdr_key = [], hdr_value = []\<rparr> input = Some (Compy_ParseResult_complete n, h)"
      "header_map_parse_loop backup (self @ [h]) (drop n input) = Some (res, self')"
      "length self < COMPY_HEADER_MAP_CAPACITY" for n h
    using less(1) [OF _ that(2)] header_parser.consumes [OF that(1)] that(3) by auto
  with turn less(3) show ?case
    by (auto simp: Compy_HeaderMap_append_def Compy_HeaderMap_is_full_def
        split: if_splits option.splits prod.splits Compy_ParseResult.splits Compy_ParseStatus.splits)
qed

text \<open>
  The \<open>input.ptr[0]\<close> of \<open>compy_match_ident\<close>, \<open>compy_match_header_name\<close> and \<open>compy_match_numeric\<close> is
  inside the slice after \<open>compy_match_whitespaces\<close> completed, because that leaves a character.
\<close>

lemma match_whitespaces_leaves_input:
  "compy_match_whitespaces input = Compy_ParseResult_complete n \<Longrightarrow> drop n input \<noteq> []"
  by (auto simp: compy_match_whitespaces_def compy_match_until_complete)

lemma match_char_leaves_input:
  "compy_match_char input c = Compy_ParseResult_complete n \<Longrightarrow> drop n input \<noteq> []"
  by (auto simp: compy_match_char_def compy_match_until_complete)

lemma first_matchers_fault:
  "compy_match_numeric input = None \<longleftrightarrow> input = []"
  "compy_match_ident input = None \<longleftrightarrow> input = []"
  "compy_match_header_name input = None \<longleftrightarrow> input = []"
  by (auto simp: compy_match_numeric_def compy_match_ident_def compy_match_header_name_def
      split: list.splits)

lemmas fault_simps = MATCH_fault MATCH_INTO_fault first_matchers_fault

lemma parts_no_fault [simp]:
  "Compy_Method_parse m input \<noteq> None" "Compy_RequestUri_parse u input \<noteq> None"
  "Compy_ReasonPhrase_parse r input \<noteq> None" "Compy_StatusCode_parse c input \<noteq> None"
  "Compy_Header_parse h input \<noteq> None"
  by (auto simp: part_defs fault_simps Let_def split: option.splits
      dest!: match_whitespaces_leaves_input)

lemma header_map_parse_loop_no_fault:
  "header_map_parse_loop backup self input \<noteq> None"
proof (induction "length input" arbitrary: self input rule: less_induct)
  case less
  have "header_map_parse_loop backup (self @ [h]) (drop n input) \<noteq> None"
    if "Compy_Header_parse \<lparr>hdr_key = [], hdr_value = []\<rparr> input = Some (Compy_ParseResult_complete n, h)" for n h
    using less [of "drop n input"] header_parser.consumes [OF that] by auto
  moreover have "Compy_Header_parse \<lparr>hdr_key = [], hdr_value = []\<rparr> input \<noteq> None" by simp
  ultimately show ?case
    by (subst header_map_parse_loop.simps)
      (auto simp: Compy_HeaderMap_append_def
        split: option.splits prod.splits Compy_ParseResult.splits Compy_ParseStatus.splits)
qed

lemma header_map_parse_no_fault [simp]: "Compy_HeaderMap_parse self input \<noteq> None"
  by (simp add: Compy_HeaderMap_parse_def header_map_parse_loop_no_fault)

lemma version_parse_fault:
  "Compy_RtspVersion_parse self input = None \<longleftrightarrow>
     (\<exists>sp. list_all whitespace_matcher sp \<and> input = sp @ ''RTSP/'')"
proof
  assume "Compy_RtspVersion_parse self input = None"
  then show "\<exists>sp. list_all whitespace_matcher sp \<and> input = sp @ ''RTSP/''"
    by (auto simp: Compy_RtspVersion_parse_def fault_simps Let_def compy_match_str_complete
        compy_match_whitespaces_def compy_match_until_complete Cons_eq_append_conv
        split: option.splits dest!: match_char_leaves_input)
next
  assume "\<exists>sp. list_all whitespace_matcher sp \<and> input = sp @ ''RTSP/''"
  then obtain sp where sp: "list_all whitespace_matcher sp" "input = sp @ CHR ''R'' # ''TSP/''" by auto
  then have "compy_match_whitespaces input = Compy_ParseResult_complete (length sp)"
    by (simp only: compy_match_whitespaces_def, subst compy_match_until_token)
      (simp_all add: whitespace_matcher_def)
  moreover have "compy_match_str ''RTSP/'' ''RTSP/'' = Compy_ParseResult_complete 5"
    by (simp add: compy_match_str_complete)
  ultimately show "Compy_RtspVersion_parse self input = None"
    using sp by (simp add: Compy_RtspVersion_parse_def compy_match_numeric_def)
qed

section \<open>The text of a part, and reading it back\<close>

definition version_text :: "Compy_RtspVersion \<Rightarrow> string" where
  "version_text v = ''RTSP/'' @ show_nat (unat (ver_major v)) @ ''.'' @ show_nat (unat (ver_minor v))"

definition header_text :: "Compy_Header \<Rightarrow> string" where
  "header_text h = hdr_key h @ '': '' @ hdr_value h @ CRLF"

definition headers_text :: "Compy_HeaderMap \<Rightarrow> string" where
  "headers_text m = concat (map header_text m) @ CRLF"

definition request_line_text :: "Compy_RequestLine \<Rightarrow> string" where
  "request_line_text l =
     rql_method l @ '' '' @ rql_uri l @ '' '' @ version_text (rql_version l) @ CRLF"

definition response_line_text :: "Compy_ResponseLine \<Rightarrow> string" where
  "response_line_text l =
     version_text (rsl_version l) @ '' '' @ show_nat (unat (rsl_code l)) @ '' '' @ rsl_reason l @ CRLF"

text \<open>What a writer must be able to write for a message to be written completely.\<close>

locale message_writer = reliable_writer +
  assumes ok_version: "ok (version_text v)"
    and ok_nat: "ok (show_nat n)"
    and ok_punct: "ok '' ''" "ok '': ''" "ok CRLF"
begin

lemma version_emits: "emits out (Compy_RtspVersion_serialize v W w) 0 w (version_text v)"
  using writef_emits [OF ok_version, of w v]
  by (simp add: Compy_RtspVersion_serialize_def version_text_def)

lemma status_emits: "emits out (Compy_StatusCode_serialize c W w) 0 w (show_nat (unat c))"
  by (simp add: Compy_StatusCode_serialize_def writef_emits ok_nat)

lemma header_emits:
  "ok (hdr_key h) \<Longrightarrow> ok (hdr_value h) \<Longrightarrow>
     emits out (Compy_Header_serialize h W w) 0 w (header_text h)"
  using compy_write_slices_emits [of "[hdr_key h, '': '', hdr_value h, CRLF]" w]
  by (simp add: Compy_Header_serialize_def header_text_def ok_punct)

lemma header_map_loop_emits:
  "list_all (\<lambda>h. ok (hdr_key h) \<and> ok (hdr_value h)) m \<Longrightarrow> 0 \<le> result \<Longrightarrow>
     emits out (header_map_serialize_loop m W result w) result w (headers_text m)"
proof (induction m arbitrary: result w)
  case Nil
  have "emits out (header_map_serialize_loop [] W result w) result w (CRLF @ [])"
    unfolding header_map_serialize_loop.simps
    by (rule emits_CHK_WRITE_ERR) (use Nil in \<open>auto intro: write_emits ok_punct emits_done\<close>)
  then show ?case by (simp add: headers_text_def)
next
  case (Cons h m)
  have "emits out (header_map_serialize_loop (h # m) W result w) result w (header_text h @ headers_text m)"
    unfolding header_map_serialize_loop.simps
    by (rule emits_CHK_WRITE_ERR) (use Cons in \<open>auto intro: header_emits\<close>)
  then show ?case by (simp add: headers_text_def)
qed

lemma header_map_emits:
  "list_all (\<lambda>h. ok (hdr_key h) \<and> ok (hdr_value h)) m \<Longrightarrow>
     emits out (Compy_HeaderMap_serialize m W w) 0 w (headers_text m)"
  by (simp add: Compy_HeaderMap_serialize_def header_map_loop_emits)

lemma request_line_emits:
  assumes "ok (rql_method l)" "ok (rql_uri l)"
  shows "emits out (Compy_RequestLine_serialize l W w) 0 w (request_line_text l)"
  unfolding Compy_RequestLine_serialize_def request_line_text_def
  by (intro emits_CHK_WRITE_ERR write_emits version_emits assms ok_punct,
      rule emits_append_Nil, intro emits_CHK_WRITE_ERR write_emits ok_punct)
    (auto intro: emits_done)

lemma response_line_emits:
  assumes "ok (rsl_reason l)"
  shows "emits out (Compy_ResponseLine_serialize l W w) 0 w (response_line_text l)"
  unfolding Compy_ResponseLine_serialize_def response_line_text_def
  by (intro emits_CHK_WRITE_ERR write_emits version_emits status_emits assms ok_punct,
      rule emits_append_Nil, intro emits_CHK_WRITE_ERR write_emits ok_punct)
    (auto intro: emits_done)

end

lemma nul_free_version_text [simp]: "nul_free (version_text v)"
  by (simp add: version_text_def)

interpretation string_message_writer: message_writer compy_string_writer "\<lambda>w. w" nul_free
  by unfold_locales simp_all

text \<open>
  A part that can be read back: the method is an identifier, the URI has no space, a header value
  is a line that does not start with a space.
\<close>

definition wf_method :: "Compy_Method \<Rightarrow> bool" where
  "wf_method m \<longleftrightarrow> m \<noteq> [] \<and> list_all ident_matcher m"

definition wf_uri :: "Compy_RequestUri \<Rightarrow> bool" where
  "wf_uri u \<longleftrightarrow> u \<noteq> [] \<and> list_all non_whitespace_matcher u"

definition wf_line :: "string \<Rightarrow> bool" where
  "wf_line v \<longleftrightarrow> crlf_free v \<and> \<not> starts_with v '' ''"

definition wf_header :: "Compy_Header \<Rightarrow> bool" where
  "wf_header h \<longleftrightarrow>
     hdr_key h \<noteq> [] \<and> list_all header_name_char_matcher (hdr_key h) \<and> wf_line (hdr_value h)"

lemma matcher_simps [simp]:
  "\<not> ident_matcher CHR '' ''" "\<not> header_name_char_matcher CHR '':''"
  "whitespace_matcher CHR '' ''" "\<not> non_whitespace_matcher CHR '' ''"
  by (auto simp: ident_matcher_def isalnum_def isalpha_def isdigit_def header_name_char_matcher_def
      whitespace_matcher_def non_whitespace_matcher_def)

lemma matcher_not_space:
  "ident_matcher c \<Longrightarrow> \<not> whitespace_matcher c" "header_name_char_matcher c \<Longrightarrow> \<not> whitespace_matcher c"
  "non_whitespace_matcher c \<Longrightarrow> \<not> whitespace_matcher c" "isdigit c \<Longrightarrow> \<not> whitespace_matcher c"
  by (auto simp: ident_matcher_def isalnum_def isalpha_def isdigit_def header_name_char_matcher_def
      whitespace_matcher_def non_whitespace_matcher_def)

lemma skip_spaces:
  "list_all whitespace_matcher sp \<Longrightarrow> t \<noteq> [] \<Longrightarrow> \<not> whitespace_matcher (hd t) \<Longrightarrow>
     compy_match_whitespaces (sp @ t) = Compy_ParseResult_complete (length sp)"
  by (cases t) (simp_all add: compy_match_whitespaces_def)

lemma match_token:
  "t \<noteq> [] \<Longrightarrow> list_all ident_matcher t \<Longrightarrow> \<not> ident_matcher d \<Longrightarrow>
     compy_match_ident (t @ d # rest) = Some (Compy_ParseResult_complete (length t))"
  "t \<noteq> [] \<Longrightarrow> list_all header_name_char_matcher t \<Longrightarrow> \<not> header_name_char_matcher d \<Longrightarrow>
     compy_match_header_name (t @ d # rest) = Some (Compy_ParseResult_complete (length t))"
  "t \<noteq> [] \<Longrightarrow> list_all isdigit t \<Longrightarrow> \<not> isdigit d \<Longrightarrow>
     compy_match_numeric (t @ d # rest) = Some (Compy_ParseResult_complete (length t))"
  using compy_match_until_token [of ident_matcher t d rest]
    compy_match_until_token [of header_name_char_matcher t d rest]
    compy_match_until_token [of numeric_matcher t d rest]
  by (cases t; simp add: compy_match_ident_def compy_match_header_name_def compy_match_numeric_def
      numeric_matcher_def [abs_def])+

lemma show_nat_all_digits [simp]: "list_all isdigit (show_nat n)"
  using show_nat_digits by (auto simp: list_all_iff)

lemma method_parse_text:
  assumes "wf_method m"
  shows "Compy_Method_parse self (m @ CHR '' '' # rest) =
     Some (Compy_ParseResult_complete (length m), m)"
proof -
  have "compy_match_whitespaces (m @ CHR '' '' # rest) = Compy_ParseResult_complete 0"
    using assms skip_spaces [of "[]" "m @ CHR '' '' # rest"]
    by (simp add: wf_method_def list_all_iff matcher_not_space)
  with assms show ?thesis
    by (simp add: Compy_Method_parse_def wf_method_def match_token)
qed

lemma uri_parse_text:
  assumes "wf_uri u"
  shows "Compy_RequestUri_parse self (CHR '' '' # u @ CHR '' '' # rest) =
     Some (Compy_ParseResult_complete (Suc (length u)), u)"
proof -
  have "compy_match_whitespaces ('' '' @ u @ CHR '' '' # rest) = Compy_ParseResult_complete (length '' '')"
    using assms by (intro skip_spaces) (auto simp: wf_uri_def list_all_iff matcher_not_space)
  with assms show ?thesis
    by (simp add: Compy_RequestUri_parse_def wf_uri_def compy_match_non_whitespaces_def Suc_diff_le)
qed

lemma version_parse_text:
  assumes "list_all whitespace_matcher sp" "\<not> isdigit d"
  shows "Compy_RtspVersion_parse self (sp @ version_text v @ d # rest) =
     Some (Compy_ParseResult_complete (length sp + length (version_text v)), v)"
proof -
  let ?major = "show_nat (unat (ver_major v))" and ?minor = "show_nat (unat (ver_minor v))"
  have "compy_match_whitespaces (sp @ version_text v @ d # rest) = Compy_ParseResult_complete (length sp)"
    using assms by (intro skip_spaces) (auto simp: version_text_def whitespace_matcher_def)
  moreover have "compy_match_str (''RTSP/'' @ ?major @ ''.'' @ ?minor @ d # rest) ''RTSP/'' =
      Compy_ParseResult_complete 5"
    using compy_match_str_append [of "''RTSP/''"] by simp
  moreover have "compy_match_numeric (?major @ CHR ''.'' # ?minor @ d # rest) =
      Some (Compy_ParseResult_complete (length ?major))"
    by (rule match_token) (simp_all, simp add: isdigit_def)
  moreover have "compy_match_char (CHR ''.'' # ?minor @ d # rest) CHR ''.'' = Compy_ParseResult_complete 1"
  proof -
    obtain c cs where c: "?minor = c # cs" by (cases ?minor) auto
    then have "c \<noteq> CHR ''.''"
      using show_nat_digits [of c "unat (ver_minor v)"] by (auto simp: isdigit_def)
    then show ?thesis
      using compy_match_until_token [of "char_matcher CHR ''.''" "''.''" c "cs @ d # rest"]
      by (simp add: compy_match_char_def char_matcher_def c)
  qed
  moreover have "compy_match_numeric (?minor @ d # rest) = Some (Compy_ParseResult_complete (length ?minor))"
    by (rule match_token) (simp_all add: assms)
  ultimately show ?thesis
    by (simp add: Compy_RtspVersion_parse_def version_text_def sscanf_unsigned_show_nat)
qed

lemma line_before_append [simp]: "line_before (v @ CRLF @ rest) rest = v"
  by (simp add: line_before_def CRLF_def)

lemma length_CRLF [simp]: "length CRLF = 2" "CRLF \<noteq> []"
  by (simp_all add: CRLF_def)

lemma drop_line [simp]: "drop (length v + 2) (v @ CRLF @ rest) = rest"
  by (simp add: CRLF_def)

lemma wf_line_skip_spaces:
  assumes "wf_line v"
  shows "compy_match_whitespaces (CHR '' '' # v @ CRLF @ rest) = Compy_ParseResult_complete 1"
proof -
  have "\<not> whitespace_matcher (hd (v @ CRLF @ rest))"
    using assms by (cases v) (auto simp: wf_line_def starts_with_def whitespace_matcher_def CRLF_def)
  then show ?thesis
    using skip_spaces [of "'' ''" "v @ CRLF @ rest"] by (simp add: CRLF_def)
qed

lemma CRLF_not_digit: "\<exists>rest'. CRLF @ rest = CHR 0x0D # rest'" "\<not> isdigit CHR 0x0D" "\<not> isdigit CHR '' ''"
  by (auto simp: CRLF_def isdigit_def)

lemma header_parse_text:
  assumes "wf_header h"
  shows "Compy_Header_parse self (header_text h @ rest) =
     Some (Compy_ParseResult_complete (length (header_text h)), h)"
proof -
  let ?k = "hdr_key h" and ?v = "hdr_value h"
  from assms have k: "?k \<noteq> []" "list_all header_name_char_matcher ?k" and v: "wf_line ?v" "crlf_free ?v"
    by (auto simp: wf_header_def wf_line_def)
  have 1: "compy_match_whitespaces (?k @ t) = Compy_ParseResult_complete 0" for t
    using k skip_spaces [of "[]" "?k @ t"] by (simp add: list_all_iff matcher_not_space)
  have 2: "compy_match_header_name (?k @ CHR '':'' # CHR '' '' # ?v @ CRLF @ rest) =
      Some (Compy_ParseResult_complete (length ?k))"
    using k by (intro match_token) simp_all
  have 3: "compy_match_whitespaces (CHR '':'' # t) = Compy_ParseResult_complete 0" for t
    using skip_spaces [of "[]" "CHR '':'' # t"] by (simp add: whitespace_matcher_def)
  have 4: "compy_match_char (CHR '':'' # CHR '' '' # t) CHR '':'' = Compy_ParseResult_complete 1" for t
    using compy_match_until_token [of "char_matcher CHR '':''" "'':''" "CHR '' ''" t]
    by (simp add: compy_match_char_def char_matcher_def)
  show ?thesis
    by (simp add: Compy_Header_parse_def header_text_def 1 2 3 4 wf_line_skip_spaces v
        del: crlf_free.simps)
qed

lemma status_parse_text:
  "Compy_StatusCode_parse self (CHR '' '' # show_nat (unat c) @ CHR '' '' # rest) =
     Some (Compy_ParseResult_complete (Suc (length (show_nat (unat c)))), c)"
proof -
  have "isdigit (hd (show_nat (unat c)))"
    using show_nat_digits [OF hd_in_set [OF show_nat_not_Nil]] .
  then have "compy_match_whitespaces (CHR '' '' # show_nat (unat c) @ CHR '' '' # rest) =
      Compy_ParseResult_complete 1"
    using skip_spaces [of "'' ''" "show_nat (unat c) @ CHR '' '' # rest"]
    by (simp add: matcher_not_space)
  moreover have "compy_match_numeric (show_nat (unat c) @ CHR '' '' # rest) =
      Some (Compy_ParseResult_complete (length (show_nat (unat c))))"
    by (rule match_token) (simp_all add: CRLF_not_digit)
  ultimately show ?thesis
    by (simp add: Compy_StatusCode_parse_def sscanf_unsigned_show_nat Suc_diff_le)
qed

lemma reason_parse_text:
  assumes "wf_line v"
  shows "Compy_ReasonPhrase_parse self (CHR '' '' # v @ CRLF @ rest) =
     Some (Compy_ParseResult_complete (length v + 3), v)"
  using assms wf_line_skip_spaces [OF assms, of rest]
  by (simp add: Compy_ReasonPhrase_parse_def wf_line_def CRLF_def line_before_def
      compy_match_until_crlf_line [unfolded CRLF_def, simplified] del: crlf_free.simps)

lemma request_line_parse_text:
  assumes "wf_method (rql_method l)" "wf_uri (rql_uri l)"
  shows "Compy_RequestLine_parse self (request_line_text l @ rest) =
     Some (Compy_ParseResult_complete (length (request_line_text l)), l)"
proof -
  have "Compy_RtspVersion_parse self' (CHR '' '' # version_text v @ CRLF @ rest) =
      Some (Compy_ParseResult_complete (Suc (length (version_text v))), v)" for self' v
    using version_parse_text [of "'' ''" "CHR 0x0D" self' v "CHR 0x0A # rest"]
    by (simp add: CRLF_def CRLF_not_digit)
  then show ?thesis
    using assms
    by (simp add: Compy_RequestLine_parse_def request_line_text_def method_parse_text uri_parse_text)
qed

lemma response_line_parse_text:
  assumes "wf_line (rsl_reason l)"
  shows "Compy_ResponseLine_parse self (response_line_text l @ rest) =
     Some (Compy_ParseResult_complete (length (response_line_text l)), l)"
proof -
  have "Compy_RtspVersion_parse self' (version_text v @ CHR '' '' # t) =
      Some (Compy_ParseResult_complete (length (version_text v)), v)" for self' v t
    using version_parse_text [of "[]" "CHR '' ''" self' v t] by (simp add: CRLF_not_digit)
  then show ?thesis
    using assms
    by (simp add: Compy_ResponseLine_parse_def response_line_text_def status_parse_text
        reason_parse_text)
qed

text \<open>
  A header map is read back if it fits and what follows it does not end in a carriage return.
\<close>

lemma header_text_first: "wf_header h \<Longrightarrow> \<not> starts_with (header_text h @ rest) CRLF"
  by (cases "hdr_key h")
    (auto simp: wf_header_def header_text_def starts_with_def CRLF_def header_name_char_matcher_def isalpha_def)

lemma no_cr_end_append: "no_cr_end (a @ b) \<longleftrightarrow> (if b = [] then no_cr_end a else no_cr_end b)"
  by (simp add: no_cr_end_def ends_with_single)

lemma no_cr_end_CRLF [simp]: "no_cr_end CRLF"
  by (simp add: no_cr_end_def ends_with_def CRLF_def)

lemma headers_text_no_cr_end:
  "no_cr_end rest \<Longrightarrow> \<not> ends_with (headers_text m @ rest) [CHR 0x0D]"
  unfolding no_cr_end_def [symmetric] by (auto simp: headers_text_def no_cr_end_append)

lemma header_map_parse_loop_text:
  assumes "list_all wf_header m" "no_cr_end rest"
    and "length self + length m \<le> COMPY_HEADER_MAP_CAPACITY"
    and "length (headers_text m @ rest) \<le> length backup"
  shows "header_map_parse_loop backup self (headers_text m @ rest) =
     Some (Compy_ParseResult_complete (length backup - length rest), self @ m)"
  using assms
proof (induction m arbitrary: self)
  case Nil
  then show ?case
    using headers_text_no_cr_end [of rest "[]"]
    by (subst header_map_parse_loop.simps) (auto simp: headers_text_def starts_with_def CRLF_def)
next
  case (Cons h m)
  have split: "headers_text (h # m) @ rest = header_text h @ headers_text m @ rest"
    by (simp add: headers_text_def)
  have "header_map_parse_loop backup self (headers_text (h # m) @ rest) =
      header_map_parse_loop backup (self @ [h]) (headers_text m @ rest)"
    using Cons.prems headers_text_no_cr_end [of rest "h # m"] header_text_first [of h]
      header_parse_text [of h]
    by (subst header_map_parse_loop.simps)
      (simp add: split Compy_HeaderMap_is_full_def Compy_HeaderMap_append_def)
  also have "\<dots> = Some (Compy_ParseResult_complete (length backup - length rest), (self @ [h]) @ m)"
    using Cons.prems split by (intro Cons.IH) auto
  finally show ?case by simp
qed

lemma header_map_parse_text:
  assumes "list_all wf_header m" "no_cr_end rest" "length m \<le> COMPY_HEADER_MAP_CAPACITY"
  shows "Compy_HeaderMap_parse self (headers_text m @ rest) =
     Some (Compy_ParseResult_complete (length (headers_text m)), m)"
  using header_map_parse_loop_text [of m rest "[]" "headers_text m @ rest"] assms
  by (simp add: Compy_HeaderMap_parse_def)

end
