(* ===== verification/Transport_Header.thy ===== *)
theory Transport_Header
  imports Messages
begin

text \<open>
  \<open>src/util.c\<close>: the parser of the \<open>Transport\<close> header, the four-octet header of interleaved binary
  data in the byte order of the host, and the test of the \<open>Require\<close> header. An unsuccessful
  \<open>compy_parse_transport\<close> (\<open>-1\<close>) is \<open>None\<close>; the configuration of the caller is then unchanged.
\<close>

section \<open>The transport configuration\<close>

datatype Compy_LowerTransport = Compy_LowerTransport_TCP | Compy_LowerTransport_UDP

fun Compy_LowerTransport_str :: "Compy_LowerTransport \<Rightarrow> string" where
  "Compy_LowerTransport_str Compy_LowerTransport_TCP = ''TCP''"
| "Compy_LowerTransport_str Compy_LowerTransport_UDP = ''UDP''"

record Compy_PortPair =
  rtp_port :: u16
  rtcp_port :: u16

record Compy_ChannelPair =
  rtp_channel :: u8
  rtcp_channel :: u8

record Compy_TransportConfig =
  tc_lower :: Compy_LowerTransport
  tc_unicast :: bool
  tc_multicast :: bool
  tc_interleaved :: "Compy_ChannelPair option"
  tc_client_port :: "Compy_PortPair option"
  tc_server_port :: "Compy_PortPair option"

text \<open>
  \<open>sscanf\<close> with \<open>%*[^=]=%u-%u\<close> and 8- or 16-bit targets: \<open>None\<close> unless both numbers are assigned.
  \<open>scan_unsigned\<close> is one conversion and the rest of the input.
\<close>

definition scan_unsigned :: "string \<Rightarrow> ('a::len word \<times> string) option" where
  "scan_unsigned s =
     (case scan_integer s of
        None \<Rightarrow> None
      | Some (neg, v, rest) \<Rightarrow> Some (word_of_nat (strtoul_value neg v), rest))"

definition PARSE_RANGE :: "string \<Rightarrow> ('a::len word \<times> 'a word) option" where
  "PARSE_RANGE param =
     (case dropWhile (\<lambda>c. c \<noteq> CHR ''='') param of
        [] \<Rightarrow> None
      | _ # numbers \<Rightarrow>
          if takeWhile (\<lambda>c. c \<noteq> CHR ''='') param = [] then None
          else (case scan_unsigned numbers of
                  None \<Rightarrow> None
                | Some (lhs, []) \<Rightarrow> None
                | Some (lhs, c # rest) \<Rightarrow>
                    if c \<noteq> CHR ''-'' then None
                    else (case scan_unsigned rest of
                            None \<Rightarrow> None
                          | Some (rhs, _) \<Rightarrow> Some (lhs, rhs))))"

definition parse_channel_pair :: "string \<Rightarrow> Compy_ChannelPair option" where
  "parse_channel_pair param =
     (case PARSE_RANGE param of
        None \<Rightarrow> None
      | Some (lhs, rhs) \<Rightarrow> Some \<lparr>rtp_channel = lhs, rtcp_channel = rhs\<rparr>)"

definition parse_port_pair :: "string \<Rightarrow> Compy_PortPair option" where
  "parse_port_pair param =
     (case PARSE_RANGE param of
        None \<Rightarrow> None
      | Some (lhs, rhs) \<Rightarrow> Some \<lparr>rtp_port = lhs, rtcp_port = rhs\<rparr>)"

definition parse_transport_param ::
  "Compy_TransportConfig \<Rightarrow> string \<Rightarrow> Compy_TransportConfig option" where
  "parse_transport_param result param =
     (if starts_with param ''unicast'' then Some (result\<lparr>tc_unicast := True\<rparr>)
      else if starts_with param ''multicast'' then Some (result\<lparr>tc_multicast := True\<rparr>)
      else if starts_with param ''interleaved'' then
        (case parse_channel_pair param of
           None \<Rightarrow> None
         | Some val \<Rightarrow> Some (result\<lparr>tc_interleaved := Some val\<rparr>))
      else if starts_with param ''client_port'' then
        (case parse_port_pair param of
           None \<Rightarrow> None
         | Some val \<Rightarrow> Some (result\<lparr>tc_client_port := Some val\<rparr>))
      else if starts_with param ''server_port'' then
        (case parse_port_pair param of
           None \<Rightarrow> None
         | Some val \<Rightarrow> Some (result\<lparr>tc_server_port := Some val\<rparr>))
      else Some result)"

definition parse_lower_transport ::
  "Compy_TransportConfig \<Rightarrow> string \<Rightarrow> Compy_TransportConfig option" where
  "parse_lower_transport result header_value =
     (if \<not> starts_with header_value ''RTP/AVP'' then None
      else
        let header_value = drop (length ''RTP/AVP'') header_value
        in if starts_with header_value ''/TCP''
             then Some (result\<lparr>tc_lower := Compy_LowerTransport_TCP\<rparr>)
           else if starts_with header_value ''/UDP''
             then Some (result\<lparr>tc_lower := Compy_LowerTransport_UDP\<rparr>)
           else Some (result\<lparr>tc_lower := Compy_LowerTransport_UDP\<rparr>))"

text \<open>The loop over the parameters; \<open>strchr (input, ';')\<close> is where \<open>dropWhile\<close> stops.\<close>

function transport_param_loop ::
  "Compy_TransportConfig \<Rightarrow> string \<Rightarrow> Compy_TransportConfig option" where
  "transport_param_loop result input =
     (case parse_transport_param result (takeWhile (\<lambda>c. c \<noteq> CHR '';'') input) of
        None \<Rightarrow> None
      | Some result \<Rightarrow>
          (case dropWhile (\<lambda>c. c \<noteq> CHR '';'') input of
             [] \<Rightarrow> Some result
           | _ # next_param \<Rightarrow> transport_param_loop result next_param))"
  by pat_completeness auto
termination
  by (relation "measure (\<lambda>(_, input). length input)")
    (auto, metis Suc_le_lessD length_Cons length_dropWhile_le)

declare transport_param_loop.simps [simp del]

definition compy_parse_transport :: "string \<Rightarrow> Compy_TransportConfig option" where
  "compy_parse_transport header_value =
     (let result = \<lparr>tc_lower = Compy_LowerTransport_TCP, tc_unicast = False, tc_multicast = False,
             tc_interleaved = None, tc_client_port = None, tc_server_port = None\<rparr>;
          input = c_str header_value
      in case parse_lower_transport result input of
           None \<Rightarrow> None
         | Some result \<Rightarrow>
             (case dropWhile (\<lambda>c. c \<noteq> CHR '';'') input of
                [] \<Rightarrow> Some result
              | _ # params \<Rightarrow> transport_param_loop result params))"

section \<open>Interleaved binary data\<close>

text \<open>
  \<open>payload_len\<close> is in network order on the way out (the caller has converted it), the result is
  the word whose memory image is the header; on the way in it is converted.
\<close>

definition compy_interleaved_header :: "endian \<Rightarrow> u8 \<Rightarrow> u16 \<Rightarrow> u32" where
  "compy_interleaved_header en channel_id payload_len =
     load32 en ([u8_of_char CHR ''$'', channel_id] @ store16 en payload_len)"

definition compy_parse_interleaved_header :: "endian \<Rightarrow> u8 list \<Rightarrow> (u8 \<times> u16) option" where
  "compy_parse_interleaved_header en data =
     (if data ! 0 \<noteq> u8_of_char CHR ''$'' then None
      else Some (data ! 1, htons en (load16 en (take 2 (drop 2 data)))))"

section \<open>Require\<close>

definition COMPY_REQUIRE_ONVIF_BACKCHANNEL :: string where
  "COMPY_REQUIRE_ONVIF_BACKCHANNEL = ''www.onvif.org/ver20/backchannel''"

definition compy_require_has_tag :: "Compy_HeaderMap \<Rightarrow> string \<Rightarrow> bool" where
  "compy_require_has_tag headers tag =
     (case Compy_HeaderMap_find headers COMPY_HEADER_REQUIRE of
        None \<Rightarrow> False
      | Some value \<Rightarrow> value = tag)"

section \<open>Reading parameters back\<close>

text \<open>The loop is a fold of \<open>parse_transport_param\<close> over the parts between semicolons.\<close>

fun parse_transport_params ::
  "Compy_TransportConfig \<Rightarrow> string list \<Rightarrow> Compy_TransportConfig option" where
  "parse_transport_params result [] = Some result"
| "parse_transport_params result (p # ps) =
     (case parse_transport_param result p of
        None \<Rightarrow> None
      | Some result \<Rightarrow> parse_transport_params result ps)"

definition params_text :: "string list \<Rightarrow> string" where
  "params_text ps = concat (map (\<lambda>p. CHR '';'' # p) ps)"

definition param_free :: "string \<Rightarrow> bool" where
  "param_free p \<longleftrightarrow> CHR '';'' \<notin> set p"

lemma param_free_split [simp]:
  "param_free p \<Longrightarrow> takeWhile (\<lambda>c. c \<noteq> CHR '';'') (p @ CHR '';'' # rest) = p"
  "param_free p \<Longrightarrow> dropWhile (\<lambda>c. c \<noteq> CHR '';'') (p @ CHR '';'' # rest) = CHR '';'' # rest"
  "param_free p \<Longrightarrow> takeWhile (\<lambda>c. c \<noteq> CHR '';'') p = p"
  "param_free p \<Longrightarrow> dropWhile (\<lambda>c. c \<noteq> CHR '';'') p = []"
  by (auto simp: param_free_def takeWhile_eq_all_conv dropWhile_eq_Nil_conv takeWhile_tail
      dropWhile_append3)

lemma transport_param_loop_params:
  "list_all param_free (p # ps) \<Longrightarrow>
     transport_param_loop result (p @ params_text ps) = parse_transport_params result (p # ps)"
proof (induction ps arbitrary: p result)
  case Nil
  then show ?case
    by (subst transport_param_loop.simps) (auto simp: params_text_def split: option.split)
next
  case (Cons q qs)
  then have "transport_param_loop r (q @ params_text qs) = parse_transport_params r (q # qs)" for r
    by simp
  with Cons show ?case
    by (subst transport_param_loop.simps) (auto simp: params_text_def split: option.split)
qed

lemma parse_transport_params_append:
  "parse_transport_params result (ps @ qs) =
     (case parse_transport_params result ps of
        None \<Rightarrow> None | Some result \<Rightarrow> parse_transport_params result qs)"
  by (induction ps arbitrary: result) (auto split: option.split)

lemma compy_parse_transport_params:
  assumes "nul_free (lower @ params_text ps)" "list_all param_free (lower # ps)"
  shows "compy_parse_transport (lower @ params_text ps) =
     (case parse_lower_transport \<lparr>tc_lower = Compy_LowerTransport_TCP, tc_unicast = False,
           tc_multicast = False, tc_interleaved = None, tc_client_port = None,
           tc_server_port = None\<rparr> (lower @ params_text ps) of
        None \<Rightarrow> None
      | Some result \<Rightarrow> parse_transport_params result ps)"
proof -
  have "c_str (lower @ params_text ps) = lower @ params_text ps"
    using assms by (intro c_str_id) (simp add: nul_free_def)
  then show ?thesis
    using assms transport_param_loop_params
    by (cases ps) (auto simp: compy_parse_transport_def params_text_def split: option.split)
qed

definition range_text :: "'a::len word \<Rightarrow> 'a word \<Rightarrow> string" where
  "range_text lhs rhs = show_nat (unat lhs) @ ''-'' @ show_nat (unat rhs)"

lemma strtoul_value_unat:
  fixes w :: "'a::len word"
  assumes "LENGTH('a) \<le> 64"
  shows "word_of_nat (strtoul_value False (unat w)) = w"
proof -
  have "unat w < 2 ^ LENGTH('a)" by (rule unsigned_less)
  also have "\<dots> \<le> 2 ^ 64" by (rule power_increasing [OF assms]) simp
  finally show ?thesis by (simp add: strtoul_value_def)
qed

lemma PARSE_RANGE_text:
  fixes lhs rhs :: "'a::len word"
  assumes "LENGTH('a) \<le> 64" "name \<noteq> []" "CHR ''='' \<notin> set name"
  shows "PARSE_RANGE (name @ CHR ''='' # range_text lhs rhs) = Some (lhs, rhs)"
proof -
  have "dropWhile (\<lambda>c. c \<noteq> CHR ''='') (name @ CHR ''='' # t) = CHR ''='' # t"
    and "takeWhile (\<lambda>c. c \<noteq> CHR ''='') (name @ CHR ''='' # t) \<noteq> []" for t
    using assms(2,3) by (cases name; auto simp: dropWhile_append3)+
  moreover have "\<not> isdigit CHR ''-''" by (simp add: isdigit_def)
  then have "scan_unsigned (range_text lhs rhs) = Some (lhs, CHR ''-'' # show_nat (unat rhs))"
    using scan_integer_show_nat [of "unat lhs" "CHR ''-'' # show_nat (unat rhs)"]
    by (simp add: scan_unsigned_def range_text_def strtoul_value_unat assms(1))
  moreover have "scan_unsigned (show_nat (unat rhs)) = Some (rhs, [])"
    using scan_integer_show_nat [of "unat rhs" "[]"]
    by (simp add: scan_unsigned_def strtoul_value_unat assms(1))
  ultimately show ?thesis
    by (simp add: PARSE_RANGE_def)
qed

text \<open>A configuration written in the grammar of RFC 2326, section 12.39.\<close>

definition transport_params :: "Compy_TransportConfig \<Rightarrow> string list" where
  "transport_params c =
     (if tc_unicast c then [''unicast''] else []) @
     (if tc_multicast c then [''multicast''] else []) @
     (case tc_interleaved c of None \<Rightarrow> [] | Some p \<Rightarrow>
        [''interleaved='' @ range_text (rtp_channel p) (rtcp_channel p)]) @
     (case tc_client_port c of None \<Rightarrow> [] | Some p \<Rightarrow>
        [''client_port='' @ range_text (rtp_port p) (rtcp_port p)]) @
     (case tc_server_port c of None \<Rightarrow> [] | Some p \<Rightarrow>
        [''server_port='' @ range_text (rtp_port p) (rtcp_port p)])"

definition transport_text :: "Compy_TransportConfig \<Rightarrow> string" where
  "transport_text c =
     (''RTP/AVP/'' @ Compy_LowerTransport_str (tc_lower c)) @ params_text (transport_params c)"

lemma range_text_chars: "c \<in> set (range_text lhs rhs) \<Longrightarrow> isdigit c \<or> c = CHR ''-''"
  using show_nat_digits by (auto simp: range_text_def)

lemma range_text_free [simp]: "param_free (range_text lhs rhs)" "nul_free (range_text lhs rhs)"
  using range_text_chars by (fastforce simp: param_free_def nul_free_def isdigit_def)+

lemma param_free_simps [simp]:
  "param_free []" "param_free (a @ b) \<longleftrightarrow> param_free a \<and> param_free b"
  "param_free (c # b) \<longleftrightarrow> c \<noteq> CHR '';'' \<and> param_free b"
  by (auto simp: param_free_def)

lemma parse_pairs_text:
  "parse_channel_pair (''interleaved='' @ range_text (rtp_channel p) (rtcp_channel p)) = Some p"
  "parse_port_pair (''client_port='' @ range_text (rtp_port q) (rtcp_port q)) = Some q"
  "parse_port_pair (''server_port='' @ range_text (rtp_port q) (rtcp_port q)) = Some q"
  using PARSE_RANGE_text [of "''interleaved''" "rtp_channel p" "rtcp_channel p"]
    PARSE_RANGE_text [of "''client_port''" "rtp_port q" "rtcp_port q"]
    PARSE_RANGE_text [of "''server_port''" "rtp_port q" "rtcp_port q"]
  by (simp_all add: parse_channel_pair_def parse_port_pair_def)

lemma transport_params_free: "list_all param_free (transport_params c)"
  by (auto simp: transport_params_def split: option.split)

lemma transport_text_nul_free: "nul_free (params_text (transport_params c))"
  by (auto simp: transport_params_def params_text_def split: option.split)

lemma parse_transport_params_text:
  assumes "tc_lower r = tc_lower c" "\<not> tc_unicast r" "\<not> tc_multicast r" "tc_interleaved r = None"
    "tc_client_port r = None" "tc_server_port r = None"
  shows "parse_transport_params r (transport_params c) = Some c"
  unfolding transport_params_def parse_transport_params_append
  using assms
  by (auto simp: parse_transport_param_def starts_with_def parse_pairs_text [simplified] split: option.split)

lemma parse_transport_text:
  "compy_parse_transport (transport_text c) = Some c"
proof -
  let ?lower = "''RTP/AVP/'' @ Compy_LowerTransport_str (tc_lower c)"
  have "param_free ?lower" "nul_free ?lower" by (cases "tc_lower c"; simp)+
  then have "compy_parse_transport (transport_text c) =
      (case parse_lower_transport \<lparr>tc_lower = Compy_LowerTransport_TCP, tc_unicast = False,
           tc_multicast = False, tc_interleaved = None, tc_client_port = None,
           tc_server_port = None\<rparr> (transport_text c) of
         None \<Rightarrow> None | Some result \<Rightarrow> parse_transport_params result (transport_params c))"
    unfolding transport_text_def
    using transport_params_free [of c] transport_text_nul_free [of c]
    by (intro compy_parse_transport_params) simp_all
  then show ?thesis
    by (cases "tc_lower c")
      (simp_all add: transport_text_def parse_lower_transport_def starts_with_def parse_transport_params_text)
qed

section \<open>Properties\<close>

text \<open>
  Every transport configuration is read back from its text: lower transport, flags, channel
  pair and both port pairs, in every combination and with every number of the width of the field.
\<close>

theorem compy_parse_transport_roundtrip:
  "compy_parse_transport (transport_text c) = Some c"
  by (rule parse_transport_text)

text \<open>
  The header of interleaved data, built from a length in network order and copied to a buffer,
  is the four octets of RFC 2326, section 10.12, on hosts of both byte orders, and reading it
  returns the channel and the length.
\<close>

theorem interleaved_header_roundtrip:
  "store32 en (compy_interleaved_header en channel_id (htons en len)) =
     [u8_of_char CHR ''$'', channel_id] @ be16 len \<and>
   compy_parse_interleaved_header en
     (store32 en (compy_interleaved_header en channel_id (htons en len)) @ payload) =
     Some (channel_id, len)"
  using htons_load16_be16 [of en len "[]"]
  by (simp add: compy_interleaved_header_def compy_parse_interleaved_header_def store32_load32)

end
