(* ===== verification/Transport.thy ===== *)
theory Transport
  imports Transport_Header
begin

text \<open>
  The \<open>Compy_Transport\<close> interface (\<open>include/compy/transport.h\<close>) and its two plain implementations:
  packets interleaved into a writer (\<open>src/transport/tcp.c\<close>) and datagrams on a socket
  (\<open>src/transport/udp.c\<close>), with \<open>src/io_vec.c\<close>. A slice of I/O vectors is a list of byte lists. What
  the operating system answers is part of the state.

  The locale \<open>reliable_transport\<close> is what the layers above rely on; both implementations provide it.
\<close>

section \<open>The interface\<close>

record 't Compy_Transport =
  t_transmit :: "'t \<Rightarrow> u8 list list \<Rightarrow> (int \<times> 't) option"
  t_is_full :: "'t \<Rightarrow> bool"

fun Compy_IoVecSlice_len :: "u8 list list \<Rightarrow> nat" where
  "Compy_IoVecSlice_len [] = 0"
| "Compy_IoVecSlice_len (iov # self) = length iov + Compy_IoVecSlice_len self"

lemma Compy_IoVecSlice_len_concat [simp]: "Compy_IoVecSlice_len bufs = length (concat bufs)"
  by (induction bufs) auto

text \<open>
  The contract: when the environment takes the packet and \<open>n\<close> more octets (\<open>ok\<close>, with the cost of
  a packet on the wire), a packet of an admissible size is accepted, the call returns 0, and the
  packet is the next one on the wire.
\<close>

locale reliable_transport =
  fixes T :: "'t Compy_Transport" and log :: "'t \<Rightarrow> u8 list list" and ok :: "nat \<Rightarrow> 't \<Rightarrow> bool"
    and fits :: "u8 list \<Rightarrow> bool" and cost :: "u8 list \<Rightarrow> nat"
  assumes transmit_ok: "ok (cost (concat bufs) + n) t \<Longrightarrow> fits (concat bufs) \<Longrightarrow>
      \<exists>t'. t_transmit T t bufs = Some (0, t') \<and> log t' = log t @ [concat bufs] \<and> ok n t'"

text \<open>Packet after packet, until one is refused.\<close>

fun transmit_all :: "'t Compy_Transport \<Rightarrow> 't \<Rightarrow> u8 list list list \<Rightarrow> (int \<times> 't) option" where
  "transmit_all T t [] = Some (0, t)"
| "transmit_all T t (bufs # rest) =
     (case t_transmit T t bufs of
        None \<Rightarrow> None
      | Some (ret, t) \<Rightarrow> if ret = -1 then Some (-1, t) else transmit_all T t rest)"

context reliable_transport
begin

lemma transmit_all_ok:
  "ok (sum_list (map (\<lambda>b. cost (concat b)) bss) + n) t \<Longrightarrow> list_all (\<lambda>b. fits (concat b)) bss \<Longrightarrow>
     \<exists>t'. transmit_all T t bss = Some (0, t') \<and> log t' = log t @ map concat bss \<and> ok n t'"
proof (induction bss arbitrary: t)
  case (Cons bufs bss)
  then obtain t1 where "t_transmit T t bufs = Some (0, t1)" "log t1 = log t @ [concat bufs]"
    and ok1: "ok (sum_list (map (\<lambda>b. cost (concat b)) bss) + n) t1"
    using transmit_ok [of bufs "sum_list (map (\<lambda>b. cost (concat b)) bss) + n" t] by (auto simp: add.assoc)
  with Cons.IH [OF ok1] Cons.prems show ?case by auto
qed simp

end

section \<open>TCP\<close>

text \<open>\<open>tcp_malloc n\<close> says whether an allocation of \<open>n\<close> bytes succeeds.\<close>

record 'w Compy_TcpTransport =
  tcp_w :: 'w
  tcp_channel_id :: u8
  tcp_max_buffer :: nat
  tcp_malloc :: "nat \<Rightarrow> bool"

definition compy_transport_tcp_new ::
  "'w \<Rightarrow> u8 \<Rightarrow> nat \<Rightarrow> (nat \<Rightarrow> bool) \<Rightarrow> 'w Compy_TcpTransport" where
  "compy_transport_tcp_new w channel_id max_buffer malloc =
     \<lparr>tcp_w = w, tcp_channel_id = channel_id, tcp_max_buffer = max_buffer, tcp_malloc = malloc\<rparr>"

definition COMPY_TCP_TX_STACK_BUF :: nat where
  "COMPY_TCP_TX_STACK_BUF = 2048"

fun tcp_coalesce :: "u8 list list \<Rightarrow> u8 list \<Rightarrow> u8 list" where
  "tcp_coalesce [] buf = buf"
| "tcp_coalesce (iov # bufs) buf = tcp_coalesce bufs (buf @ iov)"

definition Compy_TcpTransport_transmit ::
  "endian \<Rightarrow> 'w Compy_Writer \<Rightarrow> 'w Compy_TcpTransport \<Rightarrow> u8 list list \<Rightarrow>
     (int \<times> 'w Compy_TcpTransport) option" where
  "Compy_TcpTransport_transmit en W self bufs =
     (let total_bytes = Compy_IoVecSlice_len bufs;
          header = compy_interleaved_header en (tcp_channel_id self) (htons en (word_of_nat total_bytes));
          total = 4 + total_bytes
      in if COMPY_TCP_TX_STACK_BUF < total \<and> \<not> tcp_malloc self total then Some (-1, self)
         else
           let buf = tcp_coalesce bufs (store32 en header);
               w = w_lock W (tcp_w self)
           in case w_write W w (map char_of_u8 buf) of
                None \<Rightarrow> None
              | Some (ret, w) \<Rightarrow>
                  (let w = w_unlock W w
                   in Some (if ret = int total then 0 else -1, self\<lparr>tcp_w := w\<rparr>)))"

definition Compy_TcpTransport_is_full :: "'w Compy_Writer \<Rightarrow> 'w Compy_TcpTransport \<Rightarrow> bool" where
  "Compy_TcpTransport_is_full W self \<longleftrightarrow> w_filled W (tcp_w self) > tcp_max_buffer self"

definition compy_transport_tcp ::
  "endian \<Rightarrow> 'w Compy_Writer \<Rightarrow> 'w Compy_TcpTransport Compy_Transport" where
  "compy_transport_tcp en W =
     \<lparr>t_transmit = Compy_TcpTransport_transmit en W, t_is_full = Compy_TcpTransport_is_full W\<rparr>"

section \<open>UDP\<close>

text \<open>
  The answers of \<open>sendmsg\<close> are a function of the number of the call; \<open>udp_sent\<close> are the datagrams
  that left, oldest first.
\<close>

datatype sendmsg_result = Sent | MsgSize | SendError

record Compy_UdpTransport =
  udp_sent :: "u8 list list"
  udp_calls :: nat
  udp_env :: "nat \<Rightarrow> sendmsg_result"

definition MAX_RETRANSMITS :: nat where
  "MAX_RETRANSMITS = 10"

text \<open>The loop with \<open>i\<close> attempts left; it is entered at least once.\<close>

fun send_packet_loop :: "nat \<Rightarrow> Compy_UdpTransport \<Rightarrow> u8 list list \<Rightarrow> int \<times> Compy_UdpTransport" where
  "send_packet_loop i self message =
     (let ret = udp_env self (udp_calls self);
          self = self\<lparr>udp_calls := udp_calls self + 1\<rparr>
      in case ret of
           Sent \<Rightarrow> (0, self\<lparr>udp_sent := udp_sent self @ [concat message]\<rparr>)
         | SendError \<Rightarrow> (-1, self)
         | MsgSize \<Rightarrow> (if i - 1 > 0 then send_packet_loop (i - 1) self message else (-1, self)))"

declare send_packet_loop.simps [simp del]

definition send_packet :: "Compy_UdpTransport \<Rightarrow> u8 list list \<Rightarrow> int \<times> Compy_UdpTransport" where
  "send_packet self message = send_packet_loop MAX_RETRANSMITS self message"

definition Compy_UdpTransport_transmit ::
  "Compy_UdpTransport \<Rightarrow> u8 list list \<Rightarrow> (int \<times> Compy_UdpTransport) option" where
  "Compy_UdpTransport_transmit self bufs = Some (send_packet self bufs)"

definition Compy_UdpTransport_is_full :: "Compy_UdpTransport \<Rightarrow> bool" where
  "Compy_UdpTransport_is_full self \<longleftrightarrow> False"

definition compy_transport_udp :: "Compy_UdpTransport Compy_Transport" where
  "compy_transport_udp =
     \<lparr>t_transmit = Compy_UdpTransport_transmit, t_is_full = Compy_UdpTransport_is_full\<rparr>"

text \<open>The socket address of a destination, and where the address of a socket address is.\<close>

datatype address_family = AF_INET | AF_INET6 | AF_OTHER

record sockaddr =
  sa_family :: address_family
  sa_ip :: "u8 list"
  sa_port :: u16

definition new_sockaddr :: "endian \<Rightarrow> address_family \<Rightarrow> u8 list \<Rightarrow> u16 \<Rightarrow> sockaddr option" where
  "new_sockaddr en af ip port =
     (case af of
        AF_INET \<Rightarrow> Some \<lparr>sa_family = AF_INET, sa_ip = take 4 ip, sa_port = htons en port\<rparr>
      | AF_INET6 \<Rightarrow> Some \<lparr>sa_family = AF_INET6, sa_ip = take 16 ip, sa_port = htons en port\<rparr>
      | AF_OTHER \<Rightarrow> None)"

definition compy_sockaddr_ip :: "sockaddr \<Rightarrow> u8 list option" where
  "compy_sockaddr_ip addr =
     (case sa_family addr of
        AF_INET \<Rightarrow> Some (sa_ip addr)
      | AF_INET6 \<Rightarrow> Some (sa_ip addr)
      | AF_OTHER \<Rightarrow> None)"

section \<open>The interleaved stream\<close>

lemma tcp_coalesce_eq [simp]: "tcp_coalesce bufs buf = buf @ concat bufs"
  by (induction bufs buf rule: tcp_coalesce.induct) auto

definition tcp_frame :: "u8 \<Rightarrow> u8 list \<Rightarrow> u8 list" where
  "tcp_frame ch packet = [u8_of_char CHR ''$'', ch] @ be16 (word_of_nat (length packet)) @ packet"

text \<open>
  The reader of an interleaved stream (RFC 2326, section 10.12): the packets of the stream with their
  channels, \<open>None\<close> if the stream is not a sequence of whole frames.
\<close>

function read_frames :: "u8 list \<Rightarrow> (u8 \<times> u8 list) list option" where
  "read_frames s =
     (case s of
        [] \<Rightarrow> Some []
      | d # ch # h # l # rest \<Rightarrow>
          (let n = unat (of_be16 [h, l])
           in if d \<noteq> u8_of_char CHR ''$'' \<or> length rest < n then None
              else (case read_frames (drop n rest) of
                      None \<Rightarrow> None
                    | Some ps \<Rightarrow> Some ((ch, take n rest) # ps)))
      | _ \<Rightarrow> None)"
  by pat_completeness auto
termination by (relation "measure length") auto

declare read_frames.simps [simp del]

lemma read_frames_frame:
  assumes "length packet < 2 ^ 16"
  shows "read_frames (tcp_frame ch packet @ s) =
     (case read_frames s of None \<Rightarrow> None | Some ps \<Rightarrow> Some ((ch, packet) # ps))"
proof -
  let ?n = "word_of_nat (length packet) :: u16"
  have n: "unat ?n = length packet" using assms by (simp add: unat_of_nat take_bit_eq_mod)
  obtain h l where hl: "be16 ?n = [h, l]" by (simp add: be16_def)
  then have "unat (of_be16 [h, l]) = length packet" using n of_be16_be16 [of ?n] by simp
  then show ?thesis
    by (subst read_frames.simps) (simp add: tcp_frame_def hl split: option.split)
qed

lemma read_frames_append:
  "read_frames s = Some ps \<Longrightarrow>
     read_frames (s @ t) = (case read_frames t of None \<Rightarrow> None | Some qs \<Rightarrow> Some (ps @ qs))"
proof (induction s arbitrary: ps rule: read_frames.induct)
  case (1 s)
  show ?case
  proof (cases "s = []")
    case True
    with 1(2) show ?thesis by (simp add: read_frames.simps [of "[]"] split: option.split)
  next
    case False
    with 1(2) obtain d ch h l rest where s: "s = d # ch # h # l # rest"
      by (subst (asm) read_frames.simps) (auto split: list.splits)
    let ?n = "unat (of_be16 [h, l])"
    from 1(2) s obtain qs where d: "d = u8_of_char CHR ''$''" "\<not> length rest < ?n"
      and qs: "read_frames (drop ?n rest) = Some qs" "ps = (ch, take ?n rest) # qs"
      by (subst (asm) read_frames.simps) (auto simp: Let_def split: if_splits option.splits)
    have "read_frames (drop ?n rest @ t) = (case read_frames t of None \<Rightarrow> None | Some rs \<Rightarrow> Some (qs @ rs))"
      using 1(1) [OF s refl refl refl refl] d qs by simp
    with d qs show ?thesis
      unfolding s by (subst read_frames.simps) (auto simp: Let_def split: option.split)
  qed
qed

section \<open>Both transports keep the contract\<close>

text \<open>What went out on a TCP transport: the packets that a reader of the stream gets.\<close>

definition tcp_log :: "('w \<Rightarrow> string) \<Rightarrow> 'w Compy_TcpTransport \<Rightarrow> u8 list list" where
  "tcp_log out t = map snd (the (read_frames (map u8_of_char (out (tcp_w t)))))"

definition tcp_ok :: "('w \<Rightarrow> string) \<Rightarrow> (nat \<Rightarrow> 'w \<Rightarrow> bool) \<Rightarrow> nat \<Rightarrow> 'w Compy_TcpTransport \<Rightarrow> bool" where
  "tcp_ok out good n t \<longleftrightarrow>
     good n (tcp_w t) \<and> read_frames (map u8_of_char (out (tcp_w t))) \<noteq> None \<and>
     (\<forall>k. tcp_malloc t k)"

definition tcp_fits :: "u8 list \<Rightarrow> bool" where
  "tcp_fits p \<longleftrightarrow> length p < 2 ^ 16"

definition tcp_cost :: "u8 list \<Rightarrow> nat" where
  "tcp_cost p = length p + 4"

lemma length_tcp_frame: "length (tcp_frame ch p) = tcp_cost p"
  by (simp add: tcp_frame_def tcp_cost_def)

context binary_writer
begin

lemma tcp_transmit:
  assumes "good (tcp_cost (concat bufs) + n) (tcp_w t)" "\<forall>k. tcp_malloc t k"
  shows "\<exists>w'. Compy_TcpTransport_transmit en W t bufs = Some (0, t\<lparr>tcp_w := w'\<rparr>) \<and>
     out w' = out (tcp_w t) @ map char_of_u8 (tcp_frame (tcp_channel_id t) (concat bufs)) \<and> good n w'"
proof -
  let ?frame = "map char_of_u8 (tcp_frame (tcp_channel_id t) (concat bufs))"
  have "store32 en (compy_interleaved_header en (tcp_channel_id t)
      (htons en (word_of_nat (length (concat bufs))))) @ concat bufs =
      tcp_frame (tcp_channel_id t) (concat bufs)"
    by (simp add: compy_interleaved_header_def store32_load32 tcp_frame_def)
  then have "Compy_TcpTransport_transmit en W t bufs =
      (case w_write W (w_lock W (tcp_w t)) ?frame of
         None \<Rightarrow> None
       | Some (ret, w) \<Rightarrow> Some (if ret = int (4 + length (concat bufs)) then 0 else -1,
           t\<lparr>tcp_w := w_unlock W w\<rparr>))"
    using assms(2) by (auto simp: Compy_TcpTransport_transmit_def Let_def simp del: map_append length_concat
        split: option.split)
  moreover have "length ?frame = 4 + length (concat bufs)" by (simp add: length_tcp_frame tcp_cost_def)
  ultimately show ?thesis
    using locked_write [of ?frame n "tcp_w t"] assms(1) by (auto simp: length_tcp_frame)
qed

sublocale tcp: reliable_transport "compy_transport_tcp en W" "tcp_log out" "tcp_ok out good"
  tcp_fits tcp_cost for en
proof
  fix bufs n t
  assume ok: "tcp_ok out good (tcp_cost (concat bufs) + n) t" and fits: "tcp_fits (concat bufs)"
  then obtain ps where ps: "read_frames (map u8_of_char (out (tcp_w t))) = Some ps"
    by (auto simp: tcp_ok_def)
  from ok tcp_transmit [of bufs n t en] obtain w' where
    w': "Compy_TcpTransport_transmit en W t bufs = Some (0, t\<lparr>tcp_w := w'\<rparr>)"
      "out w' = out (tcp_w t) @ map char_of_u8 (tcp_frame (tcp_channel_id t) (concat bufs))" "good n w'"
    by (auto simp: tcp_ok_def)
  have "read_frames (map u8_of_char (out w')) = Some (ps @ [(tcp_channel_id t, concat bufs)])"
    using read_frames_append [OF ps] read_frames_frame [of "concat bufs" "tcp_channel_id t" "[]"] fits
    by (simp add: w'(2) tcp_fits_def read_frames.simps [of "[]"])
  with w' ok ps show "\<exists>t'. t_transmit (compy_transport_tcp en W) t bufs = Some (0, t') \<and>
      tcp_log out t' = tcp_log out t @ [concat bufs] \<and> tcp_ok out good n t'"
    by (auto simp: compy_transport_tcp_def tcp_log_def tcp_ok_def)
qed

end

text \<open>
  A UDP transport is good when the socket never fails for another reason than the message size, and
  among ten attempts in a row one succeeds (the kernel has then learnt the path MTU).
\<close>

definition udp_ok :: "nat \<Rightarrow> Compy_UdpTransport \<Rightarrow> bool" where
  "udp_ok n t \<longleftrightarrow>
     (\<forall>k \<ge> udp_calls t. udp_env t k \<noteq> SendError \<and> (\<exists>j < MAX_RETRANSMITS. udp_env t (k + j) = Sent))"

lemma send_packet_loop_sent:
  assumes "j < i" "udp_env t (udp_calls t + j) = Sent"
    and "\<forall>k \<ge> udp_calls t. udp_env t k \<noteq> SendError"
  shows "\<exists>calls. send_packet_loop i t m =
      (0, t\<lparr>udp_calls := calls, udp_sent := udp_sent t @ [concat m]\<rparr>) \<and> udp_calls t \<le> calls"
  using assms
proof (induction j arbitrary: i t)
  case 0
  then show ?case by (subst send_packet_loop.simps) (auto simp: Let_def intro!: exI [of _ "Suc (udp_calls t)"])
next
  case (Suc j)
  show ?case
  proof (cases "udp_env t (udp_calls t)")
    case Sent
    then show ?thesis
      by (subst send_packet_loop.simps) (auto simp: Let_def intro!: exI [of _ "Suc (udp_calls t)"])
  next
    case MsgSize
    let ?t = "t\<lparr>udp_calls := udp_calls t + 1\<rparr>"
    have "\<exists>calls. send_packet_loop (i - 1) ?t m =
        (0, ?t\<lparr>udp_calls := calls, udp_sent := udp_sent ?t @ [concat m]\<rparr>) \<and> udp_calls ?t \<le> calls"
      using Suc.prems by (intro Suc.IH) auto
    with MsgSize Suc.prems show ?thesis
      by (subst send_packet_loop.simps) (auto simp: Let_def)
  next
    case SendError
    with Suc.prems show ?thesis by auto
  qed
qed

interpretation udp: reliable_transport compy_transport_udp udp_sent udp_ok "\<lambda>_. True" "\<lambda>_. 0"
proof
  fix bufs n t
  assume "udp_ok (0 + n) t"
  moreover from this obtain j where "j < MAX_RETRANSMITS" "udp_env t (udp_calls t + j) = Sent"
    by (auto simp: udp_ok_def)
  ultimately show "\<exists>t'. t_transmit compy_transport_udp t bufs = Some (0, t') \<and>
      udp_sent t' = udp_sent t @ [concat bufs] \<and> udp_ok n t'"
    using send_packet_loop_sent [of j MAX_RETRANSMITS t bufs]
    by (auto simp: compy_transport_udp_def Compy_UdpTransport_transmit_def send_packet_def udp_ok_def)
qed

section \<open>Properties\<close>

text \<open>
  C35. Packets sent over an interleaved TCP connection arrive unchanged and in order: after any
  sequence of transmissions through a descriptor that makes progress, the stream is a sequence of
  whole frames whose contents are the packets, one per call.
\<close>

theorem tcp_stream_decodes:
  assumes "tcp_ok fd_out fd_good (sum_list (map (\<lambda>b. tcp_cost (concat b)) packets)) t"
    and "list_all (\<lambda>b. tcp_fits (concat b)) packets"
  shows "\<exists>t'. transmit_all (compy_transport_tcp en compy_fd_writer) t packets = Some (0, t') \<and>
     (\<exists>frames. read_frames (map u8_of_char (fd_out (tcp_w t'))) = Some frames \<and>
        map snd frames = tcp_log fd_out t @ map concat packets)"
  using fd_writer.tcp.transmit_all_ok [of packets 0 t en] assms
  by (auto simp: tcp_ok_def tcp_log_def)

theorem tcp_stream_decodes_witness:
  "\<exists>t'. transmit_all (compy_transport_tcp LittleEndian compy_fd_writer)
       \<lparr>tcp_w = \<lparr>fd_out = [], fd_script = replicate 12 (Wrote 3)\<rparr>, tcp_channel_id = 1,
        tcp_max_buffer = 0, tcp_malloc = \<lambda>_. True\<rparr> [[[1], [2, 3]], [[4]]] = Some (0, t') \<and>
     (\<exists>frames. read_frames (map u8_of_char (fd_out (tcp_w t'))) = Some frames \<and>
        map snd frames = tcp_log fd_out
          \<lparr>tcp_w = \<lparr>fd_out = [], fd_script = replicate 12 (Wrote 3)\<rparr>, tcp_channel_id = 1,
           tcp_max_buffer = 0, tcp_malloc = \<lambda>_. True\<rparr> @ map concat [[[1], [2, 3]], [[4]]])"
  by (rule tcp_stream_decodes)
    (simp_all add: tcp_ok_def tcp_cost_def tcp_fits_def fd_good_def read_frames.simps list_all_iff)

text \<open>
  The interleaved header has sixteen bits for the length, and the transport does not check: a
  packet of \<open>2 ^ 16\<close> octets or more is written whole and reported as sent, behind a header that
  announces its length modulo \<open>2 ^ 16\<close>.
\<close>

theorem tcp_oversized_packet:
  assumes "fd_good (tcp_cost (concat bufs)) (tcp_w t)" "\<forall>k. tcp_malloc t k"
    and "2 ^ 16 \<le> length (concat bufs)"
  shows "\<exists>w' h. Compy_TcpTransport_transmit en compy_fd_writer t bufs = Some (0, t\<lparr>tcp_w := w'\<rparr>) \<and>
     fd_out w' = fd_out (tcp_w t) @ map char_of_u8 (h @ concat bufs) \<and>
     compy_parse_interleaved_header en h =
       Some (tcp_channel_id t, word_of_nat (length (concat bufs) mod 2 ^ 16)) \<and>
     length (concat bufs) mod 2 ^ 16 < length (concat bufs)"
proof -
  let ?len = "word_of_nat (length (concat bufs)) :: u16"
  have "?len = word_of_nat (length (concat bufs) mod 2 ^ 16)"
    by (rule word_unat_eq_iff [THEN iffD2]) (simp add: unat_of_nat take_bit_eq_mod)
  moreover have "compy_parse_interleaved_header en ([u8_of_char CHR ''$'', tcp_channel_id t] @ be16 ?len) =
      Some (tcp_channel_id t, ?len)"
    using htons_load16_be16 [of en ?len "[]"] by (simp add: compy_parse_interleaved_header_def)
  ultimately have parsed: "compy_parse_interleaved_header en
      ([u8_of_char CHR ''$'', tcp_channel_id t] @ be16 ?len) =
      Some (tcp_channel_id t, word_of_nat (length (concat bufs) mod 2 ^ 16))" by simp
  obtain w' where "Compy_TcpTransport_transmit en compy_fd_writer t bufs = Some (0, t\<lparr>tcp_w := w'\<rparr>)"
    "fd_out w' = fd_out (tcp_w t) @
       map char_of_u8 (([u8_of_char CHR ''$'', tcp_channel_id t] @ be16 ?len) @ concat bufs)"
    using fd_writer.tcp_transmit [of bufs 0 t en] assms(1,2) unfolding tcp_frame_def by auto
  moreover have "length (concat bufs) mod 2 ^ 16 < length (concat bufs)"
    using assms(3) mod_less_divisor [of "2 ^ 16" "length (concat bufs)"]
    by (simp only: le_less_trans less_le_trans zero_less_power zero_less_numeral True_implies_equals)
  ultimately show ?thesis using parsed by blast
qed

theorem tcp_oversized_packet_witness:
  "\<exists>w' h. Compy_TcpTransport_transmit LittleEndian compy_fd_writer
       \<lparr>tcp_w = \<lparr>fd_out = [], fd_script = replicate (2 ^ 16 + 4) (Wrote 1)\<rparr>, tcp_channel_id = 0,
        tcp_max_buffer = 0, tcp_malloc = \<lambda>_. True\<rparr> [replicate (2 ^ 16) 0] =
       Some (0, \<lparr>tcp_w = w', tcp_channel_id = 0, tcp_max_buffer = 0, tcp_malloc = \<lambda>_. True\<rparr>) \<and>
     fd_out w' = map char_of_u8 (h @ replicate (2 ^ 16) 0) \<and>
     compy_parse_interleaved_header LittleEndian h = Some (0, 0)"
  using tcp_oversized_packet
    [of "[replicate (2 ^ 16) 0]" "\<lparr>tcp_w = \<lparr>fd_out = [], fd_script = replicate (2 ^ 16 + 4) (Wrote 1)\<rparr>,
       tcp_channel_id = 0, tcp_max_buffer = 0, tcp_malloc = \<lambda>_. True\<rparr>" LittleEndian]
  by (simp add: fd_good_def tcp_cost_def list_all_iff)

text \<open>
  A datagram is sent at most once: whatever the socket answers, a transmission makes between one
  and ten attempts, and either returns 0 after the datagram left exactly once or returns \<open>-1\<close> and
  nothing left.
\<close>

theorem udp_at_most_once:
  "\<exists>ret t' calls. Compy_UdpTransport_transmit t bufs = Some (ret, t') \<and>
     1 \<le> calls \<and> calls \<le> MAX_RETRANSMITS \<and> udp_calls t' = udp_calls t + calls \<and>
     (ret = 0 \<and> udp_sent t' = udp_sent t @ [concat bufs] \<or> ret = -1 \<and> udp_sent t' = udp_sent t)"
proof -
  have "\<exists>ret t' calls. send_packet_loop i t bufs = (ret, t') \<and> 1 \<le> calls \<and> calls \<le> max 1 i \<and>
      udp_calls t' = udp_calls t + calls \<and>
      (ret = 0 \<and> udp_sent t' = udp_sent t @ [concat bufs] \<or> ret = -1 \<and> udp_sent t' = udp_sent t)" for i
  proof (induction i arbitrary: t)
    case 0
    show ?case by (subst send_packet_loop.simps) (auto simp: Let_def split: sendmsg_result.split)
  next
    case (Suc i)
    from Suc [of "t\<lparr>udp_calls := udp_calls t + 1\<rparr>"] obtain ret t' calls where
      "send_packet_loop i (t\<lparr>udp_calls := udp_calls t + 1\<rparr>) bufs = (ret, t')" "1 \<le> calls" "calls \<le> max 1 i"
      "udp_calls t' = udp_calls t + 1 + calls"
      "ret = 0 \<and> udp_sent t' = udp_sent t @ [concat bufs] \<or> ret = -1 \<and> udp_sent t' = udp_sent t"
      by auto
    then show ?case
      by (subst send_packet_loop.simps)
        (auto simp: Let_def max_def split: sendmsg_result.split if_splits intro!: exI [of _ "Suc calls"])
  qed
  from this [of MAX_RETRANSMITS] show ?thesis
    by (simp add: Compy_UdpTransport_transmit_def send_packet_def MAX_RETRANSMITS_def)
qed

end
