(* ===== verification/Rtp_Transport.thy ===== *)
theory Rtp_Transport
  imports Rtp Transport
begin

text \<open>
  The RTP transport, \<open>src/rtp_transport.c\<close>: it numbers packets, computes their timestamps, puts the
  RTP header in front and hands them to a transport, and it counts what was sent. The transport it
  owns is the state \<open>rt_transport\<close>, used through the interface \<open>T\<close>. Randomness, the monotonic clock
  (seconds and nanoseconds) and the contents of fresh memory are arguments.
\<close>

section \<open>Definitions\<close>

datatype Compy_RtpTimestamp =
    Compy_RtpTimestamp_Raw u32
  | Compy_RtpTimestamp_SysClockUs u64

record 't Compy_RtpTransport =
  rt_seq_num :: u16
  rt_ssrc :: u32
  rt_payload_ty :: u8
  rt_clock_rate :: u32
  rt_transport :: 't
  rt_packet_count :: u32
  rt_octet_count :: u32
  rt_last_rtp_timestamp :: u32
  rt_last_send_time_us :: u64
  rt_ext_data :: "u8 list"
  rt_ext_len :: u16

text \<open>
  \<open>rng\<close> is the result of the two ways to get random octets, \<open>rand1\<close> and \<open>rand2\<close> those of \<open>rand\<close>;
  \<open>fresh\<close> is what \<open>malloc\<close> left in \<open>last_send_time_us\<close>, which the constructor does not set.
\<close>

definition Compy_RtpTransport_new ::
  "'t \<Rightarrow> u8 \<Rightarrow> u32 \<Rightarrow> (u32 \<times> u32) option \<Rightarrow> u32 \<Rightarrow> u32 \<Rightarrow> u64 \<Rightarrow> 't Compy_RtpTransport" where
  "Compy_RtpTransport_new t payload_ty clock_rate rng rand1 rand2 fresh =
     \<lparr>rt_seq_num = (case rng of Some (_, r1) \<Rightarrow> ucast r1 | None \<Rightarrow> ucast rand2),
      rt_ssrc = (case rng of Some (r0, _) \<Rightarrow> r0 | None \<Rightarrow> rand1),
      rt_payload_ty = payload_ty, rt_clock_rate = clock_rate, rt_transport = t,
      rt_packet_count = 0, rt_octet_count = 0, rt_last_rtp_timestamp = 0,
      rt_last_send_time_us = fresh, rt_ext_data = replicate 12 0, rt_ext_len = 0\<rparr>"

text \<open>
  Arithmetic on \<open>double\<close>, as far as \<open>compute_timestamp\<close> uses it: a value is the natural number of
  units of \<open>2 ^ -80\<close>, and \<open>dbl_round n d\<close> is \<open>n / d\<close> rounded to 53 significant bits, ties to even.
\<close>

fun bit_length :: "nat \<Rightarrow> nat" where
  "bit_length n = (if n = 0 then 0 else Suc (bit_length (n div 2)))"

declare bit_length.simps [simp del]

definition dbl_round :: "nat \<Rightarrow> nat \<Rightarrow> nat" where
  "dbl_round n d =
     (let num = n * 2 ^ 80;
          ulp = 2 ^ (bit_length (num div d) - 53);
          t = num div (d * ulp);
          r = num mod (d * ulp)
      in (if d * ulp < 2 * r \<or> d * ulp = 2 * r \<and> odd t then t + 1 else t) * ulp)"

definition dbl_trunc :: "nat \<Rightarrow> nat" where
  "dbl_trunc x = x div 2 ^ 80"

definition compute_timestamp :: "Compy_RtpTimestamp \<Rightarrow> u32 \<Rightarrow> u32" where
  "compute_timestamp ts clock_rate =
     (case ts of
        Compy_RtpTimestamp_Raw raw_ts \<Rightarrow> raw_ts
      | Compy_RtpTimestamp_SysClockUs time_us \<Rightarrow>
          let us_rem = time_us mod 1000;
              ms = (time_us - us_rem) div 1000;
              clock_rate_kHz = clock_rate div 1000;
              rate = dbl_round (unat clock_rate_kHz) 1000;
              ticks = dbl_trunc (dbl_round (unat us_rem * rate) (2 ^ 80))
          in ucast (ms * ucast clock_rate_kHz + ucast (word_of_nat ticks :: u32)))"

definition rtp_header_of :: "endian \<Rightarrow> 't Compy_RtpTransport \<Rightarrow> Compy_RtpTimestamp \<Rightarrow> bool \<Rightarrow> Compy_RtpHeader" where
  "rtp_header_of en self ts marker =
     \<lparr>rtp_version = 2, rtp_padding = False, rtp_extension = rt_ext_len self > 0, rtp_csrc_count = 0,
      rtp_marker = marker, rtp_payload_ty = rt_payload_ty self,
      rtp_sequence_number = htons en (rt_seq_num self),
      rtp_timestamp = htonl en (compute_timestamp ts (rt_clock_rate self)),
      rtp_ssrc = htonl en (rt_ssrc self), rtp_csrc = [],
      rtp_extension_profile = htons en 0xBEDE,
      rtp_extension_payload_len =
        (if rt_ext_len self > 0 then word_of_nat ((unat (rt_ext_len self) + 3) div 4) else 0),
      rtp_extension_payload = (if rt_ext_len self > 0 then rt_ext_data self else [])\<rparr>"

definition clock_us :: "u64 \<times> u64 \<Rightarrow> u64" where
  "clock_us now = (case now of (sec, nsec) \<Rightarrow> sec * 1000000 + nsec div 1000)"

definition Compy_RtpTransport_send_packet ::
  "endian \<Rightarrow> 't Compy_Transport \<Rightarrow> u64 \<times> u64 \<Rightarrow> 't Compy_RtpTransport \<Rightarrow> Compy_RtpTimestamp \<Rightarrow> bool \<Rightarrow>
     u8 list \<Rightarrow> u8 list \<Rightarrow> (int \<times> 't Compy_RtpTransport) option" where
  "Compy_RtpTransport_send_packet en T now self ts marker payload_header payload =
     (case Compy_RtpHeader_serialize en (rtp_header_of en self ts marker) of
        None \<Rightarrow> None
      | Some rtp_header \<Rightarrow>
          (case t_transmit T (rt_transport self) [rtp_header, payload_header, payload] of
             None \<Rightarrow> None
           | Some (ret, t) \<Rightarrow>
               (let self = self\<lparr>rt_transport := t\<rparr>
                in if ret \<noteq> -1
                   then Some (ret, self\<lparr>rt_seq_num := rt_seq_num self + 1,
                     rt_packet_count := rt_packet_count self + 1,
                     rt_octet_count := rt_octet_count self +
                       word_of_nat (length payload_header + length payload),
                     rt_last_rtp_timestamp := compute_timestamp ts (rt_clock_rate self),
                     rt_last_send_time_us := clock_us now\<rparr>)
                   else Some (ret, self))))"

definition Compy_RtpTransport_is_full :: "'t Compy_Transport \<Rightarrow> 't Compy_RtpTransport \<Rightarrow> bool" where
  "Compy_RtpTransport_is_full T self = t_is_full T (rt_transport self)"

definition Compy_RtpTransport_get_ssrc :: "'t Compy_RtpTransport \<Rightarrow> u32" where
  "Compy_RtpTransport_get_ssrc self = rt_ssrc self"

definition Compy_RtpTransport_set_ssrc :: "'t Compy_RtpTransport \<Rightarrow> u32 \<Rightarrow> 't Compy_RtpTransport" where
  "Compy_RtpTransport_set_ssrc self ssrc = self\<lparr>rt_ssrc := ssrc\<rparr>"

text \<open>The padding loop of \<open>set_extension\<close>.\<close>

function ext_pad :: "u8 list \<Rightarrow> u8 list" where
  "ext_pad data = (if length data mod 4 \<noteq> 0 then ext_pad (data @ [0]) else data)"
  by pat_completeness auto
termination
  by (relation "measure (\<lambda>data. (4 - length data mod 4) mod 4)") (auto simp: mod_Suc)

declare ext_pad.simps [simp del]

definition Compy_RtpTransport_set_extension ::
  "'t Compy_RtpTransport \<Rightarrow> u8 \<Rightarrow> u8 list \<Rightarrow> u8 \<Rightarrow> 't Compy_RtpTransport option" where
  "Compy_RtpTransport_set_extension self ext_id value len =
     (if \<not> (1 \<le> ext_id \<and> ext_id \<le> 14) \<or> \<not> (1 \<le> len \<and> len \<le> 8) \<or> length value < unat len then None
      else
        let data = ext_pad ([push_bit 4 ext_id OR (len - 1)] @ take (unat len) value)
        in Some (self\<lparr>rt_ext_data := data @ drop (length data) (rt_ext_data self),
                      rt_ext_len := word_of_nat (length data)\<rparr>))"

definition Compy_RtpTransport_get_seq :: "'t Compy_RtpTransport \<Rightarrow> u16" where
  "Compy_RtpTransport_get_seq self = rt_seq_num self"

definition Compy_RtpTransport_get_packet_count :: "'t Compy_RtpTransport \<Rightarrow> u32" where
  "Compy_RtpTransport_get_packet_count self = rt_packet_count self"

definition Compy_RtpTransport_get_octet_count :: "'t Compy_RtpTransport \<Rightarrow> u32" where
  "Compy_RtpTransport_get_octet_count self = rt_octet_count self"

definition Compy_RtpTransport_get_last_rtp_timestamp :: "'t Compy_RtpTransport \<Rightarrow> u32" where
  "Compy_RtpTransport_get_last_rtp_timestamp self = rt_last_rtp_timestamp self"

definition Compy_RtpTransport_get_rtp_timestamp_now :: "u64 \<times> u64 \<Rightarrow> 't Compy_RtpTransport \<Rightarrow> u32" where
  "Compy_RtpTransport_get_rtp_timestamp_now now self =
     (if rt_last_send_time_us self = 0 then rt_last_rtp_timestamp self
      else
        let elapsed_us = clock_us now - rt_last_send_time_us self
        in rt_last_rtp_timestamp self + ucast (elapsed_us * ucast (rt_clock_rate self) div 1000000))"

section \<open>The invariant\<close>

text \<open>The payload type has seven bits, and the extension is a number of whole words in its array.\<close>

definition wf_rt :: "'t Compy_RtpTransport \<Rightarrow> bool" where
  "wf_rt self \<longleftrightarrow>
     unat (rt_payload_ty self) < 128 \<and> length (rt_ext_data self) = 12 \<and>
     unat (rt_ext_len self) \<le> 12 \<and> unat (rt_ext_len self) mod 4 = 0"

lemma wf_rt_new:
  "unat payload_ty < 128 \<Longrightarrow> wf_rt (Compy_RtpTransport_new t payload_ty clock_rate rng rand1 rand2 fresh)"
  by (simp add: wf_rt_def Compy_RtpTransport_new_def)

lemma pad4_mod: "(n + (4 - n mod 4) mod 4) mod 4 = (0 :: nat)"
proof -
  obtain q r where n: "n = 4 * q + r" and "r < 4"
    using div_mult_mod_eq [of n 4] mod_less_divisor [of 4 n] by (metis mult.commute zero_less_numeral)
  then have "r = 0 \<or> r = 1 \<or> r = 2 \<or> r = 3" by linarith
  then show ?thesis by (elim disjE) (simp_all add: n mod_Suc)
qed

lemma ext_pad_eq: "ext_pad data = data @ replicate ((4 - length data mod 4) mod 4) 0"
proof (induction data rule: ext_pad.induct)
  case (1 data)
  show ?case
  proof (cases "length data mod 4 = 0")
    case True
    then show ?thesis by (subst ext_pad.simps) simp
  next
    case False
    then have "length data mod 4 = 1 \<or> length data mod 4 = 2 \<or> length data mod 4 = 3" by linarith
    then have "(4 - length data mod 4) mod 4 = Suc ((4 - Suc (length data) mod 4) mod 4)"
      by (elim disjE) (simp_all add: mod_Suc)
    with 1 False show ?thesis by (subst ext_pad.simps) simp
  qed
qed

lemma set_extension_ok:
  assumes "Compy_RtpTransport_set_extension self ext_id value len = Some self'" "wf_rt self"
  shows "wf_rt self'"
    and "\<exists>k. take (unat (rt_ext_len self')) (rt_ext_data self') =
      [push_bit 4 ext_id OR (len - 1)] @ take (unat len) value @ replicate k 0 \<and> k < 4"
proof -
  let ?head = "[push_bit 4 ext_id OR (len - 1)] @ take (unat len) value"
  from assms(1) have len: "unat len \<le> 8" "unat len \<le> length value"
    and self': "self' = self\<lparr>rt_ext_data := ext_pad ?head @ drop (length (ext_pad ?head)) (rt_ext_data self),
        rt_ext_len := word_of_nat (length (ext_pad ?head))\<rparr>"
    by (auto simp: Compy_RtpTransport_set_extension_def Let_def word_le_nat_alt split: if_splits)
  define k where "k = (4 - length ?head mod 4) mod 4"
  then have pad: "ext_pad ?head = ?head @ replicate k 0" and k: "k < 4" by (simp_all add: ext_pad_eq)
  have m: "(length ?head + k) mod 4 = 0"
    unfolding k_def by (rule pad4_mod)
  have l: "length (ext_pad ?head) = Suc (unat len + k)" unfolding pad using len by simp
  have m': "Suc (unat len + k) mod 4 = 0" using m len by simp
  have small: "Suc (unat len + k) \<le> 12" using len k by simp
  then have u: "unat (word_of_nat (Suc (unat len + k)) :: u16) = Suc (unat len + k)"
    by (simp add: unat_of_nat take_bit_eq_mod del: of_nat_Suc)
  have "length (rt_ext_data self') = length (ext_pad ?head) + (length (rt_ext_data self) - length (ext_pad ?head))"
    "rt_ext_len self' = word_of_nat (length (ext_pad ?head))" "rt_payload_ty self' = rt_payload_ty self"
    using self' by simp_all
  then show "wf_rt self'"
    unfolding l using assms(2) small m' u by (simp add: wf_rt_def del: of_nat_Suc)
  have "take (unat (rt_ext_len self')) (rt_ext_data self') = ?head @ replicate k 0"
  proof -
    have "unat (rt_ext_len self') = length (ext_pad ?head)" using u l self' by simp
    moreover have "rt_ext_data self' = ext_pad ?head @ drop (length (ext_pad ?head)) (rt_ext_data self)"
      using self' by simp
    ultimately show ?thesis unfolding pad using len(2) by (simp add: min_absorb2)
  qed
  with k show "\<exists>k. take (unat (rt_ext_len self')) (rt_ext_data self') =
      [push_bit 4 ext_id OR (len - 1)] @ take (unat len) value @ replicate k 0 \<and> k < 4"
    by auto
qed

section \<open>Sending\<close>

text \<open>The packet on the wire, and the state after it was accepted.\<close>

definition rtp_packet ::
  "endian \<Rightarrow> 't Compy_RtpTransport \<Rightarrow> Compy_RtpTimestamp \<Rightarrow> bool \<Rightarrow> u8 list \<Rightarrow> u8 list \<Rightarrow> u8 list" where
  "rtp_packet en self ts marker payload_header payload =
     rtp_octets en (rtp_sent (rtp_header_of en self ts marker)) @ payload_header @ payload"

definition rt_accepted ::
  "u64 \<times> u64 \<Rightarrow> 't Compy_RtpTransport \<Rightarrow> Compy_RtpTimestamp \<Rightarrow> u8 list \<Rightarrow> u8 list \<Rightarrow> 't \<Rightarrow>
     't Compy_RtpTransport" where
  "rt_accepted now self ts payload_header payload t =
     self\<lparr>rt_transport := t, rt_seq_num := rt_seq_num self + 1, rt_packet_count := rt_packet_count self + 1,
       rt_octet_count := rt_octet_count self + word_of_nat (length payload_header + length payload),
       rt_last_rtp_timestamp := compute_timestamp ts (rt_clock_rate self),
       rt_last_send_time_us := clock_us now\<rparr>"

lemma ext_words_le:
  assumes "wf_rt self"
  shows "unat (word_of_nat ((unat (rt_ext_len self) + 3) div 4) :: u16) \<le> 3"
proof -
  have "(unat (rt_ext_len self) + 3) div 4 \<le> 3"
    using assms div_le_mono [of "unat (rt_ext_len self) + 3" 15 4] by (simp add: wf_rt_def)
  then show ?thesis by (simp add: unat_of_nat take_bit_eq_mod)
qed

lemma wf_rtp_header_of:
  assumes "wf_rt self"
  shows "wf_rtp (rtp_sent (rtp_header_of en self ts marker))"
    and "rtp_version (rtp_sent (rtp_header_of en self ts marker)) = 2"
proof -
  note ext_words_le [OF assms]
  then show "wf_rtp (rtp_sent (rtp_header_of en self ts marker))"
    using assms by (simp add: wf_rtp_def rtp_sent_def rtp_header_of_def wf_rt_def)
  show "rtp_version (rtp_sent (rtp_header_of en self ts marker)) = 2"
    by (simp add: rtp_sent_def rtp_header_of_def)
qed

lemma wf_rt_accepted: "wf_rt self \<Longrightarrow> wf_rt (rt_accepted now self ts payload_header payload t)"
  by (simp add: wf_rt_def rt_accepted_def)

lemma length_rtp_packet:
  assumes "wf_rt self"
  shows "length (rtp_packet en self ts marker payload_header payload) \<le>
     28 + length payload_header + length payload"
proof -
  note ext_words_le [OF assms]
  moreover note length_rtp_octets [OF wf_rtp_header_of(1) [OF assms], of en en ts marker]
  ultimately show ?thesis
    by (simp add: rtp_packet_def Compy_RtpHeader_size_def rtp_sent_def rtp_header_of_def)
qed

text \<open>The header a receiver reads.\<close>

lemma rtp_packet_parse:
  assumes "wf_rt self"
  shows "Compy_RtpHeader_deserialize en h (rtp_packet en self ts marker payload_header payload) =
     (int (Compy_RtpHeader_size (rtp_sent (rtp_header_of en self ts marker))),
      (rtp_sent (rtp_header_of en self ts marker))\<lparr>rtp_extension_payload_len :=
         htons en (rtp_extension_payload_len (rtp_sent (rtp_header_of en self ts marker)))\<rparr>)"
  unfolding rtp_packet_def
  using deserialize_octets [OF wf_rtp_header_of [OF assms, of en ts marker], of en h "payload_header @ payload"] .

context reliable_transport
begin

lemma send_packet_ok:
  assumes "wf_rt self" "fits (rtp_packet en self ts marker payload_header payload)"
    and "ok (cost (rtp_packet en self ts marker payload_header payload) + n) (rt_transport self)"
  shows "\<exists>t'. Compy_RtpTransport_send_packet en T now self ts marker payload_header payload =
      Some (0, rt_accepted now self ts payload_header payload t') \<and>
     log t' = log (rt_transport self) @ [rtp_packet en self ts marker payload_header payload] \<and> ok n t'"
  using transmit_ok [of "[rtp_octets en (rtp_sent (rtp_header_of en self ts marker)), payload_header, payload]"
      n "rt_transport self"] assms serialize_sent [OF wf_rtp_header_of(1) [OF assms(1)], of en en ts marker]
  by (auto simp: Compy_RtpTransport_send_packet_def rtp_packet_def rt_accepted_def Let_def)

end

section \<open>Properties\<close>

text \<open>A run of packets: timestamp, marker, payload header and payload of each.\<close>

type_synonym rtp_item = "Compy_RtpTimestamp \<times> bool \<times> u8 list \<times> u8 list"

fun send_items ::
  "endian \<Rightarrow> 't Compy_Transport \<Rightarrow> u64 \<times> u64 \<Rightarrow> 't Compy_RtpTransport \<Rightarrow> rtp_item list \<Rightarrow>
     (int \<times> 't Compy_RtpTransport) option" where
  "send_items en T now self [] = Some (0, self)"
| "send_items en T now self ((ts, marker, ph, pl) # items) =
     (case Compy_RtpTransport_send_packet en T now self ts marker ph pl of
        None \<Rightarrow> None
      | Some (ret, self) \<Rightarrow> if ret = -1 then Some (-1, self) else send_items en T now self items)"

text \<open>The packet of an item that is sent as the \<open>k\<close>-th one after the state \<open>self\<close>.\<close>

definition nth_packet :: "endian \<Rightarrow> 't Compy_RtpTransport \<Rightarrow> nat \<Rightarrow> rtp_item \<Rightarrow> u8 list" where
  "nth_packet en self k item =
     (case item of (ts, marker, ph, pl) \<Rightarrow>
        rtp_packet en (self\<lparr>rt_seq_num := rt_seq_num self + word_of_nat k\<rparr>) ts marker ph pl)"

fun packets_from :: "endian \<Rightarrow> 't Compy_RtpTransport \<Rightarrow> nat \<Rightarrow> rtp_item list \<Rightarrow> u8 list list" where
  "packets_from en self k [] = []"
| "packets_from en self k (item # items) = nth_packet en self k item # packets_from en self (Suc k) items"

definition item_octets :: "rtp_item \<Rightarrow> nat" where
  "item_octets item = (case item of (ts, marker, ph, pl) \<Rightarrow> length ph + length pl)"

lemma rtp_packet_accepted:
  "rtp_packet en ((rt_accepted now self ts ph pl t)\<lparr>rt_seq_num := s\<rparr>) ts' m' ph' pl' =
     rtp_packet en (self\<lparr>rt_seq_num := s\<rparr>) ts' m' ph' pl'"
  by (simp add: rtp_packet_def rtp_header_of_def rtp_sent_def rt_accepted_def)

lemma nth_packet_accepted:
  "nth_packet en (rt_accepted now self ts ph pl t) k item = nth_packet en self (Suc k) item"
  by (simp add: nth_packet_def rtp_packet_accepted rt_accepted_def [of now self ts ph pl t] add.assoc
      split: prod.split)
    (simp add: rtp_packet_def rtp_header_of_def rtp_sent_def)

lemma packets_from_accepted:
  "packets_from en (rt_accepted now self ts ph pl t) k items = packets_from en self (Suc k) items"
  by (induction items arbitrary: k) (simp_all add: nth_packet_accepted)

context reliable_transport
begin

lemma send_items_ok:
  assumes "wf_rt self" "list_all fits (packets_from en self 0 items)"
    and "ok (sum_list (map cost (packets_from en self 0 items)) + n) (rt_transport self)"
  shows "\<exists>self'. send_items en T now self items = Some (0, self') \<and>
     log (rt_transport self') = log (rt_transport self) @ packets_from en self 0 items \<and>
     ok n (rt_transport self') \<and> wf_rt self' \<and>
     rt_seq_num self' = rt_seq_num self + word_of_nat (length items) \<and>
     rt_packet_count self' = rt_packet_count self + word_of_nat (length items) \<and>
     rt_octet_count self' = rt_octet_count self + word_of_nat (sum_list (map item_octets items)) \<and>
     rt_ssrc self' = rt_ssrc self"
  using assms
proof (induction items arbitrary: self)
  case (Cons item items)
  obtain ts marker ph pl where item: "item = (ts, marker, ph, pl)" by (cases item)
  let ?rest = "sum_list (map cost (packets_from en self 1 items)) + n"
  have "nth_packet en self 0 item = rtp_packet en self ts marker ph pl"
    by (simp add: nth_packet_def item)
  with Cons.prems send_packet_ok [of self en ts marker ph pl ?rest now] obtain t' where
    sent: "Compy_RtpTransport_send_packet en T now self ts marker ph pl =
        Some (0, rt_accepted now self ts ph pl t')"
      "log t' = log (rt_transport self) @ [nth_packet en self 0 item]" and ok: "ok ?rest t'"
    by (auto simp: add.assoc)
  let ?self = "rt_accepted now self ts ph pl t'"
  have t': "rt_transport ?self = t'" by (simp add: rt_accepted_def)
  from Cons.IH [of ?self] Cons.prems ok obtain self' where
    "send_items en T now ?self items = Some (0, self')"
    "log (rt_transport self') = log t' @ packets_from en self 1 items" "ok n (rt_transport self')"
    "wf_rt self'" "rt_seq_num self' = rt_seq_num ?self + word_of_nat (length items)"
    "rt_packet_count self' = rt_packet_count ?self + word_of_nat (length items)"
    "rt_octet_count self' = rt_octet_count ?self + word_of_nat (sum_list (map item_octets items))"
    "rt_ssrc self' = rt_ssrc ?self"
    by (auto simp: packets_from_accepted t' wf_rt_accepted)
  then show ?case
    by (intro exI [of _ self']) (simp add: item sent, simp add: rt_accepted_def item item_octets_def)
qed simp

end

lemma packets_from_nth:
  "k < length items \<Longrightarrow> packets_from en self j items ! k = nth_packet en self (j + k) (items ! k)"
  by (induction items arbitrary: j k) (auto simp: nth_Cons split: nat.split)

lemma length_packets_from [simp]: "length (packets_from en self j items) = length items"
  by (induction items arbitrary: j) simp_all

lemma wf_rt_seq: "wf_rt self \<Longrightarrow> wf_rt (self\<lparr>rt_seq_num := s\<rparr>)"
  by (simp add: wf_rt_def)

text \<open>What a receiver reads of the header of the \<open>k\<close>-th packet.\<close>

lemma nth_packet_header:
  assumes "wf_rt self" "item = (ts, marker, ph, pl)"
  shows "case Compy_RtpHeader_deserialize en h (nth_packet en self k item) of (n, hdr) \<Rightarrow>
     12 \<le> n \<and> drop (nat n) (nth_packet en self k item) = ph @ pl \<and>
     rtp_sequence_number hdr = htons en (rt_seq_num self + word_of_nat k) \<and>
     rtp_ssrc hdr = htonl en (rt_ssrc self) \<and> rtp_marker hdr = marker \<and>
     rtp_payload_ty hdr = rt_payload_ty self \<and>
     rtp_timestamp hdr = htonl en (compute_timestamp ts (rt_clock_rate self))"
proof -
  let ?self = "self\<lparr>rt_seq_num := rt_seq_num self + word_of_nat k\<rparr>"
  let ?hdr = "rtp_sent (rtp_header_of en ?self ts marker)"
  have wf: "wf_rt ?self" using assms(1) by (rule wf_rt_seq)
  have "length (rtp_octets en ?hdr) = Compy_RtpHeader_size ?hdr"
    by (rule length_rtp_octets [OF wf_rtp_header_of(1) [OF wf]])
  then have "drop (Compy_RtpHeader_size ?hdr) (rtp_packet en ?self ts marker ph pl) = ph @ pl"
    by (simp add: rtp_packet_def)
  moreover have "12 \<le> Compy_RtpHeader_size ?hdr" by (simp add: Compy_RtpHeader_size_def Let_def)
  ultimately show ?thesis
    using rtp_packet_parse [OF wf, of en h ts marker ph pl]
    by (simp add: nth_packet_def assms(2)) (simp add: rtp_sent_def rtp_header_of_def)
qed

text \<open>The RTP payload of an item.\<close>

definition item_payload :: "rtp_item \<Rightarrow> u8 list" where
  "item_payload item = (case item of (ts, marker, ph, pl) \<Rightarrow> ph @ pl)"

text \<open>The payload and the marker of an RTP packet, as a receiver reads them.\<close>

definition rtp_body :: "endian \<Rightarrow> Compy_RtpHeader \<Rightarrow> u8 list \<Rightarrow> u8 list" where
  "rtp_body en h p = drop (nat (fst (Compy_RtpHeader_deserialize en h p))) p"

definition rtp_mark :: "endian \<Rightarrow> Compy_RtpHeader \<Rightarrow> u8 list \<Rightarrow> bool" where
  "rtp_mark en h p = rtp_marker (snd (Compy_RtpHeader_deserialize en h p))"

lemma packet_read:
  assumes "wf_rt t" "k < length items"
  shows "rtp_body en h (packets_from en t 0 items ! k) = item_payload (items ! k)"
    "rtp_mark en h (packets_from en t 0 items ! k) = fst (snd (items ! k))"
proof -
  obtain ts marker ph pl where item: "items ! k = (ts, marker, ph, pl)" by (cases "items ! k")
  have p: "packets_from en t 0 items ! k = nth_packet en t k (items ! k)"
    using packets_from_nth [OF assms(2), of en t 0] by simp
  show "rtp_body en h (packets_from en t 0 items ! k) = item_payload (items ! k)"
    "rtp_mark en h (packets_from en t 0 items ! k) = fst (snd (items ! k))"
    unfolding p using nth_packet_header [OF assms(1) item, where en = en and h = h and k = k]
    by (auto simp: item rtp_body_def rtp_mark_def item_payload_def split: prod.splits)
qed

text \<open>Over UDP every item of a run leaves.\<close>

lemma udp_send_items:
  assumes "wf_rt t" "udp_ok 0 (rt_transport t)"
  shows "\<exists>t'. send_items en compy_transport_udp now t items = Some (0, t') \<and>
     udp_sent (rt_transport t') = udp_sent (rt_transport t) @ packets_from en t 0 items \<and>
     rt_packet_count t' = rt_packet_count t + word_of_nat (length items) \<and>
     rt_octet_count t' = rt_octet_count t + word_of_nat (sum_list (map item_octets items))"
  using udp.send_items_ok [of t en items 0 now] assms by (auto simp: udp_ok_def list_all_iff)

text \<open>
  C12. A run of packets over UDP: every packet leaves once and in order, the receiver reads in the
  headers the same SSRC and consecutive sequence numbers (modulo \<open>2 ^ 16\<close>), behind each header
  stands the payload of the call, and afterwards the counters for sender reports have grown by the
  number of packets and of payload octets (modulo \<open>2 ^ 32\<close>).
\<close>

theorem rtp_run_over_udp:
  assumes "wf_rt self" "udp_ok 0 (rt_transport self)"
  shows "\<exists>self' packets. send_items en compy_transport_udp now self items = Some (0, self') \<and>
     udp_sent (rt_transport self') = udp_sent (rt_transport self) @ packets \<and>
     length packets = length items \<and>
     (\<forall>k < length items. case items ! k of (ts, marker, ph, pl) \<Rightarrow>
        case Compy_RtpHeader_deserialize en h (packets ! k) of (n, hdr) \<Rightarrow>
          12 \<le> n \<and> drop (nat n) (packets ! k) = ph @ pl \<and>
          rtp_sequence_number hdr = htons en (rt_seq_num self + word_of_nat k) \<and>
          rtp_ssrc hdr = htonl en (rt_ssrc self) \<and> rtp_marker hdr = marker \<and>
          rtp_payload_ty hdr = rt_payload_ty self \<and>
          rtp_timestamp hdr = htonl en (compute_timestamp ts (rt_clock_rate self))) \<and>
     Compy_RtpTransport_get_packet_count self' =
       Compy_RtpTransport_get_packet_count self + word_of_nat (length items) \<and>
     Compy_RtpTransport_get_octet_count self' =
       Compy_RtpTransport_get_octet_count self + word_of_nat (sum_list (map item_octets items))"
proof -
  obtain self' where "send_items en compy_transport_udp now self items = Some (0, self')"
    "udp_sent (rt_transport self') = udp_sent (rt_transport self) @ packets_from en self 0 items"
    "rt_packet_count self' = rt_packet_count self + word_of_nat (length items)"
    "rt_octet_count self' = rt_octet_count self + word_of_nat (sum_list (map item_octets items))"
    using udp_send_items [OF assms] by blast
  then show ?thesis
    using nth_packet_header [OF assms(1)]
    by (intro exI [of _ self'] exI [of _ "packets_from en self 0 items"])
      (auto simp: packets_from_nth Compy_RtpTransport_get_packet_count_def
        Compy_RtpTransport_get_octet_count_def split: prod.split)
qed

definition sample_rt :: "Compy_UdpTransport Compy_RtpTransport" where
  "sample_rt = Compy_RtpTransport_new \<lparr>udp_sent = [], udp_calls = 0, udp_env = \<lambda>_. Sent\<rparr> 96 90000
     (Some (0xCAFE, 0xFFFF)) 0 0 0"

lemma sample_rt_wf: "wf_rt sample_rt"
  unfolding sample_rt_def by (rule wf_rt_new) simp

theorem rtp_run_over_udp_witness:
  "\<exists>self' packets. send_items LittleEndian compy_transport_udp (0, 0) sample_rt
       [(Compy_RtpTimestamp_Raw 1, False, [9], [1]), (Compy_RtpTimestamp_Raw 2, True, [], [2, 3])] = Some (0, self') \<and>
     length packets = 2 \<and> udp_sent (rt_transport self') = packets \<and> rt_packet_count self' = 2 \<and> rt_octet_count self' = 4"
proof -
  have "udp_ok 0 (rt_transport sample_rt)"
    by (auto simp: udp_ok_def sample_rt_def Compy_RtpTransport_new_def MAX_RETRANSMITS_def intro!: exI [of _ 0])
  from rtp_run_over_udp [OF sample_rt_wf this, of LittleEndian "(0, 0)"
      "[(Compy_RtpTimestamp_Raw 1, False, [9], [1]), (Compy_RtpTimestamp_Raw 2, True, [], [2, 3])]" sample_rtp]
  show ?thesis
    by (simp add: sample_rt_def Compy_RtpTransport_new_def item_octets_def
        Compy_RtpTransport_get_packet_count_def Compy_RtpTransport_get_octet_count_def)
      (metis One_nat_def Suc_1 length_Cons list.size(3))
qed

text \<open>
  A refused packet costs nothing: when the transport answers \<open>-1\<close> the sequence number and the
  counters stay as they are, so that the next packet takes the number of the lost one.
\<close>

theorem send_packet_refused:
  assumes "Compy_RtpTransport_send_packet en T now self ts marker ph pl = Some (-1, self')"
  shows "self' = self\<lparr>rt_transport := rt_transport self'\<rparr>"
  using assms
  by (auto simp: Compy_RtpTransport_send_packet_def Let_def split: option.splits if_splits)

theorem send_packet_refused_witness:
  "\<exists>self'. Compy_RtpTransport_send_packet LittleEndian compy_transport_udp (5, 0)
       (sample_rt\<lparr>rt_transport := \<lparr>udp_sent = [], udp_calls = 0, udp_env = \<lambda>_. SendError\<rparr>\<rparr>)
       (Compy_RtpTimestamp_Raw 1) False [] [1] = Some (-1, self') \<and>
     self' = sample_rt\<lparr>rt_transport := rt_transport self'\<rparr>"
proof -
  let ?self = "sample_rt\<lparr>rt_transport := \<lparr>udp_sent = [], udp_calls = 0, udp_env = \<lambda>_. SendError\<rparr>\<rparr>"
  have wf: "wf_rt ?self" using sample_rt_wf by (simp add: wf_rt_def)
  obtain self' where *: "Compy_RtpTransport_send_packet LittleEndian compy_transport_udp (5, 0)
      ?self (Compy_RtpTimestamp_Raw 1) False [] [1] = Some (-1, self')"
    using serialize_sent [OF wf_rtp_header_of(1) [OF wf]]
    by (simp add: Compy_RtpTransport_send_packet_def compy_transport_udp_def
        Compy_UdpTransport_transmit_def send_packet_def send_packet_loop.simps Let_def)
  from send_packet_refused [OF this] have "self' = sample_rt\<lparr>rt_transport := rt_transport self'\<rparr>"
    by simp
  with * show ?thesis by blast
qed

text \<open>
  The timestamp of a system time of whole milliseconds is the number of milliseconds times the
  clock rate in whole kilohertz: the remainder of the clock rate is dropped. At 44100 Hz one second
  advances the timestamp by 44000 ticks.
\<close>

theorem compute_timestamp_ms:
  assumes "1000 * ms < 2 ^ 64"
  shows "compute_timestamp (Compy_RtpTimestamp_SysClockUs (word_of_nat (1000 * ms))) rate =
     word_of_nat (ms * (unat rate div 1000))"
proof -
  let ?us = "word_of_nat (1000 * ms) :: u64"
  have us: "unat ?us = 1000 * ms" using assms by (simp add: unat_of_nat take_bit_eq_mod del: of_nat_mult)
  have rem: "?us mod 1000 = 0"
    by (rule word_unat_eq_iff [THEN iffD2]) (simp add: unat_mod us del: of_nat_mult)
  have quot: "?us div 1000 = word_of_nat ms"
    by (rule word_unat_eq_iff [THEN iffD2])
      (use assms in \<open>simp add: unat_div us unat_of_nat take_bit_eq_mod del: of_nat_mult\<close>)
  have zero: "dbl_round 0 d = 0" for d by (simp add: dbl_round_def Let_def)
  have "(ucast (word_of_nat ms * (ucast (rate div 1000) :: u64)) :: u32) = word_of_nat (ms * (unat rate div 1000))"
  proof -
    have "word_of_nat ms * (ucast (rate div 1000) :: u64) = word_of_nat (ms * unat (rate div 1000))"
      unfolding of_nat_mult by (subst of_nat_unat) (rule refl)
    moreover have "(ucast (word_of_nat n :: u64) :: u32) = word_of_nat n" for n
      by (rule bit_word_eqI) (simp add: bit_simps)
    ultimately show ?thesis by (simp add: unat_div del: of_nat_mult)
  qed
  then show ?thesis
    by (simp add: compute_timestamp_def Let_def rem quot zero dbl_trunc_def del: of_nat_mult)
qed

theorem compute_timestamp_ms_witness:
  "compute_timestamp (Compy_RtpTimestamp_SysClockUs 1000000) 44100 = 44000"
  using compute_timestamp_ms [of 1000 44100] by simp

end
