(* ===== verification/Nal_Transport.thy ===== *)
theory Nal_Transport
  imports Nal Rtp_Transport
begin

text \<open>
  The packetiser for NAL units, \<open>src/nal_transport.c\<close>: a unit below the size limit is one RTP packet,
  a larger one is cut into fragmentation units. It uses the RTP transport it owns; a division by
  zero (a limit of zero) is \<open>None\<close>.
\<close>

section \<open>Definitions\<close>

definition COMPY_MAX_H264_NALU_SIZE :: nat where "COMPY_MAX_H264_NALU_SIZE = 1200"
definition COMPY_MAX_H265_NALU_SIZE :: nat where "COMPY_MAX_H265_NALU_SIZE = 4096"

record Compy_NalTransportConfig =
  max_h264_nalu_size :: nat
  max_h265_nalu_size :: nat

definition Compy_NalTransportConfig_default :: Compy_NalTransportConfig where
  "Compy_NalTransportConfig_default =
     \<lparr>max_h264_nalu_size = COMPY_MAX_H264_NALU_SIZE, max_h265_nalu_size = COMPY_MAX_H265_NALU_SIZE\<rparr>"

record 't Compy_NalTransport =
  nt_transport :: "'t Compy_RtpTransport"
  nt_config :: Compy_NalTransportConfig

definition Compy_NalTransport_new_with_config ::
  "'t Compy_RtpTransport \<Rightarrow> Compy_NalTransportConfig \<Rightarrow> 't Compy_NalTransport" where
  "Compy_NalTransport_new_with_config t config = \<lparr>nt_transport = t, nt_config = config\<rparr>"

definition Compy_NalTransport_new :: "'t Compy_RtpTransport \<Rightarrow> 't Compy_NalTransport" where
  "Compy_NalTransport_new t = Compy_NalTransport_new_with_config t Compy_NalTransportConfig_default"

definition Compy_NalTransport_is_full :: "'t Compy_Transport \<Rightarrow> 't Compy_NalTransport \<Rightarrow> bool" where
  "Compy_NalTransport_is_full T self = Compy_RtpTransport_is_full T (nt_transport self)"

definition send_fu ::
  "endian \<Rightarrow> 't Compy_Transport \<Rightarrow> u64 \<times> u64 \<Rightarrow> 't Compy_RtpTransport \<Rightarrow> Compy_RtpTimestamp \<Rightarrow>
     Compy_NalUnit \<Rightarrow> bool \<Rightarrow> bool \<Rightarrow> (int \<times> 't Compy_RtpTransport) option" where
  "send_fu en T now t ts fu is_first_fragment is_last_fragment =
     (let fu_header = Compy_NalHeader_write_fu_header en (nalu_header fu) is_first_fragment is_last_fragment;
          marker = is_last_fragment
      in Compy_RtpTransport_send_packet en T now t ts marker fu_header (nalu_payload fu))"

text \<open>The loop over the full-sized fragments, from \<open>packet_idx\<close>.\<close>

function fu_loop ::
  "endian \<Rightarrow> 't Compy_Transport \<Rightarrow> u64 \<times> u64 \<Rightarrow> 't Compy_RtpTransport \<Rightarrow> Compy_RtpTimestamp \<Rightarrow>
     Compy_NalUnit \<Rightarrow> nat \<Rightarrow> nat \<Rightarrow> nat \<Rightarrow> nat \<Rightarrow> (int \<times> 't Compy_RtpTransport) option" where
  "fu_loop en T now t ts nalu max_packet_size rem packets_count packet_idx =
     (if packet_idx < packets_count then
        let is_first_fragment = (0 = packet_idx);
            is_last_fragment = (0 = rem \<and> packets_count - 1 = packet_idx);
            stop = (if is_last_fragment then length (nalu_payload nalu) else (packet_idx + 1) * max_packet_size);
            fu_data = take (stop - packet_idx * max_packet_size)
                        (drop (packet_idx * max_packet_size) (nalu_payload nalu));
            fu = \<lparr>nalu_header = nalu_header nalu, nalu_payload = fu_data\<rparr>
        in case send_fu en T now t ts fu is_first_fragment is_last_fragment of
             None \<Rightarrow> None
           | Some (ret, t) \<Rightarrow>
               if ret = -1 then Some (-1, t)
               else fu_loop en T now t ts nalu max_packet_size rem packets_count (packet_idx + 1)
      else Some (0, t))"
  by pat_completeness auto
termination
  by (relation "measure (\<lambda>(_, _, _, _, _, _, _, _, packets_count, packet_idx). packets_count - packet_idx)") auto

declare fu_loop.simps [simp del]

definition send_fragmentized_nal_data ::
  "endian \<Rightarrow> 't Compy_Transport \<Rightarrow> u64 \<times> u64 \<Rightarrow> 't Compy_RtpTransport \<Rightarrow> Compy_RtpTimestamp \<Rightarrow> nat \<Rightarrow>
     Compy_NalUnit \<Rightarrow> (int \<times> 't Compy_RtpTransport) option" where
  "send_fragmentized_nal_data en T now t ts max_packet_size nalu =
     (let fu_overhead = Compy_NalHeader_fu_size (nalu_header nalu);
          max_packet_size = (if max_packet_size > fu_overhead then max_packet_size - fu_overhead
                             else max_packet_size)
      in if max_packet_size = 0 then None
         else
           let rem = length (nalu_payload nalu) mod max_packet_size;
               packets_count = (length (nalu_payload nalu) - rem) div max_packet_size
           in case fu_loop en T now t ts nalu max_packet_size rem packets_count 0 of
                None \<Rightarrow> None
              | Some (ret, t) \<Rightarrow>
                  if ret = -1 then Some (-1, t)
                  else if rem \<noteq> 0 then
                    let fu_data = drop (packets_count * max_packet_size) (nalu_payload nalu);
                        fu = \<lparr>nalu_header = nalu_header nalu, nalu_payload = fu_data\<rparr>;
                        is_first_fragment = (0 = packets_count)
                    in case send_fu en T now t ts fu is_first_fragment True of
                         None \<Rightarrow> None
                       | Some (ret, t) \<Rightarrow> if ret = -1 then Some (-1, t) else Some (0, t)
                  else Some (0, t))"

definition Compy_NalTransport_send_packet ::
  "endian \<Rightarrow> 't Compy_Transport \<Rightarrow> u64 \<times> u64 \<Rightarrow> 't Compy_NalTransport \<Rightarrow> Compy_RtpTimestamp \<Rightarrow>
     Compy_NalUnit \<Rightarrow> (int \<times> 't Compy_NalTransport) option" where
  "Compy_NalTransport_send_packet en T now self ts nalu =
     (let max_packet_size = (case nalu_header nalu of
            Compy_NalHeader_H264 _ \<Rightarrow> max_h264_nalu_size (nt_config self)
          | Compy_NalHeader_H265 _ \<Rightarrow> max_h265_nalu_size (nt_config self));
          nalu_size = Compy_NalHeader_size (nalu_header nalu) + length (nalu_payload nalu);
          result = (if nalu_size < max_packet_size then
              let marker = (Compy_NalHeader_is_coded_slice_idr (nalu_header nalu) \<or>
                            Compy_NalHeader_is_coded_slice_non_idr (nalu_header nalu));
                  header_buf = Compy_NalHeader_serialize en (nalu_header nalu)
              in Compy_RtpTransport_send_packet en T now (nt_transport self) ts marker header_buf
                   (nalu_payload nalu)
            else send_fragmentized_nal_data en T now (nt_transport self) ts max_packet_size nalu)
      in case result of
           None \<Rightarrow> None
         | Some (ret, t) \<Rightarrow> Some (ret, self\<lparr>nt_transport := t\<rparr>))"

section \<open>The fragments\<close>

text \<open>
  The reference: the payload in pieces of \<open>m\<close> octets, the last one shorter if need be, the first and
  the last one marked.
\<close>

definition fu_count :: "nat \<Rightarrow> u8 list \<Rightarrow> nat" where
  "fu_count m payload = (length payload + m - 1) div m"

definition fu_item ::
  "endian \<Rightarrow> Compy_RtpTimestamp \<Rightarrow> Compy_NalHeader \<Rightarrow> nat \<Rightarrow> u8 list \<Rightarrow> nat \<Rightarrow> rtp_item" where
  "fu_item en ts h m payload i =
     (let last = (Suc i = fu_count m payload)
      in (ts, last, Compy_NalHeader_write_fu_header en h (i = 0) last, take m (drop (i * m) payload)))"

definition fu_items ::
  "endian \<Rightarrow> Compy_RtpTimestamp \<Rightarrow> Compy_NalHeader \<Rightarrow> nat \<Rightarrow> u8 list \<Rightarrow> rtp_item list" where
  "fu_items en ts h m payload = map (fu_item en ts h m payload) [0..<fu_count m payload]"

lemma fu_count_full:
  assumes "0 < m" "length payload mod m = 0"
  shows "fu_count m payload = length payload div m" "fu_count m payload * m = length payload"
proof -
  from assms obtain q where q: "length payload = q * m" by auto
  have "length payload + m - 1 = (m - 1) + q * m" using q assms(1) by simp
  then show "fu_count m payload = length payload div m"
    using q assms(1) by (simp only: fu_count_def div_mult_self1) simp
  then show "fu_count m payload * m = length payload" using q assms(1) by simp
qed

lemma fu_count_rest:
  assumes "0 < m" "length payload mod m \<noteq> 0"
  shows "fu_count m payload = Suc (length payload div m)"
proof -
  define q r where "q = length payload div m" and "r = length payload mod m"
  have len: "length payload = r + q * m" by (simp add: q_def r_def)
  have r: "r < m" "r \<noteq> 0" using assms by (simp_all add: r_def)
  then have "length payload + m - 1 = (r - 1) + Suc q * m" using len by simp
  then show ?thesis
    using assms(1) r by (simp only: fu_count_def div_mult_self1) (simp add: q_def)
qed

lemma send_items_append:
  "send_items en T now t (xs @ ys) =
     (case send_items en T now t xs of
        None \<Rightarrow> None
      | Some (ret, t) \<Rightarrow> if ret = -1 then Some (-1, t) else send_items en T now t ys)"
proof (induction xs arbitrary: t)
  case (Cons x xs)
  obtain ts marker ph pl where "x = (ts, marker, ph, pl)" by (cases x)
  with Cons show ?case
    by (cases "Compy_RtpTransport_send_packet en T now t ts marker ph pl") (auto split: option.split if_splits)
qed simp

lemma send_fu_item:
  "send_fu en T now t ts \<lparr>nalu_header = h, nalu_payload = data\<rparr> s e =
     Compy_RtpTransport_send_packet en T now t ts e (Compy_NalHeader_write_fu_header en h s e) data"
  by (simp add: send_fu_def)

lemma fu_loop_items:
  assumes m: "0 < m" and rem: "rem = length (nalu_payload nalu) mod m"
    and count: "count = length (nalu_payload nalu) div m"
  shows "idx \<le> count \<Longrightarrow> fu_loop en T now t ts nalu m rem count idx =
     send_items en T now t (map (fu_item en ts (nalu_header nalu) m (nalu_payload nalu)) [idx..<count])"
proof (induction "count - idx" arbitrary: idx t)
  case 0
  then show ?case by (subst fu_loop.simps) simp
next
  case (Suc k)
  let ?p = "nalu_payload nalu"
  from Suc have idx: "idx < count" by simp
  have last: "(0 = rem \<and> count - 1 = idx) = (Suc idx = fu_count m ?p)"
    using idx fu_count_full [OF m, of ?p] fu_count_rest [OF m, of ?p] by (cases "rem = 0") (auto simp: rem count)
  have stop: "(if Suc idx = fu_count m ?p then length ?p else (idx + 1) * m) - idx * m = m"
  proof (cases "Suc idx = fu_count m ?p")
    case True
    then have "rem = 0" using last by simp
    then have "length ?p = Suc idx * m" using fu_count_full(2) [OF m, of ?p] True by (simp add: rem)
    then show ?thesis unfolding if_P [OF True] by simp
  qed simp
  have "[idx..<count] = idx # [Suc idx..<count]" using idx by (rule upt_conv_Cons)
  moreover have "fu_loop en T now t' ts nalu m rem count (Suc idx) =
      send_items en T now t' (map (fu_item en ts (nalu_header nalu) m ?p) [Suc idx..<count])" for t'
    using Suc idx by (intro Suc.hyps) auto
  moreover have "fu_loop en T now t ts nalu m rem count idx =
      (case Compy_RtpTransport_send_packet en T now t ts (Suc idx = fu_count m ?p)
          (Compy_NalHeader_write_fu_header en (nalu_header nalu) (0 = idx) (Suc idx = fu_count m ?p))
          (take m (drop (idx * m) ?p)) of
         None \<Rightarrow> None
       | Some (ret, t) \<Rightarrow> if ret = -1 then Some (-1, t)
           else fu_loop en T now t ts nalu m rem count (idx + 1))"
    by (subst fu_loop.simps) (simp only: idx if_True Let_def last stop send_fu_item)
  ultimately show ?case
    by (simp add: fu_item_def Let_def eq_commute [of 0 idx] split: option.split)
qed

definition fu_capacity :: "nat \<Rightarrow> Compy_NalHeader \<Rightarrow> nat" where
  "fu_capacity max_packet_size h =
     (if max_packet_size > Compy_NalHeader_fu_size h then max_packet_size - Compy_NalHeader_fu_size h
      else max_packet_size)"

text \<open>Fragmentation is the sending of the reference fragments, failure by failure.\<close>

lemma send_fragmentized_items:
  assumes "0 < fu_capacity max_packet_size (nalu_header nalu)"
  shows "send_fragmentized_nal_data en T now t ts max_packet_size nalu =
     send_items en T now t (fu_items en ts (nalu_header nalu)
       (fu_capacity max_packet_size (nalu_header nalu)) (nalu_payload nalu))"
proof -
  let ?m = "fu_capacity max_packet_size (nalu_header nalu)" and ?p = "nalu_payload nalu"
    and ?h = "nalu_header nalu"
  let ?r = "length ?p mod ?m" and ?n = "length ?p div ?m"
  have n: "(length ?p - ?r) div ?m = ?n" by (metis div_mult_self_is_m minus_mod_eq_div_mult assms)
  have loop: "fu_loop en T now t ts nalu ?m ?r ?n 0 =
      send_items en T now t (map (fu_item en ts ?h ?m ?p) [0..<?n])"
    by (rule fu_loop_items [OF assms refl refl]) simp
  have unfold: "send_fragmentized_nal_data en T now t ts max_packet_size nalu =
      (case send_items en T now t (map (fu_item en ts ?h ?m ?p) [0..<?n]) of
         None \<Rightarrow> None
       | Some (ret, t) \<Rightarrow>
           if ret = -1 then Some (-1, t)
           else if ?r \<noteq> 0 then
             (case send_fu en T now t ts \<lparr>nalu_header = ?h, nalu_payload = drop (?n * ?m) ?p\<rparr> (0 = ?n) True of
                None \<Rightarrow> None
              | Some (ret, t) \<Rightarrow> if ret = -1 then Some (-1, t) else Some (0, t))
           else Some (0, t))"
    using assms unfolding send_fragmentized_nal_data_def fu_capacity_def [symmetric] Let_def n loop
    by (simp cong: if_cong)
  show ?thesis
  proof (cases "?r = 0")
    case True
    have ret: "send_items en T now t items = Some (r, t') \<Longrightarrow> r = 0 \<or> r = -1" for items r t t'
      by (induction items arbitrary: t) (auto split: option.splits if_splits)
    from True show ?thesis
      using ret by (auto simp: unfold fu_items_def fu_count_full [OF assms] split: option.split)
  next
    case False
    then have cnt: "fu_count ?m ?p = Suc ?n" by (rule fu_count_rest [OF assms])
    have "length ?p - ?n * ?m < ?m"
      using mod_less_divisor [OF assms, of "length ?p"] by (simp add: modulo_nat_def mult.commute)
    then have "fu_item en ts ?h ?m ?p ?n =
        (ts, True, Compy_NalHeader_write_fu_header en ?h (?n = 0) True, drop (?n * ?m) ?p)"
      by (simp add: fu_item_def cnt)
    then show ?thesis
      using False
      by (simp add: unfold fu_items_def cnt send_items_append send_fu_item eq_commute [of 0 ?n]
          cong: option.case_cong if_cong) 
  qed
qed

section \<open>What the receiver gets\<close>

lemma concat_pieces:
  assumes "0 < m"
  shows "concat (map (\<lambda>i. take m (drop (i * m) xs)) [0..<n]) = take (n * m) xs"
proof (induction n)
  case (Suc n)
  have "take (n * m) xs @ take m (drop (n * m) xs) = take (n * m + m) xs" by (simp add: take_add)
  with Suc show ?case by (simp add: add.commute)
qed simp

lemma fu_count_covers:
  assumes "0 < m"
  shows "length payload \<le> fu_count m payload * m"
proof (cases "length payload mod m = 0")
  case True
  then show ?thesis using fu_count_full(2) [OF assms] by simp
next
  case False
  have "length payload = length payload div m * m + length payload mod m" by simp
  moreover have "length payload mod m < m" using assms by simp
  ultimately show ?thesis unfolding fu_count_rest [OF assms False] mult_Suc by linarith
qed

lemma fu_pieces:
  assumes "0 < m"
  shows "concat (map (\<lambda>i. take m (drop (i * m) payload)) [0..<fu_count m payload]) = payload"
  using concat_pieces [OF assms, of payload "fu_count m payload"] fu_count_covers [OF assms, of payload] by simp

lemma fragment_facts:
  assumes "wf_nal h"
  shows "fu_is (nal_is_h265 h) (Compy_NalHeader_write_fu_header en h s e @ data)"
    "fu_start (nal_is_h265 h) (Compy_NalHeader_write_fu_header en h s e @ data) = s"
    "fu_end (nal_is_h265 h) (Compy_NalHeader_write_fu_header en h s e @ data) = e"
    "fu_nal_header (nal_is_h265 h) (Compy_NalHeader_write_fu_header en h s e @ data) =
       Compy_NalHeader_serialize en h"
    "drop (fu_len (nal_is_h265 h)) (Compy_NalHeader_write_fu_header en h s e @ data) = data"
    "length (Compy_NalHeader_write_fu_header en h s e) = Compy_NalHeader_fu_size h"
proof -
  have bytes: "length (h265_bytes g) = 2" for g by (simp add: h265_bytes_def)
  show "fu_is (nal_is_h265 h) (Compy_NalHeader_write_fu_header en h s e @ data)"
    "fu_start (nal_is_h265 h) (Compy_NalHeader_write_fu_header en h s e @ data) = s"
    "fu_end (nal_is_h265 h) (Compy_NalHeader_write_fu_header en h s e @ data) = e"
    "fu_nal_header (nal_is_h265 h) (Compy_NalHeader_write_fu_header en h s e @ data) =
       Compy_NalHeader_serialize en h"
    "drop (fu_len (nal_is_h265 h)) (Compy_NalHeader_write_fu_header en h s e @ data) = data"
    "length (Compy_NalHeader_write_fu_header en h s e) = Compy_NalHeader_fu_size h"
    using assms h264_fragment h265_fragment
    by (cases h; simp add: nal_is_h265_def Compy_H265NalHeader_serialize_def store16_load16 bytes
        COMPY_H264_FU_HEADER_SIZE_def COMPY_H265_FU_HEADER_SIZE_def)+
qed

lemma map_first_last:
  assumes "2 \<le> n"
  shows "map (\<lambda>i. i = 0) [0..<n] = True # replicate (n - 1) False"
    "map (\<lambda>i. Suc i = n) [0..<n] = replicate (n - 1) False @ [True]"
  by (rule nth_equalityI; use assms in \<open>auto simp: nth_Cons' nth_append\<close>)+

lemma nal_receive_several:
  assumes "ps = p # q # rest" "list_all (fu_is k) ps"
    "map (fu_start k) ps = True # replicate (n - 1) False"
    "map (fu_end k) ps = replicate (n - 1) False @ [True]"
    "concat (map (drop (fu_len k)) ps) = payload" "length ps = n"
  shows "nal_receive k ps = Some (fu_nal_header k p @ payload)"
  using assms by (simp add: nal_receive_def del: replicate.simps map_eq_Cons_conv)

lemma nal_receive_fragments:
  assumes "wf_nal h" "0 < m" "m < length payload"
  shows "nal_receive (nal_is_h265 h) (map item_payload (fu_items en ts h m payload)) =
     Some (Compy_NalHeader_serialize en h @ payload)"
proof -
  let ?n = "fu_count m payload"
  let ?f = "\<lambda>i. Compy_NalHeader_write_fu_header en h (i = 0) (Suc i = ?n) @ take m (drop (i * m) payload)"
  let ?ps = "map ?f [0..<?n]"
  have n: "2 \<le> ?n"
  proof (rule ccontr)
    assume "\<not> 2 \<le> ?n"
    then have "?n * m \<le> 1 * m" by (intro mult_le_mono1) simp
    then show False using assms(3) fu_count_covers [OF assms(2), of payload] by linarith
  qed
  have ps: "map item_payload (fu_items en ts h m payload) = ?ps"
    by (simp add: fu_items_def item_payload_def fu_item_def Let_def)
  have pq: "?ps = ?f 0 # ?f 1 # map ?f [2..<?n]"
    using n by (simp add: upt_conv_Cons numeral_2_eq_2)
  have "list_all (fu_is (nal_is_h265 h)) ?ps"
    by (simp add: list_all_iff fragment_facts(1) [OF assms(1)])
  moreover have "map (fu_start (nal_is_h265 h)) ?ps = True # replicate (?n - 1) False"
    using map_first_last(1) [OF n] by (simp add: fragment_facts(2) [OF assms(1)] comp_def)
  moreover have "map (fu_end (nal_is_h265 h)) ?ps = replicate (?n - 1) False @ [True]"
    using map_first_last(2) [OF n] by (simp add: fragment_facts(3) [OF assms(1)] comp_def)
  moreover have "concat (map (drop (fu_len (nal_is_h265 h))) ?ps) = payload"
    using fu_pieces [OF assms(2), of payload] by (simp add: fragment_facts(5) [OF assms(1)] comp_def del: drop_append)
  moreover have "length ?ps = ?n" by simp
  ultimately have "nal_receive (nal_is_h265 h) ?ps = Some (fu_nal_header (nal_is_h265 h) (?f 0) @ payload)"
    by (rule nal_receive_several [OF pq])
  then show ?thesis unfolding ps fragment_facts(4) [OF assms(1)] .
qed

section \<open>A unit as a run of packets\<close>

lemmas nal_size_defs = COMPY_H264_NAL_HEADER_SIZE_def COMPY_H264_FU_HEADER_SIZE_def
  COMPY_H265_NAL_HEADER_SIZE_def COMPY_H265_FU_HEADER_SIZE_def

text \<open>What a call sends: the unit as it is when it is below the limit, its fragments otherwise.\<close>

definition nal_limit :: "'t Compy_NalTransport \<Rightarrow> Compy_NalHeader \<Rightarrow> nat" where
  "nal_limit self h = (case h of
     Compy_NalHeader_H264 _ \<Rightarrow> max_h264_nalu_size (nt_config self)
   | Compy_NalHeader_H265 _ \<Rightarrow> max_h265_nalu_size (nt_config self))"

definition nal_items ::
  "endian \<Rightarrow> Compy_RtpTimestamp \<Rightarrow> nat \<Rightarrow> Compy_NalUnit \<Rightarrow> rtp_item list" where
  "nal_items en ts limit nalu =
     (let h = nalu_header nalu
      in if Compy_NalHeader_size h + length (nalu_payload nalu) < limit
         then [(ts, Compy_NalHeader_is_coded_slice_idr h \<or> Compy_NalHeader_is_coded_slice_non_idr h,
                Compy_NalHeader_serialize en h, nalu_payload nalu)]
         else fu_items en ts h (fu_capacity limit h) (nalu_payload nalu))"

definition sent_status :: "int \<Rightarrow> int" where
  "sent_status ret = (if ret = -1 then -1 else 0)"

lemma unit_is_not_fu:
  assumes "wf_nal h"
  shows "\<not> fu_is (nal_is_h265 h) (Compy_NalHeader_serialize en h @ data)"
proof (cases h)
  case (Compy_NalHeader_H264 g)
  have "\<not> bit (h264_unit_type g) n" if "5 \<le> n" for n
    using small_u8_bits [of "h264_unit_type g" 5 n] assms that by (simp add: Compy_NalHeader_H264)
  then have "Compy_H264NalHeader_serialize g AND 0x1F = h264_unit_type g"
    by - (rule u8_eqI; simp add: Compy_H264NalHeader_serialize_def bit_simps bit_numeral_rec)
  with assms show ?thesis by (auto simp: Compy_NalHeader_H264 fu_is_def nal_is_h265_def)
next
  case (Compy_NalHeader_H265 g)
  have ty: "\<not> bit (h265_unit_type g) n" if "6 \<le> n" for n
    using small_u8_bits [of "h265_unit_type g" 6 n] assms that by (simp add: Compy_NalHeader_H265)
  have "drop_bit 1 (h265_bytes g ! 0) AND 0x3F = h265_unit_type g"
    unfolding h265_bytes_def nth_Cons_0
    by (rule u8_eqI; (simp add: bit_simps bit_numeral_rec ty del: push_bit_Suc drop_bit_Suc)?;
        simp add: eval_nat_numeral)
  moreover have "length (h265_bytes g) = 2" by (simp add: h265_bytes_def)
  ultimately show ?thesis
    using assms by (auto simp: Compy_NalHeader_H265 fu_is_def nal_is_h265_def nth_append
        Compy_H265NalHeader_serialize_def store16_load16)
qed

lemma length_nal_serialize: "length (Compy_NalHeader_serialize en h) = Compy_NalHeader_size h"
  by (cases h) (simp_all add: nal_size_defs Compy_H265NalHeader_serialize_def store16_load16 h265_bytes_def)

lemma send_items_status:
  "send_items en T now t items = Some (r, t') \<Longrightarrow> sent_status r = r"
  by (induction items arbitrary: t) (auto simp: sent_status_def split: option.splits if_splits)

lemma nal_receive_items:
  assumes "wf_nal (nalu_header nalu)" "Compy_NalHeader_fu_size (nalu_header nalu) < limit"
  shows "nal_receive (nal_is_h265 (nalu_header nalu)) (map item_payload (nal_items en ts limit nalu)) =
     Some (Compy_NalHeader_serialize en (nalu_header nalu) @ nalu_payload nalu)"
proof (cases "Compy_NalHeader_size (nalu_header nalu) + length (nalu_payload nalu) < limit")
  case True
  have "\<not> fu_is (nal_is_h265 (nalu_header nalu))
      (Compy_NalHeader_serialize en (nalu_header nalu) @ nalu_payload nalu)"
    by (rule unit_is_not_fu [OF assms(1)])
  with True show ?thesis by (simp add: nal_items_def Let_def item_payload_def nal_receive_def)
next
  case False
  have "Compy_NalHeader_fu_size (nalu_header nalu) = Suc (Compy_NalHeader_size (nalu_header nalu))"
    by (cases "nalu_header nalu") (simp_all add: nal_size_defs)
  with False assms show ?thesis
    by (simp add: nal_items_def Let_def, intro nal_receive_fragments) (simp_all add: fu_capacity_def)
qed

lemma item_payload_limit:
  assumes "wf_nal (nalu_header nalu)" "Compy_NalHeader_fu_size (nalu_header nalu) < limit"
    and "item \<in> set (nal_items en ts limit nalu)"
  shows "length (item_payload item) \<le> limit"
  using assms(2,3) fragment_facts(6) [OF assms(1)]
  by (auto simp: nal_items_def Let_def fu_items_def fu_item_def item_payload_def fu_capacity_def
      length_nal_serialize split: if_splits)

lemma markers_at_end:
  assumes "Suc k < length (nal_items en ts limit nalu)"
  shows "\<not> fst (snd (nal_items en ts limit nalu ! k))"
  using assms by (auto simp: nal_items_def Let_def fu_items_def fu_item_def split: if_splits)

lemma nal_send_items:
  "(case Compy_NalTransport_send_packet en T now self ts nalu of
      None \<Rightarrow> None | Some (ret, self') \<Rightarrow> Some (sent_status ret, self')) =
   (if nal_limit self (nalu_header nalu) = 0 then None
    else case send_items en T now (nt_transport self)
                (nal_items en ts (nal_limit self (nalu_header nalu)) nalu) of
           None \<Rightarrow> None
         | Some (ret, t) \<Rightarrow> Some (ret, self\<lparr>nt_transport := t\<rparr>))"
proof -
  let ?h = "nalu_header nalu" and ?limit = "nal_limit self (nalu_header nalu)"
  have unfold: "Compy_NalTransport_send_packet en T now self ts nalu =
      (case (if Compy_NalHeader_size ?h + length (nalu_payload nalu) < ?limit then
               Compy_RtpTransport_send_packet en T now (nt_transport self) ts
                 (Compy_NalHeader_is_coded_slice_idr ?h \<or> Compy_NalHeader_is_coded_slice_non_idr ?h)
                 (Compy_NalHeader_serialize en ?h) (nalu_payload nalu)
             else send_fragmentized_nal_data en T now (nt_transport self) ts ?limit nalu) of
         None \<Rightarrow> None | Some (ret, t) \<Rightarrow> Some (ret, self\<lparr>nt_transport := t\<rparr>))"
    by (simp add: Compy_NalTransport_send_packet_def Let_def nal_limit_def)
  consider (small) "Compy_NalHeader_size ?h + length (nalu_payload nalu) < ?limit"
    | (zero) "\<not> Compy_NalHeader_size ?h + length (nalu_payload nalu) < ?limit" "?limit = 0"
    | (large) "\<not> Compy_NalHeader_size ?h + length (nalu_payload nalu) < ?limit" "0 < ?limit"
    by blast
  then show ?thesis
  proof cases
    case small
    then show ?thesis
      by (simp add: unfold nal_items_def Let_def sent_status_def split: option.split)
  next
    case zero
    then show ?thesis by (simp add: unfold send_fragmentized_nal_data_def Let_def)
  next
    case large
    then have "0 < fu_capacity ?limit ?h" by (simp add: fu_capacity_def)
    then have "send_fragmentized_nal_data en T now (nt_transport self) ts ?limit nalu =
        send_items en T now (nt_transport self) (nal_items en ts ?limit nalu)"
      using large(1) by (simp add: send_fragmentized_items nal_items_def Let_def)
    with large show ?thesis
      by (cases "send_items en T now (nt_transport self) (nal_items en ts ?limit nalu)")
        (auto simp: unfold dest: send_items_status)
  qed
qed

section \<open>Properties\<close>

text \<open>
  C34. Sending a NAL unit is the sending of a run of RTP packets that is fixed by the unit and the
  size limit alone, over every transport and through every failure: the unit itself when it is below
  the limit, otherwise pieces of the size that is left beside the fragment header, the first and the
  last of them marked. The only exception is a limit of zero, where the program divides by zero.
\<close>

theorem nal_send_equivalence:
  "(case Compy_NalTransport_send_packet en T now self ts nalu of
      None \<Rightarrow> None | Some (ret, self') \<Rightarrow> Some (sent_status ret, self')) =
   (if nal_limit self (nalu_header nalu) = 0 then None
    else case send_items en T now (nt_transport self)
                (nal_items en ts (nal_limit self (nalu_header nalu)) nalu) of
           None \<Rightarrow> None
         | Some (ret, t) \<Rightarrow> Some (ret, self\<lparr>nt_transport := t\<rparr>))"
  by (rule nal_send_items)

text \<open>
  C4. A NAL unit sent over UDP arrives: the RTP payloads of the datagrams, none longer than the
  configured limit and only the last one with the marker, are put together by a receiver of RFC 6184
  or RFC 7798 into the header and the payload of the unit. The limit has to exceed the size of the
  fragment header.
\<close>

theorem nal_unit_over_udp:
  assumes "wf_rt (nt_transport self)" "udp_ok 0 (rt_transport (nt_transport self))"
    and "wf_nal (nalu_header nalu)"
    and "Compy_NalHeader_fu_size (nalu_header nalu) < nal_limit self (nalu_header nalu)"
  shows "\<exists>ret self' packets.
     Compy_NalTransport_send_packet en compy_transport_udp now self ts nalu = Some (ret, self') \<and> ret \<noteq> -1 \<and>
     udp_sent (rt_transport (nt_transport self')) = udp_sent (rt_transport (nt_transport self)) @ packets \<and>
     nal_receive (nal_is_h265 (nalu_header nalu)) (map (rtp_body en h) packets) =
       Some (Compy_NalHeader_serialize en (nalu_header nalu) @ nalu_payload nalu) \<and>
     (\<forall>p \<in> set packets. length (rtp_body en h p) \<le> nal_limit self (nalu_header nalu)) \<and>
     (\<forall>p \<in> set (butlast packets). \<not> rtp_mark en h p)"
proof -
  let ?t = "nt_transport self" and ?limit = "nal_limit self (nalu_header nalu)"
  let ?items = "nal_items en ts ?limit nalu"
  let ?packets = "packets_from en ?t 0 ?items"
  obtain t' where sent: "send_items en compy_transport_udp now ?t ?items = Some (0, t')"
    "udp_sent (rt_transport t') = udp_sent (rt_transport ?t) @ ?packets"
    using udp_send_items [OF assms(1,2)] by blast
  from sent(1) assms(4) nal_send_items [of en compy_transport_udp now self ts nalu]
  obtain ret where ret: "Compy_NalTransport_send_packet en compy_transport_udp now self ts nalu =
      Some (ret, self\<lparr>nt_transport := t'\<rparr>)" "ret \<noteq> -1"
    by (auto simp: sent_status_def split: option.splits prod.splits if_splits)
  have bodies: "map (rtp_body en h) ?packets = map item_payload ?items"
    by (rule nth_equalityI) (simp_all add: packet_read [OF assms(1)])
  have "length (rtp_body en h p) \<le> ?limit" if "p \<in> set ?packets" for p
  proof -
    from that have "rtp_body en h p \<in> set (map item_payload ?items)" unfolding bodies [symmetric] by simp
    then show ?thesis using item_payload_limit [OF assms(3,4)] by auto
  qed
  moreover have "\<not> rtp_mark en h p" if "p \<in> set (butlast ?packets)" for p
  proof -
    from that obtain k where "k < length ?items - 1" "p = ?packets ! k"
      by (auto simp: in_set_conv_nth nth_butlast)
    then show ?thesis using packet_read(2) [OF assms(1)] markers_at_end by simp
  qed
  ultimately show ?thesis
    using ret sent(2) bodies nal_receive_items [OF assms(3,4)] by auto
qed

definition sample_nt :: "Compy_UdpTransport Compy_NalTransport" where
  "sample_nt = Compy_NalTransport_new_with_config sample_rt \<lparr>max_h264_nalu_size = 5, max_h265_nalu_size = 6\<rparr>"

definition sample_nalu :: Compy_NalUnit where
  "sample_nalu = \<lparr>nalu_header = Compy_NalHeader_H264 (Compy_H264NalHeader_parse 0x65),
     nalu_payload = [1, 2, 3, 4, 5, 6, 7]\<rparr>"

theorem nal_unit_over_udp_witness:
  "\<exists>ret self' packets.
     Compy_NalTransport_send_packet LittleEndian compy_transport_udp (0, 0) sample_nt
       (Compy_RtpTimestamp_Raw 1) sample_nalu = Some (ret, self') \<and> ret \<noteq> -1 \<and>
     udp_sent (rt_transport (nt_transport self')) = packets \<and>
     nal_receive False (map (rtp_body LittleEndian sample_rtp) packets) = Some [0x65, 1, 2, 3, 4, 5, 6, 7]"
proof -
  have wf: "wf_rt (nt_transport sample_nt)"
    using sample_rt_wf by (simp add: sample_nt_def Compy_NalTransport_new_with_config_def)
  have ok: "udp_ok 0 (rt_transport (nt_transport sample_nt))"
    "udp_sent (rt_transport (nt_transport sample_nt)) = []"
    by (auto simp: sample_nt_def Compy_NalTransport_new_with_config_def udp_ok_def sample_rt_def
        Compy_RtpTransport_new_def MAX_RETRANSMITS_def intro!: exI [of _ 0])
  have nal: "wf_nal (nalu_header sample_nalu)" "nal_is_h265 (nalu_header sample_nalu) = False"
    "Compy_NalHeader_fu_size (nalu_header sample_nalu) < nal_limit sample_nt (nalu_header sample_nalu)"
    "Compy_NalHeader_serialize LittleEndian (nalu_header sample_nalu) @ nalu_payload sample_nalu =
       [0x65, 1, 2, 3, 4, 5, 6, 7]"
    by (simp_all add: sample_nalu_def sample_nt_def Compy_NalTransport_new_with_config_def nal_limit_def
        nal_is_h265_def nal_size_defs Compy_H264NalHeader_parse_def Compy_H264NalHeader_serialize_def
        bit_numeral_rec)
  show ?thesis
    using nal_unit_over_udp [OF wf ok(1) nal(1,3), of LittleEndian "(0, 0)" "Compy_RtpTimestamp_Raw 1" sample_rtp]
    unfolding nal(2,4) ok(2) append_Nil by blast
qed

text \<open>
  Within the sizes the configuration may have, the smallest ones are not met: when the limit does
  not exceed the fragment header, the header is not subtracted and a fragment is longer than the
  limit, by up to the size of the fragment header.
\<close>

theorem nal_limit_too_small:
  assumes "wf_nal h" "0 < limit" "limit \<le> Compy_NalHeader_fu_size h" "limit \<le> length payload"
  shows "length (item_payload (hd (nal_items en ts limit \<lparr>nalu_header = h, nalu_payload = payload\<rparr>))) =
     limit + Compy_NalHeader_fu_size h"
proof -
  have "0 < fu_count limit payload"
    using fu_count_covers [OF assms(2), of payload] assms(2,4) by (cases "fu_count limit payload") auto
  then have "hd (fu_items en ts h limit payload) = fu_item en ts h limit payload 0"
    by (simp add: fu_items_def hd_map)
  moreover have "\<not> Compy_NalHeader_size h + length payload < limit" using assms(4) by simp
  ultimately show ?thesis
    using assms fragment_facts(6) [OF assms(1)]
    by (simp add: nal_items_def fu_capacity_def Let_def fu_item_def item_payload_def min_absorb2)
qed

theorem nal_limit_too_small_witness:
  "length (item_payload (hd (nal_items LittleEndian (Compy_RtpTimestamp_Raw 0) 2 sample_nalu))) = 4"
  using nal_limit_too_small [of "nalu_header sample_nalu" 2 "nalu_payload sample_nalu" LittleEndian
      "Compy_RtpTimestamp_Raw 0"]
  by (simp add: sample_nalu_def nal_size_defs Compy_H264NalHeader_parse_def bit_numeral_rec)

end
