(* ===== verification/Srtp.thy ===== *)
theory Srtp
  imports Transport
begin

text \<open>
  SRTP and SRTCP, the sending side of \<open>src/transport/srtp.c\<close>: key derivation, the counter-mode
  initialisation vector, and the two transports that encrypt and authenticate a packet and pass it
  to the transport they wrap. The cryptographic primitives are the operations of the compiled
  backend (\<open>include/compy/priv/crypto.h\<close>), a record that the definitions take as an argument; what
  the properties use of it is \<open>srtp_ops_ok\<close>.
\<close>

section \<open>Definitions\<close>

definition SRTP_MAX_PACKET_SIZE :: nat where "SRTP_MAX_PACKET_SIZE = 2048"
definition SRTP_AUTH_TAG_80 :: nat where "SRTP_AUTH_TAG_80 = 10"
definition SRTP_AUTH_TAG_32 :: nat where "SRTP_AUTH_TAG_32 = 4"
definition AES_BLOCK_SIZE :: nat where "AES_BLOCK_SIZE = 16"

definition LABEL_SRTP_ENCRYPTION :: u8 where "LABEL_SRTP_ENCRYPTION = 0"
definition LABEL_SRTP_AUTH :: u8 where "LABEL_SRTP_AUTH = 1"
definition LABEL_SRTP_SALT :: u8 where "LABEL_SRTP_SALT = 2"
definition LABEL_SRTCP_ENCRYPTION :: u8 where "LABEL_SRTCP_ENCRYPTION = 3"
definition LABEL_SRTCP_AUTH :: u8 where "LABEL_SRTCP_AUTH = 4"
definition LABEL_SRTCP_SALT :: u8 where "LABEL_SRTCP_SALT = 5"

datatype Compy_SrtpSuite =
    Compy_SrtpSuite_AES_CM_128_HMAC_SHA1_80
  | Compy_SrtpSuite_AES_CM_128_HMAC_SHA1_32

record Compy_SrtpKeyMaterial =
  master_key :: "u8 list"
  master_salt :: "u8 list"

text \<open>The backend: \<open>aes128_ecb key block\<close>, \<open>aes128_ctr key iv data\<close>, \<open>hmac_sha1 key data\<close>.\<close>

record Compy_CryptoSrtpOps =
  aes128_ecb :: "u8 list \<Rightarrow> u8 list \<Rightarrow> u8 list"
  aes128_ctr :: "u8 list \<Rightarrow> u8 list \<Rightarrow> u8 list \<Rightarrow> u8 list"
  hmac_sha1 :: "u8 list \<Rightarrow> u8 list \<Rightarrow> u8 list"

record 't Compy_SrtpTransport =
  st_inner :: 't
  st_suite :: Compy_SrtpSuite
  st_session_key :: "u8 list"
  st_session_salt :: "u8 list"
  st_auth_key :: "u8 list"
  st_roc :: u32
  st_prev_seq :: u16
  st_auth_tag_len :: nat

record 't Compy_SrtcpTransport =
  sc_inner :: 't
  sc_suite :: Compy_SrtpSuite
  sc_session_key :: "u8 list"
  sc_session_salt :: "u8 list"
  sc_auth_key :: "u8 list"
  sc_srtcp_index :: u32
  sc_auth_tag_len :: nat

text \<open>Key derivation: \<open>generated\<close> octets are already in \<open>out\<close>.\<close>

definition srtp_kdf_x :: "u8 list \<Rightarrow> u8 \<Rightarrow> u8 list" where
  "srtp_kdf_x msalt label =
     (let x = take 14 msalt @ [0, 0]
      in x[7 := x ! 7 XOR label])"

function srtp_kdf_loop ::
  "Compy_CryptoSrtpOps \<Rightarrow> u8 list \<Rightarrow> u8 list \<Rightarrow> nat \<Rightarrow> nat \<Rightarrow> u16 \<Rightarrow> u8 list \<Rightarrow> u8 list" where
  "srtp_kdf_loop ops mkey x out_len generated counter out =
     (if generated < out_len then
        let iv = x[14 := ucast (drop_bit 8 counter), 15 := ucast (counter AND 0xFF)];
            keystream = aes128_ecb ops mkey iv;
            to_copy = out_len - generated;
            to_copy = (if to_copy > AES_BLOCK_SIZE then AES_BLOCK_SIZE else to_copy)
        in srtp_kdf_loop ops mkey x out_len (generated + to_copy) (counter + 1)
             (out @ take to_copy keystream)
      else out)"
  by pat_completeness auto
termination
  by (relation "measure (\<lambda>(_, _, _, out_len, generated, _, _). out_len - generated)")
    (auto simp: AES_BLOCK_SIZE_def)

declare srtp_kdf_loop.simps [simp del]

definition srtp_kdf ::
  "Compy_CryptoSrtpOps \<Rightarrow> u8 list \<Rightarrow> u8 list \<Rightarrow> u8 \<Rightarrow> nat \<Rightarrow> u8 list" where
  "srtp_kdf ops mkey msalt label out_len =
     srtp_kdf_loop ops mkey (srtp_kdf_x msalt label) out_len 0 0 []"

definition srtp_derive_keys ::
  "Compy_CryptoSrtpOps \<Rightarrow> Compy_SrtpKeyMaterial \<Rightarrow> 't Compy_SrtpTransport \<Rightarrow> 't Compy_SrtpTransport" where
  "srtp_derive_keys ops key self =
     self\<lparr>st_session_key := srtp_kdf ops (master_key key) (master_salt key) LABEL_SRTP_ENCRYPTION 16,
          st_session_salt := srtp_kdf ops (master_key key) (master_salt key) LABEL_SRTP_SALT 14,
          st_auth_key := srtp_kdf ops (master_key key) (master_salt key) LABEL_SRTP_AUTH 20\<rparr>"

definition srtcp_derive_keys ::
  "Compy_CryptoSrtpOps \<Rightarrow> Compy_SrtpKeyMaterial \<Rightarrow> 't Compy_SrtcpTransport \<Rightarrow> 't Compy_SrtcpTransport" where
  "srtcp_derive_keys ops key self =
     self\<lparr>sc_session_key := srtp_kdf ops (master_key key) (master_salt key) LABEL_SRTCP_ENCRYPTION 16,
          sc_session_salt := srtp_kdf ops (master_key key) (master_salt key) LABEL_SRTCP_SALT 14,
          sc_auth_key := srtp_kdf ops (master_key key) (master_salt key) LABEL_SRTCP_AUTH 20\<rparr>"

text \<open>The initialisation vector, \<open>xor_bytes iv i bs\<close> being \<open>iv[i + k] ^= bs[k]\<close> for each \<open>k\<close>.\<close>

fun xor_bytes :: "u8 list \<Rightarrow> nat \<Rightarrow> u8 list \<Rightarrow> u8 list" where
  "xor_bytes iv i [] = iv"
| "xor_bytes iv i (b # bs) = xor_bytes (iv[i := iv ! i XOR b]) (i + 1) bs"

definition srtp_iv :: "endian \<Rightarrow> u8 list \<Rightarrow> u32 \<Rightarrow> u32 \<Rightarrow> u8 list" where
  "srtp_iv en session_salt ssrc index =
     (let iv = take 14 session_salt @ [0, 0];
          ssrc_be = htonl en ssrc;
          iv = xor_bytes iv 4 (store32 en ssrc_be);
          roc = drop_bit 16 index;
          seq = (ucast (index AND 0xFFFF) :: u16);
          iv = xor_bytes iv 8 [ucast (drop_bit 24 roc AND 0xFF), ucast (drop_bit 16 roc AND 0xFF),
                 ucast (drop_bit 8 roc AND 0xFF), ucast (roc AND 0xFF)]
      in xor_bytes iv 12 [ucast (drop_bit 8 seq AND 0xFF), ucast (seq AND 0xFF)])"

definition srtp_encrypt_payload ::
  "endian \<Rightarrow> Compy_CryptoSrtpOps \<Rightarrow> u8 list \<Rightarrow> u8 list \<Rightarrow> u32 \<Rightarrow> u32 \<Rightarrow> u8 list \<Rightarrow> u8 list" where
  "srtp_encrypt_payload en ops session_key session_salt ssrc index payload =
     aes128_ctr ops session_key (srtp_iv en session_salt ssrc index) payload"

fun suite_tag_len :: "Compy_SrtpSuite \<Rightarrow> nat" where
  "suite_tag_len Compy_SrtpSuite_AES_CM_128_HMAC_SHA1_80 = SRTP_AUTH_TAG_80"
| "suite_tag_len Compy_SrtpSuite_AES_CM_128_HMAC_SHA1_32 = SRTP_AUTH_TAG_32"

definition compy_transport_srtp_new ::
  "Compy_CryptoSrtpOps \<Rightarrow> 't \<Rightarrow> Compy_SrtpSuite \<Rightarrow> Compy_SrtpKeyMaterial \<Rightarrow> 't Compy_SrtpTransport" where
  "compy_transport_srtp_new ops inner suite key =
     srtp_derive_keys ops key
       \<lparr>st_inner = inner, st_suite = suite, st_session_key = [], st_session_salt = [], st_auth_key = [],
        st_roc = 0, st_prev_seq = 0, st_auth_tag_len = suite_tag_len suite\<rparr>"

text \<open>
  The length of the RTP header with its CSRC list and extension; \<open>None\<close> is the early return when it
  does not fit into the packet.
\<close>

definition srtp_header_len :: "endian \<Rightarrow> u8 list \<Rightarrow> nat \<Rightarrow> nat option" where
  "srtp_header_len en packet total_len =
     (let cc = packet ! 0 AND 0x0F;
          header_len = 12 + unat cc * 4
      in if header_len > total_len then None
         else if packet ! 0 AND 0x10 \<noteq> 0 \<and> header_len + 4 \<le> total_len then
           (let ext_words = htons en (load16 en (drop (header_len + 2) packet));
                header_len = header_len + 4 + unat ext_words * 4
            in if header_len > total_len then None else Some header_len)
         else Some header_len)"

definition Compy_SrtpTransport_transmit ::
  "endian \<Rightarrow> Compy_CryptoSrtpOps \<Rightarrow> 't Compy_Transport \<Rightarrow> 't Compy_SrtpTransport \<Rightarrow> u8 list list \<Rightarrow>
     (int \<times> 't Compy_SrtpTransport) option" where
  "Compy_SrtpTransport_transmit en ops T self bufs =
     (let total = Compy_IoVecSlice_len bufs
      in if total + st_auth_tag_len self > SRTP_MAX_PACKET_SIZE then Some (-1, self)
         else if total < 12 then Some (-1, self)
         else
           let packet = concat bufs;
               ssrc = htonl en (load32 en (drop 8 packet));
               seq = htons en (load16 en (drop 2 packet));
               self = (if seq < st_prev_seq self \<and> unat (st_prev_seq self) - unat seq > 0x7FFF
                       then self\<lparr>st_roc := st_roc self + 1\<rparr> else self);
               self = self\<lparr>st_prev_seq := seq\<rparr>;
               index = st_roc self * 65536 + ucast seq
           in case srtp_header_len en packet total of
                None \<Rightarrow> Some (-1, self)
              | Some header_len \<Rightarrow>
                  let packet = take header_len packet @
                        srtp_encrypt_payload en ops (st_session_key self) (st_session_salt self) ssrc index
                          (drop header_len packet)
                  in if total + 4 > SRTP_MAX_PACKET_SIZE then None
                     else
                       let roc_be = htonl en (st_roc self);
                           hmac_out = hmac_sha1 ops (st_auth_key self) (packet @ store32 en roc_be);
                           packet = packet @ take (st_auth_tag_len self) hmac_out
                       in case t_transmit T (st_inner self) [packet] of
                            None \<Rightarrow> None
                          | Some (ret, inner) \<Rightarrow> Some (ret, self\<lparr>st_inner := inner\<rparr>))"

definition Compy_SrtpTransport_is_full :: "'t Compy_Transport \<Rightarrow> 't Compy_SrtpTransport \<Rightarrow> bool" where
  "Compy_SrtpTransport_is_full T self = t_is_full T (st_inner self)"

definition compy_transport_srtp ::
  "endian \<Rightarrow> Compy_CryptoSrtpOps \<Rightarrow> 't Compy_Transport \<Rightarrow> 't Compy_SrtpTransport Compy_Transport" where
  "compy_transport_srtp en ops T =
     \<lparr>t_transmit = Compy_SrtpTransport_transmit en ops T, t_is_full = Compy_SrtpTransport_is_full T\<rparr>"

definition compy_transport_srtcp_new ::
  "Compy_CryptoSrtpOps \<Rightarrow> 't \<Rightarrow> Compy_SrtpSuite \<Rightarrow> Compy_SrtpKeyMaterial \<Rightarrow> 't Compy_SrtcpTransport" where
  "compy_transport_srtcp_new ops inner suite key =
     srtcp_derive_keys ops key
       \<lparr>sc_inner = inner, sc_suite = suite, sc_session_key = [], sc_session_salt = [], sc_auth_key = [],
        sc_srtcp_index = 0, sc_auth_tag_len = suite_tag_len suite\<rparr>"

definition Compy_SrtcpTransport_transmit ::
  "endian \<Rightarrow> Compy_CryptoSrtpOps \<Rightarrow> 't Compy_Transport \<Rightarrow> 't Compy_SrtcpTransport \<Rightarrow> u8 list list \<Rightarrow>
     (int \<times> 't Compy_SrtcpTransport) option" where
  "Compy_SrtcpTransport_transmit en ops T self bufs =
     (let total = Compy_IoVecSlice_len bufs
      in if total + 4 + sc_auth_tag_len self > SRTP_MAX_PACKET_SIZE then Some (-1, self)
         else if total < 8 then Some (-1, self)
         else
           let packet = concat bufs;
               ssrc = htonl en (load32 en (drop 4 packet));
               packet = take 8 packet @
                 srtp_encrypt_payload en ops (sc_session_key self) (sc_session_salt self) ssrc
                   (sc_srtcp_index self) (drop 8 packet);
               srtcp_index_be = htonl en (sc_srtcp_index self OR 0x80000000);
               packet = packet @ store32 en srtcp_index_be;
               hmac_out = hmac_sha1 ops (sc_auth_key self) packet;
               packet = packet @ take (sc_auth_tag_len self) hmac_out;
               self = self\<lparr>sc_srtcp_index := sc_srtcp_index self + 1\<rparr>
           in case t_transmit T (sc_inner self) [packet] of
                None \<Rightarrow> None
              | Some (ret, inner) \<Rightarrow> Some (ret, self\<lparr>sc_inner := inner\<rparr>))"

definition Compy_SrtcpTransport_is_full :: "'t Compy_Transport \<Rightarrow> 't Compy_SrtcpTransport \<Rightarrow> bool" where
  "Compy_SrtcpTransport_is_full T self = t_is_full T (sc_inner self)"

definition compy_transport_srtcp ::
  "endian \<Rightarrow> Compy_CryptoSrtpOps \<Rightarrow> 't Compy_Transport \<Rightarrow> 't Compy_SrtcpTransport Compy_Transport" where
  "compy_transport_srtcp en ops T =
     \<lparr>t_transmit = Compy_SrtcpTransport_transmit en ops T, t_is_full = Compy_SrtcpTransport_is_full T\<rparr>"

section \<open>What the backend promises\<close>

text \<open>
  The documented behaviour of the primitives: a block is 16 octets and a digest 20, and counter mode
  keeps the length and is its own inverse.
\<close>

definition srtp_ops_ok :: "Compy_CryptoSrtpOps \<Rightarrow> bool" where
  "srtp_ops_ok ops \<longleftrightarrow>
     (\<forall>k b. length (aes128_ecb ops k b) = 16) \<and>
     (\<forall>k iv d. length (aes128_ctr ops k iv d) = length d) \<and>
     (\<forall>k iv d. aes128_ctr ops k iv (aes128_ctr ops k iv d) = d) \<and>
     (\<forall>k d. length (hmac_sha1 ops k d) = 20)"

lemma srtp_ops_okD [simp]:
  assumes "srtp_ops_ok ops"
  shows "length (aes128_ecb ops k b) = 16"
    "length (aes128_ctr ops k iv d) = length d" "aes128_ctr ops k iv (aes128_ctr ops k iv d) = d"
    "length (hmac_sha1 ops k d) = 20"
  using assms by (auto simp: srtp_ops_ok_def)

lemma encrypt_payload [simp]:
  assumes "srtp_ops_ok ops"
  shows "length (srtp_encrypt_payload en ops key salt ssrc i d) = length d"
    "srtp_encrypt_payload en ops key salt ssrc i (srtp_encrypt_payload en ops key salt ssrc i d) = d"
  using assms by (simp_all add: srtp_encrypt_payload_def)

lemma suite_tag_len_bounds: "4 \<le> suite_tag_len suite" "suite_tag_len suite \<le> 20"
  by (cases suite; simp add: SRTP_AUTH_TAG_80_def SRTP_AUTH_TAG_32_def)+

section \<open>Key derivation is counter mode\<close>

definition kdf_block :: "Compy_CryptoSrtpOps \<Rightarrow> u8 list \<Rightarrow> u8 list \<Rightarrow> nat \<Rightarrow> u8 list" where
  "kdf_block ops mkey x i = aes128_ecb ops mkey (take 14 x @ be16 (word_of_nat i))"

lemma kdf_counter_octets:
  assumes "length x = 16"
  shows "x[14 := ucast (drop_bit 8 c), 15 := ucast (c AND 0xFF)] = take 14 x @ be16 c"
proof -
  have "(ucast (c AND 0xFF) :: u8) = ucast c"
    by (rule bit_word_eqI) (auto simp: word_masks word_bits)
  moreover obtain a b where "drop 14 x = [a, b]" using length_2E [of "drop 14 x"] assms by auto
  then have x: "x = take 14 x @ [a, b]" by (metis append_take_drop_id)
  have "(take 14 x @ [a, b])[14 := c', 15 := d] = take 14 x @ [c', d]" for c' d
    using assms by (simp add: list_update_append)
  ultimately show ?thesis by (subst x) (simp add: be16_def)
qed

lemma length_kdf_blocks:
  "srtp_ops_ok ops \<Longrightarrow> length (concat (map (kdf_block ops mkey x) [0..<n])) = 16 * n"
  by (induction n) (simp_all add: kdf_block_def)

lemma kdf_loop_blocks:
  assumes "srtp_ops_ok ops" "length x = 16"
  shows "16 * n \<le> out_len \<Longrightarrow>
     srtp_kdf_loop ops mkey x out_len (16 * n) (word_of_nat n) (concat (map (kdf_block ops mkey x) [0..<n])) =
     take out_len (concat (map (kdf_block ops mkey x) [0..<(out_len + 15) div 16]))"
proof (induction "out_len - 16 * n" arbitrary: n rule: less_induct)
  case less
  let ?blocks = "\<lambda>n. concat (map (kdf_block ops mkey x) [0..<n])"
  have len: "length (?blocks n) = 16 * n" for n by (rule length_kdf_blocks [OF assms(1)])
  have iv: "x[14 := ucast (drop_bit 8 (word_of_nat n :: u16)), 15 := ucast ((word_of_nat n :: u16) AND 0xFF)] =
      take 14 x @ be16 (word_of_nat n)" by (rule kdf_counter_octets [OF assms(2)])
  consider (exact) "out_len = 16 * n" | (last) "16 * n < out_len" "out_len \<le> 16 * n + 16"
    | (more) "16 * n + 16 < out_len"
    using less.prems by linarith
  then show ?case
  proof cases
    case exact
    then show ?thesis using len [of n] by (subst srtp_kdf_loop.simps) simp
  next
    case last
    then have "(out_len + 15) div 16 = Suc n" by simp
    moreover have "srtp_kdf_loop ops mkey x out_len out_len c out = out" for c out
      by (subst srtp_kdf_loop.simps) simp
    ultimately show ?thesis
      using last by (subst srtp_kdf_loop.simps)
        (auto simp: Let_def AES_BLOCK_SIZE_def iv len kdf_block_def [of ops mkey x n] assms(1))
  next
    case more
    then have "16 < out_len - 16 * n" "16 * n < out_len" "out_len - 16 * Suc n < out_len - 16 * n" by simp_all
    with more show ?thesis
      using less.hyps [of "Suc n"] assms(1)
      by (subst srtp_kdf_loop.simps)
        (simp add: Let_def AES_BLOCK_SIZE_def iv kdf_block_def [of ops mkey x n] add.commute)
  qed
qed

lemma length_kdf_x [simp]: "length msalt = 14 \<Longrightarrow> length (srtp_kdf_x msalt label) = 16"
  by (simp add: srtp_kdf_x_def Let_def)

lemma length_srtp_kdf:
  assumes "srtp_ops_ok ops" "length msalt = 14"
  shows "length (srtp_kdf ops mkey msalt label n) = n"
  using kdf_loop_blocks [OF assms(1) length_kdf_x [OF assms(2)], of 0 n] length_kdf_blocks [OF assms(1)]
  by (simp add: srtp_kdf_def)

text \<open>
  Key derivation is AES in counter mode: the derived octets are the beginning of the encryptions
  of the salted label with the counters 0, 1, 2 and so on, as many as are asked for.
\<close>

theorem srtp_kdf_counter_mode:
  assumes "srtp_ops_ok ops" "length msalt = 14"
  shows "srtp_kdf ops mkey msalt label n =
     take n (concat (map (\<lambda>i. aes128_ecb ops mkey (take 14 (srtp_kdf_x msalt label) @ be16 (word_of_nat i)))
       [0..<(n + 15) div 16])) \<and>
     length (srtp_kdf ops mkey msalt label n) = n"
  using kdf_loop_blocks [OF assms(1) length_kdf_x [OF assms(2), of label], of 0 n mkey]
    length_srtp_kdf [OF assms, of mkey label n]
  by (intro conjI) (simp_all add: kdf_block_def [abs_def] srtp_kdf_def)

text \<open>A backend to run the model with: not a cipher, but with the shape of one.\<close>

definition toy_ops :: Compy_CryptoSrtpOps where
  "toy_ops = \<lparr>aes128_ecb = (\<lambda>k b. take 16 (map (\<lambda>x. x + sum_list k) b @ replicate 16 0)),
     aes128_ctr = (\<lambda>k iv d. map (\<lambda>x. x XOR sum_list (k @ iv)) d),
     hmac_sha1 = (\<lambda>k d. replicate 20 (sum_list (k @ d)))\<rparr>"

lemma toy_ops_ok: "srtp_ops_ok toy_ops"
  by (auto simp: srtp_ops_ok_def toy_ops_def comp_def xor.assoc)

theorem srtp_kdf_counter_mode_witness:
  "srtp_kdf toy_ops (replicate 16 1) (replicate 14 2) LABEL_SRTP_AUTH 20 =
     take 20 (concat (map (\<lambda>i. aes128_ecb toy_ops (replicate 16 1)
       (take 14 (srtp_kdf_x (replicate 14 2) LABEL_SRTP_AUTH) @ be16 (word_of_nat i))) [0..<2]))"
  using srtp_kdf_counter_mode [OF toy_ops_ok, of "replicate 14 2" "replicate 16 1" LABEL_SRTP_AUTH 20] by simp

section \<open>The initialisation vector\<close>

lemma length_xor_bytes [simp]: "length (xor_bytes iv i bs) = length iv"
  by (induction iv i bs rule: xor_bytes.induct) simp_all

lemma nth_xor_bytes:
  "j < length iv \<Longrightarrow>
     xor_bytes iv i bs ! j = (if i \<le> j \<and> j < i + length bs then iv ! j XOR bs ! (j - i) else iv ! j)"
  by (induction iv i bs rule: xor_bytes.induct) (auto simp: nth_list_update nth_Cons' not_less_eq_eq dest: le_antisym)

lemma octet_masks:
  fixes w :: u32 and v :: u16
  shows "[ucast (drop_bit 24 w AND 0xFF), ucast (drop_bit 16 w AND 0xFF), ucast (drop_bit 8 w AND 0xFF),
      ucast (w AND 0xFF)] = be32 w" "[ucast (drop_bit 8 v AND 0xFF), ucast (v AND 0xFF)] = be16 v"
proof -
  have 32: "(ucast (u AND 0xFF) :: u8) = ucast u" for u :: u32
    by (rule bit_word_eqI) (auto simp: word_masks word_bits)
  have 16: "(ucast (u AND 0xFF) :: u8) = ucast u" for u :: u16
    by (rule bit_word_eqI) (auto simp: word_masks word_bits)
  show "[ucast (drop_bit 24 w AND 0xFF), ucast (drop_bit 16 w AND 0xFF), ucast (drop_bit 8 w AND 0xFF),
      ucast (w AND 0xFF)] = be32 w" "[ucast (drop_bit 8 v AND 0xFF), ucast (v AND 0xFF)] = be16 v"
    unfolding 32 16 be32_def be16_def by (rule refl)+
qed

lemma nth_srtp_iv:
  assumes "length salt = 14" "k < 4" "m < 2"
  shows "srtp_iv en salt ssrc index ! (4 + k) = salt ! (4 + k) XOR be32 ssrc ! k"
    "srtp_iv en salt ssrc index ! (8 + k) = salt ! (8 + k) XOR be32 (drop_bit 16 index) ! k"
    "srtp_iv en salt ssrc index ! (12 + m) = salt ! (12 + m) XOR be16 (ucast (index AND 0xFFFF)) ! m"
  using assms by (simp_all add: srtp_iv_def Let_def octet_masks nth_xor_bytes nth_append)

lemma be32_inject: "be32 v = be32 w \<longleftrightarrow> v = w"
  by (metis of_be32_be32)

lemma be16_inject: "be16 v = be16 w \<longleftrightarrow> v = w"
  by (metis of_be16_be16)

lemma u32_halves:
  fixes i j :: u32
  assumes "drop_bit 16 i = drop_bit 16 j" "(ucast (i AND 0xFFFF) :: u16) = ucast (j AND 0xFFFF)"
  shows "i = j"
proof (rule bit_word_eqI)
  fix n assume "n < LENGTH(32)"
  then have n: "n < 32" by simp
  show "bit i n = bit j n"
  proof (cases "n < 16")
    case True
    have "bit (ucast (i AND 0xFFFF) :: u16) n = bit (ucast (j AND 0xFFFF) :: u16) n" using assms(2) by simp
    with True show ?thesis by (simp add: word_masks word_bits)
  next
    case False
    have "bit (drop_bit 16 i) (n - 16) = bit (drop_bit 16 j) (n - 16)" using assms(1) by simp
    with False show ?thesis by (simp add: bit_simps)
  qed
qed

text \<open>
  Under one session salt the initialisation vector determines the SSRC and the 32-bit packet index it was
  made from.
\<close>

lemma srtp_iv_injective:
  assumes "length salt = 14"
  shows "srtp_iv en salt ssrc i = srtp_iv en salt ssrc' j \<longleftrightarrow> ssrc = ssrc' \<and> i = j"
proof
  assume eq: "srtp_iv en salt ssrc i = srtp_iv en salt ssrc' j"
  have cancel: "(a :: u8) XOR b = a XOR c \<Longrightarrow> b = c" for a b c
    by (metis xor.left_commute xor_self_eq xor.right_neutral)
  have "be32 ssrc = be32 ssrc'" "be32 (drop_bit 16 i) = be32 (drop_bit 16 j)"
    using nth_srtp_iv(1,2) [OF assms] eq
    by (intro nth_equalityI; simp; metis cancel zero_less_numeral)+
  moreover have "be16 (ucast (i AND 0xFFFF)) = be16 (ucast (j AND 0xFFFF))"
    using nth_srtp_iv(3) [OF assms, of 0] eq
    by (intro nth_equalityI; simp; metis cancel zero_less_numeral)
  ultimately show "ssrc = ssrc' \<and> i = j" unfolding be32_inject be16_inject using u32_halves by blast
qed simp

section \<open>What the sender puts on the wire\<close>

text \<open>
  The datagram for a packet with index \<open>i\<close> (RFC 3711: \<open>2 ^ 16\<close> times the rollover counter plus the
  sequence number) under the session keys.
\<close>

record srtp_keys =
  k_key :: "u8 list"
  k_salt :: "u8 list"
  k_auth :: "u8 list"
  k_tag :: nat

definition srtp_sealed :: "endian \<Rightarrow> Compy_CryptoSrtpOps \<Rightarrow> srtp_keys \<Rightarrow> nat \<Rightarrow> u8 list \<Rightarrow> u8 list" where
  "srtp_sealed en ops k i p =
     (let hl = (case srtp_header_len en p (length p) of None \<Rightarrow> 0 | Some n \<Rightarrow> n)
      in take hl p @ srtp_encrypt_payload en ops (k_key k) (k_salt k) (of_be32 (take 4 (drop 8 p)))
           (word_of_nat i) (drop hl p))"

definition srtp_datagram :: "endian \<Rightarrow> Compy_CryptoSrtpOps \<Rightarrow> srtp_keys \<Rightarrow> nat \<Rightarrow> u8 list \<Rightarrow> u8 list" where
  "srtp_datagram en ops k i p =
     srtp_sealed en ops k i p @
     take (k_tag k) (hmac_sha1 ops (k_auth k) (srtp_sealed en ops k i p @ be32 (word_of_nat (i div 65536))))"

text \<open>A packet the sender can take, and a stream of such packets, each with its index.\<close>

definition srtp_packet_ok :: "endian \<Rightarrow> nat \<Rightarrow> nat \<Rightarrow> u8 list \<Rightarrow> bool" where
  "srtp_packet_ok en tag i p \<longleftrightarrow>
     12 \<le> length p \<and> length p + tag \<le> SRTP_MAX_PACKET_SIZE \<and>
     srtp_header_len en p (length p) \<noteq> None \<and> of_be16 (take 2 (drop 2 p)) = word_of_nat i"

definition srtp_step :: "nat \<Rightarrow> nat \<Rightarrow> bool" where
  "srtp_step h i \<longleftrightarrow> h < i \<and> i \<le> h + 0x7FFF \<or> h = 0 \<and> i < 65536"

fun srtp_stream :: "endian \<Rightarrow> nat \<Rightarrow> nat \<Rightarrow> (nat \<times> u8 list list) list \<Rightarrow> bool" where
  "srtp_stream en tag h [] \<longleftrightarrow> True"
| "srtp_stream en tag h ((i, bufs) # rest) \<longleftrightarrow>
     srtp_step h i \<and> i < 2 ^ 32 \<and> srtp_packet_ok en tag i (concat bufs) \<and> srtp_stream en tag i rest"

definition srtp_keys_of :: "'t Compy_SrtpTransport \<Rightarrow> srtp_keys" where
  "srtp_keys_of s = \<lparr>k_key = st_session_key s, k_salt = st_session_salt s, k_auth = st_auth_key s,
     k_tag = st_auth_tag_len s\<rparr>"

definition srtp_at :: "nat \<Rightarrow> 't Compy_SrtpTransport \<Rightarrow> bool" where
  "srtp_at h s \<longleftrightarrow> st_roc s = word_of_nat (h div 65536) \<and> st_prev_seq s = word_of_nat h \<and>
     4 \<le> st_auth_tag_len s"

text \<open>The rollover test on sequence numbers is the carry of the packet index.\<close>

lemma rollover_carry:
  assumes "srtp_step h i"
  shows "i mod 65536 < h mod 65536 \<and> h mod 65536 - i mod 65536 > 0x7FFF \<longleftrightarrow> i div 65536 = h div 65536 + 1"
    "\<not> (i mod 65536 < h mod 65536 \<and> h mod 65536 - i mod 65536 > 0x7FFF) \<longleftrightarrow> i div 65536 = h div 65536"
proof -
  define q r where "q = h div 65536" and "r = h mod 65536"
  have h: "h = q * 65536 + r" "r < 65536" by (simp_all add: q_def r_def)
  consider (first) "h = 0" "i < 65536" | (same) "h < i" "i \<le> h + 0x7FFF" "r + (i - h) < 65536"
    | (carry) "h < i" "i \<le> h + 0x7FFF" "65536 \<le> r + (i - h)"
    using assms unfolding srtp_step_def by (metis not_less)
  then have "(i div 65536 = q \<and> \<not> (i mod 65536 < r \<and> r - i mod 65536 > 0x7FFF)) \<or>
      (i div 65536 = Suc q \<and> i mod 65536 < r \<and> r - i mod 65536 > 0x7FFF)"
  proof cases
    case same
    define e where "e = r + (i - h)"
    have "i = e + q * 65536" "e < 65536" "r < e" using h same by (simp_all add: e_def)
    then show ?thesis by simp
  next
    case carry
    define e where "e = r + (i - h) - 65536"
    have "i = e + Suc q * 65536" using h carry by (simp add: e_def)
    moreover have "e < 65536" "e + 32769 \<le> r" using h carry by (simp_all add: e_def)
    ultimately have "i div 65536 = Suc q" "i mod 65536 = e" by (simp_all del: mult_Suc)
    then show ?thesis using \<open>e + 32769 \<le> r\<close> by simp
  qed (simp add: q_def r_def)
  then show "i mod 65536 < h mod 65536 \<and> h mod 65536 - i mod 65536 > 0x7FFF \<longleftrightarrow> i div 65536 = h div 65536 + 1"
    "\<not> (i mod 65536 < h mod 65536 \<and> h mod 65536 - i mod 65536 > 0x7FFF) \<longleftrightarrow> i div 65536 = h div 65536"
    by (auto simp: q_def r_def)
qed

lemma unat_word_of_nat_u32: "n < 2 ^ 32 \<Longrightarrow> unat (word_of_nat n :: u32) = n"
  by (simp add: unat_of_nat take_bit_eq_mod)

lemma srtp_index:
  "(word_of_nat (i div 65536) :: u32) * 65536 + ucast (word_of_nat i :: u16) = word_of_nat i"
proof -
  have "(ucast (word_of_nat i :: u16) :: u32) = word_of_nat (i mod 65536)"
    by (simp add: word_unat_eq_iff unsigned_ucast_eq unat_of_nat take_bit_eq_mod)
  moreover have "word_of_nat (i div 65536 * 65536 + i mod 65536) = (word_of_nat i :: u32)" by simp
  ultimately show ?thesis by (metis of_nat_add of_nat_mult of_nat_numeral)
qed

lemma srtp_sender_state:
  assumes at: "srtp_at h s" and step: "srtp_step h i" and i: "i < 2 ^ 32"
    and seq: "seq = word_of_nat i" and
    s': "s' = (if seq < st_prev_seq s \<and> unat (st_prev_seq s) - unat seq > 0x7FFF
               then s\<lparr>st_roc := st_roc s + 1\<rparr> else s)\<lparr>st_prev_seq := seq\<rparr>"
  shows "st_roc s' = word_of_nat (i div 65536)" "srtp_at i s'" "srtp_keys_of s' = srtp_keys_of s"
    "st_inner s' = st_inner s"
proof -
  have u: "unat (word_of_nat n :: u16) = n mod 65536" for n
    by (simp add: unat_of_nat take_bit_eq_mod)
  have test: "(seq < st_prev_seq s \<and> unat (st_prev_seq s) - unat seq > 0x7FFF) \<longleftrightarrow>
      i mod 65536 < h mod 65536 \<and> h mod 65536 - i mod 65536 > 0x7FFF"
    using at by (simp only: srtp_at_def seq word_less_nat_alt u)
  show roc: "st_roc s' = word_of_nat (i div 65536)"
    using at rollover_carry [OF step] unfolding s' test by (auto simp: srtp_at_def)
  show "srtp_at i s'" "srtp_keys_of s' = srtp_keys_of s" "st_inner s' = st_inner s"
    using at roc by (auto simp: s' srtp_at_def seq srtp_keys_of_def)
qed

context reliable_transport
begin

lemma srtp_transmit_ok:
  assumes ops: "srtp_ops_ok ops" and at: "srtp_at h s" and step: "srtp_step h i" "i < 2 ^ 32"
    and p: "srtp_packet_ok en (st_auth_tag_len s) i (concat bufs)"
    and d: "d = srtp_datagram en ops (srtp_keys_of s) i (concat bufs)" "fits d" "ok (cost d + n) (st_inner s)"
  shows "\<exists>s'. Compy_SrtpTransport_transmit en ops T s bufs = Some (0, s') \<and> srtp_at i s' \<and>
     srtp_keys_of s' = srtp_keys_of s \<and> log (st_inner s') = log (st_inner s) @ [d] \<and> ok n (st_inner s')"
proof -
  let ?p = "concat bufs"
  define seq where "seq = htons en (load16 en (drop 2 ?p))"
  define s' where "s' = (if seq < st_prev_seq s \<and> unat (st_prev_seq s) - unat seq > 0x7FFF
               then s\<lparr>st_roc := st_roc s + 1\<rparr> else s)\<lparr>st_prev_seq := seq\<rparr>"
  obtain hl where hl: "srtp_header_len en ?p (length ?p) = Some hl"
    and len: "12 \<le> length ?p" "length ?p + st_auth_tag_len s \<le> SRTP_MAX_PACKET_SIZE"
    using p by (auto simp: srtp_packet_ok_def)
  have seq: "seq = word_of_nat i"
    using p len(1) htons_load16 [of "drop 2 ?p" en] by (auto simp: seq_def srtp_packet_ok_def)
  note state = srtp_sender_state [OF at step seq s'_def]
  have index: "st_roc s' * 65536 + ucast seq = word_of_nat i"
    unfolding state(1) seq by (rule srtp_index)
  have ssrc: "htonl en (load32 en (drop 8 ?p)) = of_be32 (take 4 (drop 8 ?p))"
    using len(1) by (simp add: htonl_load32)
  have keys: "st_session_key s' = k_key (srtp_keys_of s)" "st_session_salt s' = k_salt (srtp_keys_of s)"
    "st_auth_key s' = k_auth (srtp_keys_of s)" "st_auth_tag_len s' = k_tag (srtp_keys_of s)"
    using state(3) by (auto simp: srtp_keys_of_def)
  have room: "length ?p + 4 \<le> SRTP_MAX_PACKET_SIZE" using len(2) at by (simp add: srtp_at_def)
  have "Compy_SrtpTransport_transmit en ops T s bufs =
      (case t_transmit T (st_inner s) [d] of None \<Rightarrow> None | Some (ret, inner) \<Rightarrow> Some (ret, s'\<lparr>st_inner := inner\<rparr>))"
    unfolding Compy_SrtpTransport_transmit_def Compy_IoVecSlice_len_concat Let_def
    unfolding seq_def [symmetric]
    unfolding s'_def [symmetric]
    using len room
    by (simp add: hl index [unfolded state(1)] ssrc keys state(1,4) d(1) srtp_datagram_def srtp_sealed_def)
  moreover from transmit_ok [of "[d]" n "st_inner s"] d obtain t' where
    "t_transmit T (st_inner s) [d] = Some (0, t')" "log t' = log (st_inner s) @ [d]" "ok n t'" by auto
  moreover have "srtp_at i (s'\<lparr>st_inner := t'\<rparr>)" "srtp_keys_of (s'\<lparr>st_inner := t'\<rparr>) = srtp_keys_of s"
    using state(2,3) by (simp_all add: srtp_at_def srtp_keys_of_def)
  ultimately show ?thesis by auto
qed

lemma srtp_stream_ok:
  fixes ops en
  defines "dg \<equiv> \<lambda>k x. srtp_datagram en ops k (fst x) (concat (snd x))"
  assumes "srtp_ops_ok ops" "srtp_at h s" "srtp_stream en (st_auth_tag_len s) h stream"
    and "list_all fits (map (dg (srtp_keys_of s)) stream)"
    and "ok (sum_list (map cost (map (dg (srtp_keys_of s)) stream)) + n) (st_inner s)"
  shows "\<exists>s'. transmit_all (compy_transport_srtp en ops T) s (map snd stream) = Some (0, s') \<and>
     log (st_inner s') = log (st_inner s) @ map (dg (srtp_keys_of s)) stream \<and> ok n (st_inner s')"
  using assms(2-)
proof (induction stream arbitrary: s h)
  case (Cons x stream)
  obtain i bufs where x: "x = (i, bufs)" by (cases x)
  let ?k = "srtp_keys_of s"
  from Cons.prems srtp_transmit_ok [of ops h s i en bufs "dg ?k x"
      "sum_list (map cost (map (dg ?k) stream)) + n"]
  obtain s1 where s1: "Compy_SrtpTransport_transmit en ops T s bufs = Some (0, s1)" "srtp_at i s1"
    "srtp_keys_of s1 = ?k" "log (st_inner s1) = log (st_inner s) @ [dg ?k x]"
    "ok (sum_list (map cost (map (dg ?k) stream)) + n) (st_inner s1)"
    by (auto simp: x dg_def add.assoc)
  moreover have "st_auth_tag_len s1 = st_auth_tag_len s" using s1(3) by (simp add: srtp_keys_of_def)
  ultimately obtain s' where "transmit_all (compy_transport_srtp en ops T) s1 (map snd stream) = Some (0, s')"
    "log (st_inner s') = log (st_inner s1) @ map (dg ?k) stream" "ok n (st_inner s')"
    using Cons.IH [of i s1] Cons.prems by (auto simp: x)
  with s1 show ?case by (auto simp: x compy_transport_srtp_def)
qed simp

end

end
