(* ===== verification/Srtp_Recv.thy ===== *)
theory Srtp_Recv
  imports Srtp
begin

text \<open>
  SRTP and SRTCP, the receiving side of \<open>src/transport/srtp.c\<close>: the context with its two replay
  windows, the estimation of the rollover counter, and the two functions that check, authenticate and
  decrypt a packet in place. A call gives its return value, the new context and the packet the caller
  then sees; \<open>None\<close> is the write past the end of \<open>auth_input\<close>.

  A 64-bit window is related to the set of indices it stands for, and the locale \<open>replay_receiver\<close>
  says what both functions have in common: an index that was let through is never let through again.
\<close>

section \<open>Definitions\<close>

definition SRTP_REPLAY_WINDOW_SIZE :: nat where "SRTP_REPLAY_WINDOW_SIZE = 64"

record Compy_SrtpRecvCtx =
  srtp_key :: "u8 list"
  srtp_salt :: "u8 list"
  srtp_auth_key :: "u8 list"
  srtcp_key :: "u8 list"
  srtcp_salt :: "u8 list"
  srtcp_auth_key :: "u8 list"
  rc_roc :: u32
  rc_s_l :: u16
  rc_initialized :: bool
  rc_replay_window :: u64
  srtcp_highest_index :: u32
  srtcp_replay_window :: u64
  rc_auth_tag_len :: nat

definition compy_srtp_recv_new ::
  "Compy_CryptoSrtpOps \<Rightarrow> Compy_SrtpSuite \<Rightarrow> Compy_SrtpKeyMaterial \<Rightarrow> Compy_SrtpRecvCtx" where
  "compy_srtp_recv_new ops suite key =
     (let kdf = srtp_kdf ops (master_key key) (master_salt key)
      in \<lparr>srtp_key = kdf LABEL_SRTP_ENCRYPTION 16, srtp_salt = kdf LABEL_SRTP_SALT 14,
          srtp_auth_key = kdf LABEL_SRTP_AUTH 20,
          srtcp_key = kdf LABEL_SRTCP_ENCRYPTION 16, srtcp_salt = kdf LABEL_SRTCP_SALT 14,
          srtcp_auth_key = kdf LABEL_SRTCP_AUTH 20,
          rc_roc = 0, rc_s_l = 0, rc_initialized = False, rc_replay_window = 0,
          srtcp_highest_index = 0, srtcp_replay_window = 0, rc_auth_tag_len = suite_tag_len suite\<rparr>)"

text \<open>The subtractions and comparisons of 16-bit numbers are those of \<open>int\<close>.\<close>

definition estimate_roc :: "Compy_SrtpRecvCtx \<Rightarrow> u16 \<Rightarrow> u32 \<times> u32" where
  "estimate_roc ctx seq =
     (let s_l = int (unat (rc_s_l ctx));
          v = (if \<not> rc_initialized ctx then 0
               else if s_l < 0x8000 then
                 (if int (unat seq) - s_l > 0x8000
                  then (if rc_roc ctx = 0 then 0 else rc_roc ctx - 1)
                  else rc_roc ctx)
               else
                 (if s_l - 0x8000 > int (unat seq) then rc_roc ctx + 1 else rc_roc ctx))
      in (v, v * 65536 + ucast seq))"

definition replay_check :: "Compy_SrtpRecvCtx \<Rightarrow> u32 \<Rightarrow> int" where
  "replay_check ctx index =
     (if \<not> rc_initialized ctx then 0
      else
        let highest = rc_roc ctx * 65536 + ucast (rc_s_l ctx)
        in if index > highest then 0
           else
             let delta = highest - index
             in if unat delta \<ge> SRTP_REPLAY_WINDOW_SIZE then -1
                else if rc_replay_window ctx AND push_bit (unat delta) 1 \<noteq> 0 then -1
                else 0)"

definition replay_update :: "Compy_SrtpRecvCtx \<Rightarrow> u16 \<Rightarrow> u32 \<Rightarrow> Compy_SrtpRecvCtx" where
  "replay_update ctx seq v =
     (let index = v * 65536 + ucast seq
      in if \<not> rc_initialized ctx then
           ctx\<lparr>rc_s_l := seq, rc_roc := v, rc_replay_window := 1, rc_initialized := True\<rparr>
         else
           let highest = rc_roc ctx * 65536 + ucast (rc_s_l ctx)
           in if index > highest then
                let shift = index - highest;
                    window = (if unat shift < SRTP_REPLAY_WINDOW_SIZE
                              then push_bit (unat shift) (rc_replay_window ctx) else 0)
                in ctx\<lparr>rc_replay_window := window OR 1, rc_s_l := seq, rc_roc := v\<rparr>
              else
                let delta = highest - index
                in ctx\<lparr>rc_replay_window := rc_replay_window ctx OR push_bit (unat delta) 1\<rparr>)"

text \<open>The comparison of the tags: the octets from \<open>start\<close> on against the expected ones.\<close>

definition tag_diff :: "u8 list \<Rightarrow> u8 list \<Rightarrow> nat \<Rightarrow> nat \<Rightarrow> u8" where
  "tag_diff expected_tag data start n =
     fold (\<lambda>i diff. diff OR (expected_tag ! i XOR data ! (start + i))) [0..<n] 0"

definition compy_srtp_recv_unprotect ::
  "endian \<Rightarrow> Compy_CryptoSrtpOps \<Rightarrow> Compy_SrtpRecvCtx \<Rightarrow> u8 list \<Rightarrow>
     (int \<times> Compy_SrtpRecvCtx \<times> u8 list) option" where
  "compy_srtp_recv_unprotect en ops ctx data =
     (if length data < 12 + rc_auth_tag_len ctx then Some (-1, ctx, data)
      else
        let encrypted_len = length data - rc_auth_tag_len ctx;
            ssrc = htonl en (load32 en (drop 8 data));
            seq = htons en (load16 en (drop 2 data));
            (v, index) = estimate_roc ctx seq
        in if replay_check ctx index \<noteq> 0 then Some (-1, ctx, data)
           else if encrypted_len + 4 > SRTP_MAX_PACKET_SIZE + 4 then None
           else
             let roc_be = htonl en v;
                 expected_tag = hmac_sha1 ops (srtp_auth_key ctx) (take encrypted_len data @ store32 en roc_be)
             in if tag_diff expected_tag data encrypted_len (rc_auth_tag_len ctx) \<noteq> 0 then Some (-1, ctx, data)
                else
                  let ctx = replay_update ctx seq v
                  in case srtp_header_len en data encrypted_len of
                       None \<Rightarrow> Some (-1, ctx, data)
                     | Some header_len \<Rightarrow>
                         Some (0, ctx, take header_len data @
                           srtp_encrypt_payload en ops (srtp_key ctx) (srtp_salt ctx) ssrc index
                             (drop header_len (take encrypted_len data))))"

text \<open>The sliding window of SRTCP; \<open>None\<close> is the early return.\<close>

definition srtcp_window :: "Compy_SrtpRecvCtx \<Rightarrow> u32 \<Rightarrow> Compy_SrtpRecvCtx option" where
  "srtcp_window ctx srtcp_index =
     (if srtcp_index > srtcp_highest_index ctx then
        let shift = srtcp_index - srtcp_highest_index ctx;
            window = (if unat shift < SRTP_REPLAY_WINDOW_SIZE
                      then push_bit (unat shift) (srtcp_replay_window ctx) else 0)
        in Some (ctx\<lparr>srtcp_replay_window := window OR 1, srtcp_highest_index := srtcp_index\<rparr>)
      else
        let delta = srtcp_highest_index ctx - srtcp_index
        in if unat delta \<ge> SRTP_REPLAY_WINDOW_SIZE then None
           else if srtcp_replay_window ctx AND push_bit (unat delta) 1 \<noteq> 0 then None
           else Some (ctx\<lparr>srtcp_replay_window := srtcp_replay_window ctx OR push_bit (unat delta) 1\<rparr>))"

definition compy_srtcp_recv_unprotect ::
  "endian \<Rightarrow> Compy_CryptoSrtpOps \<Rightarrow> Compy_SrtpRecvCtx \<Rightarrow> u8 list \<Rightarrow>
     int \<times> Compy_SrtpRecvCtx \<times> u8 list" where
  "compy_srtcp_recv_unprotect en ops ctx data =
     (if length data < 8 + 4 + rc_auth_tag_len ctx then (-1, ctx, data)
      else
        let auth_start = length data - rc_auth_tag_len ctx;
            index_start = auth_start - 4;
            expected_tag = hmac_sha1 ops (srtcp_auth_key ctx) (take auth_start data)
        in if tag_diff expected_tag data auth_start (rc_auth_tag_len ctx) \<noteq> 0 then (-1, ctx, data)
           else
             let srtcp_index = htonl en (load32 en (drop index_start data));
                 encrypted = (srtcp_index AND 0x80000000 \<noteq> 0);
                 srtcp_index = srtcp_index AND 0x7FFFFFFF
             in case srtcp_window ctx srtcp_index of
                  None \<Rightarrow> (-1, ctx, data)
                | Some ctx \<Rightarrow>
                    let ssrc = htonl en (load32 en (drop 4 data));
                        payload = drop 8 (take index_start data);
                        payload = (if encrypted
                          then srtp_encrypt_payload en ops (srtcp_key ctx) (srtcp_salt ctx) ssrc srtcp_index payload
                          else payload)
                    in (0, ctx, take 8 data @ payload))"

section \<open>The replay windows\<close>

text \<open>
  A window \<open>w\<close> with highest index \<open>h\<close> stands for a set \<open>S\<close> of indices: none is above \<open>h\<close>, and for
  the last 64 ones the bits say which are in \<open>S\<close>.
\<close>

definition win_rel :: "nat \<Rightarrow> u64 \<Rightarrow> nat set \<Rightarrow> bool" where
  "win_rel h w S \<longleftrightarrow> S \<subseteq> {..h} \<and> (\<forall>d < 64. bit w d \<longleftrightarrow> d \<le> h \<and> h - d \<in> S)"

definition win_ahead :: "nat \<Rightarrow> u64 \<Rightarrow> u64" where
  "win_ahead n w = (if n < 64 then push_bit n w else 0) OR 1"

lemma win_rel_ahead:
  assumes "win_rel h w S" "h < i"
  shows "win_rel i (win_ahead (i - h) w) (insert i S)"
proof -
  have S: "S \<subseteq> {..h}" and bits: "d < 64 \<Longrightarrow> bit w d \<longleftrightarrow> d \<le> h \<and> h - d \<in> S" for d
    using assms(1) by (auto simp: win_rel_def)
  have "bit (win_ahead (i - h) w) d \<longleftrightarrow> d \<le> i \<and> i - d \<in> insert i S" if d: "d < 64" for d
  proof -
    consider "d = 0" | "0 < d" "d < i - h" | "0 < d" "i - h \<le> d" by linarith
    then show ?thesis
    proof cases
      case 2
      then have "i - d \<notin> insert i S" using S assms(2) by auto
      with 2 show ?thesis by (auto simp: win_ahead_def bit_simps)
    next
      case 3
      then have "bit (win_ahead (i - h) w) d = bit w (d - (i - h))"
        using d by (auto simp: win_ahead_def bit_simps)
      moreover have "h - (d - (i - h)) = i - d" "d - (i - h) \<le> h \<longleftrightarrow> d \<le> i" using 3 assms(2) by auto
      ultimately show ?thesis using bits [of "d - (i - h)"] d 3 by auto
    qed (simp add: win_ahead_def bit_simps)
  qed
  then show ?thesis using S assms(2) by (auto simp: win_rel_def)
qed

lemma win_rel_inside:
  assumes "win_rel h w S" "i \<le> h" "h - i < 64"
  shows "win_rel h (w OR push_bit (h - i) 1) (insert i S)" "w AND push_bit (h - i) 1 \<noteq> 0 \<longleftrightarrow> i \<in> S"
proof -
  show "w AND push_bit (h - i) 1 \<noteq> 0 \<longleftrightarrow> i \<in> S"
    using assms by (auto simp: win_rel_def push_bit_eq_mult and_exp_eq_0_iff_not_bit)
  have "bit (w OR push_bit (h - i) 1) d \<longleftrightarrow> bit w d \<or> d = h - i" if "d < 64" for d
    using that by (auto simp: bit_simps)
  with assms show "win_rel h (w OR push_bit (h - i) 1) (insert i S)"
    by (auto simp: win_rel_def)
qed

lemma unat_u16_less: "unat (w :: u16) < 65536"
  using unsigned_less [of w] by simp

lemma index_value:
  fixes v :: u32 and seq :: u16
  assumes "unat v < 65536"
  shows "unat (v * 65536 + ucast seq) = unat v * 65536 + unat seq"
proof -
  have seq: "unat seq < 65536" using unsigned_less [of seq] by simp
  have "unat v * 65536 + unat seq < 2 ^ 32" using assms seq by simp
  then have "unat (word_of_nat (unat v * 65536 + unat seq) :: u32) = unat v * 65536 + unat seq"
    by (rule unat_word_of_nat_u32)
  then show ?thesis by simp
qed

definition srtp_highest :: "Compy_SrtpRecvCtx \<Rightarrow> nat" where
  "srtp_highest ctx = unat (rc_roc ctx) * 65536 + unat (rc_s_l ctx)"

definition srtp_win :: "Compy_SrtpRecvCtx \<Rightarrow> nat set \<Rightarrow> bool" where
  "srtp_win ctx S \<longleftrightarrow>
     (if rc_initialized ctx
      then unat (rc_roc ctx) < 65536 \<and> win_rel (srtp_highest ctx) (rc_replay_window ctx) S \<and> srtp_highest ctx \<in> S
      else S = {})"

lemma highest_value:
  "unat (rc_roc ctx) < 65536 \<Longrightarrow> unat (rc_roc ctx * 65536 + ucast (rc_s_l ctx)) = srtp_highest ctx"
  by (simp add: index_value srtp_highest_def)

text \<open>The check, on the numbers.\<close>

lemma replay_check_iff:
  assumes "srtp_win ctx S"
  shows "replay_check ctx index = 0 \<longleftrightarrow>
     (rc_initialized ctx \<longrightarrow> srtp_highest ctx < unat index \<or>
        srtp_highest ctx - unat index < 64 \<and> unat index \<notin> S)"
proof (cases "rc_initialized ctx")
  case True
  let ?h = "rc_roc ctx * 65536 + ucast (rc_s_l ctx)"
  from assms True have h: "unat ?h = srtp_highest ctx" and
    win: "win_rel (srtp_highest ctx) (rc_replay_window ctx) S"
    by (auto simp: srtp_win_def highest_value)
  show ?thesis
  proof (cases "?h < index")
    case False
    then have "unat (?h - index) = srtp_highest ctx - unat index" "unat index \<le> srtp_highest ctx"
      using h by (auto simp: unat_sub word_less_nat_alt word_le_nat_alt)
    with True False win_rel_inside(2) [OF win, of "unat index"] show ?thesis
      by (auto simp: replay_check_def Let_def SRTP_REPLAY_WINDOW_SIZE_def)
  qed (use True h in \<open>auto simp: replay_check_def word_less_nat_alt\<close>)
qed (simp add: replay_check_def)

text \<open>The update of the window as a function of the distance to the highest index.\<close>

lemma replay_update_ahead:
  assumes "unat (rc_roc ctx) < 65536" "rc_initialized ctx" and i: "i = unat (v * 65536 + ucast seq)" and "srtp_highest ctx < i"
  shows "replay_update ctx seq v =
     ctx\<lparr>rc_replay_window := win_ahead (i - srtp_highest ctx) (rc_replay_window ctx), rc_s_l := seq, rc_roc := v\<rparr>"
proof -
  let ?h = "rc_roc ctx * 65536 + ucast (rc_s_l ctx)" and ?i = "v * 65536 + ucast seq"
  have less: "?h < ?i" using assms highest_value [OF assms(1)] by (simp add: word_less_nat_alt)
  then have "unat (?i - ?h) = i - srtp_highest ctx" using highest_value [OF assms(1)] by (simp add: unat_sub less_imp_le i)
  then show ?thesis using assms(2) less by (simp add: replay_update_def Let_def win_ahead_def SRTP_REPLAY_WINDOW_SIZE_def)
qed

lemma replay_update_behind:
  assumes "unat (rc_roc ctx) < 65536" "rc_initialized ctx" and i: "i = unat (v * 65536 + ucast seq)" and "i \<le> srtp_highest ctx"
  shows "replay_update ctx seq v = ctx\<lparr>rc_replay_window := rc_replay_window ctx OR push_bit (srtp_highest ctx - i) 1\<rparr>"
proof -
  let ?h = "rc_roc ctx * 65536 + ucast (rc_s_l ctx)" and ?i = "v * 65536 + ucast seq"
  have le: "\<not> ?h < ?i" using assms highest_value [OF assms(1)] by (simp add: word_less_nat_alt)
  then have "unat (?h - ?i) = srtp_highest ctx - i" using highest_value [OF assms(1)] by (simp add: unat_sub i)
  then show ?thesis using assms(2) le by (simp add: replay_update_def Let_def)
qed

lemma replay_update_win:
  assumes win: "srtp_win ctx S" and v: "unat v < 65536" and i: "i = unat (v * 65536 + ucast seq)"
    and check: "replay_check ctx (v * 65536 + ucast seq) = 0"
  shows "srtp_win (replay_update ctx seq v) (insert i S)" "i \<notin> S"
    "srtp_highest (replay_update ctx seq v) = (if rc_initialized ctx then max (srtp_highest ctx) i else i)"
    "rc_initialized (replay_update ctx seq v)"
proof -
  have iv: "i = unat v * 65536 + unat seq" using v by (simp add: i index_value)
  have "srtp_win (replay_update ctx seq v) (insert i S) \<and> i \<notin> S \<and>
    srtp_highest (replay_update ctx seq v) = (if rc_initialized ctx then max (srtp_highest ctx) i else i)"
  proof (cases "rc_initialized ctx")
    case False
    have "bit (1 :: u64) d \<longleftrightarrow> d \<le> i \<and> i - d \<in> {i}" for d by (auto simp: bit_1_iff)
    with False win v show ?thesis
      by (auto simp: replay_update_def srtp_win_def srtp_highest_def iv win_rel_def)
  next
    case True
    from win True have roc: "unat (rc_roc ctx) < 65536" and rel: "win_rel (srtp_highest ctx) (rc_replay_window ctx) S"
      and top: "srtp_highest ctx \<in> S" by (auto simp: srtp_win_def)
    show ?thesis
    proof (cases "srtp_highest ctx < i")
      case less: True
      then have "i \<notin> S" using rel by (auto simp: win_rel_def)
      then show ?thesis
        using True v win_rel_ahead [OF rel less] less replay_update_ahead [OF roc True i less]
        by (simp add: srtp_win_def srtp_highest_def iv)
    next
      case False
      then have le: "i \<le> srtp_highest ctx" by simp
      have ok: "srtp_highest ctx - i < 64" "i \<notin> S"
        using check replay_check_iff [OF win] True le by (auto simp: i)
      then show ?thesis
        using True roc top win_rel_inside(1) [OF rel le ok(1)] le replay_update_behind [OF roc True i le]
        by (simp add: srtp_win_def srtp_highest_def max_absorb1)
    qed
  qed
  then show "srtp_win (replay_update ctx seq v) (insert i S)" "i \<notin> S"
    "srtp_highest (replay_update ctx seq v) = (if rc_initialized ctx then max (srtp_highest ctx) i else i)"
    by blast+
  show "rc_initialized (replay_update ctx seq v)" by (simp add: replay_update_def Let_def)
qed

section \<open>Estimating the rollover counter\<close>

text \<open>
  A sequence number is resolved to the packet index it belongs to, as long as that is within
  \<open>2 ^ 15 - 1\<close> of the highest index.
\<close>

lemma estimate_carry:
  fixes q r i :: nat
  assumes "r < 65536" "i \<le> q * 65536 + r + 0x7FFF" "q * 65536 + r \<le> i + 0x7FFF"
  defines "e \<equiv> i mod 65536"
  shows "i div 65536 =
     (if int r < 0x8000 then (if int e - int r > 0x8000 then q - 1 else q)
      else (if int r - 0x8000 > int e then q + 1 else q))"
    "int r < 0x8000 \<Longrightarrow> int e - int r > 0x8000 \<Longrightarrow> 0 < q"
proof -
  define p where "p = i div 65536"
  have i: "i = p * 65536 + e" and e: "e < 65536" by (simp_all add: p_def e_def)
  have "p \<le> Suc q" "q \<le> Suc p" using assms(1-3) i e by linarith+
  then consider "p = q" | "p = Suc q" | "q = Suc p" by linarith
  then have *: "p = (if int r < 0x8000 then (if int e - int r > 0x8000 then q - 1 else q)
      else (if int r - 0x8000 > int e then q + 1 else q)) \<and>
      (int r < 0x8000 \<longrightarrow> int e - int r > 0x8000 \<longrightarrow> 0 < q)"
    using assms(1-3) e unfolding i by cases auto
  then show "i div 65536 =
     (if int r < 0x8000 then (if int e - int r > 0x8000 then q - 1 else q)
      else (if int r - 0x8000 > int e then q + 1 else q))"
    "int r < 0x8000 \<Longrightarrow> int e - int r > 0x8000 \<Longrightarrow> 0 < q"
    unfolding p_def by blast+
qed

lemma estimate_correct:
  assumes "srtp_win ctx S" "i < 2 ^ 32"
    and "if rc_initialized ctx then i \<le> srtp_highest ctx + 0x7FFF \<and> srtp_highest ctx \<le> i + 0x7FFF else i < 65536"
  shows "estimate_roc ctx (word_of_nat i) = (word_of_nat (i div 65536), word_of_nat i)"
proof -
  have seq: "unat (word_of_nat i :: u16) = i mod 65536" by (simp add: unat_of_nat take_bit_eq_mod)
  have "fst (estimate_roc ctx (word_of_nat i)) = word_of_nat (i div 65536)"
  proof (cases "rc_initialized ctx")
    case False
    then show ?thesis using assms(3) by (simp add: estimate_roc_def Let_def)
  next
    case True
    let ?q = "unat (rc_roc ctx)" and ?r = "unat (rc_s_l ctx)"
    have r: "?r < 65536" using unsigned_less [of "rc_s_l ctx"] by simp
    have "i \<le> ?q * 65536 + ?r + 0x7FFF" "?q * 65536 + ?r \<le> i + 0x7FFF"
      using assms(3) True by (simp_all add: srtp_highest_def)
    note carry = estimate_carry [OF r this]
    have pred: "rc_roc ctx - 1 = word_of_nat (?q - 1)" if "0 < ?q" using that by (simp add: of_nat_diff)
    have zero: "(rc_roc ctx = 0) = (?q = 0)" by (simp add: unat_eq_zero)
    show ?thesis
      using True carry(2) pred
      by (auto simp: estimate_roc_def Let_def seq carry(1) zero simp del: of_nat_unat)
  qed
  then show ?thesis using srtp_index [of i] by (simp add: estimate_roc_def Let_def)
qed

lemma estimate_index:
  "snd (estimate_roc ctx seq) = fst (estimate_roc ctx seq) * 65536 + ucast seq"
  by (simp add: estimate_roc_def Let_def)

text \<open>
  The counter does not leave the sixteen bits that fit into an index: the first packet beyond them is
  refused by the replay check.
\<close>

lemma estimate_small:
  assumes win: "srtp_win ctx S" and "replay_check ctx (snd (estimate_roc ctx seq)) = 0"
  shows "unat (fst (estimate_roc ctx seq)) < 65536"
proof (cases "rc_initialized ctx")
  case True
  let ?roc = "rc_roc ctx" and ?r = "unat (rc_s_l ctx)" and ?v = "fst (estimate_roc ctx seq)"
  have roc: "unat ?roc < 65536" using win True by (simp add: srtp_win_def)
  have "unat (?roc - 1) < 65536" if "?roc \<noteq> 0"
    using that roc by (simp add: unat_minus_one)
  then have "unat ?v < 65536 \<or> ?v = ?roc + 1 \<and> 0x8000 \<le> ?r \<and> unat seq < ?r - 0x8000"
    using True roc by (auto simp: estimate_roc_def Let_def simp del: of_nat_unat)
  then consider "unat ?v < 65536" | "?v = ?roc + 1" "0x8000 \<le> ?r" "unat seq < ?r - 0x8000" by blast
  then show ?thesis
  proof cases
    case 2
    show ?thesis
    proof (rule ccontr)
      assume big: "\<not> unat ?v < 65536"
      then have "unat ?roc = 65535"
        using 2(1) roc by (simp add: unat_plus_if_size word_size)
      then have q: "?roc = 65535" by (simp add: word_unat_eq_iff)
      have wrap: "(4294967296 :: u32) = 0" by (simp add: word_unat_eq_iff)
      have "unat seq < 2 ^ 32" by (rule less_trans [OF unat_u16_less]) simp
      then have idx: "unat (snd (estimate_roc ctx seq)) = unat seq"
        by (simp add: estimate_index 2(1) q wrap unsigned_ucast_eq take_bit_nat_eq_self)
      have "srtp_highest ctx = 65535 * 65536 + ?r" using \<open>unat ?roc = 65535\<close> by (simp add: srtp_highest_def)
      moreover have "unat seq < 65536" using unsigned_less [of seq] by simp
      ultimately show False
        using assms(2) 2 True by (auto simp: replay_check_iff [OF win] idx)
    qed
  qed
qed (simp add: estimate_roc_def Let_def)

section \<open>Nothing is let through twice\<close>

text \<open>
  A receiver: a step takes a datagram and gives the new state and, when the datagram is let through,
  its index; \<open>rel\<close> relates the state to indices that have been let through.
\<close>

locale replay_receiver =
  fixes step :: "'s \<Rightarrow> 'd \<Rightarrow> 's \<times> nat option" and rel :: "'s \<Rightarrow> nat set \<Rightarrow> bool"
  assumes step_accept: "rel s S \<Longrightarrow> step s d = (s', Some i) \<Longrightarrow> i \<notin> S \<and> rel s' (insert i S)"
    and step_reject: "rel s S \<Longrightarrow> step s d = (s', None) \<Longrightarrow> rel s' S"

fun accepted :: "('s \<Rightarrow> 'd \<Rightarrow> 's \<times> nat option) \<Rightarrow> 's \<Rightarrow> 'd list \<Rightarrow> nat list" where
  "accepted step s [] = []"
| "accepted step s (d # ds) =
     (case step s d of (s', None) \<Rightarrow> accepted step s' ds | (s', Some i) \<Rightarrow> i # accepted step s' ds)"

context replay_receiver
begin

lemma accepted_fresh:
  "rel s S \<Longrightarrow> distinct (accepted step s ds) \<and> set (accepted step s ds) \<inter> S = {}"
proof (induction ds arbitrary: s S)
  case (Cons d ds)
  obtain s' r where step: "step s d = (s', r)" by (cases "step s d")
  show ?case
  proof (cases r)
    case None
    then show ?thesis using step step_reject [OF Cons.prems] Cons.IH [of s' S] by simp
  next
    case (Some i)
    then show ?thesis using step step_accept [OF Cons.prems, of d s' i] Cons.IH [of s' "insert i S"] by auto
  qed
qed simp

end

definition srtp_recv_step ::
  "endian \<Rightarrow> Compy_CryptoSrtpOps \<Rightarrow> Compy_SrtpRecvCtx \<Rightarrow> u8 list \<Rightarrow> Compy_SrtpRecvCtx \<times> nat option" where
  "srtp_recv_step en ops ctx data =
     (case compy_srtp_recv_unprotect en ops ctx data of
        None \<Rightarrow> (ctx, None)
      | Some (ret, ctx', _) \<Rightarrow>
          (ctx', if ret = 0 then Some (unat (snd (estimate_roc ctx (htons en (load16 en (drop 2 data)))))) else None))"

definition srtp_recv_rel :: "Compy_SrtpRecvCtx \<Rightarrow> nat set \<Rightarrow> bool" where
  "srtp_recv_rel ctx S \<longleftrightarrow> (\<exists>S'. S \<subseteq> S' \<and> srtp_win ctx S')"

text \<open>How a call ends: refused with nothing changed, or past the tag with the window updated.\<close>

lemma srtp_unprotect_cases:
  assumes "compy_srtp_recv_unprotect en ops ctx data = Some (ret, ctx', data')"
  obtains (refused) "ret = -1" "ctx' = ctx" "data' = data"
  | (passed) v index seq n where "seq = htons en (load16 en (drop 2 data))" "(v, index) = estimate_roc ctx seq"
    "replay_check ctx index = 0" "ctx' = replay_update ctx seq v"
    "n = length data - rc_auth_tag_len ctx" "12 + rc_auth_tag_len ctx \<le> length data"
    "tag_diff (hmac_sha1 ops (srtp_auth_key ctx) (take n data @ store32 en (htonl en v))) data n
       (rc_auth_tag_len ctx) = 0"
    "case srtp_header_len en data n of None \<Rightarrow> ret = -1 \<and> data' = data | Some hl \<Rightarrow> ret = 0 \<and> take hl data' = take hl data"
proof -
  define n seq where "n = length data - rc_auth_tag_len ctx" and "seq = htons en (load16 en (drop 2 data))"
  obtain v index where est: "estimate_roc ctx seq = (v, index)" by fastforce
  let ?tag = "tag_diff (hmac_sha1 ops (srtp_auth_key ctx) (take n data @ store32 en (htonl en v))) data n (rc_auth_tag_len ctx)"
  note run = assms [unfolded compy_srtp_recv_unprotect_def Let_def, folded n_def seq_def, unfolded est split_conv]
  show thesis
  proof (cases "12 + rc_auth_tag_len ctx \<le> length data \<and> replay_check ctx index = 0 \<and> ?tag = 0")
    case True
    have len: "take hl (take hl data @ xs) = take hl data" if "srtp_header_len en data n = Some hl" for hl xs
      using that by (auto simp: srtp_header_len_def Let_def n_def split: if_splits)
    have "ctx' = replay_update ctx seq v"
      "case srtp_header_len en data n of None \<Rightarrow> ret = -1 \<and> data' = data | Some hl \<Rightarrow> ret = 0 \<and> take hl data' = take hl data"
      using run True len by (auto split: if_splits option.splits)
    then show thesis using True est by (intro passed [of seq v index n]) (simp_all add: seq_def n_def)
  next
    case False
    then have "(ret, ctx', data') = (-1, ctx, data)" using run by (auto split: if_splits)
    then show thesis using refused by simp
  qed
qed

lemma srtp_pass_win:
  assumes "srtp_win ctx S" "(v, index) = estimate_roc ctx seq" "replay_check ctx index = 0"
  shows "unat index \<notin> S" "srtp_win (replay_update ctx seq v) (insert (unat index) S)"
proof -
  have "index = v * 65536 + ucast seq" using assms(2) estimate_index [of ctx seq] by (metis fst_conv snd_conv)
  moreover have "unat v < 65536" using estimate_small [OF assms(1), of seq] assms(2,3) by (metis fst_conv snd_conv)
  ultimately show "unat index \<notin> S" "srtp_win (replay_update ctx seq v) (insert (unat index) S)"
    using replay_update_win [OF assms(1)] assms(3) by auto
qed

interpretation srtp: replay_receiver "srtp_recv_step en ops" srtp_recv_rel for en ops
proof
  fix ctx S data ctx' i
  assume rel: "srtp_recv_rel ctx S"
  then obtain S' where S': "S \<subseteq> S'" "srtp_win ctx S'" by (auto simp: srtp_recv_rel_def)
  show "i \<notin> S \<and> srtp_recv_rel ctx' (insert i S)" if step: "srtp_recv_step en ops ctx data = (ctx', Some i)"
  proof -
    from step obtain data' where
      u: "compy_srtp_recv_unprotect en ops ctx data = Some (0, ctx', data')" and
      i: "i = unat (snd (estimate_roc ctx (htons en (load16 en (drop 2 data)))))"
      by (auto simp: srtp_recv_step_def split: option.splits if_splits)
    from u show ?thesis
    proof (cases rule: srtp_unprotect_cases)
      case (passed v index seq n)
      then have "i = unat index" using i by (metis snd_conv)
      moreover have "insert i S \<subseteq> insert i S'" using S'(1) by blast
      ultimately show ?thesis
        using srtp_pass_win [OF S'(2) passed(2,3)] passed(4) S'(1) by (auto simp: srtp_recv_rel_def)
    qed simp
  qed
  show "srtp_recv_rel ctx' S" if none: "srtp_recv_step en ops ctx data = (ctx', None)"
  proof (cases "compy_srtp_recv_unprotect en ops ctx data")
    case None
    with none rel show ?thesis by (simp add: srtp_recv_step_def)
  next
    case (Some r)
    then obtain ret data' where "compy_srtp_recv_unprotect en ops ctx data = Some (ret, ctx', data')"
      using none by (cases r) (auto simp: srtp_recv_step_def)
    then show ?thesis
    proof (cases rule: srtp_unprotect_cases)
      case refused
      with rel show ?thesis by simp
    next
      case (passed v index seq n)
      then have "srtp_win ctx' (insert (unat index) S')" using srtp_pass_win [OF S'(2)] by simp
      then show ?thesis
        using S'(1) by (auto simp: srtp_recv_rel_def intro!: exI [of _ "insert (unat index) S'"])
    qed
  qed
qed

text \<open>The same for SRTCP, whose index is written in the packet.\<close>

definition srtcp_recv_step ::
  "endian \<Rightarrow> Compy_CryptoSrtpOps \<Rightarrow> Compy_SrtpRecvCtx \<Rightarrow> u8 list \<Rightarrow> Compy_SrtpRecvCtx \<times> nat option" where
  "srtcp_recv_step en ops ctx data =
     (case compy_srtcp_recv_unprotect en ops ctx data of
        (ret, ctx', _) \<Rightarrow>
          (ctx', if ret = 0
                 then Some (unat (htonl en (load32 en (drop (length data - rc_auth_tag_len ctx - 4) data)) AND 0x7FFFFFFF))
                 else None))"

definition srtcp_win :: "Compy_SrtpRecvCtx \<Rightarrow> nat set \<Rightarrow> bool" where
  "srtcp_win ctx S \<longleftrightarrow> win_rel (unat (srtcp_highest_index ctx)) (srtcp_replay_window ctx) S"

lemma srtcp_window_win:
  assumes "srtcp_win ctx S"
  shows "srtcp_window ctx i = Some ctx' \<Longrightarrow> unat i \<notin> S \<and> srtcp_win ctx' (insert (unat i) S)"
    "srtcp_window ctx i = None \<longleftrightarrow>
       unat i \<le> unat (srtcp_highest_index ctx) \<and>
       (64 \<le> unat (srtcp_highest_index ctx) - unat i \<or> unat i \<in> S)"
proof -
  let ?h = "srtcp_highest_index ctx"
  have rel: "win_rel (unat ?h) (srtcp_replay_window ctx) S" using assms by (simp add: srtcp_win_def)
  have "(srtcp_window ctx i = Some ctx' \<longrightarrow> unat i \<notin> S \<and> srtcp_win ctx' (insert (unat i) S)) \<and>
    (srtcp_window ctx i = None \<longleftrightarrow> unat i \<le> unat ?h \<and> (64 \<le> unat ?h - unat i \<or> unat i \<in> S))"
  proof (cases "?h < i")
    case True
    then have less: "unat ?h < unat i" by (simp add: word_less_nat_alt)
    have "srtcp_window ctx i = Some (ctx\<lparr>srtcp_replay_window := win_ahead (unat i - unat ?h) (srtcp_replay_window ctx),
        srtcp_highest_index := i\<rparr>)"
      using True by (simp add: srtcp_window_def Let_def win_ahead_def unat_sub less_imp_le SRTP_REPLAY_WINDOW_SIZE_def)
    moreover have "unat i \<notin> S" using rel less by (auto simp: win_rel_def)
    ultimately show ?thesis using win_rel_ahead [OF rel less] less by (auto simp: srtcp_win_def)
  next
    case False
    then have "i \<le> ?h" by simp
    then have le: "unat i \<le> unat ?h" "unat (?h - i) = unat ?h - unat i"
      by (simp_all add: word_le_nat_alt unat_sub [OF \<open>i \<le> ?h\<close>])
    with False win_rel_inside [OF rel le(1)] show ?thesis
      by (auto simp: srtcp_window_def Let_def SRTP_REPLAY_WINDOW_SIZE_def srtcp_win_def)
  qed
  then show "srtcp_window ctx i = Some ctx' \<Longrightarrow> unat i \<notin> S \<and> srtcp_win ctx' (insert (unat i) S)"
    "srtcp_window ctx i = None \<longleftrightarrow>
       unat i \<le> unat ?h \<and> (64 \<le> unat ?h - unat i \<or> unat i \<in> S)" by blast+
qed

interpretation srtcp: replay_receiver "srtcp_recv_step en ops" srtcp_win for en ops
proof
  fix ctx S data ctx' i
  assume win: "srtcp_win ctx S"
  show "i \<notin> S \<and> srtcp_win ctx' (insert i S)" if "srtcp_recv_step en ops ctx data = (ctx', Some i)"
    using that srtcp_window_win(1) [OF win]
    by (auto simp: srtcp_recv_step_def compy_srtcp_recv_unprotect_def Let_def
        split: if_splits option.splits prod.splits)
  show "srtcp_win ctx' S" if "srtcp_recv_step en ops ctx data = (ctx', None)"
    using that win
    by (auto simp: srtcp_recv_step_def compy_srtcp_recv_unprotect_def Let_def
        split: if_splits option.splits prod.splits)
qed

section \<open>What a sender sealed is let through\<close>

lemma tag_diff_zero:
  assumes "n \<le> length tag" "start + n \<le> length data"
  shows "tag_diff tag data start n = 0 \<longleftrightarrow> take n tag = take n (drop start data)"
  unfolding tag_diff_def octet_diff_eq_0 using assms by (auto simp: list_eq_iff_nth_eq)

lemma header_len_bounds:
  "srtp_header_len en p n = Some hl \<Longrightarrow> 12 \<le> hl \<and> hl \<le> n"
  by (auto simp: srtp_header_len_def Let_def split: if_splits)

lemma load16_take: "load16 en (take 2 bs) = load16 en bs"
  by (cases en) simp_all

lemma take_drop_prefix:
  assumes "j + k \<le> n" "take n xs = take n ys"
  shows "take k (drop j xs) = take k (drop j ys)"
proof -
  have "take k (drop j zs) = take k (drop j (take n zs))" for zs :: "'a list"
    using assms(1) by (simp add: drop_take min_absorb1)
  then show ?thesis using assms(2) by metis
qed

text \<open>The header length is read from the header itself.\<close>

lemma header_len_prefix:
  assumes "srtp_header_len en p n = Some hl" "take hl q = take hl p" "hl \<le> length p" "hl \<le> length q"
  shows "srtp_header_len en q n = Some hl"
proof -
  have at: "take k (drop j q) = take k (drop j p)" if "j + k \<le> hl" for j k
    by (rule take_drop_prefix [OF that assms(2)])
  have 0: "q ! 0 = p ! 0"
    using at [of 0 1] header_len_bounds [OF assms(1)] assms(3,4) by (cases q; cases p) auto
  let ?b = "12 + unat (p ! 0 AND 0x0F) * 4"
  have "load16 en (drop (?b + 2) q) = load16 en (drop (?b + 2) p)" if "?b + 4 \<le> hl"
    using arg_cong [OF at [of "?b + 2" 2], of "load16 en"] that by (simp add: load16_take)
  then show ?thesis
    using assms(1) unfolding srtp_header_len_def 0 by (auto simp: Let_def split: if_splits)
qed

text \<open>
  A receiver and a sender share the session keys, and the receiver has let the indices \<open>S\<close> through:
  a datagram whose index is new and inside the window is opened.
\<close>

definition recv_keys :: "Compy_SrtpRecvCtx \<Rightarrow> srtp_keys" where
  "recv_keys ctx = \<lparr>k_key = srtp_key ctx, k_salt = srtp_salt ctx, k_auth = srtp_auth_key ctx,
     k_tag = rc_auth_tag_len ctx\<rparr>"

lemma replay_update_keys [simp]:
  "recv_keys (replay_update ctx seq v) = recv_keys ctx"
  "srtp_key (replay_update ctx seq v) = srtp_key ctx" "srtp_salt (replay_update ctx seq v) = srtp_salt ctx"
  by (simp_all add: replay_update_def Let_def recv_keys_def)

definition in_window :: "Compy_SrtpRecvCtx \<Rightarrow> nat set \<Rightarrow> nat \<Rightarrow> bool" where
  "in_window ctx S i \<longleftrightarrow> i < 2 ^ 32 \<and> i \<notin> S \<and>
     (if rc_initialized ctx then i \<le> srtp_highest ctx + 0x7FFF \<and> srtp_highest ctx < i + 64 else i < 65536)"

lemma length_srtp_sealed:
  assumes "srtp_ops_ok ops" "srtp_packet_ok en tag i p"
  shows "length (srtp_sealed en ops k i p) = length p"
  using assms by (auto simp: srtp_sealed_def srtp_packet_ok_def dest: header_len_bounds)

lemma unprotect_datagram:
  assumes ops: "srtp_ops_ok ops" and win: "srtp_win ctx S" and i: "in_window ctx S i"
    and p: "srtp_packet_ok en (rc_auth_tag_len ctx) i p" and tag: "rc_auth_tag_len ctx \<le> 20"
  shows "compy_srtp_recv_unprotect en ops ctx (srtp_datagram en ops (recv_keys ctx) i p) =
     Some (0, replay_update ctx (word_of_nat i) (word_of_nat (i div 65536)), p)"
    "replay_check ctx (word_of_nat i) = 0"
proof -
  let ?k = "recv_keys ctx" and ?n = "length p" and ?tag = "rc_auth_tag_len ctx"
  let ?sealed = "srtp_sealed en ops ?k i p" and ?d = "srtp_datagram en ops ?k i p"
  let ?mac = "hmac_sha1 ops (srtp_auth_key ctx) (?sealed @ be32 (word_of_nat (i div 65536)))"
  obtain hl where hl: "srtp_header_len en p ?n = Some hl" and len: "12 \<le> ?n" "?n \<le> SRTP_MAX_PACKET_SIZE"
    and seq: "of_be16 (take 2 (drop 2 p)) = word_of_nat i"
    using p by (auto simp: srtp_packet_ok_def)
  note bounds = header_len_bounds [OF hl]
  have sealed: "length ?sealed = ?n" by (rule length_srtp_sealed [OF ops p])
  have d: "?d = ?sealed @ take ?tag ?mac" by (simp add: srtp_datagram_def recv_keys_def)
  have ld: "length ?d = ?n + ?tag" using ops tag by (simp add: d sealed)
  have head: "take hl ?d = take hl p" using bounds sealed by (simp add: d) (simp add: srtp_sealed_def hl)
  have hl_d: "srtp_header_len en ?d ?n = Some hl"
    using bounds ld by (intro header_len_prefix [OF hl head]) simp_all
  have at: "take k (drop j ?d) = take k (drop j p)" if "j + k \<le> 12" for j k
    using that bounds by (intro take_drop_prefix [OF _ head]) simp
  have seq_d: "htons en (load16 en (drop 2 ?d)) = word_of_nat i"
    using at [of 2 2] ld len(1) seq htons_load16 [of "drop 2 ?d" en] by simp
  have ssrc_d: "htonl en (load32 en (drop 8 ?d)) = of_be32 (take 4 (drop 8 p))"
    using at [of 8 4] ld len(1) htonl_load32 [of "drop 8 ?d" en] by simp
  have est: "estimate_roc ctx (word_of_nat i) = (word_of_nat (i div 65536), word_of_nat i)"
    using i by (intro estimate_correct [OF win]) (auto simp: in_window_def)
  show check: "replay_check ctx (word_of_nat i) = 0"
    using i by (auto simp: replay_check_iff [OF win] in_window_def unat_word_of_nat_u32)
  have take_n: "take ?n ?d = ?sealed" by (simp add: d sealed)
  have "tag_diff ?mac ?d ?n ?tag = 0"
    using tag ops ld by (subst tag_diff_zero) (simp_all add: d sealed)
  moreover have "drop hl ?sealed = srtp_encrypt_payload en ops (srtp_key ctx) (srtp_salt ctx)
      (of_be32 (take 4 (drop 8 p))) (word_of_nat i) (drop hl p)"
    using bounds by (simp add: srtp_sealed_def hl recv_keys_def)
  ultimately show "compy_srtp_recv_unprotect en ops ctx ?d =
      Some (0, replay_update ctx (word_of_nat i) (word_of_nat (i div 65536)), p)"
    using ops len
    by (simp add: compy_srtp_recv_unprotect_def Let_def ld seq_d ssrc_d est check take_n hl_d head)
qed

section \<open>A session\<close>

text \<open>The caller's loop: what each datagram gives, \<open>None\<close> for a refused one.\<close>

fun srtp_receive_all ::
  "endian \<Rightarrow> Compy_CryptoSrtpOps \<Rightarrow> Compy_SrtpRecvCtx \<Rightarrow> u8 list list \<Rightarrow> u8 list option list option" where
  "srtp_receive_all en ops ctx [] = Some []"
| "srtp_receive_all en ops ctx (d # ds) =
     (case compy_srtp_recv_unprotect en ops ctx d of
        None \<Rightarrow> None
      | Some (ret, ctx', p) \<Rightarrow>
          map_option (\<lambda>ps. (if ret = 0 then Some p else None) # ps) (srtp_receive_all en ops ctx' ds))"

text \<open>
  An order in which datagrams may arrive, with losses and reordering: the first one has an index of
  16 bits, and every other one is new, at most \<open>2 ^ 15 - 1\<close> ahead and less than 64 behind the highest.
\<close>

fun deliverable :: "nat option \<Rightarrow> nat list \<Rightarrow> nat list \<Rightarrow> bool" where
  "deliverable h seen [] \<longleftrightarrow> True"
| "deliverable None seen (i # is) \<longleftrightarrow> i < 65536 \<and> deliverable (Some i) [i] is"
| "deliverable (Some h) seen (i # is) \<longleftrightarrow>
     i \<notin> set seen \<and> i \<le> h + 0x7FFF \<and> h < i + 64 \<and> deliverable (Some (max h i)) (i # seen) is"

definition recv_state :: "srtp_keys \<Rightarrow> nat option \<Rightarrow> nat list \<Rightarrow> Compy_SrtpRecvCtx \<Rightarrow> bool" where
  "recv_state k h seen ctx \<longleftrightarrow> recv_keys ctx = k \<and> rc_initialized ctx = (h \<noteq> None) \<and>
     (case h of None \<Rightarrow> srtp_win ctx {} | Some h \<Rightarrow> srtp_highest ctx = h \<and> srtp_win ctx (set seen))"

lemma receive_delivered:
  assumes ops: "srtp_ops_ok ops" and tag: "k_tag k \<le> 20"
  shows "recv_state k h seen ctx \<Longrightarrow> deliverable h seen (map fst xs) \<Longrightarrow>
     \<forall>(i, p) \<in> set xs. i < 2 ^ 32 \<and> srtp_packet_ok en (k_tag k) i p \<Longrightarrow>
     srtp_receive_all en ops ctx (map (\<lambda>(i, p). srtp_datagram en ops k i p) xs) = Some (map (Some \<circ> snd) xs)"
proof (induction xs arbitrary: h seen ctx)
  case (Cons x xs)
  obtain i p where x: "x = (i, p)" by (cases x)
  define S where "S = (if h = None then {} else set seen)"
  let ?ctx = "replay_update ctx (word_of_nat i) (word_of_nat (i div 65536))"
  have keys: "recv_keys ctx = k" and tag': "rc_auth_tag_len ctx = k_tag k"
    using Cons.prems(1) by (auto simp: recv_state_def recv_keys_def)
  have win: "srtp_win ctx S"
    using Cons.prems(1) by (auto simp: recv_state_def S_def split: option.splits)
  have i: "in_window ctx S i" "i < 2 ^ 32"
    using Cons.prems by (cases h; auto simp: x recv_state_def in_window_def S_def)+
  have p: "srtp_packet_ok en (rc_auth_tag_len ctx) i p" using Cons.prems(3) by (simp add: x tag')
  note open_d = unprotect_datagram [OF ops win i(1) p tag [folded tag'], unfolded keys]
  have v: "unat (word_of_nat (i div 65536) :: u32) < 65536"
    using i(2) by (simp add: unat_of_nat take_bit_eq_mod less_mult_imp_div_less mod_less)
  note upd = replay_update_win [OF win v refl, where seq = "word_of_nat i", unfolded srtp_index, OF open_d(2), unfolded unat_word_of_nat_u32 [OF i(2)]]
  have "recv_state k (Some (case h of None \<Rightarrow> i | Some h \<Rightarrow> max h i)) (i # (if h = None then [] else seen)) ?ctx"
    using upd Cons.prems(1) keys
    by (cases h) (auto simp: recv_state_def S_def)
  moreover have "deliverable (Some (case h of None \<Rightarrow> i | Some h \<Rightarrow> max h i)) (i # (if h = None then [] else seen))
      (map fst xs)"
    using Cons.prems(2) by (cases h) (auto simp: x)
  ultimately show ?case
    using Cons.IH Cons.prems(3) open_d(1) by (simp add: x)
qed simp

lemma recv_new_state:
  "recv_state (srtp_keys_of (compy_transport_srtp_new ops inner suite key)) None [] (compy_srtp_recv_new ops suite key)"
  by (simp add: recv_state_def recv_keys_def srtp_keys_of_def compy_srtp_recv_new_def
      compy_transport_srtp_new_def srtp_derive_keys_def Let_def srtp_win_def)

lemma srtp_new_at: "srtp_at 0 (compy_transport_srtp_new ops inner suite key)"
  using suite_tag_len_bounds [of suite]
  by (simp add: srtp_at_def compy_transport_srtp_new_def srtp_derive_keys_def)

lemma srtp_stream_member:
  "srtp_stream en t h xs \<Longrightarrow> x \<in> set xs \<Longrightarrow> fst x < 2 ^ 32 \<and> srtp_packet_ok en t (fst x) (concat (snd x))"
proof (induction xs arbitrary: h)
  case (Cons y xs)
  then show ?case by (cases y) auto
qed simp

text \<open>A sender and a receiver with the same keys.\<close>

lemma srtp_session_udp:
  assumes "srtp_ops_ok ops" and "udp_ok 0 udp" "udp_sent udp = []"
    and "srtp_stream en (suite_tag_len suite) 0 stream"
    and "\<forall>n \<in> set arrival. n < length stream"
    and "deliverable None [] (map (\<lambda>n. fst (stream ! n)) arrival)"
  shows "\<exists>s. transmit_all (compy_transport_srtp en ops compy_transport_udp)
        (compy_transport_srtp_new ops udp suite key) (map snd stream) = Some (0, s) \<and>
     length (udp_sent (st_inner s)) = length stream \<and>
     srtp_receive_all en ops (compy_srtp_recv_new ops suite key) (map (\<lambda>n. udp_sent (st_inner s) ! n) arrival) =
       Some (map (\<lambda>n. Some (concat (snd (stream ! n)))) arrival)"
proof -
  let ?s0 = "compy_transport_srtp_new ops udp suite key"
  let ?k = "srtp_keys_of ?s0" and ?dg = "\<lambda>x. srtp_datagram en ops (srtp_keys_of ?s0) (fst x) (concat (snd x))"
  have tag: "st_auth_tag_len ?s0 = suite_tag_len suite" "k_tag ?k = suite_tag_len suite" "st_inner ?s0 = udp"
    by (simp_all add: compy_transport_srtp_new_def srtp_derive_keys_def srtp_keys_of_def)
  have "list_all (\<lambda>_. True) ps" for ps :: "u8 list list" by (simp add: list_all_iff)
  then obtain s where s: "transmit_all (compy_transport_srtp en ops compy_transport_udp) ?s0 (map snd stream) = Some (0, s)"
    "udp_sent (st_inner s) = map ?dg stream"
    using udp.srtp_stream_ok [OF assms(1) srtp_new_at [of ops udp suite key], where stream = stream and n = 0 and en = en] assms(2-4) tag
    by (auto simp: udp_ok_def)
  note ok = srtp_stream_member [OF assms(4)]
  let ?xs = "map (\<lambda>n. (fst (stream ! n), concat (snd (stream ! n)))) arrival"
  have "srtp_receive_all en ops (compy_srtp_recv_new ops suite key) (map (\<lambda>(i, p). srtp_datagram en ops ?k i p) ?xs) =
      Some (map (Some \<circ> snd) ?xs)"
  proof (rule receive_delivered [OF assms(1) _ recv_new_state])
    show "k_tag ?k \<le> 20" using tag suite_tag_len_bounds by simp
    show "deliverable None [] (map fst ?xs)" using assms(6) by (simp add: comp_def)
    show "\<forall>(i, p) \<in> set ?xs. i < 2 ^ 32 \<and> srtp_packet_ok en (k_tag ?k) i p"
      using ok assms(5) by (auto simp: tag(2))
  qed
  moreover have "map (\<lambda>n. udp_sent (st_inner s) ! n) arrival = map (\<lambda>(i, p). srtp_datagram en ops ?k i p) ?xs"
    using assms(5) by (simp add: s(2))
  moreover have "map (Some \<circ> snd) ?xs = map (\<lambda>n. Some (concat (snd (stream ! n)))) arrival" by simp
  moreover have "length (udp_sent (st_inner s)) = length stream" by (simp add: s(2))
  ultimately show ?thesis using s(1) by metis
qed

section \<open>Properties\<close>

text \<open>
  C2. An SRTP session end to end, over UDP: a sender and a receiver made from the same suite and key
  material, and a stream of RTP packets whose packet indices grow by less than \<open>2 ^ 15\<close> and stay below
  \<open>2 ^ 32\<close>. The sender accepts every packet, and in whatever order the datagrams arrive, with losses
  and with reordering by less than 64, the receiver authenticates and opens each one and gives back
  the packet that was sent.
\<close>

theorem srtp_session_over_udp:
  assumes "srtp_ops_ok ops" and "udp_ok 0 udp" "udp_sent udp = []"
    and "srtp_stream en (suite_tag_len suite) 0 stream"
    and "\<forall>n \<in> set arrival. n < length stream"
    and "deliverable None [] (map (\<lambda>n. fst (stream ! n)) arrival)"
  shows "\<exists>s. transmit_all (compy_transport_srtp en ops compy_transport_udp)
        (compy_transport_srtp_new ops udp suite key) (map snd stream) = Some (0, s) \<and>
     length (udp_sent (st_inner s)) = length stream \<and>
     srtp_receive_all en ops (compy_srtp_recv_new ops suite key) (map (\<lambda>n. udp_sent (st_inner s) ! n) arrival) =
       Some (map (\<lambda>n. Some (concat (snd (stream ! n)))) arrival)"
  by (rule srtp_session_udp [OF assms])

definition sample_srtp_stream :: "(nat \<times> u8 list list) list" where
  "sample_srtp_stream =
     [(65534, [[0x80, 96, 0xFF, 0xFE, 0, 0, 0, 0, 1, 2, 3, 4], [7]]),
      (65535, [[0x80, 96, 0xFF, 0xFF, 0, 0, 0, 0, 1, 2, 3, 4], [8, 8]]),
      (65536, [[0x80, 96, 0, 0, 0, 0, 0, 0, 1, 2, 3, 4], [9]])]"

lemma sample_srtp_stream_ok: "srtp_stream en (suite_tag_len suite) 0 sample_srtp_stream"
  by (cases suite)
    (simp_all add: sample_srtp_stream_def srtp_step_def srtp_packet_ok_def srtp_header_len_def of_be16_def
      SRTP_MAX_PACKET_SIZE_def SRTP_AUTH_TAG_80_def SRTP_AUTH_TAG_32_def)

definition sample_udp :: Compy_UdpTransport where
  "sample_udp = \<lparr>udp_sent = [], udp_calls = 0, udp_env = \<lambda>_. Sent\<rparr>"

lemma sample_udp_ok: "udp_ok 0 sample_udp" "udp_sent sample_udp = []"
  by (auto simp: sample_udp_def udp_ok_def MAX_RETRANSMITS_def intro!: exI [of _ 0])

definition sample_key :: Compy_SrtpKeyMaterial where
  "sample_key = \<lparr>master_key = replicate 16 1, master_salt = replicate 14 2\<rparr>"

theorem srtp_session_over_udp_witness:
  "\<exists>s. transmit_all (compy_transport_srtp LittleEndian toy_ops compy_transport_udp)
        (compy_transport_srtp_new toy_ops sample_udp Compy_SrtpSuite_AES_CM_128_HMAC_SHA1_80 sample_key)
        (map snd sample_srtp_stream) = Some (0, s) \<and>
     srtp_receive_all LittleEndian toy_ops
       (compy_srtp_recv_new toy_ops Compy_SrtpSuite_AES_CM_128_HMAC_SHA1_80 sample_key)
       (map (\<lambda>n. udp_sent (st_inner s) ! n) [1, 2, 0]) =
       Some (map (\<lambda>n. Some (concat (snd (sample_srtp_stream ! n)))) [1, 2, 0])"
proof -
  have "\<forall>n \<in> set [1, 2, 0]. n < length sample_srtp_stream"
    "deliverable None [] (map (\<lambda>n. fst (sample_srtp_stream ! n)) [1, 2, 0])"
    by (simp_all add: sample_srtp_stream_def)
  from srtp_session_over_udp [OF toy_ops_ok sample_udp_ok sample_srtp_stream_ok this] show ?thesis by blast
qed

text \<open>A run of packets with consecutive sequence numbers, from a first one of 16 bits.\<close>

lemma consecutive_stream:
  assumes "\<forall>n < length packets. srtp_packet_ok en tag (s + n) (concat (packets ! n))" "s + length packets \<le> 2 ^ 32"
    and "srtp_step h s"
  shows "srtp_stream en tag h (zip [s..<s + length packets] packets)"
  using assms
proof (induction packets arbitrary: s h)
  case (Cons p packets)
  have "\<forall>n < length packets. srtp_packet_ok en tag (Suc s + n) (concat (packets ! n))"
    using Cons.prems(1) by (metis add_Suc_shift length_Cons not_less_eq nth_Cons_Suc)
  moreover have "srtp_step s (Suc s)" by (simp add: srtp_step_def)
  ultimately have "srtp_stream en tag s (zip [Suc s..<Suc s + length packets] packets)"
    using Cons.IH [of "Suc s" s] Cons.prems(2) by simp
  moreover have "[s..<s + length (p # packets)] = s # [Suc s..<Suc s + length packets]" by (simp add: upt_rec)
  moreover have "srtp_packet_ok en tag s (concat p)" using Cons.prems(1) by (metis add_0_right length_Cons nth_Cons_0 zero_less_Suc)
  ultimately show ?case using Cons.prems(2,3) by simp
qed simp

text \<open>
  C30. No two packets of a session are encrypted with the same initialisation vector: when a new sender gets up to
  \<open>2 ^ 32\<close> minus the first sequence number packets with consecutive sequence numbers, of whatever sources, it
  sends each one with its header in the clear and its payload in counter mode under the session key, and the vectors
  of the packets are pairwise different. The bound is needed: the packet index has 32 bits, so that the packet
  \<open>2 ^ 32\<close> places later has the same vector.
\<close>

theorem srtp_keystream_once:
  assumes "srtp_ops_ok ops" "length (master_salt key) = 14" "udp_ok 0 udp" "udp_sent udp = []"
    and "s < 65536" "s + length packets \<le> 2 ^ 32"
    and ok: "\<forall>n < length packets. srtp_packet_ok en (suite_tag_len suite) (s + n) (concat (packets ! n))"
    and iv: "iv = (\<lambda>n. srtp_iv en (st_session_salt (compy_transport_srtp_new ops udp suite key))
      (of_be32 (take 4 (drop 8 (concat (packets ! n))))) (word_of_nat (s + n)))"
  shows "\<exists>self. transmit_all (compy_transport_srtp en ops compy_transport_udp)
        (compy_transport_srtp_new ops udp suite key) packets = Some (0, self) \<and>
     length (udp_sent (st_inner self)) = length packets \<and>
     (\<forall>n < length packets. \<exists>hl. srtp_header_len en (concat (packets ! n)) (length (concat (packets ! n))) = Some hl \<and>
        take (length (concat (packets ! n))) (udp_sent (st_inner self) ! n) =
          take hl (concat (packets ! n)) @
          aes128_ctr ops (st_session_key (compy_transport_srtp_new ops udp suite key)) (iv n) (drop hl (concat (packets ! n)))) \<and>
     distinct (map iv [0..<length packets])"
proof -
  let ?s0 = "compy_transport_srtp_new ops udp suite key" and ?stream = "zip [s..<s + length packets] packets"
  let ?dg = "\<lambda>x. srtp_datagram en ops (srtp_keys_of ?s0) (fst x) (concat (snd x))"
  have new: "st_auth_tag_len ?s0 = suite_tag_len suite" "st_inner ?s0 = udp"
    by (simp_all add: compy_transport_srtp_new_def srtp_derive_keys_def)
  have step: "srtp_step 0 s" using assms(5) by (simp add: srtp_step_def)
  have "list_all (\<lambda>_. True) ps" for ps :: "u8 list list" by (simp add: list_all_iff)
  then obtain self where self: "transmit_all (compy_transport_srtp en ops compy_transport_udp) ?s0 (map snd ?stream) = Some (0, self)"
    "udp_sent (st_inner self) = map ?dg ?stream"
    using udp.srtp_stream_ok [OF assms(1) srtp_new_at [of ops udp suite key], where stream = ?stream and n = 0 and en = en]
      consecutive_stream [OF ok assms(6) step] assms(3,4) new by (auto simp: udp_ok_def)
  have wire: "\<exists>hl. srtp_header_len en (concat (packets ! n)) (length (concat (packets ! n))) = Some hl \<and>
      take (length (concat (packets ! n))) (udp_sent (st_inner self) ! n) = take hl (concat (packets ! n)) @
        aes128_ctr ops (st_session_key ?s0) (iv n) (drop hl (concat (packets ! n)))" if "n < length packets" for n
  proof -
    have p: "srtp_packet_ok en (suite_tag_len suite) (s + n) (concat (packets ! n))" using ok that by blast
    then obtain hl where hl: "srtp_header_len en (concat (packets ! n)) (length (concat (packets ! n))) = Some hl"
      by (auto simp: srtp_packet_ok_def)
    have "udp_sent (st_inner self) ! n = srtp_datagram en ops (srtp_keys_of ?s0) (s + n) (concat (packets ! n))"
      using that by (simp add: self(2))
    then have "take (length (concat (packets ! n))) (udp_sent (st_inner self) ! n) =
        srtp_sealed en ops (srtp_keys_of ?s0) (s + n) (concat (packets ! n))"
      using length_srtp_sealed [OF assms(1) p, of "srtp_keys_of ?s0"] by (simp only: srtp_datagram_def) simp
    also have "\<dots> = take hl (concat (packets ! n)) @
        aes128_ctr ops (st_session_key ?s0) (iv n) (drop hl (concat (packets ! n)))"
      by (simp add: hl srtp_sealed_def srtp_keys_of_def srtp_encrypt_payload_def iv)
    finally show ?thesis using hl by blast
  qed
  have "length (st_session_salt ?s0) = 14"
    using length_srtp_kdf [OF assms(1,2)] by (simp add: compy_transport_srtp_new_def srtp_derive_keys_def)
  moreover have "(word_of_nat (s + i) :: u32) = word_of_nat (s + j) \<Longrightarrow> i = j" if "i < length packets" "j < length packets" for i j
    using that assms(6) unat_word_of_nat_u32 [of "s + i"] unat_word_of_nat_u32 [of "s + j"] by auto
  ultimately have "distinct (map iv [0..<length packets])"
    by (auto simp: distinct_map inj_on_def iv srtp_iv_injective simp del: of_nat_add)
  with self wire show ?thesis by (intro exI [of _ self]) simp
qed

theorem srtp_keystream_once_witness:
  "distinct (map (\<lambda>n. srtp_iv LittleEndian
       (st_session_salt (compy_transport_srtp_new toy_ops sample_udp Compy_SrtpSuite_AES_CM_128_HMAC_SHA1_80 sample_key))
       (of_be32 (take 4 (drop 8 (concat (map snd sample_srtp_stream ! n))))) (word_of_nat (65534 + n)))
     [0..<length (map snd sample_srtp_stream)])"
proof -
  have "\<forall>n < length (map snd sample_srtp_stream).
      srtp_packet_ok LittleEndian (suite_tag_len Compy_SrtpSuite_AES_CM_128_HMAC_SHA1_80) (65534 + n) (concat (map snd sample_srtp_stream ! n))"
    using sample_srtp_stream_ok [of LittleEndian Compy_SrtpSuite_AES_CM_128_HMAC_SHA1_80]
    by (auto simp: sample_srtp_stream_def less_Suc_eq numeral_3_eq_3 nth_Cons')
  note packets = this
  have "length (master_salt sample_key) = 14" "65534 + length (map snd sample_srtp_stream) \<le> 2 ^ 32" "(65534 :: nat) < 65536"
    by (simp_all add: sample_key_def sample_srtp_stream_def)
  from srtp_keystream_once [OF toy_ops_ok this(1) sample_udp_ok this(3,2) packets refl] show ?thesis by (elim exE conjE)
qed

text \<open>
  C5. Replay protection: whatever a receiver is given, no SRTP packet index is let through twice. (A datagram that
  overruns the buffer of the function, which ends the program, counts here as one that is not let through.)
\<close>

theorem srtp_no_replay:
  "distinct (accepted (srtp_recv_step en ops) (compy_srtp_recv_new ops suite key) datagrams)"
proof -
  have "srtp_recv_rel (compy_srtp_recv_new ops suite key) {}"
    by (auto simp: srtp_recv_rel_def srtp_win_def compy_srtp_recv_new_def Let_def)
  then show ?thesis using srtp.accepted_fresh by blast
qed

text \<open>
  The same for SRTCP and the index each packet carries.
\<close>

theorem srtcp_no_replay:
  "distinct (accepted (srtcp_recv_step en ops) (compy_srtp_recv_new ops suite key) datagrams)"
proof -
  have "srtcp_win (compy_srtp_recv_new ops suite key) {}"
    by (auto simp: srtcp_win_def win_rel_def compy_srtp_recv_new_def Let_def)
  then show ?thesis using srtcp.accepted_fresh by blast
qed

text \<open>
  C38. The 64-bit replay window implements its specification, a set of indices: with \<open>S\<close> let through
  so far, the check passes exactly for an index above the highest one and for one of the last 64 that
  is not in \<open>S\<close>, and the update after a passed check adds the index to \<open>S\<close> and nothing else.
\<close>

theorem srtp_window_refines_set:
  assumes "srtp_win ctx S" "(v, index) = estimate_roc ctx seq"
  shows "(replay_check ctx index = 0 \<longleftrightarrow>
       (if rc_initialized ctx then srtp_highest ctx < unat index \<or>
          srtp_highest ctx - unat index < 64 \<and> unat index \<notin> S else True)) \<and>
     (if replay_check ctx index = 0
      then unat index \<notin> S \<and> srtp_win (replay_update ctx seq v) (insert (unat index) S) else True)"
  using replay_check_iff [OF assms(1), of index] srtp_pass_win [OF assms] by auto

definition sample_ctx :: Compy_SrtpRecvCtx where
  "sample_ctx = (compy_srtp_recv_new toy_ops Compy_SrtpSuite_AES_CM_128_HMAC_SHA1_80 sample_key)
     \<lparr>rc_s_l := 7, rc_initialized := True, rc_replay_window := 5\<rparr>"

lemma sample_ctx_win: "srtp_win sample_ctx {5, 7}"
proof -
  have "bit (5 :: u64) d \<longleftrightarrow> d \<le> 7 \<and> 7 - d \<in> {5, 7}" for d
  proof -
    have "bit (5 :: u64) d \<longleftrightarrow> d = 0 \<or> d = 2"
      by (cases d; cases "d - 1"; cases "d - 2") (auto simp: bit_numeral_rec bit_1_iff)
    then show ?thesis by auto
  qed
  then show ?thesis
    by (auto simp: sample_ctx_def srtp_win_def win_rel_def srtp_highest_def compy_srtp_recv_new_def Let_def)
qed

theorem srtp_window_refines_set_witness:
  "replay_check sample_ctx 6 = 0 \<and> replay_check sample_ctx 5 \<noteq> 0 \<and>
     srtp_win (replay_update sample_ctx 6 0) {5, 6, 7}"
proof -
  have est: "(0, 6) = estimate_roc sample_ctx 6" "(0, 5) = estimate_roc sample_ctx 5"
    by (simp_all add: estimate_roc_def sample_ctx_def compy_srtp_recv_new_def Let_def)
  have h: "srtp_highest sample_ctx = 7" "rc_initialized sample_ctx"
    by (simp_all add: sample_ctx_def srtp_highest_def compy_srtp_recv_new_def Let_def)
  show ?thesis
    using srtp_window_refines_set [OF sample_ctx_win est(1)] srtp_window_refines_set [OF sample_ctx_win est(2)]
    by (auto simp: h insert_commute split: if_splits)
qed

text \<open>
  C39. Only authentic packets count. A call that succeeds, or that changes the context or the packet at all, was given
  a packet whose last octets are the beginning of the HMAC, under the session key, of the rest and the estimated
  rollover counter. A refused packet is left as it is, and so is the context, with one exception: an authentic packet
  whose header does not fit into it is refused after its index was entered into the window. A packet that is let
  through keeps its header, and its index is entered into the window.
\<close>

theorem srtp_recv_authentic:
  assumes "srtp_ops_ok ops" "rc_auth_tag_len ctx \<le> 20"
    and run: "compy_srtp_recv_unprotect en ops ctx data = Some (ret, ctx', data')"
    and n: "n = length data - rc_auth_tag_len ctx"
    and v: "seq = htons en (load16 en (drop 2 data))" "v = fst (estimate_roc ctx seq)"
  shows "(ret = 0 \<or> ctx' \<noteq> ctx \<or> data' \<noteq> data \<longrightarrow>
       drop n data = take (rc_auth_tag_len ctx) (hmac_sha1 ops (srtp_auth_key ctx) (take n data @ be32 v))) \<and>
     (if ret = 0
      then ctx' = replay_update ctx seq v \<and>
        (\<exists>hl. srtp_header_len en data n = Some hl \<and> take hl data' = take hl data)
      else ret = -1 \<and> data' = data \<and>
        (ctx' = ctx \<or> ctx' = replay_update ctx seq v \<and> srtp_header_len en data n = None))"
  using run
proof (cases rule: srtp_unprotect_cases)
  case (passed v' index seq' n')
  have same: "seq' = seq" "v' = v" "n' = n" using passed(1,2,5) v n by (metis fst_conv)+
  from passed have "take (rc_auth_tag_len ctx)
      (hmac_sha1 ops (srtp_auth_key ctx) (take n data @ store32 en (htonl en v))) =
      take (rc_auth_tag_len ctx) (drop n data)"
    using assms(1,2) unfolding same by (subst tag_diff_zero [symmetric]) simp_all
  moreover have "length (drop n data) = rc_auth_tag_len ctx" using passed(6) n by simp
  ultimately have "drop n data = take (rc_auth_tag_len ctx) (hmac_sha1 ops (srtp_auth_key ctx) (take n data @ be32 v))"
    by simp
  moreover have "if ret = 0
      then ctx' = replay_update ctx seq v \<and> (\<exists>hl. srtp_header_len en data n = Some hl \<and> take hl data' = take hl data)
      else ret = -1 \<and> data' = data \<and> ctx' = replay_update ctx seq v \<and> srtp_header_len en data n = None"
    using passed(4,8) unfolding same by (simp split: option.splits)
  ultimately show ?thesis by (simp split: if_splits)
qed simp

theorem srtp_recv_authentic_witness:
  "let ctx = compy_srtp_recv_new toy_ops Compy_SrtpSuite_AES_CM_128_HMAC_SHA1_80 sample_key;
       p = [0x80, 96, 0, 6, 0, 0, 0, 0, 1, 2, 3, 4, 5];
       d = srtp_datagram LittleEndian toy_ops (recv_keys ctx) 6 p
   in (\<exists>ctx'. compy_srtp_recv_unprotect LittleEndian toy_ops ctx d = Some (0, ctx', p)) \<and>
      drop (length d - 10) d =
        take 10 (hmac_sha1 toy_ops (srtp_auth_key ctx) (take (length d - 10) d @
          be32 (fst (estimate_roc ctx (htons LittleEndian (load16 LittleEndian (drop 2 d)))))))"
proof -
  let ?ctx = "compy_srtp_recv_new toy_ops Compy_SrtpSuite_AES_CM_128_HMAC_SHA1_80 sample_key"
  let ?p = "[0x80, 96, 0, 6, 0, 0, 0, 0, 1, 2, 3, 4, 5] :: u8 list"
  have ctx: "srtp_win ?ctx {}" "in_window ?ctx {} 6" "rc_auth_tag_len ?ctx = 10"
    by (simp_all add: compy_srtp_recv_new_def Let_def srtp_win_def in_window_def SRTP_AUTH_TAG_80_def)
  have p: "srtp_packet_ok LittleEndian (rc_auth_tag_len ?ctx) 6 ?p"
    by (simp add: ctx srtp_packet_ok_def srtp_header_len_def of_be16_def SRTP_MAX_PACKET_SIZE_def)
  note u = unprotect_datagram(1) [OF toy_ops_ok ctx(1,2) p, simplified ctx(3), simplified]
  show ?thesis
    using srtp_recv_authentic [OF toy_ops_ok _ u refl refl refl] u unfolding ctx(3) Let_def by (simp add: srtp_datagram_def [symmetric])
qed

text \<open>
  The buffer for authentication holds 2052 octets, and the length of the packet is not checked
  against it: the function writes past its end exactly for packets of more than 2048 octets before
  the tag whose index passes the replay check, and for no others.
\<close>

theorem srtp_recv_fault:
  "compy_srtp_recv_unprotect en ops ctx data = None \<longleftrightarrow>
     SRTP_MAX_PACKET_SIZE + rc_auth_tag_len ctx < length data \<and>
     replay_check ctx (snd (estimate_roc ctx (htons en (load16 en (drop 2 data))))) = 0"
  by (auto simp: compy_srtp_recv_unprotect_def Let_def SRTP_MAX_PACKET_SIZE_def
      split: prod.splits option.splits)

text \<open>
  Packet indices have 32 bits in this implementation, where RFC 3711 gives them 48: a receiver
  that has seen the index \<open>2 ^ 32 - 1\<close> refuses every packet with one of the next \<open>2 ^ 15 - 1\<close> sequence
  numbers, authentic or not.
\<close>

theorem srtp_index_exhausted:
  assumes "srtp_win ctx S" "rc_initialized ctx" "srtp_highest ctx = 2 ^ 32 - 1"
    and "12 + rc_auth_tag_len ctx \<le> length data"
    and "unat (htons en (load16 en (drop 2 data))) < 0x7FFF"
  shows "compy_srtp_recv_unprotect en ops ctx data = Some (-1, ctx, data)"
proof -
  let ?seq = "htons en (load16 en (drop 2 data))"
  have h: "unat (rc_s_l ctx) + unat (rc_roc ctx) * 65536 = 4294967295"
    using assms(3) by (simp add: srtp_highest_def)
  have "unat (rc_roc ctx) = 65535"
    using arg_cong [OF h, of "\<lambda>n. n div 65536"] unat_u16_less [of "rc_s_l ctx"] by simp
  with h have "unat (rc_roc ctx) = 65535" "unat (rc_s_l ctx) = 65535" by simp_all
  then have q: "rc_roc ctx = 65535" "rc_s_l ctx = 65535" by (simp_all add: word_unat_eq_iff)
  have wrap: "(4294967296 :: u32) = 0" by (simp add: word_unat_eq_iff)
  have "unat ?seq < 2 ^ 32" using assms(5) by simp
  then have idx: "unat (snd (estimate_roc ctx ?seq)) = unat ?seq"
    using assms(2,5)
    by (simp add: estimate_roc_def Let_def q wrap unsigned_ucast_eq take_bit_nat_eq_self del: of_nat_unat)
  have "\<not> 2 ^ 32 - 1 < unat ?seq" "\<not> 2 ^ 32 - 1 - unat ?seq < 64" using assms(5) by simp_all
  then have "replay_check ctx (snd (estimate_roc ctx ?seq)) \<noteq> 0"
    unfolding replay_check_iff [OF assms(1)] idx assms(3) using assms(2) by blast
  then show ?thesis
    using assms(4) by (auto simp: compy_srtp_recv_unprotect_def Let_def split: prod.splits)
qed

theorem srtp_index_exhausted_witness:
  "let ctx = sample_ctx\<lparr>rc_roc := 65535, rc_s_l := 65535, rc_replay_window := 1\<rparr>;
       data = [0x80, 96, 0, 0] @ replicate 30 0
   in compy_srtp_recv_unprotect BigEndian toy_ops ctx data = Some (-1, ctx, data)"
proof -
  let ?ctx = "sample_ctx\<lparr>rc_roc := 65535, rc_s_l := 65535, rc_replay_window := 1\<rparr>"
  let ?data = "[0x80, 96, 0, 0] @ replicate 30 (0 :: u8)"
  have h: "srtp_highest ?ctx = 2 ^ 32 - 1" "rc_initialized ?ctx" "rc_auth_tag_len ?ctx = 10"
    by (simp_all add: srtp_highest_def sample_ctx_def compy_srtp_recv_new_def Let_def SRTP_AUTH_TAG_80_def)
  have "bit (1 :: u64) d \<longleftrightarrow> d \<le> srtp_highest ?ctx \<and> srtp_highest ?ctx - d \<in> {srtp_highest ?ctx}" for d
    unfolding h(1) by (auto simp: bit_1_iff)
  then have win: "srtp_win ?ctx {srtp_highest ?ctx}" using h(2) by (simp add: srtp_win_def win_rel_def)
  have "unat (htons BigEndian (load16 BigEndian (drop 2 ?data))) < 0x7FFF"
    by (simp add: of_be16_def)
  from srtp_index_exhausted [OF win h(2,1) _ this] h(3) show ?thesis by (simp add: Let_def)
qed

section \<open>An SRTCP session\<close>

definition srtcp_sealed :: "endian \<Rightarrow> Compy_CryptoSrtpOps \<Rightarrow> srtp_keys \<Rightarrow> nat \<Rightarrow> u8 list \<Rightarrow> u8 list" where
  "srtcp_sealed en ops k i p =
     take 8 p @ srtp_encrypt_payload en ops (k_key k) (k_salt k) (of_be32 (take 4 (drop 4 p)))
       (word_of_nat i) (drop 8 p) @ be32 (word_of_nat i OR 0x80000000)"

definition srtcp_datagram :: "endian \<Rightarrow> Compy_CryptoSrtpOps \<Rightarrow> srtp_keys \<Rightarrow> nat \<Rightarrow> u8 list \<Rightarrow> u8 list" where
  "srtcp_datagram en ops k i p =
     srtcp_sealed en ops k i p @ take (k_tag k) (hmac_sha1 ops (k_auth k) (srtcp_sealed en ops k i p))"

definition srtcp_packet_ok :: "nat \<Rightarrow> u8 list \<Rightarrow> bool" where
  "srtcp_packet_ok tag p \<longleftrightarrow> 8 \<le> length p \<and> length p + 4 + tag \<le> SRTP_MAX_PACKET_SIZE"

definition srtcp_keys_of :: "'t Compy_SrtcpTransport \<Rightarrow> srtp_keys" where
  "srtcp_keys_of s = \<lparr>k_key = sc_session_key s, k_salt = sc_session_salt s, k_auth = sc_auth_key s,
     k_tag = sc_auth_tag_len s\<rparr>"

definition recv_srtcp_keys :: "Compy_SrtpRecvCtx \<Rightarrow> srtp_keys" where
  "recv_srtcp_keys ctx = \<lparr>k_key = srtcp_key ctx, k_salt = srtcp_salt ctx, k_auth = srtcp_auth_key ctx,
     k_tag = rc_auth_tag_len ctx\<rparr>"

context reliable_transport
begin

lemma srtcp_transmit_ok:
  assumes "srtcp_packet_ok (sc_auth_tag_len s) (concat bufs)" "sc_srtcp_index s = word_of_nat i"
    and d: "d = srtcp_datagram en ops (srtcp_keys_of s) i (concat bufs)" "fits d" "ok (cost d + n) (sc_inner s)"
  shows "\<exists>s'. Compy_SrtcpTransport_transmit en ops T s bufs = Some (0, s') \<and>
     sc_srtcp_index s' = word_of_nat (Suc i) \<and> srtcp_keys_of s' = srtcp_keys_of s \<and>
     log (sc_inner s') = log (sc_inner s) @ [d] \<and> ok n (sc_inner s')"
proof -
  from transmit_ok [of "[d]" n "sc_inner s"] d obtain t' where
    t': "t_transmit T (sc_inner s) [d] = Some (0, t')" "log t' = log (sc_inner s) @ [d]" "ok n t'" by auto
  let ?s = "s\<lparr>sc_srtcp_index := sc_srtcp_index s + 1, sc_inner := t'\<rparr>"
  have "htonl en (load32 en (drop 4 (concat bufs))) = of_be32 (take 4 (drop 4 (concat bufs)))"
    using assms(1) htonl_load32 [of "drop 4 (concat bufs)" en] by (auto simp: srtcp_packet_ok_def)
  then have "Compy_SrtcpTransport_transmit en ops T s bufs = Some (0, ?s)"
    using assms(1,2) t'(1)
    by (simp add: Compy_SrtcpTransport_transmit_def Let_def srtcp_packet_ok_def d(1) srtcp_datagram_def
        srtcp_sealed_def srtcp_keys_of_def)
  then show ?thesis using t' assms(2) by (simp add: srtcp_keys_of_def add.commute)
qed

lemma srtcp_run_ok:
  fixes ops en
  defines "dg \<equiv> \<lambda>k x. srtcp_datagram en ops k (fst x) (concat (snd x))"
  assumes "sc_srtcp_index s = word_of_nat i" "list_all (\<lambda>b. srtcp_packet_ok (sc_auth_tag_len s) (concat b)) packets"
    and "list_all fits (map (dg (srtcp_keys_of s)) (enumerate i packets))"
    and "ok (sum_list (map cost (map (dg (srtcp_keys_of s)) (enumerate i packets))) + n) (sc_inner s)"
  shows "\<exists>s'. transmit_all (compy_transport_srtcp en ops T) s packets = Some (0, s') \<and>
     log (sc_inner s') = log (sc_inner s) @ map (dg (srtcp_keys_of s)) (enumerate i packets) \<and> ok n (sc_inner s')"
  using assms(2-)
proof (induction packets arbitrary: s i)
  case (Cons bufs packets)
  let ?k = "srtcp_keys_of s"
  let ?rest = "sum_list (map cost (map (dg ?k) (enumerate (Suc i) packets))) + n"
  from Cons.prems srtcp_transmit_ok [of s bufs i "dg ?k (i, bufs)" en ops ?rest]
  obtain s1 where s1: "Compy_SrtcpTransport_transmit en ops T s bufs = Some (0, s1)"
    "sc_srtcp_index s1 = word_of_nat (Suc i)" "srtcp_keys_of s1 = ?k"
    "log (sc_inner s1) = log (sc_inner s) @ [dg ?k (i, bufs)]" "ok ?rest (sc_inner s1)"
    by (auto simp: dg_def add.assoc)
  moreover have "sc_auth_tag_len s1 = sc_auth_tag_len s" using s1(3) by (simp add: srtcp_keys_of_def)
  ultimately obtain s' where "transmit_all (compy_transport_srtcp en ops T) s1 packets = Some (0, s')"
    "log (sc_inner s') = log (sc_inner s1) @ map (dg ?k) (enumerate (Suc i) packets)" "ok n (sc_inner s')"
    using Cons.IH [of s1 "Suc i"] Cons.prems by auto
  with s1 show ?case by (auto simp: compy_transport_srtcp_def)
qed simp

end

text \<open>The flag in the top bit of the index word.\<close>

lemma srtcp_flag:
  assumes "i < 2 ^ 31"
  shows "(word_of_nat i OR 0x80000000) AND 0x80000000 \<noteq> (0 :: u32)"
    "(word_of_nat i OR 0x80000000) AND 0x7FFFFFFF = (word_of_nat i :: u32)"
proof -
  have flag: "(0x80000000 :: u32) = push_bit 31 1" by simp
  have "bit ((w OR push_bit 31 1) AND push_bit 31 1 :: u32) 31" for w
    by (simp only: bit_and_iff bit_or_iff bit_push_bit_iff) simp
  then show "(word_of_nat i OR 0x80000000) AND 0x80000000 \<noteq> (0 :: u32)"
    unfolding flag by (metis bit_0_eq bot_apply bot_bool_def)
  have "(w :: u32) AND 0x7FFFFFFF = take_bit 31 w" for w
    by (simp add: take_bit_eq_mask mask_eq_exp_minus_1)
  moreover have "take_bit 31 (0x80000000 :: u32) = 0" unfolding flag by (simp add: take_bit_push_bit)
  moreover have "take_bit 31 (word_of_nat i :: u32) = word_of_nat i"
    using assms unat_word_of_nat_u32 [of i]
    by (simp add: word_unat_eq_iff unsigned_take_bit_eq take_bit_nat_eq_self)
  ultimately show "(word_of_nat i OR 0x80000000) AND 0x7FFFFFFF = (word_of_nat i :: u32)" by simp
qed

lemma srtcp_unprotect_datagram:
  assumes ops: "srtp_ops_ok ops" and win: "srtcp_window ctx (word_of_nat i) = Some ctx'" and i: "i < 2 ^ 31"
    and p: "srtcp_packet_ok (rc_auth_tag_len ctx) p" and tag: "rc_auth_tag_len ctx \<le> 20"
  shows "compy_srtcp_recv_unprotect en ops ctx (srtcp_datagram en ops (recv_srtcp_keys ctx) i p) = (0, ctx', p)"
proof -
  let ?k = "recv_srtcp_keys ctx" and ?tag = "rc_auth_tag_len ctx"
  let ?sealed = "srtcp_sealed en ops ?k i p" and ?d = "srtcp_datagram en ops ?k i p"
  let ?enc = "srtp_encrypt_payload en ops (k_key ?k) (k_salt ?k) (of_be32 (take 4 (drop 4 p)))
      (word_of_nat i) (drop 8 p)"
  have len: "8 \<le> length p" using p by (simp add: srtcp_packet_ok_def)
  have sealed: "?sealed = (take 8 p @ ?enc) @ be32 (word_of_nat i OR 0x80000000)"
    "length ?sealed = length p + 4" "length ?enc = length p - 8"
    using ops len by (simp_all add: srtcp_sealed_def)
  let ?mac = "take ?tag (hmac_sha1 ops (srtcp_auth_key ctx) ?sealed)"
  have d: "?d = ?sealed @ ?mac" by (simp add: srtcp_datagram_def recv_srtcp_keys_def)
  have ld: "length ?d = length p + 4 + ?tag" using ops tag by (simp add: d sealed(2))
  have index: "htonl en (load32 en (drop (length p) ?d)) = word_of_nat i OR 0x80000000"
    using sealed(1,3) len by (simp add: d)
  have ssrc: "htonl en (load32 en (drop 4 ?d)) = of_be32 (take 4 (drop 4 p))"
    using ld len htonl_load32 [of "drop 4 ?d" en] by (simp add: d sealed(1) drop_take)
  have body: "drop 8 (take (length p) ?d) = ?enc" "take 8 ?d = take 8 p"
    using sealed(3) len by (simp_all add: d sealed(1))
  have keys: "srtcp_key ctx' = k_key ?k" "srtcp_salt ctx' = k_salt ?k"
    using win by (auto simp: srtcp_window_def Let_def recv_srtcp_keys_def split: if_splits)
  have "tag_diff (hmac_sha1 ops (srtcp_auth_key ctx) ?sealed) ?d (length p + 4) ?tag = 0"
    using ops tag ld by (subst tag_diff_zero) (simp_all add: d sealed(2))
  moreover have "take (length p + 4) ?d = ?sealed" by (simp add: d sealed(2))
  ultimately show ?thesis
    using ops len srtcp_flag [OF i] win
    by (simp add: compy_srtcp_recv_unprotect_def Let_def ld index ssrc body keys)
qed

fun srtcp_receive_all ::
  "endian \<Rightarrow> Compy_CryptoSrtpOps \<Rightarrow> Compy_SrtpRecvCtx \<Rightarrow> u8 list list \<Rightarrow> u8 list option list" where
  "srtcp_receive_all en ops ctx [] = []"
| "srtcp_receive_all en ops ctx (d # ds) =
     (case compy_srtcp_recv_unprotect en ops ctx d of
        (ret, ctx', p) \<Rightarrow> (if ret = 0 then Some p else None) # srtcp_receive_all en ops ctx' ds)"

fun srtcp_deliverable :: "nat \<Rightarrow> nat list \<Rightarrow> nat list \<Rightarrow> bool" where
  "srtcp_deliverable h seen [] \<longleftrightarrow> True"
| "srtcp_deliverable h seen (i # is) \<longleftrightarrow>
     i \<notin> set seen \<and> h < i + 64 \<and> srtcp_deliverable (max h i) (i # seen) is"

lemma srtcp_window_next:
  assumes "srtcp_win ctx (set seen)" "i < 2 ^ 31" "i \<notin> set seen" "unat (srtcp_highest_index ctx) < i + 64"
  shows "\<exists>ctx'. srtcp_window ctx (word_of_nat i) = Some ctx' \<and> srtcp_win ctx' (set (i # seen)) \<and>
     unat (srtcp_highest_index ctx') = max (unat (srtcp_highest_index ctx)) i \<and>
     recv_srtcp_keys ctx' = recv_srtcp_keys ctx"
proof -
  have u: "unat (word_of_nat i :: u32) = i" using assms(2) by (intro unat_word_of_nat_u32) simp
  obtain ctx' where ctx': "srtcp_window ctx (word_of_nat i) = Some ctx'"
    using srtcp_window_win(2) [OF assms(1), of "word_of_nat i"] assms(3,4) by (auto simp: u)
  moreover have "srtcp_win ctx' (set (i # seen))" using srtcp_window_win(1) [OF assms(1) ctx'] by (simp add: u)
  moreover have "unat (srtcp_highest_index ctx') = max (unat (srtcp_highest_index ctx)) i"
    "recv_srtcp_keys ctx' = recv_srtcp_keys ctx"
    using ctx' by (auto simp: srtcp_window_def Let_def recv_srtcp_keys_def word_less_nat_alt u split: if_splits)
  ultimately show ?thesis by blast
qed

lemma srtcp_receive_delivered:
  assumes ops: "srtp_ops_ok ops" and tag: "k_tag k \<le> 20"
  shows "recv_srtcp_keys ctx = k \<Longrightarrow> srtcp_win ctx (set seen) \<Longrightarrow> unat (srtcp_highest_index ctx) = h \<Longrightarrow>
     srtcp_deliverable h seen (map fst xs) \<Longrightarrow>
     \<forall>(i, p) \<in> set xs. i < 2 ^ 31 \<and> srtcp_packet_ok (k_tag k) p \<Longrightarrow>
     srtcp_receive_all en ops ctx (map (\<lambda>(i, p). srtcp_datagram en ops k i p) xs) = map (Some \<circ> snd) xs"
proof (induction xs arbitrary: h seen ctx)
  case (Cons x xs)
  obtain i p where x: "x = (i, p)" by (cases x)
  have tag': "rc_auth_tag_len ctx = k_tag k" using Cons.prems(1) by (auto simp: recv_srtcp_keys_def)
  obtain ctx' where ctx': "srtcp_window ctx (word_of_nat i) = Some ctx'" "srtcp_win ctx' (set (i # seen))"
    "unat (srtcp_highest_index ctx') = max h i" "recv_srtcp_keys ctx' = k"
    using srtcp_window_next [OF Cons.prems(2), of i] Cons.prems by (auto simp: x)
  have "compy_srtcp_recv_unprotect en ops ctx (srtcp_datagram en ops k i p) = (0, ctx', p)"
    using srtcp_unprotect_datagram [OF ops ctx'(1), of p en] Cons.prems(1,5) tag by (auto simp: x tag')
  then show ?case
    using Cons.IH [OF ctx'(4,2,3)] Cons.prems(4,5) by (simp add: x)
qed simp

text \<open>
  An SRTCP session end to end, over UDP: up to \<open>2 ^ 31\<close> compound packets, sent by a transport and
  opened by a receiver made from the same suite and key material. Each datagram that arrives less
  than 64 behind the newest one gives the packet that was sent, whatever was lost or reordered.
\<close>

theorem srtcp_session_over_udp:
  assumes "srtp_ops_ok ops" "udp_ok 0 udp" "udp_sent udp = []"
    and "list_all (\<lambda>b. srtcp_packet_ok (suite_tag_len suite) (concat b)) packets" "length packets \<le> 2 ^ 31"
    and "\<forall>n \<in> set arrival. n < length packets" "srtcp_deliverable 0 [] arrival"
  shows "\<exists>s. transmit_all (compy_transport_srtcp en ops compy_transport_udp)
        (compy_transport_srtcp_new ops udp suite key) packets = Some (0, s) \<and>
     length (udp_sent (sc_inner s)) = length packets \<and>
     srtcp_receive_all en ops (compy_srtp_recv_new ops suite key) (map (\<lambda>n. udp_sent (sc_inner s) ! n) arrival) =
       map (\<lambda>n. Some (concat (packets ! n))) arrival"
proof -
  let ?s0 = "compy_transport_srtcp_new ops udp suite key" and ?r0 = "compy_srtp_recv_new ops suite key"
  let ?k = "srtcp_keys_of ?s0" and ?dg = "\<lambda>x. srtcp_datagram en ops (srtcp_keys_of ?s0) (fst x) (concat (snd x))"
  have new: "sc_auth_tag_len ?s0 = suite_tag_len suite" "sc_inner ?s0 = udp" "sc_srtcp_index ?s0 = word_of_nat 0"
    "recv_srtcp_keys ?r0 = ?k" "k_tag ?k = suite_tag_len suite" "unat (srtcp_highest_index ?r0) = 0"
    "srtcp_win ?r0 (set [])"
    by (simp_all add: compy_transport_srtcp_new_def srtcp_derive_keys_def srtcp_keys_of_def recv_srtcp_keys_def
        compy_srtp_recv_new_def Let_def srtcp_win_def win_rel_def)
  have "list_all (\<lambda>_. True) ps" for ps :: "u8 list list" by (simp add: list_all_iff)
  then obtain s where s: "transmit_all (compy_transport_srtcp en ops compy_transport_udp) ?s0 packets = Some (0, s)"
    "udp_sent (sc_inner s) = map ?dg (enumerate 0 packets)"
    using udp.srtcp_run_ok [OF new(3), where n = 0 and en = en and ops = ops and packets = packets] assms(2-4) new(1,2)
    by (auto simp: udp_ok_def)
  let ?xs = "map (\<lambda>n. (n, concat (packets ! n))) arrival"
  have "srtcp_receive_all en ops ?r0 (map (\<lambda>(i, p). srtcp_datagram en ops ?k i p) ?xs) = map (Some \<circ> snd) ?xs"
  proof (rule srtcp_receive_delivered [OF assms(1) _ new(4,7,6)])
    show "k_tag ?k \<le> 20" using new(5) suite_tag_len_bounds by simp
    show "srtcp_deliverable 0 [] (map fst ?xs)" using assms(7) by (simp add: comp_def)
    show "\<forall>(i, p) \<in> set ?xs. i < 2 ^ 31 \<and> srtcp_packet_ok (k_tag ?k) p"
      using assms(4-6) by (auto simp: new(5) list_all_length)
  qed
  moreover have "map (\<lambda>n. udp_sent (sc_inner s) ! n) arrival = map (\<lambda>(i, p). srtcp_datagram en ops ?k i p) ?xs"
    using assms(6) by (simp add: s(2) nth_enumerate_eq)
  moreover have "map (Some \<circ> snd) ?xs = map (\<lambda>n. Some (concat (packets ! n))) arrival" by simp
  moreover have "length (udp_sent (sc_inner s)) = length packets" by (simp add: s(2))
  ultimately show ?thesis using s(1) by metis
qed

theorem srtcp_session_over_udp_witness:
  "\<exists>s. transmit_all (compy_transport_srtcp LittleEndian toy_ops compy_transport_udp)
        (compy_transport_srtcp_new toy_ops sample_udp Compy_SrtpSuite_AES_CM_128_HMAC_SHA1_32 sample_key)
        [[[0x80, 200, 0, 1, 9, 9, 9, 9], [1]], [[0x80, 200, 0, 1, 9, 9, 9, 9], [2]]] = Some (0, s) \<and>
     srtcp_receive_all LittleEndian toy_ops
       (compy_srtp_recv_new toy_ops Compy_SrtpSuite_AES_CM_128_HMAC_SHA1_32 sample_key)
       (map (\<lambda>n. udp_sent (sc_inner s) ! n) [1, 0]) =
       [Some [0x80, 200, 0, 1, 9, 9, 9, 9, 2], Some [0x80, 200, 0, 1, 9, 9, 9, 9, 1]]"
proof -
  let ?ps = "[[[0x80, 200, 0, 1, 9, 9, 9, 9], [1]], [[0x80, 200, 0, 1, 9, 9, 9, 9], [2]]] :: u8 list list list"
  have "list_all (\<lambda>b. srtcp_packet_ok (suite_tag_len Compy_SrtpSuite_AES_CM_128_HMAC_SHA1_32) (concat b)) ?ps"
    "length ?ps \<le> 2 ^ 31" "\<forall>n \<in> set [1, 0]. n < length ?ps" "srtcp_deliverable 0 [] [1, 0]"
    by (simp_all add: srtcp_packet_ok_def SRTP_AUTH_TAG_32_def SRTP_MAX_PACKET_SIZE_def)
  from srtcp_session_over_udp [OF toy_ops_ok sample_udp_ok this, of LittleEndian sample_key] show ?thesis
    by auto
qed

end
