(* ===== verification/Srtp_Keys.thy ===== *)
theory Srtp_Keys
  imports Base64 CLib Srtp
begin

text \<open>
  SRTP key management of \<open>src/transport/srtp.c\<close>: random key material, and the value of the SDP
  attribute \<open>a=crypto\<close> (RFC 4568) with the key and the salt in Base64, written and parsed. A function
  with output parameters gives them back beside its return value.
\<close>

section \<open>Formatted input and output\<close>

text \<open>\<open>printf\<close> with \<open>%d\<close>; the conversion of a size to \<open>int\<close>.\<close>

definition show_int :: "int \<Rightarrow> string" where
  "show_int n = (if n < 0 then CHR ''-'' # show_nat (nat (- n)) else show_nat (nat n))"

definition size_to_int :: "nat \<Rightarrow> int" where
  "size_to_int n = (let m = n mod 2 ^ 32 in if m < 2 ^ 31 then int m else int m - 2 ^ 32)"

text \<open>
  Directives of \<open>sscanf\<close>, each giving the rest of the input: white space, a literal text, and
  \<open>%<n>s\<close>, at least one and at most \<open>n\<close> characters that are not white space.
\<close>

definition scan_lit :: "string \<Rightarrow> string \<Rightarrow> string option" where
  "scan_lit lit s = (if starts_with s lit then Some (drop (length lit) s) else None)"

definition scan_word :: "nat \<Rightarrow> string \<Rightarrow> (string \<times> string) option" where
  "scan_word n s =
     (let t = dropWhile isspace s;
          w = take n (takeWhile (\<lambda>c. \<not> isspace c) t)
      in if w = [] then None else Some (w, drop (length w) t))"

definition sscanf_crypto :: "string \<Rightarrow> (string \<times> string) option" where
  "sscanf_crypto s =
     do {
       (_, _, s) \<leftarrow> scan_integer (c_str s);
       (suite_str, s) \<leftarrow> scan_word 63 (dropWhile isspace s);
       s \<leftarrow> scan_lit ''inline:'' (dropWhile isspace s);
       (b64_key, _) \<leftarrow> scan_word 63 s;
       Some (suite_str, b64_key)
     }"

section \<open>Definitions\<close>

text \<open>The two answers of \<open>random_bytes\<close>: the return value and what is then in the buffer.\<close>

definition compy_srtp_generate_key ::
  "int \<times> u8 list \<Rightarrow> int \<times> u8 list \<Rightarrow> Compy_SrtpKeyMaterial \<Rightarrow> int \<times> Compy_SrtpKeyMaterial" where
  "compy_srtp_generate_key rand1 rand2 key =
     (let key = key\<lparr>master_key := snd rand1\<rparr>
      in if fst rand1 \<noteq> 0 then (-1, key)
         else let key = key\<lparr>master_salt := snd rand2\<rparr>
              in if fst rand2 \<noteq> 0 then (-1, key) else (0, key))"

fun srtp_suite_str :: "Compy_SrtpSuite \<Rightarrow> string" where
  "srtp_suite_str Compy_SrtpSuite_AES_CM_128_HMAC_SHA1_80 = ''AES_CM_128_HMAC_SHA1_80''"
| "srtp_suite_str Compy_SrtpSuite_AES_CM_128_HMAC_SHA1_32 = ''AES_CM_128_HMAC_SHA1_32''"

definition compy_srtp_format_crypto_attr ::
  "nat \<Rightarrow> int \<Rightarrow> Compy_SrtpSuite \<Rightarrow> Compy_SrtpKeyMaterial \<Rightarrow> int \<times> string" where
  "compy_srtp_format_crypto_attr buf_len tag suite key =
     (let key_salt = take 16 (master_key key) @ take 14 (master_salt key);
          (b64_len, b64) = compy_base64_encode key_salt 44
      in if b64_len < 0 then (-1, [])
         else
           let suite_str = srtp_suite_str suite;
               out = show_int tag @ '' '' @ suite_str @ '' inline:'' @ c_str b64;
               ret = int (length out);
               buf = (if buf_len = 0 then [] else take (buf_len - 1) out @ [CHR 0x00])
           in (if ret \<ge> size_to_int buf_len then -1 else ret, buf))"

definition compy_srtp_parse_crypto_attr ::
  "string \<Rightarrow> Compy_SrtpSuite \<Rightarrow> Compy_SrtpKeyMaterial \<Rightarrow> int \<times> Compy_SrtpSuite \<times> Compy_SrtpKeyMaterial" where
  "compy_srtp_parse_crypto_attr attr_value suite key =
     (case sscanf_crypto attr_value of
        None \<Rightarrow> (-1, suite, key)
      | Some (suite_str, b64_key) \<Rightarrow>
          (let suite_opt =
             (if suite_str = ''AES_CM_128_HMAC_SHA1_80'' then Some Compy_SrtpSuite_AES_CM_128_HMAC_SHA1_80
              else if suite_str = ''AES_CM_128_HMAC_SHA1_32'' then Some Compy_SrtpSuite_AES_CM_128_HMAC_SHA1_32
              else None)
           in case suite_opt of
                None \<Rightarrow> (-1, suite, key)
              | Some suite \<Rightarrow>
                  (let (decoded, key_salt) = compy_base64_decode b64_key 30
                   in if decoded \<noteq> 30 then (-1, suite, key)
                      else (0, suite, key\<lparr>master_key := take 16 key_salt,
                                          master_salt := take 14 (drop 16 key_salt)\<rparr>))))"

section \<open>The attribute is read back\<close>

lemma b64_char_class:
  assumes "b64_valid_char (u8_of_char c)"
  shows "\<not> isspace c" "c \<noteq> CHR 0x00"
proof -
  have u: "unat (u8_of_char d) = of_char d" for d
    by (simp add: u8_of_char_def unat_of_nat take_bit_eq_mod)
  with assms have "32 < (of_char c :: nat)"
    by (auto simp: b64_valid_char_def word_le_nat_alt u)
  then show "\<not> isspace c" "c \<noteq> CHR 0x00" by (auto simp: isspace_def)
qed

lemma scan_integer_show_int:
  assumes "rest \<noteq> []" "\<not> isdigit (hd rest)"
  shows "\<exists>neg v. scan_integer (show_int n @ rest) = Some (neg, v, rest)"
proof (cases "n < 0")
  case False
  then show ?thesis
    using assms scan_integer_show_nat [of "nat n" rest] by (auto simp: show_int_def intro: exI [of _ False])
next
  case True
  let ?m = "nat (- n)"
  obtain c cs where s: "show_nat ?m = c # cs" by (cases "show_nat ?m") auto
  then have c: "isdigit c" using show_nat_digits [of c ?m] by simp
  have "scan_digits 0 (c # cs @ rest) = scan_digits ?m rest"
    using scan_digits_show_nat [of ?m rest] by (simp add: s del: scan_digits.simps)
  then show ?thesis
    using True assms
    by (auto simp: show_int_def scan_integer_def scan_sign_def s c isspace_def simp del: scan_digits.simps
        intro: exI [of _ True])
qed

lemma scan_word_append:
  assumes "w \<noteq> []" "length w \<le> n" "\<forall>c \<in> set w. \<not> isspace c" "rest = [] \<or> isspace (hd rest)"
  shows "scan_word n (w @ rest) = Some (w, rest)"
proof -
  have "dropWhile isspace (w @ rest) = w @ rest" using assms(1,3) by (cases w) auto
  moreover have "takeWhile (\<lambda>c. \<not> isspace c) (w @ rest) = w"
    using assms(3,4) by (cases rest) (auto simp: takeWhile_append)
  ultimately show ?thesis using assms(1,2) by (cases w) (auto simp: scan_word_def)
qed

definition crypto_attr_text :: "int \<Rightarrow> Compy_SrtpSuite \<Rightarrow> Compy_SrtpKeyMaterial \<Rightarrow> string" where
  "crypto_attr_text tag suite key =
     show_int tag @ '' '' @ srtp_suite_str suite @ '' inline:'' @ b64_text (master_key key @ master_salt key)"

lemma crypto_attr_b64:
  assumes "length (master_key key) = 16" "length (master_salt key) = 14"
  shows "length (b64_text (master_key key @ master_salt key)) = 40"
    "c \<in> set (b64_text (master_key key @ master_salt key)) \<Longrightarrow> \<not> isspace c \<and> c \<noteq> CHR 0x00"
  using assms length_b64_text [of "master_key key @ master_salt key"] b64_char_class [OF b64_text_valid] by auto

lemma crypto_attr_format:
  assumes "length (master_key key) = 16" "length (master_salt key) = 14"
  shows "length (crypto_attr_text tag suite key) = length (show_int tag) + 72"
    "length (show_int tag) + 73 \<le> buf_len \<Longrightarrow> buf_len < 2 ^ 31 \<Longrightarrow>
       compy_srtp_format_crypto_attr buf_len tag suite key =
         (int (length (crypto_attr_text tag suite key)), crypto_attr_text tag suite key @ [CHR 0x00])"
proof -
  let ?ks = "master_key key @ master_salt key"
  let ?b64 = "b64_text ?ks"
  note b64 = crypto_attr_b64 [OF assms]
  have "compy_base64_encode ?ks 44 = (40, ?b64 @ [CHR 0x00])"
    using assms b64(1) by (simp add: compy_base64_encode_eq)
  moreover have "c_str (?b64 @ [CHR 0x00]) = ?b64"
    using b64(2) by (simp add: c_str_def takeWhile_append)
  moreover show len: "length (crypto_attr_text tag suite key) = length (show_int tag) + 72"
    using b64(1) by (cases suite) (simp_all add: crypto_attr_text_def)
  ultimately show "compy_srtp_format_crypto_attr buf_len tag suite key =
      (int (length (crypto_attr_text tag suite key)), crypto_attr_text tag suite key @ [CHR 0x00])"
    if "length (show_int tag) + 73 \<le> buf_len" "buf_len < 2 ^ 31"
    using assms that by (simp add: compy_srtp_format_crypto_attr_def crypto_attr_text_def Let_def size_to_int_def)
qed

lemma show_int_chars: "CHR 0x00 \<notin> set (show_int n)" "CHR 0x0D \<notin> set (show_int n)"
  using show_nat_digits [of "CHR 0x00"] show_nat_digits [of "CHR 0x0D"] by (auto simp: show_int_def isdigit_def)

lemma crypto_attr_chars:
  assumes "length (master_key key) = 16" "length (master_salt key) = 14"
  shows "CHR 0x00 \<notin> set (crypto_attr_text tag suite key)" "CHR 0x0D \<notin> set (crypto_attr_text tag suite key)"
proof -
  have "CHR 0x0D \<notin> set (b64_text (master_key key @ master_salt key))"
    using crypto_attr_b64(2) [OF assms, of "CHR 0x0D"] by (auto simp: isspace_def)
  then show "CHR 0x00 \<notin> set (crypto_attr_text tag suite key)" "CHR 0x0D \<notin> set (crypto_attr_text tag suite key)"
    using show_int_chars [of tag] crypto_attr_b64(2) [OF assms, of "CHR 0x00"] by (cases suite; auto simp: crypto_attr_text_def)+
qed

lemma crypto_attr_parse:
  assumes "length (master_key key) = 16" "length (master_salt key) = 14"
  shows "compy_srtp_parse_crypto_attr (crypto_attr_text tag suite key) suite0 \<lparr>master_key = mk, master_salt = ms\<rparr> =
     (0, suite, \<lparr>master_key = master_key key, master_salt = master_salt key\<rparr>)"
proof -
  let ?ks = "master_key key @ master_salt key"
  let ?b64 = "b64_text ?ks"
  note b64 = crypto_attr_b64 [OF assms]
  obtain neg v where num: "scan_integer (crypto_attr_text tag suite key) =
      Some (neg, v, '' '' @ srtp_suite_str suite @ '' inline:'' @ ?b64)"
    using scan_integer_show_int [of "'' '' @ srtp_suite_str suite @ '' inline:'' @ ?b64" tag]
    by (auto simp: isdigit_def crypto_attr_text_def)
  have word1: "scan_word 63 (srtp_suite_str suite @ '' inline:'' @ ?b64) =
      Some (srtp_suite_str suite, '' inline:'' @ ?b64)"
    by (rule scan_word_append) (cases suite; simp add: isspace_def)+
  have word2: "scan_word 63 ?b64 = Some (?b64, [])"
    using scan_word_append [of ?b64 63 "[]"] b64 by (cases ?b64) auto
  have skip: "dropWhile isspace ('' '' @ srtp_suite_str suite @ r) = srtp_suite_str suite @ r"
    "dropWhile isspace ('' inline:'' @ r) = ''inline:'' @ r" for r
    by (cases suite; simp add: isspace_def)+
  have "sscanf_crypto (crypto_attr_text tag suite key) = Some (srtp_suite_str suite, ?b64)"
    unfolding sscanf_crypto_def c_str_id [OF crypto_attr_chars(1) [OF assms]] num
    by (simp add: skip [simplified] word1 [simplified] word2 scan_lit_def starts_with_def)
  then show ?thesis
    using assms compy_base64_decode_text [of ?ks 30]
    by (cases suite) (simp_all add: compy_srtp_parse_crypto_attr_def)
qed

text \<open>
  The crypto attribute round-trips: what is formatted for a 16-octet key and a 14-octet salt into a
  buffer that is large enough (and of a size that is an \<open>int\<close>) is a C string of the returned length,
  and parsing it gives back the suite, the key and the salt, for every tag.
\<close>

theorem crypto_attr_roundtrip:
  assumes "length (master_key key) = 16" "length (master_salt key) = 14"
    and "length (show_int tag) + 73 \<le> buf_len" "buf_len < 2 ^ 31"
  shows "\<exists>attr. compy_srtp_format_crypto_attr buf_len tag suite key = (int (length attr), attr @ [CHR 0x00]) \<and>
     CHR 0x00 \<notin> set attr \<and>
     compy_srtp_parse_crypto_attr attr suite0 \<lparr>master_key = mk, master_salt = ms\<rparr> =
       (0, suite, \<lparr>master_key = master_key key, master_salt = master_salt key\<rparr>)"
  using crypto_attr_format [OF assms(1,2)] crypto_attr_chars [OF assms(1,2)] crypto_attr_parse [OF assms(1,2)] assms(3,4)
  by blast

theorem crypto_attr_roundtrip_witness:
  "\<exists>attr. compy_srtp_format_crypto_attr 128 1 Compy_SrtpSuite_AES_CM_128_HMAC_SHA1_32
       \<lparr>master_key = replicate 16 1, master_salt = replicate 14 2\<rparr> = (int (length attr), attr @ [CHR 0x00]) \<and>
     compy_srtp_parse_crypto_attr attr Compy_SrtpSuite_AES_CM_128_HMAC_SHA1_80 \<lparr>master_key = [], master_salt = []\<rparr> =
       (0, Compy_SrtpSuite_AES_CM_128_HMAC_SHA1_32, \<lparr>master_key = replicate 16 1, master_salt = replicate 14 2\<rparr>)"
proof -
  have "length (show_int 1) + 73 \<le> 128" by (simp add: show_int_def show_nat.simps)
  then show ?thesis
    using crypto_attr_roundtrip [of "\<lparr>master_key = replicate 16 1, master_salt = replicate 14 2\<rparr>" 1 128
        Compy_SrtpSuite_AES_CM_128_HMAC_SHA1_32 Compy_SrtpSuite_AES_CM_128_HMAC_SHA1_80 "[]" "[]"]
    by auto
qed

lemma generate_key_ok:
  "fst (compy_srtp_generate_key (r1, b1) (r2, b2) key) = 0 \<longleftrightarrow> r1 = 0 \<and> r2 = 0"
  by (simp add: compy_srtp_generate_key_def Let_def)

end
