(* ===== verification/Jpeg_Transport.thy ===== *)
theory Jpeg_Transport
  imports Rtp_Transport
begin

text \<open>
  The packetiser for JPEG frames (RFC 2435), \<open>src/jpeg_transport.c\<close>: the parser that collects the
  dimensions, the quantisation tables and the place of the scan data, and the loop that sends the
  scan in fragments. A pointer into the frame is the rest of the frame from there; a parser gives
  \<open>None\<close> where the code returns \<open>-1\<close>. In the sending loop \<open>None\<close> is a fault or a loop that does not end.
\<close>

section \<open>Definitions\<close>

definition JPEG_RTP_HDR_SIZE :: nat where "JPEG_RTP_HDR_SIZE = 8"
definition QT_HDR_SIZE :: nat where "QT_HDR_SIZE = 4"
definition RST_HDR_SIZE :: nat where "RST_HDR_SIZE = 4"
definition MAX_QT_DATA :: nat where "MAX_QT_DATA = 512"
definition JPEG_Q_CUSTOM :: u8 where "JPEG_Q_CUSTOM = 255"
definition JPEG_SOI :: u8 where "JPEG_SOI = 0xD8"
definition JPEG_EOI :: u8 where "JPEG_EOI = 0xD9"
definition JPEG_SOF0 :: u8 where "JPEG_SOF0 = 0xC0"
definition JPEG_DQT :: u8 where "JPEG_DQT = 0xDB"
definition JPEG_DRI :: u8 where "JPEG_DRI = 0xDD"
definition JPEG_SOS :: u8 where "JPEG_SOS = 0xDA"
definition COMPY_JPEG_DEFAULT_MAX_FRAGMENT_SIZE :: nat where "COMPY_JPEG_DEFAULT_MAX_FRAGMENT_SIZE = 1200"

lemmas jpeg_markers = JPEG_SOI_def JPEG_EOI_def JPEG_SOF0_def JPEG_DQT_def JPEG_DRI_def JPEG_SOS_def

text \<open>\<open>jf_qt_data\<close> is the part of \<open>qt_data\<close> in use; its length is \<open>qt_len\<close>.\<close>

record JpegFrameInfo =
  jf_type :: u8
  jf_width_8 :: u8
  jf_height_8 :: u8
  jf_restart_interval :: u16
  jf_qt_data :: "u8 list"
  jf_qt_precision :: u8
  jf_scan_offset :: nat
  jf_scan_len :: nat

abbreviation jf_qt_len :: "JpegFrameInfo \<Rightarrow> nat" where
  "jf_qt_len info \<equiv> length (jf_qt_data info)"

definition jpeg_info_0 :: JpegFrameInfo where
  "jpeg_info_0 = \<lparr>jf_type = 0, jf_width_8 = 0, jf_height_8 = 0, jf_restart_interval = 0, jf_qt_data = [],
     jf_qt_precision = 0, jf_scan_offset = 0, jf_scan_len = 0\<rparr>"

record Compy_JpegTransportConfig =
  max_fragment_size :: nat

definition Compy_JpegTransportConfig_default :: Compy_JpegTransportConfig where
  "Compy_JpegTransportConfig_default = \<lparr>max_fragment_size = COMPY_JPEG_DEFAULT_MAX_FRAGMENT_SIZE\<rparr>"

record 't Compy_JpegTransport =
  jt_transport :: "'t Compy_RtpTransport"
  jt_config :: Compy_JpegTransportConfig

definition Compy_JpegTransport_new_with_config ::
  "'t Compy_RtpTransport \<Rightarrow> Compy_JpegTransportConfig \<Rightarrow> 't Compy_JpegTransport" where
  "Compy_JpegTransport_new_with_config t config = \<lparr>jt_transport = t, jt_config = config\<rparr>"

definition Compy_JpegTransport_new :: "'t Compy_RtpTransport \<Rightarrow> 't Compy_JpegTransport" where
  "Compy_JpegTransport_new t = Compy_JpegTransport_new_with_config t Compy_JpegTransportConfig_default"

definition Compy_JpegTransport_is_full :: "'t Compy_Transport \<Rightarrow> 't Compy_JpegTransport \<Rightarrow> bool" where
  "Compy_JpegTransport_is_full T self = Compy_RtpTransport_is_full T (jt_transport self)"

definition write_jpeg_rtp_header :: "u32 \<Rightarrow> JpegFrameInfo \<Rightarrow> u8 list" where
  "write_jpeg_rtp_header offset info =
     [0, ucast (drop_bit 16 offset AND 0xFF), ucast (drop_bit 8 offset AND 0xFF), ucast (offset AND 0xFF),
      jf_type info, JPEG_Q_CUSTOM, jf_width_8 info, jf_height_8 info]"

definition write_qt_header :: "u8 \<Rightarrow> nat \<Rightarrow> u8 list" where
  "write_qt_header precision qt_len =
     [0, precision, word_of_nat (qt_len div 256 mod 256), word_of_nat (qt_len mod 256)]"

definition write_restart_header :: "u16 \<Rightarrow> u8 list" where
  "write_restart_header interval = [ucast (drop_bit 8 interval), ucast (interval AND 0xFF), 0xFF, 0xFF]"

function parse_dqt :: "u8 list \<Rightarrow> JpegFrameInfo \<Rightarrow> JpegFrameInfo option" where
  "parse_dqt data info =
     (case data of
        [] \<Rightarrow> Some info
      | b # p \<Rightarrow>
          let pq = drop_bit 4 b AND 0x0F;
              tq = b AND 0x0F;
              table_size = (if pq = 0 then 64 else 128)
          in if length p < table_size then None
             else if jf_qt_len info + table_size > MAX_QT_DATA then None
             else
               let info = info\<lparr>jf_qt_data := jf_qt_data info @ take table_size p\<rparr>;
                   info = (if pq \<noteq> 0 \<and> tq < 8
                           then info\<lparr>jf_qt_precision := jf_qt_precision info OR push_bit (unat tq) 1\<rparr> else info)
               in parse_dqt (drop table_size p) info)"
  by pat_completeness auto
termination by (relation "measure (length \<circ> fst)") auto

declare parse_dqt.simps [simp del]

definition parse_sof0 :: "u8 list \<Rightarrow> JpegFrameInfo \<Rightarrow> JpegFrameInfo option" where
  "parse_sof0 data info =
     (if length data < 6 then None
      else
        let height = push_bit 8 (ucast (data ! 1)) OR ucast (data ! 2) :: u16;
            width = push_bit 8 (ucast (data ! 3)) OR ucast (data ! 4) :: u16;
            nf = data ! 5
        in if nf < 1 \<or> nf > 4 \<or> length data < 6 + unat nf * 3 then None
           else
             let info = info\<lparr>jf_width_8 := (if width > 2040 then 0 else ucast (width div 8)),
                             jf_height_8 := (if height > 2040 then 0 else ucast (height div 8))\<rparr>
             in Some (if nf \<ge> 3 then
                        let y_h = drop_bit 4 (data ! 7) AND 0x0F;
                            y_v = data ! 7 AND 0x0F
                        in if y_h = 2 \<and> y_v = 2 then info\<lparr>jf_type := 1\<rparr> else info\<lparr>jf_type := 0\<rparr>
                      else info\<lparr>jf_type := 0\<rparr>))"

lemma marker_shorter:
  assumes "dropWhile f (tl p) = m # q" "2 \<le> length p"
  shows "length q < length p"
proof -
  have "length (m # q) \<le> length (tl p)" unfolding assms(1) [symmetric] by (rule length_dropWhile_le)
  then show ?thesis using assms(2) by simp
qed

text \<open>
  The loop of \<open>parse_jpeg_frame\<close> over the markers, \<open>p\<close> being the rest of the frame. The result is
  whether the frame header and whether the scan was found, and what was collected.
\<close>

function parse_jpeg_loop ::
  "u8 list \<Rightarrow> u8 list \<Rightarrow> bool \<Rightarrow> JpegFrameInfo \<Rightarrow> (bool \<times> bool \<times> JpegFrameInfo) option" where
  "parse_jpeg_loop frame p found_sof info =
     (if length p \<ge> 2 then
        if hd p \<noteq> 0xFF then None
        else
          case dropWhile (\<lambda>b. b = 0xFF) (tl p) of
            [] \<Rightarrow> None
          | marker # p \<Rightarrow>
              if marker = JPEG_EOI \<or> marker = 0x00 \<or> marker = 0x01
              then parse_jpeg_loop frame p found_sof info
              else if marker \<ge> 0xD0 \<and> marker \<le> 0xD7 then parse_jpeg_loop frame p found_sof info
              else if length p < 2 then None
              else
                let seg_len = push_bit 8 (ucast (p ! 0)) OR ucast (p ! 1) :: u16
                in if seg_len < 2 \<or> unat seg_len > length p then None
                   else
                     let seg_data = take (unat seg_len - 2) (drop 2 p);
                         next = drop (unat seg_len) p
                     in if marker = JPEG_SOS then
                          let scan_start = length frame - length p + unat seg_len
                          in if scan_start \<ge> length frame - 1 then None
                             else if frame ! (length frame - 2) \<noteq> 0xFF \<or> frame ! (length frame - 1) \<noteq> JPEG_EOI
                             then None
                             else Some (found_sof, True, info\<lparr>jf_scan_offset := scan_start,
                                                              jf_scan_len := length frame - 2 - scan_start\<rparr>)
                        else if marker = JPEG_DQT then
                          case parse_dqt seg_data info of
                            None \<Rightarrow> None
                          | Some info \<Rightarrow> parse_jpeg_loop frame next found_sof info
                        else if marker = JPEG_SOF0 then
                          case parse_sof0 seg_data info of
                            None \<Rightarrow> None
                          | Some info \<Rightarrow> parse_jpeg_loop frame next True info
                        else if marker = JPEG_DRI then
                          if length seg_data < 2 then None
                          else parse_jpeg_loop frame next found_sof
                                 (info\<lparr>jf_restart_interval :=
                                    push_bit 8 (ucast (seg_data ! 0)) OR ucast (seg_data ! 1)\<rparr>)
                        else parse_jpeg_loop frame next found_sof info
      else Some (found_sof, False, info))"
  by pat_completeness auto
termination
  by (relation "measure (\<lambda>(_, p, _, _). length p)") (auto dest: marker_shorter intro: less_imp_diff_less)

declare parse_jpeg_loop.simps [simp del]

definition parse_jpeg_frame :: "u8 list \<Rightarrow> JpegFrameInfo \<Rightarrow> JpegFrameInfo option" where
  "parse_jpeg_frame frame info =
     (if length frame < 4 \<or> frame ! 0 \<noteq> 0xFF \<or> frame ! 1 \<noteq> JPEG_SOI then None
      else
        case parse_jpeg_loop frame (drop 2 frame) False info of
          None \<Rightarrow> None
        | Some (found_sof, found_sos, info) \<Rightarrow>
            if \<not> found_sof \<or> \<not> found_sos \<or> jf_qt_len info = 0 then None
            else Some (if jf_restart_interval info > 0 then info\<lparr>jf_type := jf_type info + 64\<rparr> else info))"

text \<open>The payload header of a fragment: what the loop writes to \<open>phdr\<close>.\<close>

definition jpeg_fragment_header :: "JpegFrameInfo \<Rightarrow> bool \<Rightarrow> nat \<Rightarrow> u8 list" where
  "jpeg_fragment_header info is_first offset =
     write_jpeg_rtp_header (word_of_nat offset) info @
     (if jf_restart_interval info > 0 then write_restart_header (jf_restart_interval info) else []) @
     (if is_first then write_qt_header (jf_qt_precision info) (jf_qt_len info) @ jf_qt_data info else [])"

partial_function (option) jpeg_send_loop ::
  "endian \<Rightarrow> 't Compy_Transport \<Rightarrow> u64 \<times> u64 \<Rightarrow> 't Compy_RtpTransport \<Rightarrow> Compy_RtpTimestamp \<Rightarrow> u8 list \<Rightarrow>
     JpegFrameInfo \<Rightarrow> nat \<Rightarrow> nat \<Rightarrow> nat \<Rightarrow> bool \<Rightarrow> nat \<Rightarrow> (int \<times> 't Compy_RtpTransport) option" where
  [code]: "jpeg_send_loop en T now t ts frame info base_hdr first_hdr max_frag is_first offset =
     (if offset < jf_scan_len info then
        let hdr_size = (if is_first then first_hdr else base_hdr);
            avail = max_frag - hdr_size;
            remaining = jf_scan_len info - offset;
            chunk = (if remaining < avail then remaining else avail);
            last = (offset + chunk \<ge> jf_scan_len info)
        in Compy_RtpTransport_send_packet en T now t ts last (jpeg_fragment_header info is_first offset)
             (take chunk (drop (jf_scan_offset info + offset) frame)) \<bind> (\<lambda>(ret, t).
           if ret \<noteq> 0 then Some (-1, t)
           else jpeg_send_loop en T now t ts frame info base_hdr first_hdr max_frag False (offset + chunk))
      else Some (0, t))"

definition Compy_JpegTransport_send_frame ::
  "endian \<Rightarrow> 't Compy_Transport \<Rightarrow> u64 \<times> u64 \<Rightarrow> 't Compy_JpegTransport \<Rightarrow> Compy_RtpTimestamp \<Rightarrow> u8 list \<Rightarrow>
     (int \<times> 't Compy_JpegTransport) option" where
  "Compy_JpegTransport_send_frame en T now self ts jpeg_frame =
     (case parse_jpeg_frame jpeg_frame jpeg_info_0 of
        None \<Rightarrow> Some (-1, self)
      | Some info \<Rightarrow>
          if jf_scan_len info = 0 \<or> jf_scan_len info > 0xFFFFFF then Some (-1, self)
          else
            let has_dri = jf_restart_interval info > 0;
                base_hdr = JPEG_RTP_HDR_SIZE + (if has_dri then RST_HDR_SIZE else 0);
                qt_total = QT_HDR_SIZE + jf_qt_len info;
                first_hdr = base_hdr + qt_total;
                max_frag = max_fragment_size (jt_config self)
            in if first_hdr \<ge> max_frag then Some (-1, self)
               else
                 jpeg_send_loop en T now (jt_transport self) ts jpeg_frame info base_hdr first_hdr max_frag True 0
                   \<bind> (\<lambda>(ret, t). Some (ret, self\<lparr>jt_transport := t\<rparr>)))"

section \<open>What the parser promises\<close>

definition jpeg_inv :: "JpegFrameInfo \<Rightarrow> bool" where
  "jpeg_inv info \<longleftrightarrow> jf_qt_len info \<le> MAX_QT_DATA \<and> jf_type info \<in> {0, 1}"

lemma jpeg_inv_update [simp]:
  "jpeg_inv (info\<lparr>jf_qt_data := d\<rparr>) \<longleftrightarrow> length d \<le> MAX_QT_DATA \<and> jf_type info \<in> {0, 1}"
  "jpeg_inv (info\<lparr>jf_qt_precision := x\<rparr>) \<longleftrightarrow> jpeg_inv info"
  "jpeg_inv (info\<lparr>jf_restart_interval := r\<rparr>) \<longleftrightarrow> jpeg_inv info"
  "jpeg_inv (info\<lparr>jf_scan_offset := n\<rparr>) \<longleftrightarrow> jpeg_inv info"
  "jpeg_inv (info\<lparr>jf_scan_len := n\<rparr>) \<longleftrightarrow> jpeg_inv info"
  by (simp_all add: jpeg_inv_def)

lemma parse_dqt_inv: "parse_dqt data info = Some info' \<Longrightarrow> jpeg_inv info \<Longrightarrow> jpeg_inv info'"
proof (induction "length data" arbitrary: data info rule: less_induct)
  case less
  show ?case
  proof (cases data)
    case Nil
    with less.prems show ?thesis by (simp add: parse_dqt.simps)
  next
    case (Cons b p)
    have "jf_type info \<in> {0, 1}" using less.prems(2) by (simp add: jpeg_inv_def)
    with Cons less.prems(1) show ?thesis
      by (subst (asm) parse_dqt.simps) (auto simp: Let_def split: if_splits dest!: less.hyps [rotated])
  qed
qed

lemma parse_sof0_inv: "parse_sof0 data info = Some info' \<Longrightarrow> jpeg_inv info \<Longrightarrow> jpeg_inv info'"
  by (auto simp: parse_sof0_def jpeg_inv_def Let_def split: if_splits)

lemma parse_jpeg_loop_inv:
  "parse_jpeg_loop frame p sof info = Some (sof', sos, info') \<Longrightarrow> jpeg_inv info \<Longrightarrow>
     jpeg_inv info' \<and> (sos \<longrightarrow> jf_scan_offset info' + jf_scan_len info' + 2 = length frame)"
proof (induction "length p" arbitrary: p sof info rule: less_induct)
  case less
  note IH = less.hyps [OF _ _ , rotated]
  from less.prems show ?case
    unfolding parse_jpeg_loop.simps [of frame p sof info]
    by (auto simp: Let_def split: if_splits list.splits option.splits
        dest!: IH dest: marker_shorter parse_dqt_inv parse_sof0_inv)
qed

lemma parse_jpeg_frame_inv:
  assumes "parse_jpeg_frame frame jpeg_info_0 = Some info"
  shows "0 < jf_qt_len info" "jf_qt_len info \<le> MAX_QT_DATA"
    "jf_scan_offset info + jf_scan_len info + 2 = length frame"
    "64 \<le> jf_type info \<longleftrightarrow> jf_restart_interval info > 0"
proof -
  obtain info' where loop: "parse_jpeg_loop frame (drop 2 frame) False jpeg_info_0 = Some (True, True, info')"
    and info: "jf_qt_len info' \<noteq> 0"
      "info = (if jf_restart_interval info' > 0 then info'\<lparr>jf_type := jf_type info' + 64\<rparr> else info')"
    using assms by (auto simp: parse_jpeg_frame_def split: if_splits option.splits)
  have "jpeg_inv jpeg_info_0" by (simp add: jpeg_inv_def jpeg_info_0_def)
  from parse_jpeg_loop_inv [OF loop this] have "jpeg_inv info'"
    "jf_scan_offset info' + jf_scan_len info' + 2 = length frame" by auto
  moreover have "\<not> (64 :: u8) \<le> 0" "\<not> (64 :: u8) \<le> 1" "(64 :: u8) \<le> 65"
    by (simp_all add: word_le_nat_alt)
  ultimately show "0 < jf_qt_len info" "jf_qt_len info \<le> MAX_QT_DATA"
    "jf_scan_offset info + jf_scan_len info + 2 = length frame"
    "64 \<le> jf_type info \<longleftrightarrow> jf_restart_interval info > 0"
    using info by (auto simp: jpeg_inv_def)
qed

section \<open>The fragments\<close>

text \<open>The fragments from \<open>offset\<close> on, with the room each one has for scan data.\<close>

function jpeg_items ::
  "Compy_RtpTimestamp \<Rightarrow> u8 list \<Rightarrow> JpegFrameInfo \<Rightarrow> nat \<Rightarrow> bool \<Rightarrow> nat \<Rightarrow> rtp_item list" where
  "jpeg_items ts frame info max_frag is_first offset =
     (let avail = max_frag - length (jpeg_fragment_header info is_first offset);
          chunk = min (jf_scan_len info - offset) avail
      in if offset < jf_scan_len info \<and> 0 < avail
         then (ts, offset + chunk = jf_scan_len info, jpeg_fragment_header info is_first offset,
               take chunk (drop (jf_scan_offset info + offset) frame)) #
              jpeg_items ts frame info max_frag False (offset + chunk)
         else [])"
  by pat_completeness auto
termination
  by (relation "measure (\<lambda>(_, _, info, _, _, offset). jf_scan_len info - offset)") auto

declare jpeg_items.simps [simp del]

definition base_hdr_len :: "JpegFrameInfo \<Rightarrow> nat" where
  "base_hdr_len info = JPEG_RTP_HDR_SIZE + (if jf_restart_interval info > 0 then RST_HDR_SIZE else 0)"

lemma length_fragment_header:
  "length (jpeg_fragment_header info is_first offset) =
     base_hdr_len info + (if is_first then QT_HDR_SIZE + jf_qt_len info else 0)"
  by (simp add: jpeg_fragment_header_def write_jpeg_rtp_header_def write_restart_header_def write_qt_header_def
      base_hdr_len_def JPEG_RTP_HDR_SIZE_def RST_HDR_SIZE_def QT_HDR_SIZE_def)

text \<open>A transport that answers 0 or \<open>-1\<close>, as the interface says.\<close>

definition plain_transport :: "'t Compy_Transport \<Rightarrow> bool" where
  "plain_transport T \<longleftrightarrow> (\<forall>t bufs ret t'. t_transmit T t bufs = Some (ret, t') \<longrightarrow> ret = 0 \<or> ret = -1)"

lemma send_packet_plain:
  assumes "plain_transport T" "Compy_RtpTransport_send_packet en T now t ts m ph pl = Some (ret, t')"
  shows "ret \<noteq> 0 \<longleftrightarrow> ret = -1"
proof -
  obtain bufs t'' where "t_transmit T (rt_transport t) bufs = Some (ret, t'')"
    using assms(2) by (auto simp: Compy_RtpTransport_send_packet_def Let_def split: option.splits if_splits)
  then show ?thesis using assms(1) by (auto simp: plain_transport_def)
qed

lemma jpeg_send_loop_items:
  assumes T: "plain_transport T" and max: "base_hdr_len info + QT_HDR_SIZE + jf_qt_len info < max_frag"
  shows "jpeg_send_loop en T now t ts frame info (base_hdr_len info) (base_hdr_len info + QT_HDR_SIZE + jf_qt_len info)
       max_frag is_first offset =
     send_items en T now t (jpeg_items ts frame info max_frag is_first offset)"
proof (induction "jf_scan_len info - offset" arbitrary: offset is_first t rule: less_induct)
  case less
  let ?room = "max_frag - length (jpeg_fragment_header info is_first offset)"
  let ?chunk = "min (jf_scan_len info - offset) ?room"
  have room: "max_frag - (if is_first then base_hdr_len info + QT_HDR_SIZE + jf_qt_len info else base_hdr_len info) = ?room"
    "0 < ?room"
    using max by (simp_all add: length_fragment_header add.assoc)
  show ?case
  proof (cases "offset < jf_scan_len info")
    case True
    have chunk: "(if jf_scan_len info - offset < ?room then jf_scan_len info - offset else ?room) = ?chunk" by simp
    have last: "jf_scan_len info \<le> offset + ?chunk \<longleftrightarrow> offset + ?chunk = jf_scan_len info" using True by auto
    have "jf_scan_len info - (offset + ?chunk) < jf_scan_len info - offset" using True room(2) by auto
    note IH = less.hyps [OF this]
    let ?send = "Compy_RtpTransport_send_packet en T now t ts (offset + ?chunk = jf_scan_len info)
        (jpeg_fragment_header info is_first offset) (take ?chunk (drop (jf_scan_offset info + offset) frame))"
    have loop: "jpeg_send_loop en T now t ts frame info (base_hdr_len info)
        (base_hdr_len info + QT_HDR_SIZE + jf_qt_len info) max_frag is_first offset =
      ?send \<bind> (\<lambda>(ret, t). if ret \<noteq> 0 then Some (-1, t)
        else send_items en T now t (jpeg_items ts frame info max_frag False (offset + ?chunk)))"
      by (subst jpeg_send_loop.simps) (simp only: True if_True Let_def room(1) chunk last IH)
    have items: "jpeg_items ts frame info max_frag is_first offset =
        (ts, offset + ?chunk = jf_scan_len info, jpeg_fragment_header info is_first offset,
         take ?chunk (drop (jf_scan_offset info + offset) frame)) #
        jpeg_items ts frame info max_frag False (offset + ?chunk)"
      by (subst jpeg_items.simps) (simp only: True room(2) Let_def if_True simp_thms)
    show ?thesis
    proof (cases ?send)
      case (Some r)
      then show ?thesis using send_packet_plain [OF T, of en now t] by (cases r) (auto simp: loop items)
    qed (simp add: loop items)
  next
    case False
    then show ?thesis by (subst jpeg_send_loop.simps, subst jpeg_items.simps) simp
  qed
qed

section \<open>What the receiver gets\<close>

text \<open>
  A receiver of RFC 2435: the fragment offset, the headers that are present, the scan data behind
  them. The fragments have to follow each other without a gap, the first one at offset 0.
\<close>

definition jpeg_offset :: "u8 list \<Rightarrow> nat" where
  "jpeg_offset p = unat (p ! 1) * 65536 + unat (p ! 2) * 256 + unat (p ! 3)"

definition jpeg_base :: "u8 list \<Rightarrow> nat" where
  "jpeg_base p = (if 64 \<le> p ! 4 then 12 else 8)"

definition jpeg_qt_len :: "u8 list \<Rightarrow> nat" where
  "jpeg_qt_len p = unat (p ! (jpeg_base p + 2)) * 256 + unat (p ! (jpeg_base p + 3))"

definition jpeg_data :: "u8 list \<Rightarrow> u8 list" where
  "jpeg_data p = drop (jpeg_base p + (if jpeg_offset p = 0 then 4 + jpeg_qt_len p else 0)) p"

fun jpeg_scan :: "nat \<Rightarrow> u8 list list \<Rightarrow> u8 list option" where
  "jpeg_scan off [] = Some []"
| "jpeg_scan off (p # ps) =
     (if jpeg_offset p = off then map_option ((@) (jpeg_data p)) (jpeg_scan (off + length (jpeg_data p)) ps) else None)"

record jpeg_received =
  jr_type :: u8
  jr_width_8 :: u8
  jr_height_8 :: u8
  jr_interval :: u16
  jr_precision :: u8
  jr_tables :: "u8 list"
  jr_scan :: "u8 list"

definition jpeg_receive :: "u8 list list \<Rightarrow> jpeg_received option" where
  "jpeg_receive ps =
     (case ps of
        [] \<Rightarrow> None
      | p # _ \<Rightarrow>
          map_option (\<lambda>scan. \<lparr>jr_type = p ! 4, jr_width_8 = p ! 6, jr_height_8 = p ! 7,
              jr_interval = (if 64 \<le> p ! 4 then of_be16 (take 2 (drop 8 p)) else 0),
              jr_precision = p ! (jpeg_base p + 1),
              jr_tables = take (jpeg_qt_len p) (drop (jpeg_base p + 4) p), jr_scan = scan\<rparr>)
            (jpeg_scan 0 ps))"

lemma u32_octet: "unat (ucast (drop_bit k (w :: u32) AND 0xFF) :: u8) = unat w div 2 ^ k mod 256"
proof -
  have "(ucast (v AND 0xFF) :: u8) = ucast v" for v :: u32
    by (rule bit_word_eqI) (auto simp: word_masks word_bits)
  moreover have "unat w < 2 ^ 32" using unsigned_less [of w] by simp
  then have "take_bit 32 (unat w) = unat w" by (rule take_bit_nat_eq_self)
  then have "unat (drop_bit k w) = unat w div 2 ^ k"
    by (simp add: unsigned_drop_bit_eq take_bit_nat_eq_self drop_bit_eq_div [where 'a = nat] del: drop_bit_eq_div)
  ultimately show ?thesis by (simp add: unsigned_ucast_eq take_bit_eq_mod)
qed

lemma three_octets:
  fixes n :: nat
  shows "n div 65536 * 65536 + n div 256 mod 256 * 256 + n mod 256 = n"
proof -
  have "n mod 65536 = 256 * (n div 256 mod 256) + n mod 256"
    using mod_mult2_eq [of n 256 256] by simp
  moreover have "n div 65536 * 65536 + n mod 65536 = n" by simp
  ultimately show ?thesis by simp
qed

lemma two_octets:
  fixes n :: nat
  assumes "n < 65536"
  shows "unat (word_of_nat (n div 256 mod 256) :: u8) * 256 + unat (word_of_nat (n mod 256) :: u8) = n"
  using assms by (simp add: unat_of_nat take_bit_eq_mod less_mult_imp_div_less)

lemma drop_length_plus: "drop (length xs + k) (xs @ ys) = drop k ys"
  by simp

text \<open>What the receiver reads in one fragment.\<close>

lemma fragment_restart:
  assumes "64 \<le> jf_type info \<longleftrightarrow> jf_restart_interval info > 0" and p: "p = jpeg_fragment_header info first n @ data"
  shows "(if 64 \<le> p ! 4 then of_be16 (take 2 (drop 8 p)) else 0) = jf_restart_interval info"
proof -
  have "p ! 4 = jf_type info" by (simp add: p jpeg_fragment_header_def write_jpeg_rtp_header_def)
  moreover have "(ucast (v AND 0xFF) :: u8) = ucast v" for v :: u16
    by (rule bit_word_eqI) (auto simp: word_masks word_bits)
  then have "take 2 (drop 8 p) = be16 (jf_restart_interval info)" if "jf_restart_interval info > 0"
    using that by (simp add: p jpeg_fragment_header_def write_jpeg_rtp_header_def write_restart_header_def be16_def)
  ultimately show ?thesis using assms(1) by (cases "jf_restart_interval info = 0") (simp_all add: word_greater_zero_iff)
qed

lemma fragment_offset:
  assumes "n < 2 ^ 24" shows "jpeg_offset (jpeg_fragment_header info first n @ data) = n"
proof -
  have "unat (word_of_nat n :: u32) = n" using assms by (simp add: unat_of_nat take_bit_eq_mod)
  then show ?thesis
    using u32_octet [of 16 "word_of_nat n"] u32_octet [of 8 "word_of_nat n"] u32_octet [of 0 "word_of_nat n"]
      three_octets [of n] assms
    by (simp add: jpeg_offset_def jpeg_fragment_header_def write_jpeg_rtp_header_def)
qed

lemma fragment_read:
  fixes data :: "u8 list"
  assumes n: "n < 2 ^ 24" and qt: "jf_qt_len info \<le> MAX_QT_DATA"
    and ty: "64 \<le> jf_type info \<longleftrightarrow> jf_restart_interval info > 0"
  defines "p \<equiv> jpeg_fragment_header info (n = 0) n @ data"
  shows "jpeg_offset p = n" "jpeg_data p = data" "p ! 4 = jf_type info" "p ! 6 = jf_width_8 info"
    "p ! 7 = jf_height_8 info"
    "n = 0 \<Longrightarrow> jpeg_qt_len p = jf_qt_len info" "n = 0 \<Longrightarrow> p ! (jpeg_base p + 1) = jf_qt_precision info"
    "n = 0 \<Longrightarrow> take (jf_qt_len info) (drop (jpeg_base p + 4) p) = jf_qt_data info"
    "(if 64 \<le> p ! 4 then of_be16 (take 2 (drop 8 p)) else 0) = jf_restart_interval info"
proof -
  have 8: "p ! 4 = jf_type info" "p ! 6 = jf_width_8 info" "p ! 7 = jf_height_8 info"
    by (simp_all add: p_def jpeg_fragment_header_def write_jpeg_rtp_header_def)
  show "p ! 4 = jf_type info" "p ! 6 = jf_width_8 info" "p ! 7 = jf_height_8 info" by fact+
  show off: "jpeg_offset p = n" unfolding p_def by (rule fragment_offset [OF n])
  let ?rst = "if jf_restart_interval info > 0 then write_restart_header (jf_restart_interval info) else []"
  let ?qt = "write_qt_header (jf_qt_precision info) (jf_qt_len info)"
  have base: "jpeg_base p = base_hdr_len info"
    using ty by (simp add: jpeg_base_def 8 base_hdr_len_def JPEG_RTP_HDR_SIZE_def RST_HDR_SIZE_def)
  have len: "length (write_jpeg_rtp_header (word_of_nat n) info @ ?rst) = base_hdr_len info"
    by (simp add: base_hdr_len_def JPEG_RTP_HDR_SIZE_def RST_HDR_SIZE_def write_jpeg_rtp_header_def
        write_restart_header_def)
  have p0: "p = (write_jpeg_rtp_header (word_of_nat n) info @ ?rst) @ ?qt @ jf_qt_data info @ data" if "n = 0"
    using that by (simp add: p_def jpeg_fragment_header_def)
  have at: "p ! (base_hdr_len info + k) = (?qt @ jf_qt_data info @ data) ! k" if "n = 0" for k
    unfolding len [symmetric] p0 [OF that] by (rule nth_append_length_plus)
  have "jf_qt_len info < 65536" using qt by (simp add: MAX_QT_DATA_def)
  from two_octets [OF this] have qt_len: "jpeg_qt_len p = jf_qt_len info" if "n = 0"
    by (simp only: jpeg_qt_len_def base at [OF that]) (simp add: write_qt_header_def numeral_2_eq_2 numeral_3_eq_3)
  have p1: "p = (write_jpeg_rtp_header (word_of_nat n) info @ ?rst) @ data" if "n \<noteq> 0"
    using that by (simp add: p_def jpeg_fragment_header_def)
  have tail: "drop (base_hdr_len info + 4) p = jf_qt_data info @ data" if "n = 0"
  proof -
    have "drop (base_hdr_len info + 4) p = drop 4 (?qt @ jf_qt_data info @ data)"
      unfolding len [symmetric] p0 [OF that] by (rule drop_length_plus)
    then show ?thesis by (simp add: write_qt_header_def)
  qed
  show "jpeg_data p = data"
  proof (cases "n = 0")
    case True
    have "drop (base_hdr_len info + (4 + jf_qt_len info)) p = drop (jf_qt_len info) (drop (base_hdr_len info + 4) p)"
      by (simp add: ac_simps)
    with True tail show ?thesis by (simp add: jpeg_data_def off base qt_len)
  next
    case False
    have "drop (base_hdr_len info + 0) p = drop 0 data"
      unfolding len [symmetric] p1 [OF False] by (rule drop_length_plus)
    with False show ?thesis by (simp add: jpeg_data_def off base)
  qed
  show "n = 0 \<Longrightarrow> jpeg_qt_len p = jf_qt_len info" by (rule qt_len)
  show "p ! (jpeg_base p + 1) = jf_qt_precision info" if "n = 0"
    by (simp add: base at [OF that, of 1, simplified] write_qt_header_def)
  show "take (jf_qt_len info) (drop (jpeg_base p + 4) p) = jf_qt_data info" if "n = 0"
    using tail [OF that] by (simp add: base)
  show "(if 64 \<le> p ! 4 then of_be16 (take 2 (drop 8 p)) else 0) = jf_restart_interval info"
    by (rule fragment_restart [OF ty p_def [unfolded atomize_eq]])
qed

lemma jpeg_items_step:
  assumes "offset < jf_scan_len info" "base_hdr_len info + QT_HDR_SIZE + jf_qt_len info < max_frag"
  defines "chunk \<equiv> min (jf_scan_len info - offset)
      (max_frag - length (jpeg_fragment_header info (offset = 0) offset))"
  shows "0 < chunk" "offset + chunk \<le> jf_scan_len info"
    "length (jpeg_fragment_header info (offset = 0) offset) + chunk \<le> max_frag"
    "jpeg_items ts frame info max_frag (offset = 0) offset =
       (ts, offset + chunk = jf_scan_len info, jpeg_fragment_header info (offset = 0) offset,
        take chunk (drop (jf_scan_offset info + offset) frame)) #
       jpeg_items ts frame info max_frag (offset + chunk = 0) (offset + chunk)"
proof -
  have room: "0 < max_frag - length (jpeg_fragment_header info (offset = 0) offset)"
    using assms(2) by (simp add: length_fragment_header)
  then show "0 < chunk" "offset + chunk \<le> jf_scan_len info"
    "length (jpeg_fragment_header info (offset = 0) offset) + chunk \<le> max_frag"
    using assms(1) by (auto simp: chunk_def)
  then have "(offset + chunk = 0) = False" by simp
  then show "jpeg_items ts frame info max_frag (offset = 0) offset =
       (ts, offset + chunk = jf_scan_len info, jpeg_fragment_header info (offset = 0) offset,
        take chunk (drop (jf_scan_offset info + offset) frame)) #
       jpeg_items ts frame info max_frag (offset + chunk = 0) (offset + chunk)"
    using assms(1) room by (subst jpeg_items.simps) (simp only: Let_def chunk_def if_True simp_thms)
qed

lemma marks_Cons:
  assumes "b \<Longrightarrow> ms = []" "\<not> b \<Longrightarrow> \<exists>n. ms = replicate n False @ [True]"
  shows "\<exists>n. b # ms = replicate n False @ [True]"
proof (cases b)
  case True
  then show ?thesis using assms(1) by (intro exI [of _ 0]) simp
next
  case False
  then obtain n where "ms = replicate n False @ [True]" using assms(2) by blast
  then show ?thesis using False by (intro exI [of _ "Suc n"]) simp
qed

lemma jpeg_items_read:
  assumes max: "base_hdr_len info + QT_HDR_SIZE + jf_qt_len info < max_frag"
    and len: "jf_scan_len info \<le> 0xFFFFFF" "jf_scan_offset info + jf_scan_len info \<le> length frame"
    and qt: "jf_qt_len info \<le> MAX_QT_DATA" and ty: "64 \<le> jf_type info \<longleftrightarrow> jf_restart_interval info > 0"
  shows "offset \<le> jf_scan_len info \<Longrightarrow>
     jpeg_scan offset (map item_payload (jpeg_items ts frame info max_frag (offset = 0) offset)) =
       Some (take (jf_scan_len info - offset) (drop (jf_scan_offset info + offset) frame)) \<and>
     (\<forall>x \<in> set (jpeg_items ts frame info max_frag (offset = 0) offset). length (item_payload x) \<le> max_frag) \<and>
     (if offset < jf_scan_len info
      then \<exists>n. map (fst \<circ> snd) (jpeg_items ts frame info max_frag (offset = 0) offset) = replicate n False @ [True]
      else jpeg_items ts frame info max_frag (offset = 0) offset = [])"
proof (induction "jf_scan_len info - offset" arbitrary: offset rule: less_induct)
  case less
  show ?case
  proof (cases "offset < jf_scan_len info")
    case False
    then have "jpeg_items ts frame info max_frag (offset = 0) offset = []" by (subst jpeg_items.simps) simp
    with False show ?thesis by simp
  next
    case True
    define chunk where "chunk = min (jf_scan_len info - offset)
      (max_frag - length (jpeg_fragment_header info (offset = 0) offset))"
    note step = jpeg_items_step [OF True max, folded chunk_def]
    let ?data = "take chunk (drop (jf_scan_offset info + offset) frame)"
    have "offset < 2 ^ 24" using True len(1) by simp
    note read = fragment_read [OF this qt ty, of ?data]
    have data: "length ?data = chunk" using step(2) len(2) by simp
    have "jf_scan_len info - (offset + chunk) < jf_scan_len info - offset" "offset + chunk \<le> jf_scan_len info"
      using step(1,2) True by simp_all
    note IH = less.hyps [OF this]
    let ?rest = "jpeg_items ts frame info max_frag (offset + chunk = 0) (offset + chunk)"
    let ?item = "(ts, offset + chunk = jf_scan_len info, jpeg_fragment_header info (offset = 0) offset, ?data)"
    have "jf_scan_len info - offset = chunk + (jf_scan_len info - (offset + chunk))" using step(2) by simp
    then have scan: "take (jf_scan_len info - offset) (drop (jf_scan_offset info + offset) frame) =
        ?data @ take (jf_scan_len info - (offset + chunk)) (drop (jf_scan_offset info + (offset + chunk)) frame)"
      by (simp only: take_add drop_drop ac_simps)
    have "item_payload ?item = jpeg_fragment_header info (offset = 0) offset @ ?data"
      by (simp add: item_payload_def)
    then have "jpeg_scan offset (map item_payload (?item # ?rest)) =
        Some (take (jf_scan_len info - offset) (drop (jf_scan_offset info + offset) frame))"
      unfolding scan using IH read(1,2) data by (simp only: list.map jpeg_scan.simps) simp
    moreover have "length (item_payload ?item) \<le> max_frag"
      using step(3) data by (simp add: item_payload_def)
    moreover have "\<exists>n. map (fst \<circ> snd) (?item # ?rest) = replicate n False @ [True]"
      unfolding list.map o_apply fst_conv snd_conv by (rule marks_Cons) (use IH step(2) in \<open>auto simp: o_def\<close>)
    ultimately show ?thesis using IH True unfolding step(4) by simp
  qed
qed

lemma udp_plain: "plain_transport compy_transport_udp"
proof -
  have "send_packet_loop i t m = (ret, t') \<Longrightarrow> ret = 0 \<or> ret = -1" for i t m ret t'
    by (induction i t m rule: send_packet_loop.induct, subst (asm) send_packet_loop.simps)
      (auto simp: Let_def split: sendmsg_result.splits if_splits)
  then show ?thesis
    by (auto simp: plain_transport_def compy_transport_udp_def Compy_UdpTransport_transmit_def send_packet_def)
qed

section \<open>A frame as a list of segments\<close>

text \<open>
  The structure of a JPEG file: segments of a marker and data, then the scan. \<open>read_segs\<close> is what the parser does with
  the segments, one by one.
\<close>

definition seg_bytes :: "u8 \<times> u8 list \<Rightarrow> u8 list" where
  "seg_bytes seg = [0xFF, fst seg] @ be16 (word_of_nat (length (snd seg) + 2)) @ snd seg"

definition jpeg_bytes :: "(u8 \<times> u8 list) list \<Rightarrow> u8 list \<Rightarrow> u8 list \<Rightarrow> u8 list" where
  "jpeg_bytes segs sos scan =
     [0xFF, JPEG_SOI] @ concat (map seg_bytes segs) @ seg_bytes (JPEG_SOS, sos) @ scan @ [0xFF, JPEG_EOI]"

definition seg_ok :: "u8 \<times> u8 list \<Rightarrow> bool" where
  "seg_ok seg \<longleftrightarrow> fst seg \<notin> {0, 1, 0xFF, JPEG_EOI, JPEG_SOS} \<and> \<not> (0xD0 \<le> fst seg \<and> fst seg \<le> 0xD7) \<and>
     length (snd seg) + 2 < 65536"

definition read_seg :: "u8 \<times> u8 list \<Rightarrow> bool \<times> JpegFrameInfo \<Rightarrow> (bool \<times> JpegFrameInfo) option" where
  "read_seg seg st =
     (case st of (sof, info) \<Rightarrow>
        if fst seg = JPEG_DQT then map_option (Pair sof) (parse_dqt (snd seg) info)
        else if fst seg = JPEG_SOF0 then map_option (Pair True) (parse_sof0 (snd seg) info)
        else if fst seg = JPEG_DRI then
          (if length (snd seg) < 2 then None
           else Some (sof, info\<lparr>jf_restart_interval := of_be16 (take 2 (snd seg))\<rparr>))
        else Some (sof, info))"

fun read_segs :: "(u8 \<times> u8 list) list \<Rightarrow> bool \<times> JpegFrameInfo \<Rightarrow> (bool \<times> JpegFrameInfo) option" where
  "read_segs [] st = Some st"
| "read_segs (seg # segs) st = read_seg seg st \<bind> read_segs segs"

lemma seg_len_octets:
  assumes "n < 65536"
  shows "unat (push_bit 8 (ucast (be16 (word_of_nat n) ! 0)) OR
      ucast (be16 (word_of_nat n) ! 1) :: u16) = n"
proof -
  have "push_bit 8 (ucast (be16 (word_of_nat n) ! 0)) OR ucast (be16 (word_of_nat n) ! 1) =
      (word_of_nat n :: u16)"
    using of_be16_be16 [of "word_of_nat n"] unfolding of_be16_def .
  moreover have "unat (word_of_nat n :: u16) = n"
    using assms by (simp add: unat_of_nat take_bit_eq_mod)
  ultimately show ?thesis by simp
qed

lemma be16_cases: "be16 w = [be16 w ! 0, be16 w ! 1]"
  by (simp add: be16_def)

lemma parse_loop_segment:
  assumes "seg_ok seg"
  shows "parse_jpeg_loop frame (seg_bytes seg @ rest) sof info =
     (case read_seg seg (sof, info) of
        None \<Rightarrow> None | Some (sof', info') \<Rightarrow> parse_jpeg_loop frame rest sof' info')"
proof -
  obtain m d where seg: "seg = (m, d)" by (cases seg)
  let ?l = "be16 (word_of_nat (length d + 2))"
  let ?w = "push_bit 8 (ucast (?l ! 0)) OR ucast (?l ! 1) :: u16"
  have ok: "m \<noteq> 0" "m \<noteq> 1" "m \<noteq> 0xFF" "m \<noteq> JPEG_EOI" "m \<noteq> JPEG_SOS" "\<not> (0xD0 \<le> m \<and> m \<le> 0xD7)"
    "length d + 2 < 65536"
    using assms by (auto simp: seg seg_ok_def)
  have w: "unat ?w = length d + 2" by (rule seg_len_octets [OF ok(7)])
  then have "\<not> ?w < 2" by (simp add: word_less_nat_alt)
  have bytes: "seg_bytes seg @ rest = 0xFF # m # ?l ! 0 # ?l ! 1 # d @ rest"
    unfolding seg seg_bytes_def by (subst be16_cases) simp
  have skip: "dropWhile (\<lambda>b. b = 0xFF) (m # xs) = m # xs" for xs using ok(3) by simp
  have dri: "push_bit 8 (ucast (d ! 0)) OR ucast (d ! Suc 0) = of_be16 (take 2 d)"
    by (simp add: of_be16_def)
  show ?thesis
    unfolding bytes
    apply (subst parse_jpeg_loop.simps)
    using ok w \<open>\<not> ?w < 2\<close>
    by (auto simp: skip Let_def read_seg_def seg dri split: option.split)
qed

lemma parse_loop_segments:
  "list_all seg_ok segs \<Longrightarrow>
     parse_jpeg_loop frame (concat (map seg_bytes segs) @ rest) sof info =
     (case read_segs segs (sof, info) of
        None \<Rightarrow> None | Some (sof', info') \<Rightarrow> parse_jpeg_loop frame rest sof' info')"
  by (induction segs arbitrary: sof info)
    (auto simp: parse_loop_segment split: option.split)

lemma parse_loop_scan:
  assumes "frame = pre @ seg_bytes (JPEG_SOS, sos) @ scan @ [0xFF, JPEG_EOI]" "length sos + 2 < 65536"
  shows "parse_jpeg_loop frame (seg_bytes (JPEG_SOS, sos) @ scan @ [0xFF, JPEG_EOI]) sof info =
     Some (sof, True, info\<lparr>jf_scan_offset := length frame - 2 - length scan, jf_scan_len := length scan\<rparr>)"
proof -
  let ?l = "be16 (word_of_nat (length sos + 2))"
  let ?w = "push_bit 8 (ucast (?l ! 0)) OR ucast (?l ! 1) :: u16"
  have w: "unat ?w = length sos + 2" by (rule seg_len_octets [OF assms(2)])
  then have w2: "\<not> ?w < 2" by (simp add: word_less_nat_alt)
  have bytes: "seg_bytes (JPEG_SOS, sos) @ xs = 0xFF # JPEG_SOS # ?l ! 0 # ?l ! 1 # sos @ xs" for xs
    unfolding seg_bytes_def by (subst be16_cases) simp
  have len: "length frame = length pre + 4 + length sos + length scan + 2"
    using assms(1) by (simp add: bytes)
  have ends: "frame ! (length frame - 2) = 0xFF" "frame ! (length frame - 1) = JPEG_EOI"
    by (simp_all add: assms(1) bytes nth_append nth_Cons')
  have not: "JPEG_SOS \<noteq> JPEG_EOI" "JPEG_SOS \<noteq> 0" "JPEG_SOS \<noteq> 1" "JPEG_SOS \<noteq> 0xFF" "\<not> JPEG_SOS \<le> 0xD7"
    by (simp_all add: jpeg_markers word_le_nat_alt)
  show ?thesis
    unfolding bytes
    apply (subst parse_jpeg_loop.simps)
    using not w w2 len ends by (simp add: Let_def)
qed

lemma jpeg_parse_segments:
  assumes "list_all seg_ok segs" "length sos + 2 < 65536"
  shows "parse_jpeg_frame (jpeg_bytes segs sos scan) jpeg_info_0 =
     (case read_segs segs (False, jpeg_info_0) of
        None \<Rightarrow> None
      | Some (sof, info) \<Rightarrow>
          if sof \<and> 0 < jf_qt_len info then
            Some (info\<lparr>jf_type := jf_type info + (if jf_restart_interval info > 0 then 64 else 0),
                       jf_scan_offset := length (jpeg_bytes segs sos scan) - 2 - length scan,
                       jf_scan_len := length scan\<rparr>)
          else None)"
proof -
  let ?f = "jpeg_bytes segs sos scan" and ?tail = "seg_bytes (JPEG_SOS, sos) @ scan @ [0xFF, JPEG_EOI]"
  have f: "?f = ([0xFF, JPEG_SOI] @ concat (map seg_bytes segs)) @ ?tail" by (simp add: jpeg_bytes_def)
  have head: "\<not> length ?f < 4" "?f ! 0 = 0xFF" "?f ! Suc 0 = JPEG_SOI"
    "drop 2 ?f = concat (map seg_bytes segs) @ ?tail"
    by (simp_all add: jpeg_bytes_def seg_bytes_def)
  show ?thesis
    using parse_loop_segments [OF assms(1), of ?f ?tail False jpeg_info_0] parse_loop_scan [OF f assms(2)]
    by (simp add: parse_jpeg_frame_def head split: option.split)
qed

text \<open>A sample frame of 16 by 16 pixels with one table, in fragments of at most 80 octets.\<close>

definition sample_segs :: "(u8 \<times> u8 list) list" where
  "sample_segs = [(JPEG_DQT, 0 # replicate 64 1),
     (JPEG_SOF0, [8, 0, 16, 0, 16, 3, 1, 0x22, 0, 2, 0x11, 1, 3, 0x11, 1])]"

definition sample_sos :: "u8 list" where
  "sample_sos = [1, 1, 0, 0, 0x3F, 0]"

definition sample_frame :: "u8 list" where
  "sample_frame = jpeg_bytes sample_segs sample_sos [1, 2, 3, 4, 5, 6, 7, 8]"

definition sample_info :: JpegFrameInfo where
  "sample_info = \<lparr>jf_type = 1, jf_width_8 = 2, jf_height_8 = 2, jf_restart_interval = 0,
     jf_qt_data = replicate 64 1, jf_qt_precision = 0, jf_scan_offset = 0, jf_scan_len = 0\<rparr>"

definition sample_jt :: "Compy_UdpTransport Compy_JpegTransport" where
  "sample_jt = Compy_JpegTransport_new_with_config sample_rt \<lparr>max_fragment_size = 80\<rparr>"

lemma sample_segs_ok: "list_all seg_ok sample_segs" "length sample_sos + 2 < 65536"
  by (simp_all add: sample_segs_def sample_sos_def seg_ok_def jpeg_markers word_le_nat_alt)

lemma sample_segs_read: "read_segs sample_segs (False, jpeg_info_0) = Some (True, sample_info)"
  by (simp add: sample_segs_def read_seg_def jpeg_markers parse_dqt.simps parse_sof0_def sample_info_def
      jpeg_info_0_def MAX_QT_DATA_def word_less_nat_alt)

lemma sample_frame_len: "length (jpeg_bytes sample_segs sample_sos scan) = 102 + length scan"
  by (simp add: jpeg_bytes_def seg_bytes_def sample_segs_def sample_sos_def)

lemma sample_frame_parse:
  "parse_jpeg_frame sample_frame jpeg_info_0 =
     Some (sample_info\<lparr>jf_scan_offset := 100, jf_scan_len := 8\<rparr>)"
  using sample_segs_read jpeg_parse_segments [OF sample_segs_ok, of "[1, 2, 3, 4, 5, 6, 7, 8]"]
  by (simp add: sample_frame_def sample_info_def sample_frame_len)

lemma jpeg_receive_items:
  assumes items: "items = (ts, m, jpeg_fragment_header info True 0, data) # rest"
    and scan: "jpeg_scan 0 (map item_payload items) = Some bytes"
    and qt: "jf_qt_len info \<le> MAX_QT_DATA" and ty: "64 \<le> jf_type info \<longleftrightarrow> jf_restart_interval info > 0"
  shows "jpeg_receive (map item_payload items) =
     Some \<lparr>jr_type = jf_type info, jr_width_8 = jf_width_8 info, jr_height_8 = jf_height_8 info,
           jr_interval = jf_restart_interval info, jr_precision = jf_qt_precision info,
           jr_tables = jf_qt_data info, jr_scan = bytes\<rparr>"
proof -
  have "map item_payload items = (jpeg_fragment_header info True 0 @ data) # map item_payload rest"
    unfolding items by (simp add: item_payload_def)
  then show ?thesis
    using scan fragment_read(3-9) [of 0 info data, OF _ qt ty] unfolding jpeg_receive_def by (simp split: if_splits)
qed

section \<open>Properties\<close>

text \<open>
  C10. A JPEG frame sent over UDP arrives: for a frame the parser accepts, with a scan of 1 to
  \<open>2 ^ 24 - 1\<close> octets and a limit above the headers of the first fragment, the call succeeds and a
  receiver of RFC 2435 gets from the datagrams the type, the dimensions, the restart interval, the
  quantisation tables and exactly the scan data of the frame. No payload is longer than the limit,
  and the marker is on the last packet and on no other.
\<close>

theorem jpeg_frame_over_udp:
  assumes "wf_rt (jt_transport self)" "udp_ok 0 (rt_transport (jt_transport self))"
    and parse: "parse_jpeg_frame frame jpeg_info_0 = Some info"
    and scan: "0 < jf_scan_len info" "jf_scan_len info \<le> 0xFFFFFF"
    and max: "base_hdr_len info + QT_HDR_SIZE + jf_qt_len info < max_fragment_size (jt_config self)"
  shows "\<exists>self' packets n.
     Compy_JpegTransport_send_frame en compy_transport_udp now self ts frame = Some (0, self') \<and>
     udp_sent (rt_transport (jt_transport self')) = udp_sent (rt_transport (jt_transport self)) @ packets \<and>
     jpeg_receive (map (rtp_body en h) packets) =
       Some \<lparr>jr_type = jf_type info, jr_width_8 = jf_width_8 info, jr_height_8 = jf_height_8 info,
             jr_interval = jf_restart_interval info, jr_precision = jf_qt_precision info,
             jr_tables = jf_qt_data info, jr_scan = take (jf_scan_len info) (drop (jf_scan_offset info) frame)\<rparr> \<and>
     (\<forall>p \<in> set packets. length (rtp_body en h p) \<le> max_fragment_size (jt_config self)) \<and>
     map (rtp_mark en h) packets = replicate n False @ [True]"
proof -
  let ?t = "jt_transport self" and ?max = "max_fragment_size (jt_config self)"
  let ?items = "jpeg_items ts frame info ?max True 0"
  let ?packets = "packets_from en ?t 0 ?items"
  note inv = parse_jpeg_frame_inv [OF parse]
  obtain t' where sent: "send_items en compy_transport_udp now ?t ?items = Some (0, t')"
    "udp_sent (rt_transport t') = udp_sent (rt_transport ?t) @ ?packets"
    using udp_send_items [OF assms(1,2)] by blast
  have send: "Compy_JpegTransport_send_frame en compy_transport_udp now self ts frame =
      Some (0, self\<lparr>jt_transport := t'\<rparr>)"
    using scan max sent(1)
    by (simp add: Compy_JpegTransport_send_frame_def parse Let_def base_hdr_len_def [symmetric]
        jpeg_send_loop_items [OF udp_plain max] add.assoc [symmetric])
  note read = jpeg_items_read [OF max scan(2) _ inv(2,4), of frame 0 ts]
  have read': "jpeg_scan 0 (map item_payload ?items) = Some (take (jf_scan_len info) (drop (jf_scan_offset info) frame))"
    "\<forall>x \<in> set ?items. length (item_payload x) \<le> ?max"
    and marks: "\<exists>n. map (fst \<circ> snd) ?items = replicate n False @ [True]"
    using read inv(3) scan(1) by auto
  obtain data rest where items: "?items =
      (ts, 0 + length data = jf_scan_len info, jpeg_fragment_header info True 0, data) # rest"
    using jpeg_items_step(4) [OF scan(1) max, of ts frame] inv(3) by simp
  have bodies: "map (rtp_body en h) ?packets = map item_payload ?items"
    by (rule nth_equalityI) (simp_all add: packet_read [OF assms(1)])
  have "map (rtp_mark en h) ?packets = map (fst \<circ> snd) ?items"
    by (rule nth_equalityI) (simp_all add: packet_read [OF assms(1)])
  moreover have "\<forall>p \<in> set ?packets. length (rtp_body en h p) \<le> ?max"
    using read'(2) bodies by (metis (no_types, lifting) imageE imageI list.set_map)
  moreover have "jpeg_receive (map (rtp_body en h) ?packets) =
       Some \<lparr>jr_type = jf_type info, jr_width_8 = jf_width_8 info, jr_height_8 = jf_height_8 info,
             jr_interval = jf_restart_interval info, jr_precision = jf_qt_precision info,
             jr_tables = jf_qt_data info, jr_scan = take (jf_scan_len info) (drop (jf_scan_offset info) frame)\<rparr>"
    unfolding bodies by (rule jpeg_receive_items [OF items read'(1) inv(2,4)])
  ultimately show ?thesis using send sent(2) marks by auto
qed

theorem jpeg_frame_over_udp_witness:
  "\<exists>self' packets info.
     Compy_JpegTransport_send_frame LittleEndian compy_transport_udp (0, 0) sample_jt
       (Compy_RtpTimestamp_Raw 1) sample_frame = Some (0, self') \<and>
     udp_sent (rt_transport (jt_transport self')) = packets \<and>
     jpeg_receive (map (rtp_body LittleEndian sample_rtp) packets) = Some info \<and>
     jr_scan info = [1, 2, 3, 4, 5, 6, 7, 8] \<and> jr_width_8 info = 2"
proof -
  let ?i = "sample_info\<lparr>jf_scan_offset := 100, jf_scan_len := 8\<rparr>"
  have t: "jt_transport sample_jt = sample_rt" "max_fragment_size (jt_config sample_jt) = 80"
    by (simp_all add: sample_jt_def Compy_JpegTransport_new_with_config_def)
  have ok: "udp_ok 0 (rt_transport sample_rt)" "udp_sent (rt_transport sample_rt) = []"
    by (auto simp: udp_ok_def sample_rt_def Compy_RtpTransport_new_def MAX_RETRANSMITS_def intro!: exI [of _ 0])
  have info: "0 < jf_scan_len ?i" "jf_scan_len ?i \<le> 0xFFFFFF"
    "base_hdr_len ?i + QT_HDR_SIZE + jf_qt_len ?i < 80" "jf_width_8 ?i = 2"
    by (simp_all add: sample_info_def base_hdr_len_def QT_HDR_SIZE_def JPEG_RTP_HDR_SIZE_def RST_HDR_SIZE_def)
  have scan: "take (jf_scan_len ?i) (drop (jf_scan_offset ?i) sample_frame) = [1, 2, 3, 4, 5, 6, 7, 8]"
    by (simp add: sample_frame_def jpeg_bytes_def seg_bytes_def sample_segs_def sample_sos_def)
  show ?thesis
    using jpeg_frame_over_udp [OF _ _ sample_frame_parse info(1,2), of sample_jt LittleEndian "(0, 0)"
        "Compy_RtpTimestamp_Raw 1" sample_rtp] sample_rt_wf ok info(3,4)
    unfolding t ok(2) append_Nil scan by fastforce
qed

end
