(* ===== verification/Jpeg_File.thy ===== *)
theory Jpeg_File
  imports Jpeg_Transport
begin

text \<open>
  What the JPEG parser of \<open>src/jpeg_transport.c\<close> finds in a file, against a description of the file and not of the parser:
  a file is the octets that are printed for quantisation tables, frame headers with their components, restart intervals
  and other segments, as ITU-T T.81 lays them out, and the expected result is read off that description.
\<close>

section \<open>Files\<close>

datatype jpeg_table = Table (tb_wide: bool) (tb_id: nat) (tb_elements: "u8 list")

text \<open>A component of a frame: its identifier, its sampling factors, and its table.\<close>

type_synonym jpeg_component = "u8 \<times> nat \<times> nat \<times> u8"

datatype jpeg_segment =
    Tables "jpeg_table list"
  | FrameHeader u8 u16 u16 "jpeg_component list"
  | RestartInterval u16
  | OtherSegment u8 "u8 list"

definition table_bytes :: "jpeg_table \<Rightarrow> u8 list" where
  "table_bytes t = word_of_nat ((if tb_wide t then 16 else 0) + tb_id t) # tb_elements t"

definition component_bytes :: "jpeg_component \<Rightarrow> u8 list" where
  "component_bytes c = (case c of (i, h, v, tq) \<Rightarrow> [i, word_of_nat (16 * h + v), tq])"

fun segment_of :: "jpeg_segment \<Rightarrow> u8 \<times> u8 list" where
  "segment_of (Tables ts) = (0xDB, concat (map table_bytes ts))"
| "segment_of (FrameHeader precision width height cs) =
     (0xC0, [precision] @ be16 height @ be16 width @ [word_of_nat (length cs)] @ concat (map component_bytes cs))"
| "segment_of (RestartInterval r) = (0xDD, be16 r)"
| "segment_of (OtherSegment m d) = (m, d)"

definition wf_table :: "jpeg_table \<Rightarrow> bool" where
  "wf_table t \<longleftrightarrow> tb_id t < 16 \<and> length (tb_elements t) = (if tb_wide t then 128 else 64)"

fun wf_segment :: "jpeg_segment \<Rightarrow> bool" where
  "wf_segment (Tables ts) \<longleftrightarrow> list_all wf_table ts \<and> length (concat (map table_bytes ts)) + 2 < 65536"
| "wf_segment (FrameHeader precision width height cs) \<longleftrightarrow>
     1 \<le> length cs \<and> length cs \<le> 4 \<and> list_all (\<lambda>(_, h, v, _). h < 16 \<and> v < 16) cs"
| "wf_segment (RestartInterval r) \<longleftrightarrow> True"
| "wf_segment (OtherSegment m d) \<longleftrightarrow> m \<notin> {0xDB, 0xC0, 0xDD} \<and> seg_ok (m, d)"

section \<open>The reference\<close>

definition all_tables :: "jpeg_segment list \<Rightarrow> jpeg_table list" where
  "all_tables ss = concat (map (\<lambda>s. case s of Tables ts \<Rightarrow> ts | _ \<Rightarrow> []) ss)"

definition all_frames :: "jpeg_segment list \<Rightarrow> (u16 \<times> u16 \<times> jpeg_component list) list" where
  "all_frames ss = concat (map (\<lambda>s. case s of FrameHeader _ width height cs \<Rightarrow> [(width, height, cs)] | _ \<Rightarrow> []) ss)"

definition all_intervals :: "jpeg_segment list \<Rightarrow> u16 list" where
  "all_intervals ss = concat (map (\<lambda>s. case s of RestartInterval r \<Rightarrow> [r] | _ \<Rightarrow> []) ss)"

text \<open>RFC 2435: dimensions in blocks of 8 pixels, 0 when they do not fit; type 1 for 4:2:0; a bit for each table of 16-bit elements.\<close>

definition in_blocks :: "u16 \<Rightarrow> u8" where
  "in_blocks x = (if unat x > 2040 then 0 else word_of_nat (unat x div 8))"

definition chroma_type :: "jpeg_component list \<Rightarrow> u8" where
  "chroma_type cs = (if 3 \<le> length cs \<and> (\<exists>i tq. hd cs = (i, 2, 2, tq)) then 1 else 0)"

definition wide_tables :: "jpeg_table list \<Rightarrow> u8" where
  "wide_tables ts = horner_sum of_bool 2 (map (\<lambda>i. list_ex (\<lambda>t. tb_wide t \<and> tb_id t = i) ts) [0..<8])"

definition last_or :: "'a \<Rightarrow> 'a list \<Rightarrow> 'a" where
  "last_or x xs = (if xs = [] then x else last xs)"

definition described_frame :: "jpeg_segment list \<Rightarrow> nat \<Rightarrow> nat \<Rightarrow> JpegFrameInfo option" where
  "described_frame ss scan_offset scan_len =
     (let elements = concat (map tb_elements (all_tables ss)); r = last_or 0 (all_intervals ss)
      in if all_frames ss = [] \<or> elements = [] \<or> length elements > 512 then None
         else
           (case last (all_frames ss) of
              (width, height, cs) \<Rightarrow>
                Some \<lparr>jf_type = chroma_type cs + (if r = 0 then 0 else 64), jf_width_8 = in_blocks width,
                      jf_height_8 = in_blocks height, jf_restart_interval = r, jf_qt_data = elements,
                      jf_qt_precision = wide_tables (all_tables ss),
                      jf_scan_offset = scan_offset, jf_scan_len = scan_len\<rparr>))"

section \<open>The segments as the parser reads them\<close>

lemma last_or_simps [simp]: "last_or x [] = x" "last_or x (xs @ [y]) = y" "last_or x (y # ys) = last_or y ys"
  by (simp_all add: last_or_def)

lemma last_or_append [simp]: "last_or x (xs @ ys) = last_or (last_or x xs) ys"
  by (simp add: last_or_def)

lemma all_simps [simp]:
  "all_tables [] = []" "all_frames [] = []" "all_intervals [] = []"
  "all_tables (s # ss) = (case s of Tables ts \<Rightarrow> ts | _ \<Rightarrow> []) @ all_tables ss"
  "all_frames (s # ss) = (case s of FrameHeader _ width height cs \<Rightarrow> [(width, height, cs)] | _ \<Rightarrow> []) @ all_frames ss"
  "all_intervals (s # ss) = (case s of RestartInterval r \<Rightarrow> [r] | _ \<Rightarrow> []) @ all_intervals ss"
  by (simp_all add: all_tables_def all_frames_def all_intervals_def)

lemma bit_wide_tables: "n < 8 \<Longrightarrow> bit (wide_tables ts) n \<longleftrightarrow> list_ex (\<lambda>t. tb_wide t \<and> tb_id t = n) ts"
  by (simp add: wide_tables_def bit_horner_sum_bit_word_iff)

lemma wide_tables_append: "wide_tables (ts @ us) = wide_tables ts OR wide_tables us"
  by (rule bit_word_eqI) (simp add: bit_wide_tables bit_or_iff)

lemma wide_tables_Nil: "wide_tables [] = 0"
  by (rule bit_word_eqI) (simp add: bit_wide_tables)

lemma wide_tables_Cons:
  "wide_tables (t # ts) = (if tb_wide t \<and> tb_id t < 8 then push_bit (tb_id t) 1 else 0) OR wide_tables ts"
  by (rule bit_word_eqI) (auto simp: bit_wide_tables bit_or_iff bit_exp_iff)

lemma table_octet:
  assumes "i < 16"
  shows "drop_bit 4 (word_of_nat ((if w then 16 else 0) + i) :: u8) AND 0x0F = (if w then 1 else 0)"
    "(word_of_nat ((if w then 16 else 0) + i) :: u8) AND 0x0F = word_of_nat i"
proof -
  have "i \<in> {0..<16}" using assms by simp
  then have "i \<in> {0, 1, 2, 3, 4, 5, 6, 7, 8, 9, 10, 11, 12, 13, 14, 15}" by (auto simp: numeral_eq_Suc less_Suc_eq)
  then show "drop_bit 4 (word_of_nat ((if w then 16 else 0) + i) :: u8) AND 0x0F = (if w then 1 else 0)"
    "(word_of_nat ((if w then 16 else 0) + i) :: u8) AND 0x0F = word_of_nat i"
    by (cases w; auto)+
qed

lemma parse_dqt_tables:
  assumes "list_all wf_table ts" "jf_qt_len info \<le> 512"
  shows "parse_dqt (concat (map table_bytes ts)) info =
     (if jf_qt_len info + length (concat (map tb_elements ts)) > 512 then None
      else Some (info\<lparr>jf_qt_data := jf_qt_data info @ concat (map tb_elements ts),
                      jf_qt_precision := jf_qt_precision info OR wide_tables ts\<rparr>))"
  using assms
proof (induction ts arbitrary: info)
  case Nil
  then show ?case by (simp add: parse_dqt.simps wide_tables_Nil)
next
  case (Cons t ts)
  let ?n = "length (tb_elements t)" and ?b = "word_of_nat ((if tb_wide t then 16 else 0) + tb_id t) :: u8"
  have wf: "tb_id t < 16" "?n = (if tb_wide t then 128 else 64)" using Cons.prems by (simp_all add: wf_table_def)
  let ?info = "info\<lparr>jf_qt_data := jf_qt_data info @ tb_elements t,
    jf_qt_precision := jf_qt_precision info OR (if tb_wide t \<and> tb_id t < 8 then push_bit (tb_id t) 1 else 0)\<rparr>"
  have id: "unat (word_of_nat (tb_id t) :: u8) = tb_id t" "(word_of_nat (tb_id t) :: u8) < 8 \<longleftrightarrow> tb_id t < 8"
    using wf(1) by (simp_all add: unat_of_nat take_bit_eq_mod word_less_nat_alt)
  have "parse_dqt (concat (map table_bytes (t # ts))) info =
      (if jf_qt_len info + ?n > 512 then None else parse_dqt (concat (map table_bytes ts)) ?info)"
    using wf table_octet [OF wf(1), of "tb_wide t"] id
    by (subst parse_dqt.simps) (auto simp: table_bytes_def Let_def MAX_QT_DATA_def)
  then show ?case using Cons.IH [of ?info] Cons.prems by (auto simp: wide_tables_Cons or.assoc)
qed

lemma concat_components: "length (concat (map component_bytes cs)) = 3 * length cs"
  by (induction cs) (auto simp: component_bytes_def split: prod.split)

lemma component_octet:
  assumes "h < 16" "v < 16"
  shows "drop_bit 4 (word_of_nat (16 * h + v) :: u8) AND 0x0F = 2 \<longleftrightarrow> h = 2"
    "(word_of_nat (16 * h + v) :: u8) AND 0x0F = 2 \<longleftrightarrow> v = 2"
proof -
  let ?w = "word_of_nat (16 * h + v) :: u8"
  have mask: "unat (w AND 0x0F) = unat w mod 16" for w :: u8
    by (simp only: and_mask_word unsigned_take_bit_eq) (simp add: take_bit_eq_mod)
  have "unat ?w = 16 * h + v" using assms by (simp only: unat_of_nat) (simp add: take_bit_eq_mod)
  then have "unat (drop_bit 4 ?w AND 0x0F) = h" "unat (?w AND 0x0F) = v"
    unfolding mask using assms by (simp_all add: drop_bit_eq_div unat_div del: of_nat_add of_nat_mult)
  then show "drop_bit 4 ?w AND 0x0F = 2 \<longleftrightarrow> h = 2" "?w AND 0x0F = 2 \<longleftrightarrow> v = 2"
    by (simp_all add: word_unat_eq_iff)
qed

lemma in_blocks_word: "in_blocks w = (if w > 2040 then 0 else ucast (w div 8))"
proof -
  have "take_bit 8 (unat w div 8) = unat w div 8" if "\<not> 2040 < unat w" using that by (simp add: take_bit_eq_mod)
  then show ?thesis by (auto simp: in_blocks_def word_less_nat_alt word_unat_eq_iff unat_div unsigned_ucast_eq unat_of_nat)
qed

lemma parse_sof0_frame:
  assumes "wf_segment (FrameHeader precision width height cs)"
  shows "parse_sof0 (snd (segment_of (FrameHeader precision width height cs))) info =
     Some (info\<lparr>jf_width_8 := in_blocks width, jf_height_8 := in_blocks height, jf_type := chroma_type cs\<rparr>)"
proof -
  obtain i h v tq cs' where cs: "cs = (i, h, v, tq) # cs'" using assms by (cases cs) auto
  have hv: "h < 16" "v < 16" using assms by (simp_all add: cs)
  have n: "unat (word_of_nat (length cs) :: u8) = length cs" using assms by (simp add: unat_of_nat take_bit_eq_mod)
  then have nf: "\<not> (word_of_nat (length cs) :: u8) < 1" "\<not> (word_of_nat (length cs) :: u8) > 4"
    "(word_of_nat (length cs) :: u8) \<ge> 3 \<longleftrightarrow> 3 \<le> length cs"
    using assms by (auto simp: word_less_nat_alt word_le_nat_alt)
  let ?d = "[precision] @ be16 height @ be16 width @ [word_of_nat (length cs)] @ concat (map component_bytes cs)"
  have len: "length ?d = 6 + 3 * length cs" by (simp add: concat_components)
  have at: "?d ! 5 = word_of_nat (length cs)" "?d ! 7 = word_of_nat (16 * h + v)"
    "push_bit 8 (ucast (?d ! 1)) OR ucast (?d ! 2) = height" "push_bit 8 (ucast (?d ! 3)) OR ucast (?d ! 4) = width"
    using of_be16_be16 [of height] of_be16_be16 [of width]
    by (simp_all add: be16_def of_be16_def component_bytes_def cs nth_Cons')
  show ?thesis
    unfolding segment_of.simps snd_conv parse_sof0_def Let_def at len
    using n nf component_octet [OF hv]
    by (simp add: in_blocks_word chroma_type_def cs)
qed

text \<open>What the segments of a file leave in the parser's record.\<close>

definition collected :: "jpeg_segment list \<Rightarrow> JpegFrameInfo \<Rightarrow> JpegFrameInfo" where
  "collected ss info =
     (case last_or (0, 0, []) (all_frames ss) of
        (width, height, cs) \<Rightarrow>
          let info = info\<lparr>jf_restart_interval := last_or (jf_restart_interval info) (all_intervals ss),
                jf_qt_data := jf_qt_data info @ concat (map tb_elements (all_tables ss)),
                jf_qt_precision := jf_qt_precision info OR wide_tables (all_tables ss)\<rparr>
          in if all_frames ss = [] then info
             else info\<lparr>jf_width_8 := in_blocks width, jf_height_8 := in_blocks height, jf_type := chroma_type cs\<rparr>)"

lemma collected_Cons: "collected (s # ss) info = collected ss (collected [s] info)"
  by (cases s; cases "all_frames ss" rule: rev_cases)
    (auto simp: collected_def Let_def wide_tables_append wide_tables_Nil or.assoc split: prod.splits)

lemma read_one_segment:
  assumes "wf_segment s" "jf_qt_len info \<le> 512"
  shows "read_seg (segment_of s) (sof, info) =
     (if jf_qt_len info + length (concat (map tb_elements (all_tables [s]))) > 512 then None
      else Some (sof \<or> all_frames [s] \<noteq> [], collected [s] info))"
proof (cases s)
  case (Tables ts)
  then show ?thesis using assms parse_dqt_tables [of ts info] by (simp add: read_seg_def jpeg_markers collected_def Let_def)
next
  case (FrameHeader precision width height cs)
  then show ?thesis
    using assms parse_sof0_frame [of precision width height cs info]
    by (simp add: read_seg_def jpeg_markers collected_def Let_def wide_tables_Nil)
next
  case (RestartInterval r)
  then show ?thesis using assms by (simp add: read_seg_def jpeg_markers collected_def Let_def wide_tables_Nil)
next
  case (OtherSegment m d)
  then show ?thesis using assms by (simp add: read_seg_def jpeg_markers collected_def Let_def wide_tables_Nil)
qed

lemma read_segments:
  assumes "list_all wf_segment ss" "jf_qt_len info \<le> 512"
  shows "read_segs (map segment_of ss) (sof, info) =
     (if jf_qt_len info + length (concat (map tb_elements (all_tables ss))) > 512 then None
      else Some (sof \<or> all_frames ss \<noteq> [], collected ss info))"
  using assms
proof (induction ss arbitrary: sof info)
  case Nil
  then show ?case by (simp add: collected_def Let_def wide_tables_Nil)
next
  case (Cons s ss)
  have qt: "jf_qt_len (collected [s] info) = jf_qt_len info + length (concat (map tb_elements (all_tables [s])))"
    by (simp add: collected_def Let_def split: prod.split)
  have wf: "wf_segment s" "list_all wf_segment ss" using Cons.prems(1) by simp_all
  have tables: "all_tables (s # ss) = all_tables [s] @ all_tables ss" "all_frames (s # ss) = all_frames [s] @ all_frames ss"
    by simp_all
  show ?case
    using read_one_segment [OF wf(1) Cons.prems(2), of sof] Cons.IH [OF wf(2), of "collected [s] info"] qt
    unfolding tables collected_Cons [of s ss] list.map read_segs.simps by (simp del: all_simps)
qed

lemma wf_segment_ok: "wf_segment s \<Longrightarrow> seg_ok (segment_of s)"
  by (cases s) (simp_all add: seg_ok_def jpeg_markers word_le_nat_alt concat_components)

section \<open>Properties\<close>

text \<open>
  C40. The JPEG parser finds what is in the file: for every file made of quantisation tables, frame headers, restart
  intervals and other segments, a scan header, the scan and the end marker, it gives the dimensions in blocks and the
  chroma type of the last frame header, all tables in the order of the file with the mask of those of 16 bits, the
  last restart interval and the place of the scan; and it refuses exactly the files without a frame header or without a
  table and those with more than 512 octets of tables.
\<close>

theorem jpeg_parser_equivalence:
  assumes "list_all wf_segment ss" "length sos + 2 < 65536"
    and "file = jpeg_bytes (map segment_of ss) sos scan"
  shows "parse_jpeg_frame file jpeg_info_0 = described_frame ss (length file - 2 - length scan) (length scan)"
proof -
  have ok: "list_all seg_ok (map segment_of ss)" using assms(1) wf_segment_ok by (auto simp: list_all_iff)
  have 0: "jf_qt_len jpeg_info_0 \<le> 512" by (simp add: jpeg_info_0_def)
  obtain width height cs where frame: "last_or (0, 0, []) (all_frames ss) = (width, height, cs)" by (metis surj_pair)
  then have "all_frames ss \<noteq> [] \<Longrightarrow> last (all_frames ss) = (width, height, cs)" by (simp add: last_or_def)
  then show ?thesis
    unfolding assms(3) jpeg_parse_segments [OF ok assms(2)] read_segments [OF assms(1) 0]
    by (auto simp: described_frame_def Let_def collected_def frame jpeg_info_0_def word_greater_zero_iff)
qed

text \<open>A file of 1280 by 720 pixels with one table of each width and a restart interval.\<close>

definition sample_file :: "jpeg_segment list" where
  "sample_file = [OtherSegment 0xE0 [1, 2, 3], Tables [Table False 0 (replicate 64 1), Table True 1 (replicate 128 2)],
     FrameHeader 8 1280 720 [(1, 2, 1, 0), (2, 1, 1, 1), (3, 1, 1, 1)], RestartInterval 4]"

theorem jpeg_parser_equivalence_witness:
  "parse_jpeg_frame (jpeg_bytes (map segment_of sample_file) [1, 1, 0, 0, 0x3F, 0] [9, 8, 7]) jpeg_info_0 =
     Some \<lparr>jf_type = 64, jf_width_8 = 160, jf_height_8 = 90, jf_restart_interval = 4,
           jf_qt_data = replicate 64 1 @ replicate 128 2, jf_qt_precision = 2, jf_scan_offset = 242, jf_scan_len = 3\<rparr>"
proof -
  have "wide_tables [Table False 0 (replicate 64 1), Table True 1 (replicate 128 2)] = 2"
    by (simp add: wide_tables_Cons wide_tables_Nil)
  moreover have "list_all wf_segment sample_file"
    by (simp add: sample_file_def wf_table_def table_bytes_def seg_ok_def jpeg_markers word_le_nat_alt)
  moreover have "length (jpeg_bytes (map segment_of sample_file) [1, 1, 0, 0, 0x3F, 0] [9, 8, 7]) = 247"
    by (simp add: sample_file_def jpeg_bytes_def seg_bytes_def table_bytes_def component_bytes_def)
  ultimately show ?thesis
    using jpeg_parser_equivalence [of sample_file "[1, 1, 0, 0, 0x3F, 0]" _ "[9, 8, 7]", OF _ _ refl]
    by (simp add: sample_file_def described_frame_def Let_def in_blocks_def chroma_type_def)
qed

end
