(* ===== verification/Requests.thy ===== *)
theory Requests
  imports Transport_Header
begin

text \<open>
  Requests and responses, \<open>src/types/request.c\<close> and \<open>src/types/response.c\<close>: serialisation, parsing
  from a buffer that grows as data arrives, and equality. Both parsers first skip interleaved
  binary data, and both end with the same code for the body and \<open>CSeq\<close> (\<open>message_tail\<close>).
\<close>

section \<open>What the two parsers share\<close>

text \<open>
  The loop over interleaved frames. \<open>Some None\<close> is the return of a partial result, \<open>None\<close> the
  failed \<open>assert\<close> of \<open>compy_parse_interleaved_header\<close>.
\<close>

function skip_interleaved :: "endian \<Rightarrow> string \<Rightarrow> string option option" where
  "skip_interleaved en input =
     (if length input < 4 then Some None
      else if input ! 0 = CHR ''$'' then
        (case compy_parse_interleaved_header en (map u8_of_char (take 4 input)) of
           None \<Rightarrow> None
         | Some (channel_id, payload_len) \<Rightarrow>
             let input = drop 4 input
             in if length input < unat payload_len then Some None
                else skip_interleaved en (drop (unat payload_len) input))
      else Some (Some input))"
  by pat_completeness auto
termination
  by (relation "measure (\<lambda>(_, input). length input)") auto

declare skip_interleaved.simps [simp del]

text \<open>
  The end of both parsers: \<open>Content-Length\<close>, body, \<open>CSeq\<close>. The body and the sequence number are
  returned as the object then has them.
\<close>

definition message_tail ::
  "Compy_HeaderMap \<Rightarrow> Compy_MessageBody \<Rightarrow> u32 \<Rightarrow> string \<Rightarrow> string \<Rightarrow>
     Compy_ParseResult \<times> Compy_MessageBody \<times> u32" where
  "message_tail header_map body cseq backup input =
     (let parse_rest = (\<lambda>content_length_int.
        (case Compy_MessageBody_parse body input content_length_int of
           (Compy_ParseResult_Success (Compy_ParseStatus_Complete offset), body) \<Rightarrow>
             (let input = drop offset input
              in case Compy_HeaderMap_find header_map COMPY_HEADER_C_SEQ of
                   None \<Rightarrow> (Compy_ParseResult_Failure Compy_ParseError_MissingCSeq, body, cseq)
                 | Some cseq_value \<Rightarrow>
                     (case sscanf_unsigned cseq_value of
                        None \<Rightarrow> (Compy_ParseResult_Failure
                                  (Compy_ParseError_InvalidCSeq cseq_value), body, cseq)
                      | Some cseq \<Rightarrow>
                          (Compy_ParseResult_complete (length backup - length input), body, cseq)))
         | (res, body) \<Rightarrow> (res, body, cseq)))
      in case Compy_HeaderMap_find header_map COMPY_HEADER_CONTENT_LENGTH of
           None \<Rightarrow> parse_rest 0
         | Some content_length \<Rightarrow>
             (case sscanf_zd content_length of
                None \<Rightarrow> (Compy_ParseResult_Failure
                          (Compy_ParseError_ContentLength content_length), body, cseq)
              | Some content_length_int \<Rightarrow> parse_rest content_length_int))"

section \<open>Requests\<close>

record Compy_Request =
  req_start_line :: Compy_RequestLine
  req_header_map :: Compy_HeaderMap
  req_body :: Compy_MessageBody
  req_cseq :: u32

definition Compy_Request_uninit :: Compy_Request where
  "Compy_Request_uninit =
     \<lparr>req_start_line = \<lparr>rql_method = [], rql_uri = [], rql_version = \<lparr>ver_major = 0, ver_minor = 0\<rparr>\<rparr>,
      req_header_map = Compy_HeaderMap_empty, req_body = [], req_cseq = 0\<rparr>"

definition Compy_Request_serialize ::
  "Compy_Request \<Rightarrow> 'w Compy_Writer \<Rightarrow> 'w \<Rightarrow> (int \<times> 'w) option" where
  "Compy_Request_serialize self W w =
     CHK_WRITE_ERR 0 (Compy_RequestLine_serialize (req_start_line self) W w) (\<lambda>result w.
     CHK_WRITE_IF (\<not> Compy_HeaderMap_contains_key (req_header_map self) COMPY_HEADER_C_SEQ) result
       (Compy_Header_serialize
          \<lparr>hdr_key = COMPY_HEADER_C_SEQ, hdr_value = show_nat (unat (req_cseq self))\<rparr> W) w (\<lambda>result w.
     CHK_WRITE_IF (\<not> Compy_HeaderMap_contains_key (req_header_map self) COMPY_HEADER_CONTENT_LENGTH
         \<and> req_body self \<noteq> []) result
       (Compy_Header_serialize
          \<lparr>hdr_key = COMPY_HEADER_CONTENT_LENGTH, hdr_value = show_nat (length (req_body self))\<rparr> W) w
       (\<lambda>result w.
     CHK_WRITE_ERR result (Compy_HeaderMap_serialize (req_header_map self) W w) (\<lambda>result w.
     CHK_WRITE_IF (req_body self \<noteq> []) result (\<lambda>w. w_write W w (req_body self)) w (\<lambda>result w.
       Some (result, w))))))"

definition Compy_Request_parse ::
  "endian \<Rightarrow> Compy_Request \<Rightarrow> string \<Rightarrow> (Compy_ParseResult \<times> Compy_Request) option" where
  "Compy_Request_parse en self backup =
     (case skip_interleaved en backup of
        None \<Rightarrow> None
      | Some None \<Rightarrow> Some (Compy_ParseResult_partial, self)
      | Some (Some input) \<Rightarrow>
          MATCH_INTO (Compy_RequestLine_parse (req_start_line self) input) input
            (\<lambda>x. self\<lparr>req_start_line := x\<rparr>) (\<lambda>self input.
          MATCH_INTO (Compy_HeaderMap_parse (req_header_map self) input) input
            (\<lambda>x. self\<lparr>req_header_map := x\<rparr>) (\<lambda>self input.
            let (res, body, cseq) =
                  message_tail (req_header_map self) (req_body self) (req_cseq self) backup input
            in Some (res, self\<lparr>req_body := body, req_cseq := cseq\<rparr>))))"

definition Compy_Request_eq :: "Compy_Request \<Rightarrow> Compy_Request \<Rightarrow> bool" where
  "Compy_Request_eq lhs rhs \<longleftrightarrow>
     Compy_RequestLine_eq (req_start_line lhs) (req_start_line rhs) \<and>
     Compy_HeaderMap_eq (req_header_map lhs) (req_header_map rhs) \<and>
     Compy_MessageBody_eq (req_body lhs) (req_body rhs) \<and>
     req_cseq lhs = req_cseq rhs"

section \<open>Responses\<close>

record Compy_Response =
  resp_start_line :: Compy_ResponseLine
  resp_header_map :: Compy_HeaderMap
  resp_body :: Compy_MessageBody
  resp_cseq :: u32

definition Compy_Response_uninit :: Compy_Response where
  "Compy_Response_uninit =
     \<lparr>resp_start_line = \<lparr>rsl_version = \<lparr>ver_major = 0, ver_minor = 0\<rparr>, rsl_code = 0, rsl_reason = []\<rparr>,
      resp_header_map = Compy_HeaderMap_empty, resp_body = [], resp_cseq = 0\<rparr>"

definition Compy_Response_serialize ::
  "Compy_Response \<Rightarrow> 'w Compy_Writer \<Rightarrow> 'w \<Rightarrow> (int \<times> 'w) option" where
  "Compy_Response_serialize self W w =
     CHK_WRITE_ERR 0 (Compy_ResponseLine_serialize (resp_start_line self) W w) (\<lambda>result w.
     CHK_WRITE_IF (\<not> Compy_HeaderMap_contains_key (resp_header_map self) COMPY_HEADER_C_SEQ) result
       (Compy_Header_serialize
          \<lparr>hdr_key = COMPY_HEADER_C_SEQ, hdr_value = show_nat (unat (resp_cseq self))\<rparr> W) w (\<lambda>result w.
     CHK_WRITE_IF (\<not> Compy_HeaderMap_contains_key (resp_header_map self) COMPY_HEADER_CONTENT_LENGTH
         \<and> resp_body self \<noteq> []) result
       (Compy_Header_serialize
          \<lparr>hdr_key = COMPY_HEADER_CONTENT_LENGTH, hdr_value = show_nat (length (resp_body self))\<rparr> W) w
       (\<lambda>result w.
     CHK_WRITE_ERR result (Compy_HeaderMap_serialize (resp_header_map self) W w) (\<lambda>result w.
     CHK_WRITE_IF (resp_body self \<noteq> []) result (\<lambda>w. w_write W w (resp_body self)) w (\<lambda>result w.
       Some (result, w))))))"

definition Compy_Response_parse ::
  "endian \<Rightarrow> Compy_Response \<Rightarrow> string \<Rightarrow> (Compy_ParseResult \<times> Compy_Response) option" where
  "Compy_Response_parse en self backup =
     (case skip_interleaved en backup of
        None \<Rightarrow> None
      | Some None \<Rightarrow> Some (Compy_ParseResult_partial, self)
      | Some (Some input) \<Rightarrow>
          MATCH_INTO (Compy_ResponseLine_parse (resp_start_line self) input) input
            (\<lambda>x. self\<lparr>resp_start_line := x\<rparr>) (\<lambda>self input.
          MATCH_INTO (Compy_HeaderMap_parse (resp_header_map self) input) input
            (\<lambda>x. self\<lparr>resp_header_map := x\<rparr>) (\<lambda>self input.
            let (res, body, cseq) =
                  message_tail (resp_header_map self) (resp_body self) (resp_cseq self) backup input
            in Some (res, self\<lparr>resp_body := body, resp_cseq := cseq\<rparr>))))"

definition Compy_Response_eq :: "Compy_Response \<Rightarrow> Compy_Response \<Rightarrow> bool" where
  "Compy_Response_eq lhs rhs \<longleftrightarrow>
     Compy_ResponseLine_eq (resp_start_line lhs) (resp_start_line rhs) \<and>
     Compy_HeaderMap_eq (resp_header_map lhs) (resp_header_map rhs) \<and>
     Compy_MessageBody_eq (resp_body lhs) (resp_body rhs) \<and>
     resp_cseq lhs = resp_cseq rhs"

section \<open>Growing input\<close>

lemma skip_interleaved_frame:
  assumes "4 \<le> length input" "input ! 0 = CHR ''$''"
  obtains ch n where "compy_parse_interleaved_header en (map u8_of_char (take 4 input)) = Some (ch, n)"
  using assms by (auto simp: compy_parse_interleaved_header_def)

lemma skip_interleaved_no_fault: "skip_interleaved en input \<noteq> None"
proof (induction "length input" arbitrary: input rule: less_induct)
  case less
  then show ?case
    by (subst skip_interleaved.simps)
      (auto simp: Let_def compy_parse_interleaved_header_def split: option.split)
qed

lemma skip_interleaved_induct [consumes 1, case_names Done Frame]:
  assumes "skip_interleaved en input = Some (Some rest)"
    and "4 \<le> length rest \<Longrightarrow> rest ! 0 \<noteq> CHR ''$'' \<Longrightarrow> P rest"
    and "\<And>input ch n. 4 + unat n \<le> length input \<Longrightarrow> input ! 0 = CHR ''$'' \<Longrightarrow>
        compy_parse_interleaved_header en (map u8_of_char (take 4 input)) = Some (ch, n) \<Longrightarrow>
        P (drop (4 + unat n) input) \<Longrightarrow> P input"
  shows "P input"
  using assms(1)
proof (induction "length input" arbitrary: input rule: less_induct)
  case less
  note turn = less(2) [unfolded skip_interleaved.simps [of en input]]
  show ?case
  proof (cases "input ! 0 = CHR ''$''")
    case True
    with turn obtain ch n where n: "4 \<le> length input"
      "compy_parse_interleaved_header en (map u8_of_char (take 4 input)) = Some (ch, n)"
      by (auto simp: compy_parse_interleaved_header_def split: if_splits)
    with turn True have len: "4 + unat n \<le> length input"
      and rest: "skip_interleaved en (drop (4 + unat n) input) = Some (Some rest)"
      by (auto simp: Let_def add.commute split: if_splits)
    have "P (drop (4 + unat n) input)" by (rule less(1) [OF _ rest]) (use n in auto)
    with assms(3) [OF len True n(2)] show ?thesis .
  next
    case False
    with turn assms(2) show ?thesis by (auto split: if_splits)
  qed
qed

lemma skip_interleaved_suffix:
  assumes "skip_interleaved en input = Some (Some rest)"
  shows "length rest \<le> length input \<and> 4 \<le> length rest"
  using assms by (induction rule: skip_interleaved_induct) auto

lemma skip_interleaved_is_drop:
  assumes "skip_interleaved en input = Some (Some rest)"
  shows "\<exists>k. rest = drop k input"
  using assms
proof (induction rule: skip_interleaved_induct)
  case Done
  show ?case by (rule exI [of _ 0]) simp
qed auto

lemma skip_interleaved_stable:
  assumes "skip_interleaved en input = Some (Some rest)"
  shows "skip_interleaved en (input @ ext) = Some (Some (rest @ ext))"
  using assms
proof (induction rule: skip_interleaved_induct)
  case Done
  then show ?case by (subst skip_interleaved.simps) (auto simp: nth_append)
next
  case (Frame input ch n)
  then show ?case by (subst skip_interleaved.simps) (auto simp: nth_append Let_def add.commute)
qed

lemma message_tail_complete:
  assumes "message_tail m body cseq backup input = (Compy_ParseResult_complete off, body', cseq')"
    and "length input \<le> length backup"
  shows "length backup - length input \<le> off \<and> off \<le> length backup \<and>
     message_tail m body cseq (backup @ ext) (input @ ext) =
       (Compy_ParseResult_complete off, body', cseq')"
  using assms
  by (auto simp: message_tail_def Compy_MessageBody_parse_def Let_def split: option.splits if_splits)

text \<open>The tail as a continuation of the header map parser.\<close>

lemma message_tail_step:
  assumes "(let (res, body, cseq) = message_tail m b c backup input in Some (res, f body cseq)) =
      Some (Compy_ParseResult_complete off, s')"
    and "length input \<le> length backup"
  shows "length backup - length input \<le> off \<and> off \<le> length backup"
    and "(let (res, body, cseq) = message_tail m b c (backup @ ext) (input @ ext)
          in Some (res, f body cseq)) = Some (Compy_ParseResult_complete off, s')"
  using assms message_tail_complete [of m b c backup input off _ _ ext]
  by (auto split: prod.splits)

interpretation request_parser: incremental_parser "Compy_Request_parse en" for en
proof (unfold_locales, goal_cases)
  case (1 self input off self')
  then obtain rest where rest: "skip_interleaved en input = Some (Some rest)"
    by (auto simp: Compy_Request_parse_def split: option.splits)
  from 1 skip_interleaved_suffix [OF rest] show ?case
    unfolding Compy_Request_parse_def rest option.case
    by - (erule request_line_parser.MATCH_INTO_consumes, erule header_map_parser.MATCH_INTO_consumes,
      drule message_tail_step(1), auto)
next
  case (2 self input off self' ext)
  then obtain rest where rest: "skip_interleaved en input = Some (Some rest)"
    by (auto simp: Compy_Request_parse_def split: option.splits)
  note len = skip_interleaved_suffix [OF rest]
  from 2(1) have "MATCH_INTO (Compy_RequestLine_parse (req_start_line self) rest) rest
      (\<lambda>x. self\<lparr>req_start_line := x\<rparr>) (\<lambda>self input'.
    MATCH_INTO (Compy_HeaderMap_parse (req_header_map self) input') input'
      (\<lambda>x. self\<lparr>req_header_map := x\<rparr>) (\<lambda>self input'.
      let (res, body, cseq) =
            message_tail (req_header_map self) (req_body self) (req_cseq self) input input'
      in Some (res, self\<lparr>req_body := body, req_cseq := cseq\<rparr>))) =
    Some (Compy_ParseResult_complete off, self')"
    by (simp add: Compy_Request_parse_def rest)
  then show ?case
    unfolding Compy_Request_parse_def skip_interleaved_stable [OF rest] option.case
    by (rule request_line_parser.MATCH_INTO_step [OF _ 2(2)],
        elim header_map_parser.MATCH_INTO_step [OF _ 2(2)])
      (rule message_tail_step(2), assumption, use len in auto)
qed

interpretation response_parser: incremental_parser "Compy_Response_parse en" for en
proof (unfold_locales, goal_cases)
  case (1 self input off self')
  then obtain rest where rest: "skip_interleaved en input = Some (Some rest)"
    by (auto simp: Compy_Response_parse_def split: option.splits)
  from 1 skip_interleaved_suffix [OF rest] show ?case
    unfolding Compy_Response_parse_def rest option.case
    by - (erule response_line_parser.MATCH_INTO_consumes, erule header_map_parser.MATCH_INTO_consumes,
      drule message_tail_step(1), auto)
next
  case (2 self input off self' ext)
  then obtain rest where rest: "skip_interleaved en input = Some (Some rest)"
    by (auto simp: Compy_Response_parse_def split: option.splits)
  note len = skip_interleaved_suffix [OF rest]
  from 2(1) have "MATCH_INTO (Compy_ResponseLine_parse (resp_start_line self) rest) rest
      (\<lambda>x. self\<lparr>resp_start_line := x\<rparr>) (\<lambda>self input'.
    MATCH_INTO (Compy_HeaderMap_parse (resp_header_map self) input') input'
      (\<lambda>x. self\<lparr>resp_header_map := x\<rparr>) (\<lambda>self input'.
      let (res, body, cseq) =
            message_tail (resp_header_map self) (resp_body self) (resp_cseq self) input input'
      in Some (res, self\<lparr>resp_body := body, resp_cseq := cseq\<rparr>))) =
    Some (Compy_ParseResult_complete off, self')"
    by (simp add: Compy_Response_parse_def rest)
  then show ?case
    unfolding Compy_Response_parse_def skip_interleaved_stable [OF rest] option.case
    by (rule response_line_parser.MATCH_INTO_step [OF _ 2(2)],
        elim header_map_parser.MATCH_INTO_step [OF _ 2(2)])
      (rule message_tail_step(2), assumption, use len in auto)
qed

section \<open>The text of a message, and reading it back\<close>

text \<open>The headers on the wire: \<open>CSeq\<close> and \<open>Content-Length\<close> are added in front if they are missing.\<close>

definition wire_headers :: "u32 \<Rightarrow> Compy_MessageBody \<Rightarrow> Compy_HeaderMap \<Rightarrow> Compy_HeaderMap" where
  "wire_headers cseq body m =
     (if \<not> Compy_HeaderMap_contains_key m COMPY_HEADER_C_SEQ
      then [\<lparr>hdr_key = COMPY_HEADER_C_SEQ, hdr_value = show_nat (unat cseq)\<rparr>] else []) @
     (if \<not> Compy_HeaderMap_contains_key m COMPY_HEADER_CONTENT_LENGTH \<and> body \<noteq> []
      then [\<lparr>hdr_key = COMPY_HEADER_CONTENT_LENGTH, hdr_value = show_nat (length body)\<rparr>] else []) @ m"

definition request_text :: "Compy_Request \<Rightarrow> string" where
  "request_text r = request_line_text (req_start_line r) @
     headers_text (wire_headers (req_cseq r) (req_body r) (req_header_map r)) @ req_body r"

definition response_text :: "Compy_Response \<Rightarrow> string" where
  "response_text r = response_line_text (resp_start_line r) @
     headers_text (wire_headers (resp_cseq r) (resp_body r) (resp_header_map r)) @ resp_body r"

text \<open>
  The headers and the body agree and fit: they can be read back when \<open>rest\<close> follows in the buffer.
\<close>

definition wf_headers :: "u32 \<Rightarrow> Compy_MessageBody \<Rightarrow> Compy_HeaderMap \<Rightarrow> bool" where
  "wf_headers cseq body m \<longleftrightarrow>
     list_all (\<lambda>h. wf_header h \<and> nul_free (hdr_value h)) m \<and>
     length (wire_headers cseq body m) \<le> COMPY_HEADER_MAP_CAPACITY \<and>
     (case Compy_HeaderMap_find m COMPY_HEADER_C_SEQ of
        None \<Rightarrow> True | Some v \<Rightarrow> sscanf_unsigned v = Some cseq) \<and>
     (case Compy_HeaderMap_find m COMPY_HEADER_CONTENT_LENGTH of
        None \<Rightarrow> True | Some v \<Rightarrow> sscanf_zd v = Some (length body)) \<and>
     length body < 2 ^ 63 \<and> nul_free body"

definition wf_request :: "Compy_Request \<Rightarrow> bool" where
  "wf_request r \<longleftrightarrow>
     wf_method (rql_method (req_start_line r)) \<and> wf_uri (rql_uri (req_start_line r)) \<and>
     nul_free (rql_uri (req_start_line r)) \<and> wf_headers (req_cseq r) (req_body r) (req_header_map r)"

definition wf_response :: "Compy_Response \<Rightarrow> bool" where
  "wf_response r \<longleftrightarrow>
     wf_line (rsl_reason (resp_start_line r)) \<and> nul_free (rsl_reason (resp_start_line r)) \<and>
     wf_headers (resp_cseq r) (resp_body r) (resp_header_map r)"

lemma crlf_free_digits: "list_all isdigit v \<Longrightarrow> crlf_free v"
  by (induction v rule: crlf_free.induct) (auto simp: isdigit_def)

lemma wf_line_show_nat: "wf_line (show_nat n)"
proof -
  have "isdigit (hd (show_nat n))" using show_nat_digits [OF hd_in_set [OF show_nat_not_Nil]] .
  then have "\<not> starts_with (show_nat n) '' ''"
    by (cases "show_nat n") (auto simp: starts_with_def isdigit_def)
  then show ?thesis by (simp add: wf_line_def crlf_free_digits)
qed

lemma header_names_wf [simp]:
  "list_all header_name_char_matcher COMPY_HEADER_C_SEQ" "COMPY_HEADER_C_SEQ \<noteq> []"
  "list_all header_name_char_matcher COMPY_HEADER_CONTENT_LENGTH" "COMPY_HEADER_CONTENT_LENGTH \<noteq> []"
  "COMPY_HEADER_C_SEQ \<noteq> COMPY_HEADER_CONTENT_LENGTH"
  by (simp_all add: COMPY_HEADER_C_SEQ_def COMPY_HEADER_CONTENT_LENGTH_def
      header_name_char_matcher_def isalpha_def)

lemma nul_free_token:
  "list_all header_name_char_matcher k \<Longrightarrow> nul_free k" "list_all ident_matcher k \<Longrightarrow> nul_free k"
  by (auto simp: nul_free_def list_all_iff header_name_char_matcher_def ident_matcher_def
      isalnum_def isalpha_def isdigit_def)

lemma wire_headers_wf:
  "wf_headers cseq body m \<Longrightarrow>
     list_all (\<lambda>h. wf_header h \<and> nul_free (hdr_key h) \<and> nul_free (hdr_value h)) (wire_headers cseq body m)"
  by (auto simp: wf_headers_def wire_headers_def wf_header_def wf_line_show_nat nul_free_token
      elim!: list.pred_mono_strong)

lemma wire_headers_find:
  assumes "wf_headers cseq body m"
  shows "\<exists>v. Compy_HeaderMap_find (wire_headers cseq body m) COMPY_HEADER_C_SEQ = Some v \<and>
      sscanf_unsigned v = Some cseq"
    and "case Compy_HeaderMap_find (wire_headers cseq body m) COMPY_HEADER_CONTENT_LENGTH of
      None \<Rightarrow> body = [] | Some v \<Rightarrow> sscanf_zd v = Some (length body)"
  using assms
  by (auto simp: wf_headers_def wire_headers_def Compy_HeaderMap_contains_key_def
      sscanf_unsigned_show_nat sscanf_zd_show_nat split: option.splits)

lemma message_tail_text:
  assumes "wf_headers cseq body m"
  shows "message_tail (wire_headers cseq body m) b c backup (body @ rest) =
     (Compy_ParseResult_complete (length backup - length rest), body, cseq)"
  using wire_headers_find [OF assms]
  by (auto simp: message_tail_def Compy_MessageBody_parse_def Let_def split: option.splits)

lemma skip_interleaved_none:
  "4 \<le> length input \<Longrightarrow> hd input \<noteq> CHR ''$'' \<Longrightarrow> skip_interleaved en input = Some (Some input)"
  by (subst skip_interleaved.simps) (cases input; simp)

lemma request_text_start:
  assumes "wf_method (rql_method l)"
  shows "4 \<le> length (request_line_text l @ rest)" "hd (request_line_text l @ rest) \<noteq> CHR ''$''"
  using assms
  by (cases "rql_method l"; auto simp: request_line_text_def version_text_def wf_method_def
      ident_matcher_def isalnum_def isalpha_def isdigit_def)+

lemma response_text_start:
  "4 \<le> length (response_line_text l @ rest)" "hd (response_line_text l @ rest) \<noteq> CHR ''$''"
  by (auto simp: response_line_text_def version_text_def)

lemma request_parse_text:
  assumes "wf_request r" "no_cr_end (req_body r @ rest)"
  shows "Compy_Request_parse en self (request_text r @ rest) =
     Some (Compy_ParseResult_complete (length (request_text r)),
           r\<lparr>req_header_map := wire_headers (req_cseq r) (req_body r) (req_header_map r)\<rparr>)"
proof -
  let ?m = "wire_headers (req_cseq r) (req_body r) (req_header_map r)"
  from assms(1) have wf: "wf_headers (req_cseq r) (req_body r) (req_header_map r)"
    and line: "wf_method (rql_method (req_start_line r))" "wf_uri (rql_uri (req_start_line r))"
    by (auto simp: wf_request_def)
  have "Compy_HeaderMap_parse h (headers_text ?m @ req_body r @ rest) =
      Some (Compy_ParseResult_complete (length (headers_text ?m)), ?m)" for h
    using wire_headers_wf [OF wf] wf assms(2)
    by (intro header_map_parse_text) (auto simp: wf_headers_def list_all_iff)
  then show ?thesis
    using skip_interleaved_none [OF request_text_start [OF line(1)], of en]
      request_line_parse_text [OF line] message_tail_text [OF wf]
    by (simp add: Compy_Request_parse_def request_text_def)
qed

lemma response_parse_text:
  assumes "wf_response r" "no_cr_end (resp_body r @ rest)"
  shows "Compy_Response_parse en self (response_text r @ rest) =
     Some (Compy_ParseResult_complete (length (response_text r)),
           r\<lparr>resp_header_map := wire_headers (resp_cseq r) (resp_body r) (resp_header_map r)\<rparr>)"
proof -
  let ?m = "wire_headers (resp_cseq r) (resp_body r) (resp_header_map r)"
  from assms(1) have wf: "wf_headers (resp_cseq r) (resp_body r) (resp_header_map r)"
    and line: "wf_line (rsl_reason (resp_start_line r))"
    by (auto simp: wf_response_def)
  have "Compy_HeaderMap_parse h (headers_text ?m @ resp_body r @ rest) =
      Some (Compy_ParseResult_complete (length (headers_text ?m)), ?m)" for h
    using wire_headers_wf [OF wf] wf assms(2)
    by (intro header_map_parse_text) (auto simp: wf_headers_def list_all_iff)
  then show ?thesis
    using skip_interleaved_none [OF response_text_start, of en]
      response_line_parse_text [OF line] message_tail_text [OF wf]
    by (simp add: Compy_Response_parse_def response_text_def)
qed

subsection \<open>Serialisation\<close>

context message_writer
begin

lemma wire_headers_text:
  "(if \<not> Compy_HeaderMap_contains_key m COMPY_HEADER_C_SEQ
    then header_text \<lparr>hdr_key = COMPY_HEADER_C_SEQ, hdr_value = show_nat (unat cseq)\<rparr> else []) @
   (if \<not> Compy_HeaderMap_contains_key m COMPY_HEADER_CONTENT_LENGTH \<and> body \<noteq> []
    then header_text \<lparr>hdr_key = COMPY_HEADER_CONTENT_LENGTH, hdr_value = show_nat (length body)\<rparr> else []) @
   headers_text m @ (if body \<noteq> [] then body else []) @ [] =
   headers_text (wire_headers cseq body m) @ body"
  by (simp add: headers_text_def wire_headers_def)

lemma request_emits:
  assumes "ok (rql_method (req_start_line r))" "ok (rql_uri (req_start_line r))"
    and "list_all (\<lambda>h. ok (hdr_key h) \<and> ok (hdr_value h)) (req_header_map r)"
    and "ok COMPY_HEADER_C_SEQ" "ok COMPY_HEADER_CONTENT_LENGTH" "ok (req_body r)"
  shows "emits out (Compy_Request_serialize r W w) 0 w (request_text r)"
  unfolding Compy_Request_serialize_def request_text_def wire_headers_text [symmetric]
  by (intro emits_CHK_WRITE_ERR emits_CHK_WRITE_IF request_line_emits header_emits header_map_emits
      write_emits emits_done) (simp_all add: assms ok_nat)

lemma response_emits:
  assumes "ok (rsl_reason (resp_start_line r))"
    and "list_all (\<lambda>h. ok (hdr_key h) \<and> ok (hdr_value h)) (resp_header_map r)"
    and "ok COMPY_HEADER_C_SEQ" "ok COMPY_HEADER_CONTENT_LENGTH" "ok (resp_body r)"
  shows "emits out (Compy_Response_serialize r W w) 0 w (response_text r)"
  unfolding Compy_Response_serialize_def response_text_def wire_headers_text [symmetric]
  by (intro emits_CHK_WRITE_ERR emits_CHK_WRITE_IF response_line_emits header_emits header_map_emits
      write_emits emits_done) (simp_all add: assms ok_nat)

end

lemma wf_headers_nul_free:
  assumes "wf_headers cseq body m"
  shows "list_all (\<lambda>h. nul_free (hdr_key h) \<and> nul_free (hdr_value h)) m"
  using wire_headers_wf [OF assms] by (auto simp: wire_headers_def elim!: list.pred_mono_strong)

lemma request_serialize_string:
  assumes "wf_request r"
  shows "Compy_Request_serialize r compy_string_writer w =
     Some (int (length (request_text r)), w @ request_text r)"
  using string_message_writer.request_emits [of r w] assms wf_headers_nul_free
  by (auto simp: wf_request_def wf_method_def nul_free_token wf_headers_def emits_def)

lemma response_serialize_string:
  assumes "wf_response r"
  shows "Compy_Response_serialize r compy_string_writer w =
     Some (int (length (response_text r)), w @ response_text r)"
  using string_message_writer.response_emits [of r w] assms wf_headers_nul_free
  by (auto simp: wf_response_def nul_free_token wf_headers_def emits_def)

section \<open>Properties\<close>

text \<open>
  C1. A well-formed request written by \<open>Compy_Request_serialize\<close> is read back by \<open>Compy_Request_parse\<close>, in front of
  anything that follows it in a buffer that does not end in a carriage return, and exactly its text is consumed: start line, headers
  (with \<open>CSeq\<close> and \<open>Content-Length\<close> added when they are missing), body and sequence number.
\<close>

theorem request_roundtrip:
  assumes "wf_request r" "no_cr_end (req_body r @ rest)"
  shows "\<exists>msg. Compy_Request_serialize r compy_string_writer [] = Some (int (length msg), msg) \<and>
     Compy_Request_parse en self (msg @ rest) =
       Some (Compy_ParseResult_complete (length msg),
             r\<lparr>req_header_map := wire_headers (req_cseq r) (req_body r) (req_header_map r)\<rparr>)"
  using request_serialize_string [OF assms(1), of "[]"] request_parse_text [OF assms] by simp

lemmas wf_message_defs =
  wf_request_def wf_response_def wf_headers_def wf_header_def wf_line_def wf_method_def wf_uri_def
  wire_headers_def Compy_HeaderMap_contains_key_def COMPY_HEADER_C_SEQ_def
  COMPY_HEADER_CONTENT_LENGTH_def COMPY_HEADER_MAP_CAPACITY_def starts_with_def
  ident_matcher_def isalnum_def isalpha_def isdigit_def header_name_char_matcher_def
  whitespace_matcher_def non_whitespace_matcher_def

definition sample_request :: Compy_Request where
  "sample_request =
     \<lparr>req_start_line = \<lparr>rql_method = COMPY_METHOD_GET_PARAMETER, rql_uri = ''rtsp://cam/1'',
        rql_version = \<lparr>ver_major = 1, ver_minor = 0\<rparr>\<rparr>,
      req_header_map = [\<lparr>hdr_key = ''Session'', hdr_value = ''42''\<rparr>],
      req_body = ''jitter'', req_cseq = 7\<rparr>"

lemma sample_request_wf: "wf_request sample_request"
  by (simp add: sample_request_def COMPY_METHOD_GET_PARAMETER_def wf_message_defs)

theorem request_roundtrip_witness:
  "\<exists>msg. Compy_Request_serialize sample_request compy_string_writer [] = Some (int (length msg), msg) \<and>
     Compy_Request_parse LittleEndian Compy_Request_uninit (msg @ ''OPTIONS'') =
       Some (Compy_ParseResult_complete (length msg),
             sample_request\<lparr>req_header_map :=
               wire_headers (req_cseq sample_request) (req_body sample_request) (req_header_map sample_request)\<rparr>)"
  by (rule request_roundtrip [OF sample_request_wf])
    (simp add: no_cr_end_def ends_with_def)

text \<open>
  A response written by \<open>Compy_Response_serialize\<close> is read back by \<open>Compy_Response_parse\<close> in the
  same way: version, status code, reason phrase, headers, body and sequence number.
\<close>

theorem response_roundtrip:
  assumes "wf_response r" "no_cr_end (resp_body r @ rest)"
  shows "\<exists>msg. Compy_Response_serialize r compy_string_writer [] = Some (int (length msg), msg) \<and>
     Compy_Response_parse en self (msg @ rest) =
       Some (Compy_ParseResult_complete (length msg),
             r\<lparr>resp_header_map := wire_headers (resp_cseq r) (resp_body r) (resp_header_map r)\<rparr>)"
  using response_serialize_string [OF assms(1), of "[]"] response_parse_text [OF assms] by simp

definition sample_response :: Compy_Response where
  "sample_response =
     \<lparr>resp_start_line = \<lparr>rsl_version = \<lparr>ver_major = 1, ver_minor = 0\<rparr>, rsl_code = COMPY_STATUS_OK,
        rsl_reason = ''OK''\<rparr>,
      resp_header_map = [\<lparr>hdr_key = ''Content-Type'', hdr_value = ''application/sdp''\<rparr>],
      resp_body = ''v=0'', resp_cseq = 312\<rparr>"

lemma sample_response_wf: "wf_response sample_response"
  by (simp add: sample_response_def wf_message_defs)

theorem response_roundtrip_witness:
  "\<exists>msg. Compy_Response_serialize sample_response compy_string_writer [] = Some (int (length msg), msg) \<and>
     Compy_Response_parse LittleEndian Compy_Response_uninit (msg @ []) =
       Some (Compy_ParseResult_complete (length msg),
             sample_response\<lparr>resp_header_map :=
               wire_headers (resp_cseq sample_response) (resp_body sample_response) (resp_header_map sample_response)\<rparr>)"
  by (rule response_roundtrip [OF sample_response_wf])
    (simp add: sample_response_def no_cr_end_def ends_with_def)

lemma header_map_parse_loop_pending:
  assumes "header_map_parse_loop backup m i = Some (Compy_ParseResult_complete off, m')"
  shows "i \<noteq> []" "\<not> ends_with i [CHR 0x0D]"
  using assms by (induction rule: header_map_parse_loop_induct) (auto simp: starts_with_def CRLF_def)

text \<open>
  A buffer that ends in a carriage return is never accepted, not even if it holds a whole
  message whose body (or pipelined data behind it) happens to end in that octet: the header map
  parser takes the octet for the first half of an unfinished line end.
\<close>

theorem request_parse_cr_end:
  "Compy_Request_parse en self (input @ [CHR 0x0D]) \<noteq> Some (Compy_ParseResult_complete off, r)"
proof
  assume "Compy_Request_parse en self (input @ [CHR 0x0D]) = Some (Compy_ParseResult_complete off, r)"
  moreover define i where "i = input @ [CHR 0x0D]"
  ultimately have *: "Compy_Request_parse en self i = Some (Compy_ParseResult_complete off, r)" by simp
  have suffix: "drop n i = [] \<or> ends_with (drop n i) [CHR 0x0D]" for n
    unfolding i_def by (cases "n \<le> length input") (simp_all add: ends_with_single)
  obtain k where "skip_interleaved en i = Some (Some (drop k i))"
    using * skip_interleaved_is_drop [of en i]
    by (auto simp: Compy_Request_parse_def split: option.splits)
  with * obtain n m where "Compy_HeaderMap_parse (req_header_map self) (drop n i) =
      Some (Compy_ParseResult_complete m, req_header_map r)"
    by (auto simp: Compy_Request_parse_def MATCH_INTO_complete case_prod_beta)
  with suffix [of n] show False
    by (auto simp: Compy_HeaderMap_parse_def dest: header_map_parse_loop_pending)
qed

text \<open>
  C7. Parsing a growing buffer: once a request is complete, the offset lies in the buffer and is
  positive, and when more data arrives behind it that does not end in a carriage return, the result stays
  the same, offset and contents. When the data ends in a carriage return, the request is not complete
  until more has arrived.
\<close>

theorem request_parse_incremental:
  assumes "Compy_Request_parse en self input = Some (Compy_ParseResult_complete off, r)"
  shows "0 < off \<and> off \<le> length input \<and>
     (if no_cr_end ext
      then Compy_Request_parse en self (input @ ext) = Some (Compy_ParseResult_complete off, r)
      else \<forall>off' r'. Compy_Request_parse en self (input @ ext) \<noteq> Some (Compy_ParseResult_complete off', r'))"
proof -
  have "\<exists>pre. ext = pre @ [CHR 0x0D]" if "\<not> no_cr_end ext"
    using that by (cases ext rule: rev_cases) (simp_all add: no_cr_end_def ends_with_single)
  then have "Compy_Request_parse en self (input @ ext) \<noteq> Some (Compy_ParseResult_complete off', r')"
    if "\<not> no_cr_end ext" for off' r'
    using that request_parse_cr_end [of en self "input @ pre" for pre] by auto
  then show ?thesis using request_parser.consumes [OF assms] request_parser.stable [OF assms, of ext] by simp
qed

text \<open>The evaluation of the parser on a concrete message, used by the witnesses.\<close>

lemmas eval_parse =
  Compy_Request_parse_def Compy_Response_parse_def skip_interleaved.simps
  Compy_RequestLine_parse_def Compy_ResponseLine_parse_def part_defs match_defs
  compy_match_until_def whitespace_matcher_def non_whitespace_matcher_def ident_matcher_def
  isalnum_def isalpha_def isdigit_def compy_match_ident_def compy_match_numeric_def
  compy_match_header_name_def header_name_char_matcher_def numeric_matcher_def char_matcher_def
  compy_match_str_def compy_match_until_crlf_def compy_match_until_str_def CRLF_def Let_def
  from_ptrdiff_def line_before_def Compy_HeaderMap_parse_def header_map_parse_loop.simps
  ends_with_def starts_with_def Compy_HeaderMap_is_full_def Compy_HeaderMap_append_def
  COMPY_HEADER_MAP_CAPACITY_def COMPY_HEADER_C_SEQ_def COMPY_HEADER_CONTENT_LENGTH_def
  message_tail_def Compy_MessageBody_parse_def sscanf_unsigned_def sscanf_zd_def c_str_def
  scan_integer_def scan_sign_def isspace_def digit_val_def strtoul_value_def strtol_value_def
  Compy_Request_uninit_def Compy_HeaderMap_empty_def

definition sample_input :: string where
  "sample_input = ''OPTIONS * RTSP/1.0'' @ CRLF @ ''CSeq: 3'' @ CRLF @ CRLF"

lemma sample_input_parse:
  "Compy_Request_parse en Compy_Request_uninit sample_input =
     Some (Compy_ParseResult_complete 31,
       \<lparr>req_start_line = \<lparr>rql_method = ''OPTIONS'', rql_uri = ''*'',
          rql_version = \<lparr>ver_major = 1, ver_minor = 0\<rparr>\<rparr>,
        req_header_map = [\<lparr>hdr_key = ''CSeq'', hdr_value = ''3''\<rparr>], req_body = [], req_cseq = 3\<rparr>)"
  by (simp add: eval_parse sample_input_def)

theorem request_parse_incremental_witness:
  "Compy_Request_parse BigEndian Compy_Request_uninit (sample_input @ ''PLA'') =
     Some (Compy_ParseResult_complete 31,
       \<lparr>req_start_line = \<lparr>rql_method = ''OPTIONS'', rql_uri = ''*'',
          rql_version = \<lparr>ver_major = 1, ver_minor = 0\<rparr>\<rparr>,
        req_header_map = [\<lparr>hdr_key = ''CSeq'', hdr_value = ''3''\<rparr>], req_body = [], req_cseq = 3\<rparr>) \<and>
   (\<forall>off r. Compy_Request_parse BigEndian Compy_Request_uninit (sample_input @ [CHR 0x0D]) \<noteq>
      Some (Compy_ParseResult_complete off, r))"
  using request_parse_incremental [OF sample_input_parse [of BigEndian], of "''PLA''"]
    request_parse_incremental [OF sample_input_parse [of BigEndian], of "[CHR 0x0D]"]
  by (simp add: no_cr_end_def ends_with_def)

text \<open>
  The response parser keeps the same contract: a complete response stays complete, with the
  same offset and contents, when more data arrives behind it.
\<close>

theorem response_parse_incremental:
  assumes "Compy_Response_parse en self input = Some (Compy_ParseResult_complete off, r)" "no_cr_end ext"
  shows "0 < off \<and> off \<le> length input \<and>
     Compy_Response_parse en self (input @ ext) = Some (Compy_ParseResult_complete off, r)"
  using response_parser.consumes [OF assms(1)] response_parser.stable [OF assms] by simp

definition sample_response_input :: string where
  "sample_response_input = ''RTSP/1.0 200 OK'' @ CRLF @ ''CSeq: 3'' @ CRLF @ CRLF"

lemma sample_response_input_parse:
  "Compy_Response_parse en Compy_Response_uninit sample_response_input =
     Some (Compy_ParseResult_complete 28,
       \<lparr>resp_start_line = \<lparr>rsl_version = \<lparr>ver_major = 1, ver_minor = 0\<rparr>, rsl_code = 200, rsl_reason = ''OK''\<rparr>,
        resp_header_map = [\<lparr>hdr_key = ''CSeq'', hdr_value = ''3''\<rparr>], resp_body = [], resp_cseq = 3\<rparr>)"
  by (simp add: eval_parse sample_response_input_def Compy_Response_uninit_def)

theorem response_parse_incremental_witness:
  "0 < (28 :: nat) \<and> 28 \<le> length sample_response_input \<and>
     Compy_Response_parse BigEndian Compy_Response_uninit (sample_response_input @ ''RTSP'') =
     Some (Compy_ParseResult_complete 28,
       \<lparr>resp_start_line = \<lparr>rsl_version = \<lparr>ver_major = 1, ver_minor = 0\<rparr>, rsl_code = 200, rsl_reason = ''OK''\<rparr>,
        resp_header_map = [\<lparr>hdr_key = ''CSeq'', hdr_value = ''3''\<rparr>], resp_body = [], resp_cseq = 3\<rparr>)"
  by (rule response_parse_incremental [OF sample_response_input_parse])
    (simp add: no_cr_end_def ends_with_def)

text \<open>
  C32. The only out-of-bounds read of the request parser: it faults exactly on a buffer whose request
  line has a method and a URI and ends, after blanks, with \<open>RTSP/\<close>, where
  \<open>compy_match_numeric\<close> reads the character behind the end of the slice.
\<close>

theorem request_parse_fault:
  "Compy_Request_parse en self input = None \<longleftrightarrow>
     (\<exists>line n1 m n2 u sp. skip_interleaved en input = Some (Some line) \<and>
        Compy_Method_parse (rql_method (req_start_line self)) line =
          Some (Compy_ParseResult_complete n1, m) \<and>
        Compy_RequestUri_parse (rql_uri (req_start_line self)) (drop n1 line) =
          Some (Compy_ParseResult_complete n2, u) \<and>
        list_all whitespace_matcher sp \<and> drop (n1 + n2) line = sp @ ''RTSP/'')"
proof -
  have line: "Compy_RequestLine_parse l i = None \<longleftrightarrow>
      (\<exists>n1 m n2 u sp. Compy_Method_parse (rql_method l) i = Some (Compy_ParseResult_complete n1, m) \<and>
        Compy_RequestUri_parse (rql_uri l) (drop n1 i) = Some (Compy_ParseResult_complete n2, u) \<and>
        list_all whitespace_matcher sp \<and> drop (n1 + n2) i = sp @ ''RTSP/'')" for l i
    by (auto simp: Compy_RequestLine_parse_def fault_simps version_parse_fault add.commute)
  have "Compy_Request_parse en self input = None \<longleftrightarrow>
      (\<exists>line. skip_interleaved en input = Some (Some line) \<and>
        Compy_RequestLine_parse (req_start_line self) line = None)"
    by (auto simp: Compy_Request_parse_def MATCH_INTO_fault skip_interleaved_no_fault case_prod_beta
        split: option.splits)
  then show ?thesis by (simp add: line)
qed

end
