(* ===== verification/Context.thy ===== *)
theory Context
  imports Requests
begin

text \<open>
  The context of a request being answered, \<open>src/context.c\<close>, and \<open>compy_respond_option_not_supported\<close> of
  \<open>src/util.c\<close>. The context owns the state of the connection's writer while the request is
  handled; \<open>W\<close> is the writer's interface. \<open>compy_header\<close> gets the text its format produces. \<open>None\<close>
  is a failed \<open>assert\<close> or a writer without a defined result. \<open>Compy_Context_drop\<close> only frees memory
  and has no counterpart.
\<close>

section \<open>Definitions\<close>

record 'w Compy_Context =
  ctx_writer :: 'w
  ctx_cseq :: u32
  ctx_header_map :: Compy_HeaderMap
  ctx_body :: Compy_MessageBody
  ctx_ret :: int

definition Compy_Context_new :: "'w \<Rightarrow> u32 \<Rightarrow> 'w Compy_Context" where
  "Compy_Context_new w cseq =
     \<lparr>ctx_writer = w, ctx_cseq = cseq, ctx_header_map = Compy_HeaderMap_empty,
      ctx_body = Compy_MessageBody_empty, ctx_ret = 0\<rparr>"

definition Compy_Context_get_writer :: "'w Compy_Context \<Rightarrow> 'w" where
  "Compy_Context_get_writer ctx = ctx_writer ctx"

definition Compy_Context_get_cseq :: "'w Compy_Context \<Rightarrow> u32" where
  "Compy_Context_get_cseq ctx = ctx_cseq ctx"

definition Compy_Context_get_ret :: "'w Compy_Context \<Rightarrow> int" where
  "Compy_Context_get_ret ctx = ctx_ret ctx"

definition compy_vheader :: "'w Compy_Context \<Rightarrow> string \<Rightarrow> string \<Rightarrow> 'w Compy_Context option" where
  "compy_vheader ctx key formatted =
     (if length formatted = 0 then None
      else
        (case Compy_HeaderMap_append (ctx_header_map ctx) \<lparr>hdr_key = key, hdr_value = c_str formatted\<rparr> of
           None \<Rightarrow> None
         | Some m \<Rightarrow> Some (ctx\<lparr>ctx_header_map := m\<rparr>)))"

definition compy_header :: "'w Compy_Context \<Rightarrow> string \<Rightarrow> string \<Rightarrow> 'w Compy_Context option" where
  "compy_header ctx key formatted = compy_vheader ctx key formatted"

definition compy_body :: "'w Compy_Context \<Rightarrow> Compy_MessageBody \<Rightarrow> 'w Compy_Context" where
  "compy_body ctx body = ctx\<lparr>ctx_body := body\<rparr>"

definition compy_respond ::
  "'w Compy_Writer \<Rightarrow> 'w Compy_Context \<Rightarrow> Compy_StatusCode \<Rightarrow> string \<Rightarrow> (int \<times> 'w Compy_Context) option" where
  "compy_respond W ctx code reason =
     (let response =
        \<lparr>resp_start_line =
           \<lparr>rsl_version = \<lparr>ver_major = 1, ver_minor = 0\<rparr>, rsl_code = code, rsl_reason = reason\<rparr>,
         resp_header_map = ctx_header_map ctx,
         resp_body = ctx_body ctx,
         resp_cseq = ctx_cseq ctx\<rparr>
      in case Compy_Response_serialize response W (w_lock W (ctx_writer ctx)) of
           None \<Rightarrow> None
         | Some (ret, w) \<Rightarrow> Some (ret, ctx\<lparr>ctx_ret := ret, ctx_writer := w_unlock W w\<rparr>))"

definition compy_respond_ok :: "'w Compy_Writer \<Rightarrow> 'w Compy_Context \<Rightarrow> (int \<times> 'w Compy_Context) option" where
  "compy_respond_ok W ctx = compy_respond W ctx COMPY_STATUS_OK ''OK''"

definition compy_respond_internal_error ::
  "'w Compy_Writer \<Rightarrow> 'w Compy_Context \<Rightarrow> (int \<times> 'w Compy_Context) option" where
  "compy_respond_internal_error W ctx =
     compy_respond W ctx COMPY_STATUS_INTERNAL_SERVER_ERROR ''Internal error''"

definition compy_respond_option_not_supported ::
  "'w Compy_Writer \<Rightarrow> 'w Compy_Context \<Rightarrow> string \<Rightarrow> 'w Compy_Context option" where
  "compy_respond_option_not_supported W ctx tag =
     (case compy_header ctx COMPY_HEADER_UNSUPPORTED (c_str tag) of
        None \<Rightarrow> None
      | Some ctx \<Rightarrow>
          map_option snd (compy_respond W ctx COMPY_STATUS_OPTION_NOT_SUPPORTED ''Option not supported''))"

section \<open>The headers of a response\<close>

text \<open>A run of \<open>compy_header\<close> calls, as handlers make them.\<close>

fun add_headers :: "'w Compy_Context \<Rightarrow> (string \<times> string) list \<Rightarrow> 'w Compy_Context option" where
  "add_headers ctx [] = Some ctx"
| "add_headers ctx ((k, v) # hs) = compy_header ctx k v \<bind> (\<lambda>ctx. add_headers ctx hs)"

definition header_of :: "string \<times> string \<Rightarrow> Compy_Header" where
  "header_of kv = \<lparr>hdr_key = fst kv, hdr_value = snd kv\<rparr>"

text \<open>A header a handler may add: not one of the two the response gets by itself.\<close>

definition plain_header :: "string \<times> string \<Rightarrow> bool" where
  "plain_header kv \<longleftrightarrow> wf_header (header_of kv) \<and> snd kv \<noteq> [] \<and> nul_free (snd kv) \<and>
     fst kv \<noteq> COMPY_HEADER_C_SEQ \<and> fst kv \<noteq> COMPY_HEADER_CONTENT_LENGTH"

lemma add_headers_ok:
  "list_all plain_header hs \<Longrightarrow> length (ctx_header_map ctx) + length hs \<le> COMPY_HEADER_MAP_CAPACITY \<Longrightarrow>
     add_headers ctx hs = Some (ctx\<lparr>ctx_header_map := ctx_header_map ctx @ map header_of hs\<rparr>)"
proof (induction hs arbitrary: ctx)
  case (Cons kv hs)
  obtain k v where kv: "kv = (k, v)" by (cases kv)
  have "compy_header ctx k v = Some (ctx\<lparr>ctx_header_map := ctx_header_map ctx @ [header_of kv]\<rparr>)"
    using Cons.prems
    by (simp add: kv compy_header_def compy_vheader_def plain_header_def Compy_HeaderMap_append_def
        Compy_HeaderMap_is_full_def header_of_def c_str_id nul_free_def)
  then show ?case using Cons.prems Cons.IH by (simp add: kv)
qed simp

lemma find_plain_headers:
  "list_all plain_header hs \<Longrightarrow> k \<in> {COMPY_HEADER_C_SEQ, COMPY_HEADER_CONTENT_LENGTH} \<Longrightarrow>
     Compy_HeaderMap_find (map header_of hs) k = None"
  by (induction hs) (auto simp: plain_header_def header_of_def)

lemma wf_plain_headers:
  assumes "list_all plain_header hs" "length hs + 2 \<le> COMPY_HEADER_MAP_CAPACITY"
    and "length body < 2 ^ 63" "nul_free body"
  shows "wf_headers cseq body (map header_of hs)"
  using assms find_plain_headers [OF assms(1)]
  by (auto simp: wf_headers_def wire_headers_def plain_header_def header_of_def list.pred_map
      elim!: list.pred_mono_strong)

definition response_of :: "'w Compy_Context \<Rightarrow> Compy_StatusCode \<Rightarrow> string \<Rightarrow> Compy_Response" where
  "response_of ctx code reason =
     \<lparr>resp_start_line = \<lparr>rsl_version = \<lparr>ver_major = 1, ver_minor = 0\<rparr>, rsl_code = code, rsl_reason = reason\<rparr>,
      resp_header_map = ctx_header_map ctx, resp_body = ctx_body ctx, resp_cseq = ctx_cseq ctx\<rparr>"

lemma respond_string:
  assumes "wf_response (response_of ctx code reason)"
  shows "compy_respond compy_string_writer ctx code reason =
     Some (int (length (response_text (response_of ctx code reason))),
           ctx\<lparr>ctx_ret := int (length (response_text (response_of ctx code reason))),
               ctx_writer := ctx_writer ctx @ response_text (response_of ctx code reason)\<rparr>)"
proof -
  have lock: "w_lock compy_string_writer w = w" "w_unlock compy_string_writer w = w" for w
    by (simp_all add: compy_string_writer_def StringWriter_lock_def StringWriter_unlock_def)
  show ?thesis
    unfolding compy_respond_def Let_def lock response_of_def [symmetric] response_serialize_string [OF assms]
    by simp
qed

text \<open>The response a client reads: the headers that were added stand behind \<open>CSeq\<close> and \<open>Content-Length\<close>.\<close>

definition read_response ::
  "Compy_StatusCode \<Rightarrow> string \<Rightarrow> u32 \<Rightarrow> (string \<times> string) list \<Rightarrow> string \<Rightarrow> Compy_Response" where
  "read_response code reason cseq hs body =
     \<lparr>resp_start_line = \<lparr>rsl_version = \<lparr>ver_major = 1, ver_minor = 0\<rparr>, rsl_code = code, rsl_reason = reason\<rparr>,
      resp_header_map = wire_headers cseq body (map header_of hs), resp_body = body, resp_cseq = cseq\<rparr>"

lemma respond_plain:
  assumes "ctx_header_map ctx = map header_of hs" "list_all plain_header hs" "length hs + 2 \<le> COMPY_HEADER_MAP_CAPACITY"
    and "wf_line reason" "nul_free reason" "length (ctx_body ctx) < 2 ^ 63" "nul_free (ctx_body ctx)"
    and "no_cr_end (ctx_body ctx @ rest)"
  shows "\<exists>ctx' msg. compy_respond compy_string_writer ctx code reason = Some (int (length msg), ctx') \<and>
     ctx' = ctx\<lparr>ctx_ret := int (length msg), ctx_writer := ctx_writer ctx @ msg\<rparr> \<and>
     Compy_Response_parse en self (msg @ rest) =
       Some (Compy_ParseResult_complete (length msg), read_response code reason (ctx_cseq ctx) hs (ctx_body ctx))"
proof -
  let ?r = "response_of ctx code reason"
  have wf: "wf_response ?r"
    using assms(4-7) wf_plain_headers [OF assms(2,3)] by (simp add: wf_response_def response_of_def assms(1))
  have "Compy_Response_parse en self (response_text ?r @ rest) =
      Some (Compy_ParseResult_complete (length (response_text ?r)),
        ?r\<lparr>resp_header_map := wire_headers (ctx_cseq ctx) (ctx_body ctx) (map header_of hs)\<rparr>)"
    using response_parse_text [OF wf, of rest en self] assms(1,8) by (simp add: response_of_def)
  moreover have "?r\<lparr>resp_header_map := wire_headers (ctx_cseq ctx) (ctx_body ctx) (map header_of hs)\<rparr> =
      read_response code reason (ctx_cseq ctx) hs (ctx_body ctx)"
    by (simp add: response_of_def read_response_def)
  ultimately show ?thesis using respond_string [OF wf] by auto
qed

section \<open>Properties\<close>

text \<open>
  C16. What a handler answers is what the client reads: up to 30 headers added to a fresh context, a
  body and a status give a message that a client parses completely, with that status and reason, the
  \<open>CSeq\<close> of the request, the \<open>CSeq\<close> and \<open>Content-Length\<close> headers and then the headers in the order they
  were added, and the body; the number of octets written is returned and kept in the context.
\<close>

theorem respond_read_back:
  assumes "list_all plain_header hs" "length hs + 2 \<le> COMPY_HEADER_MAP_CAPACITY"
    and "wf_line reason" "nul_free reason" "length body < 2 ^ 63" "nul_free body" "no_cr_end (body @ rest)"
  shows "\<exists>ctx ctx' msg.
     add_headers (Compy_Context_new w cseq) hs = Some ctx \<and>
     compy_respond compy_string_writer (compy_body ctx body) code reason = Some (int (length msg), ctx') \<and>
     ctx_writer ctx' = w @ msg \<and> Compy_Context_get_ret ctx' = int (length msg) \<and>
     Compy_Response_parse en self (msg @ rest) =
       Some (Compy_ParseResult_complete (length msg),
         \<lparr>resp_start_line = \<lparr>rsl_version = \<lparr>ver_major = 1, ver_minor = 0\<rparr>, rsl_code = code, rsl_reason = reason\<rparr>,
          resp_header_map = wire_headers cseq body (map header_of hs), resp_body = body, resp_cseq = cseq\<rparr>)"
proof -
  let ?ctx = "(Compy_Context_new w cseq)\<lparr>ctx_header_map := map header_of hs\<rparr>"
  have "add_headers (Compy_Context_new w cseq) hs = Some ?ctx"
    using add_headers_ok [OF assms(1), of "Compy_Context_new w cseq"] assms(2)
    by (simp add: Compy_Context_new_def Compy_HeaderMap_empty_def)
  moreover obtain ctx' msg where "compy_respond compy_string_writer (compy_body ?ctx body) code reason = Some (int (length msg), ctx')"
    "ctx' = (compy_body ?ctx body)\<lparr>ctx_ret := int (length msg), ctx_writer := ctx_writer (compy_body ?ctx body) @ msg\<rparr>"
    "Compy_Response_parse en self (msg @ rest) = Some (Compy_ParseResult_complete (length msg),
       read_response code reason cseq hs body)"
    using respond_plain [of "compy_body ?ctx body" hs reason rest code en self] assms
    by (auto simp: compy_body_def Compy_Context_new_def)
  ultimately show ?thesis
    by (auto simp: compy_body_def Compy_Context_new_def Compy_Context_get_ret_def read_response_def)
qed

theorem respond_read_back_witness:
  "\<exists>ctx ctx' msg.
     add_headers (Compy_Context_new [] 7) [(''Session'', ''12''), (''Range'', ''npt=now-'')] = Some ctx \<and>
     compy_respond compy_string_writer (compy_body ctx ''v=0'') COMPY_STATUS_OK ''OK'' = Some (int (length msg), ctx') \<and>
     ctx_writer ctx' = [] @ msg \<and> Compy_Context_get_ret ctx' = int (length msg) \<and>
     Compy_Response_parse LittleEndian Compy_Response_uninit (msg @ []) =
       Some (Compy_ParseResult_complete (length msg),
         \<lparr>resp_start_line = \<lparr>rsl_version = \<lparr>ver_major = 1, ver_minor = 0\<rparr>, rsl_code = COMPY_STATUS_OK,
            rsl_reason = ''OK''\<rparr>,
          resp_header_map = wire_headers 7 ''v=0'' (map header_of [(''Session'', ''12''), (''Range'', ''npt=now-'')]),
          resp_body = ''v=0'', resp_cseq = 7\<rparr>)"
  by (rule respond_read_back)
    (simp_all add: plain_header_def header_of_def wf_message_defs no_cr_end_def ends_with_def)

end
