(* ===== verification/Controller.thy ===== *)
theory Controller
  imports Context
begin

text \<open>
  Request dispatch, \<open>src/controller.c\<close>. The interface \<open>Compy_Controller\<close> is the record of its virtual
  functions; each gets the controller's own state, the context and the request and returns the first
  two updated. \<open>None\<close> is a handler without a defined result.
\<close>

section \<open>Definitions\<close>

datatype Compy_ControlFlow = Compy_ControlFlow_Break | Compy_ControlFlow_Continue

type_synonym ('c, 'w) handler =
  "'c \<Rightarrow> 'w Compy_Context \<Rightarrow> Compy_Request \<Rightarrow> ('c \<times> 'w Compy_Context) option"

record ('c, 'w) Compy_Controller =
  con_options :: "('c, 'w) handler"
  con_describe :: "('c, 'w) handler"
  con_setup :: "('c, 'w) handler"
  con_play :: "('c, 'w) handler"
  con_pause_method :: "('c, 'w) handler"
  con_teardown :: "('c, 'w) handler"
  con_get_parameter :: "('c, 'w) handler"
  con_unknown :: "('c, 'w) handler"
  con_before :: "'c \<Rightarrow> 'w Compy_Context \<Rightarrow> Compy_Request \<Rightarrow> (Compy_ControlFlow \<times> 'c \<times> 'w Compy_Context) option"
  con_after :: "'c \<Rightarrow> int \<Rightarrow> 'w Compy_Context \<Rightarrow> Compy_Request \<Rightarrow> ('c \<times> 'w Compy_Context) option"

definition dispatch_method :: "('c, 'w) Compy_Controller \<Rightarrow> ('c, 'w) handler" where
  "dispatch_method controller self ctx req =
     (let method = rql_method (req_start_line req)
      in if Compy_Method_eq method COMPY_METHOD_OPTIONS then con_options controller self ctx req
         else if Compy_Method_eq method COMPY_METHOD_DESCRIBE then con_describe controller self ctx req
         else if Compy_Method_eq method COMPY_METHOD_SETUP then con_setup controller self ctx req
         else if Compy_Method_eq method COMPY_METHOD_PLAY then con_play controller self ctx req
         else if Compy_Method_eq method COMPY_METHOD_PAUSE then con_pause_method controller self ctx req
         else if Compy_Method_eq method COMPY_METHOD_TEARDOWN then con_teardown controller self ctx req
         else if Compy_Method_eq method COMPY_METHOD_GET_PARAMETER then con_get_parameter controller self ctx req
         else con_unknown controller self ctx req)"

text \<open>The state of the connection's writer is taken back from the context when that is dropped.\<close>

definition compy_dispatch ::
  "('c, 'w) Compy_Controller \<Rightarrow> 'c \<Rightarrow> 'w \<Rightarrow> Compy_Request \<Rightarrow> ('c \<times> 'w) option" where
  "compy_dispatch controller self conn req =
     (let ctx = Compy_Context_new conn (req_cseq req)
      in con_before controller self ctx req \<bind> (\<lambda>(flow, self, ctx).
         (if flow = Compy_ControlFlow_Break then Some (self, ctx)
          else dispatch_method controller self ctx req) \<bind> (\<lambda>(self, ctx).
         con_after controller self (Compy_Context_get_ret ctx) ctx req \<bind> (\<lambda>(self, ctx).
         Some (self, ctx_writer ctx)))))"

section \<open>Which handler runs\<close>

definition handler_table :: "('c, 'w) Compy_Controller \<Rightarrow> (Compy_Method \<times> ('c, 'w) handler) list" where
  "handler_table controller =
     [(''OPTIONS'', con_options controller), (''DESCRIBE'', con_describe controller),
      (''SETUP'', con_setup controller), (''PLAY'', con_play controller),
      (''PAUSE'', con_pause_method controller), (''TEARDOWN'', con_teardown controller),
      (''GET_PARAMETER'', con_get_parameter controller)]"

lemma dispatch_method_table:
  "dispatch_method controller =
     (\<lambda>self ctx req.
        (case map_of (handler_table controller) (rql_method (req_start_line req)) of
           Some h \<Rightarrow> h self ctx req | None \<Rightarrow> con_unknown controller self ctx req))"
  by (intro ext)
    (simp add: dispatch_method_def handler_table_def Compy_Method_eq_def COMPY_METHOD_OPTIONS_def
      COMPY_METHOD_DESCRIBE_def COMPY_METHOD_SETUP_def COMPY_METHOD_PLAY_def COMPY_METHOD_PAUSE_def
      COMPY_METHOD_TEARDOWN_def COMPY_METHOD_GET_PARAMETER_def Let_def)

lemma dispatch_break:
  assumes "con_before controller self (Compy_Context_new conn (req_cseq req)) req =
      Some (Compy_ControlFlow_Break, self', ctx)"
    and "con_after controller self' (ctx_ret ctx) ctx req = Some (self'', ctx')"
  shows "compy_dispatch controller self conn req = Some (self'', ctx_writer ctx')"
  using assms by (simp add: compy_dispatch_def Let_def Compy_Context_get_ret_def)

lemma dispatch_continue:
  assumes "con_before controller self (Compy_Context_new conn (req_cseq req)) req =
      Some (Compy_ControlFlow_Continue, self', ctx)"
  shows "compy_dispatch controller self conn req =
     dispatch_method controller self' ctx req \<bind> (\<lambda>(self, ctx).
       con_after controller self (ctx_ret ctx) ctx req \<bind> (\<lambda>(self, ctx). Some (self, ctx_writer ctx)))"
  using assms by (simp add: compy_dispatch_def Let_def Compy_Context_get_ret_def)

section \<open>Invariants of a controller\<close>

text \<open>What every handler and hook of a controller keeps of its state, dispatch keeps.\<close>

definition keeps :: "('c \<Rightarrow> bool) \<Rightarrow> ('c, 'w) handler \<Rightarrow> bool" where
  "keeps ok h \<longleftrightarrow> (\<forall>self ctx req self' ctx'. h self ctx req = Some (self', ctx') \<longrightarrow> ok self \<longrightarrow> ok self')"

lemma keepsI:
  assumes "\<And>self ctx req self' ctx'. h self ctx req = Some (self', ctx') \<Longrightarrow> ok self \<Longrightarrow> ok self'"
  shows "keeps ok h"
  using assms unfolding keeps_def by blast

lemma keepsD: "keeps ok h \<Longrightarrow> h self ctx req = Some (self', ctx') \<Longrightarrow> ok self \<Longrightarrow> ok self'"
  unfolding keeps_def by blast

locale controller_invariant =
  fixes controller :: "('c, 'w) Compy_Controller" and ok :: "'c \<Rightarrow> bool"
  assumes before_keeps: "con_before controller self ctx req = Some (flow, self', ctx') \<Longrightarrow> ok self \<Longrightarrow> ok self'"
    and after_keeps: "con_after controller self ret ctx req = Some (self', ctx') \<Longrightarrow> ok self \<Longrightarrow> ok self'"
    and unknown_keeps: "keeps ok (con_unknown controller)"
    and table_keeps: "list_all (\<lambda>(_, h). keeps ok h) (handler_table controller)"
begin

lemma dispatch_method_keeps: "keeps ok (dispatch_method controller)"
proof (rule keepsI)
  fix self ctx req self' ctx'
  assume "dispatch_method controller self ctx req = Some (self', ctx')" "ok self"
  then show "ok self'"
    using keepsD [OF unknown_keeps] table_keeps
    by (auto simp: dispatch_method_table list_all_iff dest!: map_of_SomeD dest: keepsD split: option.splits)
qed

lemma dispatch_keeps:
  assumes "compy_dispatch controller self w req = Some (self', w')" "ok self"
  shows "ok self'"
proof -
  obtain flow self1 ctx1 where before: "con_before controller self (Compy_Context_new w (req_cseq req)) req = Some (flow, self1, ctx1)"
    using assms(1) by (auto simp: compy_dispatch_def Let_def split: bind_splits)
  then obtain self2 ctx2 where
    mid: "(if flow = Compy_ControlFlow_Break then Some (self1, ctx1) else dispatch_method controller self1 ctx1 req) = Some (self2, ctx2)"
    and after: "con_after controller self2 (Compy_Context_get_ret ctx2) ctx2 req \<bind> (\<lambda>(self, ctx). Some (self, ctx_writer ctx)) =
      Some (self', w')"
    using assms(1) by (auto simp: compy_dispatch_def Let_def bind_eq_Some_conv)
  have "ok self1" using before assms(2) by (rule before_keeps)
  then have "ok self2" using mid keepsD [OF dispatch_method_keeps] by (auto split: if_splits)
  then show ?thesis using after after_keeps by (auto split: bind_splits)
qed

end

end
