(* ===== verification/Md5.thy ===== *)
theory Md5
  imports CLib
begin

text \<open>
  The MD5 digest, \<open>src/md5.c\<close>: the unrolled compression function, the buffered update and the padding
  of the last block. The reference is the description of RFC 1321: the message with its padding cut
  into blocks, each compressed by 64 steps that differ in a table only.
\<close>

section \<open>Definitions\<close>

definition md5_F :: "u32 \<Rightarrow> u32 \<Rightarrow> u32 \<Rightarrow> u32" where "md5_F x y z = (x AND y) OR (NOT x AND z)"
definition md5_G :: "u32 \<Rightarrow> u32 \<Rightarrow> u32 \<Rightarrow> u32" where "md5_G x y z = (x AND z) OR (y AND NOT z)"
definition md5_H :: "u32 \<Rightarrow> u32 \<Rightarrow> u32 \<Rightarrow> u32" where "md5_H x y z = x XOR y XOR z"
definition md5_I :: "u32 \<Rightarrow> u32 \<Rightarrow> u32 \<Rightarrow> u32" where "md5_I x y z = y XOR (x OR NOT z)"

definition ROT :: "u32 \<Rightarrow> nat \<Rightarrow> u32" where
  "ROT x n = push_bit n x OR drop_bit (32 - n) x"

text \<open>\<open>STEP\<close> is the new value of its first register.\<close>

definition STEP ::
  "(u32 \<Rightarrow> u32 \<Rightarrow> u32 \<Rightarrow> u32) \<Rightarrow> u32 \<Rightarrow> u32 \<Rightarrow> u32 \<Rightarrow> u32 \<Rightarrow> u32 \<Rightarrow> u32 \<Rightarrow> nat \<Rightarrow> u32" where
  "STEP f a b c d x t s =
     (let a = a + (f b c d + x + t);
          a = ROT a s
      in a + b)"

type_synonym md5_state = "u32 \<times> u32 \<times> u32 \<times> u32"

definition md5_word :: "u8 list \<Rightarrow> nat \<Rightarrow> u32" where
  "md5_word block i =
     ucast (block ! (i * 4)) OR push_bit 8 (ucast (block ! (i * 4 + 1))) OR
     push_bit 16 (ucast (block ! (i * 4 + 2))) OR push_bit 24 (ucast (block ! (i * 4 + 3)))"

definition md5_round1 :: "u32 list \<Rightarrow> md5_state \<Rightarrow> md5_state" where
  "md5_round1 x = (\<lambda>(a, b, c, d).
     let a = STEP md5_F a b c d (x ! 0) 0xd76aa478 7;
         d = STEP md5_F d a b c (x ! 1) 0xe8c7b756 12;
         c = STEP md5_F c d a b (x ! 2) 0x242070db 17;
         b = STEP md5_F b c d a (x ! 3) 0xc1bdceee 22;
         a = STEP md5_F a b c d (x ! 4) 0xf57c0faf 7;
         d = STEP md5_F d a b c (x ! 5) 0x4787c62a 12;
         c = STEP md5_F c d a b (x ! 6) 0xa8304613 17;
         b = STEP md5_F b c d a (x ! 7) 0xfd469501 22;
         a = STEP md5_F a b c d (x ! 8) 0x698098d8 7;
         d = STEP md5_F d a b c (x ! 9) 0x8b44f7af 12;
         c = STEP md5_F c d a b (x ! 10) 0xffff5bb1 17;
         b = STEP md5_F b c d a (x ! 11) 0x895cd7be 22;
         a = STEP md5_F a b c d (x ! 12) 0x6b901122 7;
         d = STEP md5_F d a b c (x ! 13) 0xfd987193 12;
         c = STEP md5_F c d a b (x ! 14) 0xa679438e 17;
         b = STEP md5_F b c d a (x ! 15) 0x49b40821 22
     in (a, b, c, d))"

definition md5_round2 :: "u32 list \<Rightarrow> md5_state \<Rightarrow> md5_state" where
  "md5_round2 x = (\<lambda>(a, b, c, d).
     let a = STEP md5_G a b c d (x ! 1) 0xf61e2562 5;
         d = STEP md5_G d a b c (x ! 6) 0xc040b340 9;
         c = STEP md5_G c d a b (x ! 11) 0x265e5a51 14;
         b = STEP md5_G b c d a (x ! 0) 0xe9b6c7aa 20;
         a = STEP md5_G a b c d (x ! 5) 0xd62f105d 5;
         d = STEP md5_G d a b c (x ! 10) 0x02441453 9;
         c = STEP md5_G c d a b (x ! 15) 0xd8a1e681 14;
         b = STEP md5_G b c d a (x ! 4) 0xe7d3fbc8 20;
         a = STEP md5_G a b c d (x ! 9) 0x21e1cde6 5;
         d = STEP md5_G d a b c (x ! 14) 0xc33707d6 9;
         c = STEP md5_G c d a b (x ! 3) 0xf4d50d87 14;
         b = STEP md5_G b c d a (x ! 8) 0x455a14ed 20;
         a = STEP md5_G a b c d (x ! 13) 0xa9e3e905 5;
         d = STEP md5_G d a b c (x ! 2) 0xfcefa3f8 9;
         c = STEP md5_G c d a b (x ! 7) 0x676f02d9 14;
         b = STEP md5_G b c d a (x ! 12) 0x8d2a4c8a 20
     in (a, b, c, d))"

definition md5_round3 :: "u32 list \<Rightarrow> md5_state \<Rightarrow> md5_state" where
  "md5_round3 x = (\<lambda>(a, b, c, d).
     let a = STEP md5_H a b c d (x ! 5) 0xfffa3942 4;
         d = STEP md5_H d a b c (x ! 8) 0x8771f681 11;
         c = STEP md5_H c d a b (x ! 11) 0x6d9d6122 16;
         b = STEP md5_H b c d a (x ! 14) 0xfde5380c 23;
         a = STEP md5_H a b c d (x ! 1) 0xa4beea44 4;
         d = STEP md5_H d a b c (x ! 4) 0x4bdecfa9 11;
         c = STEP md5_H c d a b (x ! 7) 0xf6bb4b60 16;
         b = STEP md5_H b c d a (x ! 10) 0xbebfbc70 23;
         a = STEP md5_H a b c d (x ! 13) 0x289b7ec6 4;
         d = STEP md5_H d a b c (x ! 0) 0xeaa127fa 11;
         c = STEP md5_H c d a b (x ! 3) 0xd4ef3085 16;
         b = STEP md5_H b c d a (x ! 6) 0x04881d05 23;
         a = STEP md5_H a b c d (x ! 9) 0xd9d4d039 4;
         d = STEP md5_H d a b c (x ! 12) 0xe6db99e5 11;
         c = STEP md5_H c d a b (x ! 15) 0x1fa27cf8 16;
         b = STEP md5_H b c d a (x ! 2) 0xc4ac5665 23
     in (a, b, c, d))"

definition md5_round4 :: "u32 list \<Rightarrow> md5_state \<Rightarrow> md5_state" where
  "md5_round4 x = (\<lambda>(a, b, c, d).
     let a = STEP md5_I a b c d (x ! 0) 0xf4292244 6;
         d = STEP md5_I d a b c (x ! 7) 0x432aff97 10;
         c = STEP md5_I c d a b (x ! 14) 0xab9423a7 15;
         b = STEP md5_I b c d a (x ! 5) 0xfc93a039 21;
         a = STEP md5_I a b c d (x ! 12) 0x655b59c3 6;
         d = STEP md5_I d a b c (x ! 3) 0x8f0ccc92 10;
         c = STEP md5_I c d a b (x ! 10) 0xffeff47d 15;
         b = STEP md5_I b c d a (x ! 1) 0x85845dd1 21;
         a = STEP md5_I a b c d (x ! 8) 0x6fa87e4f 6;
         d = STEP md5_I d a b c (x ! 15) 0xfe2ce6e0 10;
         c = STEP md5_I c d a b (x ! 6) 0xa3014314 15;
         b = STEP md5_I b c d a (x ! 13) 0x4e0811a1 21;
         a = STEP md5_I a b c d (x ! 4) 0xf7537e82 6;
         d = STEP md5_I d a b c (x ! 11) 0xbd3af235 10;
         c = STEP md5_I c d a b (x ! 2) 0x2ad7d2bb 15;
         b = STEP md5_I b c d a (x ! 9) 0xeb86d391 21
     in (a, b, c, d))"
definition md5_transform :: "md5_state \<Rightarrow> u8 list \<Rightarrow> md5_state" where
  "md5_transform state block =
     (let x = map (md5_word block) [0..<16];
          (a, b, c, d) = md5_round4 x (md5_round3 x (md5_round2 x (md5_round1 x state)))
      in case state of (s0, s1, s2, s3) \<Rightarrow> (s0 + a, s1 + b, s2 + c, s3 + d))"

record Compy_Md5 =
  md5_state :: md5_state
  md5_count :: u64
  md5_buffer :: "u8 list"

definition compy_md5_init :: "Compy_Md5 \<Rightarrow> Compy_Md5" where
  "compy_md5_init ctx =
     ctx\<lparr>md5_count := 0, md5_state := (0x67452301, 0xefcdab89, 0x98badcfe, 0x10325476)\<rparr>"

text \<open>\<open>memcpy (buf + i, data)\<close>.\<close>

definition memcpy_at :: "'a list \<Rightarrow> nat \<Rightarrow> 'a list \<Rightarrow> 'a list" where
  "memcpy_at buf i data = take i buf @ data @ drop (i + length data) buf"

text \<open>The loop over the full blocks of the data from \<open>i\<close> on; it gives the state and what is left.\<close>

function md5_blocks_loop :: "md5_state \<Rightarrow> u8 list \<Rightarrow> md5_state \<times> u8 list" where
  "md5_blocks_loop state data =
     (if 64 \<le> length data then md5_blocks_loop (md5_transform state (take 64 data)) (drop 64 data)
      else (state, data))"
  by pat_completeness auto
termination by (relation "measure (length \<circ> snd)") auto

declare md5_blocks_loop.simps [simp del]

definition md5_update_rest :: "Compy_Md5 \<Rightarrow> u8 list \<Rightarrow> Compy_Md5" where
  "md5_update_rest ctx data =
     (case md5_blocks_loop (md5_state ctx) data of
        (state, rest) \<Rightarrow>
          let ctx = ctx\<lparr>md5_state := state\<rparr>
          in if rest \<noteq> [] then ctx\<lparr>md5_buffer := memcpy_at (md5_buffer ctx) 0 rest\<rparr> else ctx)"

definition compy_md5_update :: "Compy_Md5 \<Rightarrow> u8 list \<Rightarrow> Compy_Md5" where
  "compy_md5_update ctx data =
     (let index = unat (md5_count ctx AND 0x3F);
          ctx = ctx\<lparr>md5_count := md5_count ctx + word_of_nat (length data)\<rparr>
      in if index \<noteq> 0 then
           let part = 64 - index
           in if length data \<ge> part then
                let buffer = memcpy_at (md5_buffer ctx) index (take part data)
                in md5_update_rest (ctx\<lparr>md5_buffer := buffer, md5_state := md5_transform (md5_state ctx) buffer\<rparr>)
                     (drop part data)
              else ctx\<lparr>md5_buffer := memcpy_at (md5_buffer ctx) index data\<rparr>
         else md5_update_rest ctx data)"

definition md5_padding :: "u8 list" where
  "md5_padding = 0x80 # replicate 63 0"

definition le32_octets :: "u32 \<Rightarrow> u8 list" where
  "le32_octets w = [ucast w, ucast (drop_bit 8 w), ucast (drop_bit 16 w), ucast (drop_bit 24 w)]"

definition md5_bits :: "u64 \<Rightarrow> u8 list" where
  "md5_bits count = map (\<lambda>i. ucast (drop_bit (i * 8) (count * 8))) [0..<8]"

definition compy_md5_final :: "Compy_Md5 \<Rightarrow> u8 list" where
  "compy_md5_final ctx =
     (let bits = md5_bits (md5_count ctx);
          index = unat (md5_count ctx AND 0x3F);
          pad_len = (if index < 56 then 56 - index else 120 - index);
          ctx = compy_md5_update ctx (take pad_len md5_padding);
          ctx = compy_md5_update ctx bits
      in case md5_state ctx of (s0, s1, s2, s3) \<Rightarrow>
           le32_octets s0 @ le32_octets s1 @ le32_octets s2 @ le32_octets s3)"

text \<open>\<open>"%02x"\<close> of an octet.\<close>

definition hex_digit :: "nat \<Rightarrow> char" where
  "hex_digit d = (if d < 10 then char_of (48 + d) else char_of (87 + d))"

definition hex_octet :: "u8 \<Rightarrow> string" where
  "hex_octet b = [hex_digit (unat b div 16), hex_digit (unat b mod 16)]"

definition compy_md5_hex :: "Compy_Md5 \<Rightarrow> u8 list \<Rightarrow> string" where
  "compy_md5_hex ctx data =
     concat (map hex_octet (compy_md5_final (compy_md5_update (compy_md5_init ctx) data)))"

section \<open>The reference\<close>

text \<open>
  RFC 1321: 64 steps over the registers, each on another word of the block, with the constant of the
  table and the shift of its round. The table is \<open>\<lfloor>2\<^sup>3\<^sup>2 * \<bar>sin (i + 1)\<bar>\<rfloor>\<close>.
\<close>

definition md5_T :: "u32 list" where
  "md5_T = [
     0xd76aa478, 0xe8c7b756, 0x242070db, 0xc1bdceee, 0xf57c0faf, 0x4787c62a,
     0xa8304613, 0xfd469501, 0x698098d8, 0x8b44f7af, 0xffff5bb1, 0x895cd7be,
     0x6b901122, 0xfd987193, 0xa679438e, 0x49b40821, 0xf61e2562, 0xc040b340,
     0x265e5a51, 0xe9b6c7aa, 0xd62f105d, 0x02441453, 0xd8a1e681, 0xe7d3fbc8,
     0x21e1cde6, 0xc33707d6, 0xf4d50d87, 0x455a14ed, 0xa9e3e905, 0xfcefa3f8,
     0x676f02d9, 0x8d2a4c8a, 0xfffa3942, 0x8771f681, 0x6d9d6122, 0xfde5380c,
     0xa4beea44, 0x4bdecfa9, 0xf6bb4b60, 0xbebfbc70, 0x289b7ec6, 0xeaa127fa,
     0xd4ef3085, 0x04881d05, 0xd9d4d039, 0xe6db99e5, 0x1fa27cf8, 0xc4ac5665,
     0xf4292244, 0x432aff97, 0xab9423a7, 0xfc93a039, 0x655b59c3, 0x8f0ccc92,
     0xffeff47d, 0x85845dd1, 0x6fa87e4f, 0xfe2ce6e0, 0xa3014314, 0x4e0811a1,
     0xf7537e82, 0xbd3af235, 0x2ad7d2bb, 0xeb86d391]"

definition md5_shifts :: "nat list list" where
  "md5_shifts = [[7, 12, 17, 22], [5, 9, 14, 20], [4, 11, 16, 23], [6, 10, 15, 21]]"

definition md5_index :: "nat \<Rightarrow> nat \<Rightarrow> nat" where
  "md5_index r i = ([i, 5 * i + 1, 3 * i + 5, 7 * i] ! r) mod 16"

definition md5_schedule :: "nat \<Rightarrow> (nat \<times> u32 \<times> nat) list" where
  "md5_schedule r = map (\<lambda>i. (md5_index r i, md5_T ! (16 * r + i), md5_shifts ! r ! (i mod 4))) [0..<16]"

fun md5_steps ::
  "(u32 \<Rightarrow> u32 \<Rightarrow> u32 \<Rightarrow> u32) \<Rightarrow> u32 list \<Rightarrow> (nat \<times> u32 \<times> nat) list \<Rightarrow> md5_state \<Rightarrow> md5_state" where
  "md5_steps f x [] s = s"
| "md5_steps f x ((k, t, n) # ss) (a, b, c, d) = md5_steps f x ss (d, b + ROT (a + f b c d + x ! k + t) n, b, c)"

definition md5_compress :: "md5_state \<Rightarrow> u8 list \<Rightarrow> md5_state" where
  "md5_compress s block =
     (let x = map (md5_word block) [0..<16];
          (a', b', c', d') = fold (\<lambda>(f, r). md5_steps f x (md5_schedule r))
             [(md5_F, 0), (md5_G, 1), (md5_H, 2), (md5_I, 3)] s
      in case s of (a, b, c, d) \<Rightarrow> (a + a', b + b', c + c', d + d'))"

text \<open>
  The padding brings the message to 56 octets modulo 64, then come the low 64 bits of its length in
  bits, the low octet first.
\<close>

definition md5_pad :: "u8 list \<Rightarrow> u8 list" where
  "md5_pad m = m @ [0x80] @ replicate (nat ((55 - int (length m)) mod 64)) 0 @
     map (\<lambda>i. word_of_nat (length m * 8 div 256 ^ i)) [0..<8]"

function blocks64 :: "'a list \<Rightarrow> 'a list list" where
  "blocks64 xs = (if length xs < 64 then [] else take 64 xs # blocks64 (drop 64 xs))"
  by pat_completeness auto
termination by (relation "measure length") auto

declare blocks64.simps [simp del]

definition md5_init_state :: md5_state where
  "md5_init_state = (0x67452301, 0xefcdab89, 0x98badcfe, 0x10325476)"

definition md5_reference :: "u8 list \<Rightarrow> u8 list" where
  "md5_reference m =
     (case foldl md5_compress md5_init_state (blocks64 (md5_pad m)) of
        (a, b, c, d) \<Rightarrow> concat (map le32_octets [a, b, c, d]))"

section \<open>The compression function\<close>

lemma md5_schedule_0:
  "md5_schedule 0 = [(0, 0xd76aa478, 7), (1, 0xe8c7b756, 12), (2, 0x242070db, 17), (3, 0xc1bdceee, 22), (4, 0xf57c0faf, 7), (5, 0x4787c62a, 12), (6, 0xa8304613, 17), (7, 0xfd469501, 22), (8, 0x698098d8, 7), (9, 0x8b44f7af, 12), (10, 0xffff5bb1, 17), (11, 0x895cd7be, 22), (12, 0x6b901122, 7), (13, 0xfd987193, 12), (14, 0xa679438e, 17), (15, 0x49b40821, 22)]"
  by code_simp

lemma md5_schedule_1:
  "md5_schedule 1 = [(1, 0xf61e2562, 5), (6, 0xc040b340, 9), (11, 0x265e5a51, 14), (0, 0xe9b6c7aa, 20), (5, 0xd62f105d, 5), (10, 0x02441453, 9), (15, 0xd8a1e681, 14), (4, 0xe7d3fbc8, 20), (9, 0x21e1cde6, 5), (14, 0xc33707d6, 9), (3, 0xf4d50d87, 14), (8, 0x455a14ed, 20), (13, 0xa9e3e905, 5), (2, 0xfcefa3f8, 9), (7, 0x676f02d9, 14), (12, 0x8d2a4c8a, 20)]"
  by code_simp

lemma md5_schedule_2:
  "md5_schedule 2 = [(5, 0xfffa3942, 4), (8, 0x8771f681, 11), (11, 0x6d9d6122, 16), (14, 0xfde5380c, 23), (1, 0xa4beea44, 4), (4, 0x4bdecfa9, 11), (7, 0xf6bb4b60, 16), (10, 0xbebfbc70, 23), (13, 0x289b7ec6, 4), (0, 0xeaa127fa, 11), (3, 0xd4ef3085, 16), (6, 0x04881d05, 23), (9, 0xd9d4d039, 4), (12, 0xe6db99e5, 11), (15, 0x1fa27cf8, 16), (2, 0xc4ac5665, 23)]"
  by code_simp

lemma md5_schedule_3:
  "md5_schedule 3 = [(0, 0xf4292244, 6), (7, 0x432aff97, 10), (14, 0xab9423a7, 15), (5, 0xfc93a039, 21), (12, 0x655b59c3, 6), (3, 0x8f0ccc92, 10), (10, 0xffeff47d, 15), (1, 0x85845dd1, 21), (8, 0x6fa87e4f, 6), (15, 0xfe2ce6e0, 10), (6, 0xa3014314, 15), (13, 0x4e0811a1, 21), (4, 0xf7537e82, 6), (11, 0xbd3af235, 10), (2, 0x2ad7d2bb, 15), (9, 0xeb86d391, 21)]"
  by code_simp

lemma md5_steps_let:
  "md5_steps f x ((k, t, n) # ss) (a, b, c, d) =
     (let v = STEP f a b c d (x ! k) t n in md5_steps f x ss (d, v, b, c))"
  by (simp add: STEP_def Let_def ac_simps)

lemma md5_round_steps:
  "md5_round1 x (a, b, c, d) = md5_steps md5_F x (md5_schedule 0) (a, b, c, d)"
  "md5_round2 x (a, b, c, d) = md5_steps md5_G x (md5_schedule 1) (a, b, c, d)"
  "md5_round3 x (a, b, c, d) = md5_steps md5_H x (md5_schedule 2) (a, b, c, d)"
  "md5_round4 x (a, b, c, d) = md5_steps md5_I x (md5_schedule 3) (a, b, c, d)"
  unfolding md5_round1_def md5_round2_def md5_round3_def md5_round4_def prod.case
    md5_schedule_0 md5_schedule_1 md5_schedule_2 md5_schedule_3 md5_steps_let md5_steps.simps(1)
  by (rule refl)+

lemma md5_transform_compress: "md5_transform s block = md5_compress s block"
proof -
  have rounds: "md5_round1 x s = md5_steps md5_F x (md5_schedule 0) s"
    "md5_round2 x s = md5_steps md5_G x (md5_schedule 1) s"
    "md5_round3 x s = md5_steps md5_H x (md5_schedule 2) s"
    "md5_round4 x s = md5_steps md5_I x (md5_schedule 3) s" for x s
    by (cases s; simp add: md5_round_steps)+
  show ?thesis by (simp add: md5_transform_def md5_compress_def rounds Let_def)
qed

section \<open>The buffered update\<close>

lemma blocks64_short: "length xs < 64 \<Longrightarrow> blocks64 xs = []"
  by (simp add: blocks64.simps)

lemma blocks64_append: "64 dvd length xs \<Longrightarrow> blocks64 (xs @ ys) = blocks64 xs @ blocks64 ys"
proof (induction xs rule: blocks64.induct)
  case (1 xs)
  show ?case
  proof (cases "length xs < 64")
    case True
    then have "xs = []" using 1(2) by (auto dest: dvd_imp_le)
    then show ?thesis by (simp add: blocks64_short)
  next
    case False
    then have "blocks64 (drop 64 xs @ ys) = blocks64 (drop 64 xs) @ blocks64 ys"
      using 1 by (simp add: dvd_diff_nat)
    then show ?thesis using False
      by (subst blocks64.simps, subst blocks64.simps [of xs]) simp
  qed
qed

lemma blocks64_one: "length xs = 64 \<Longrightarrow> blocks64 xs = [xs]"
  by (subst blocks64.simps) (simp add: blocks64_short)

text \<open>Every list is a multiple of 64 elements and a rest.\<close>

lemma split64:
  obtains a t where "xs = a @ t" "64 dvd length a" "length t < 64" "length t = length xs mod 64"
    "blocks64 xs = blocks64 a"
proof
  let ?a = "take (64 * (length xs div 64)) xs" and ?t = "drop (64 * (length xs div 64)) xs"
  show "xs = ?a @ ?t" by simp
  have len: "length ?a = 64 * (length xs div 64)" by simp
  then show dvd: "64 dvd length ?a" by simp
  show t: "length ?t = length xs mod 64" by (simp add: minus_mult_div_eq_mod)
  then show "length ?t < 64" by simp
  then show "blocks64 xs = blocks64 ?a" using blocks64_append [OF dvd, of ?t] by (simp add: blocks64_short)
qed

lemma md5_blocks_loop_eq:
  "md5_blocks_loop state (a @ t) = (foldl md5_transform state (blocks64 a), t)"
  if "64 dvd length a" "length t < 64" for state a t
  using that
proof (induction a arbitrary: state rule: blocks64.induct)
  case (1 a)
  show ?case
  proof (cases "length a < 64")
    case True
    then have "a = []" using 1(2) by (auto dest: dvd_imp_le)
    then show ?thesis using 1(3) by (simp add: blocks64_short md5_blocks_loop.simps)
  next
    case False
    then show ?thesis using 1
      by (subst md5_blocks_loop.simps, subst blocks64.simps) (simp add: dvd_diff_nat)
  qed
qed

text \<open>The context after the octets \<open>m\<close>: what it has compressed and what waits in the buffer.\<close>

definition md5_inv :: "Compy_Md5 \<Rightarrow> u8 list \<Rightarrow> bool" where
  "md5_inv ctx m \<longleftrightarrow>
     md5_count ctx = word_of_nat (length m) \<and> length (md5_buffer ctx) = 64 \<and>
     md5_state ctx = foldl md5_transform md5_init_state (blocks64 m) \<and>
     take (length m mod 64) (md5_buffer ctx) = drop (length m - length m mod 64) m"

lemma md5_inv_split:
  assumes "64 dvd length a" "length t < 64"
  shows "md5_inv ctx (a @ t) \<longleftrightarrow>
     md5_count ctx = word_of_nat (length (a @ t)) \<and> length (md5_buffer ctx) = 64 \<and>
     md5_state ctx = foldl md5_transform md5_init_state (blocks64 a) \<and> take (length t) (md5_buffer ctx) = t"
proof -
  have "length (a @ t) mod 64 = length t" using assms by (auto simp: dvd_def)
  then show ?thesis using assms by (simp add: md5_inv_def blocks64_append blocks64_short)
qed

lemma md5_index_mod: "unat ((word_of_nat n :: u64) AND 0x3F) = n mod 64"
proof -
  have "unat ((word_of_nat n :: u64) AND 0x3F) = take_bit 6 (unat (word_of_nat n :: u64))"
    unfolding and_mask_word by (simp only: unsigned_take_bit_eq)
  then show ?thesis by (simp add: unat_of_nat take_bit_eq_mod mod_mod_cancel)
qed

lemma md5_update_rest_inv:
  assumes "64 dvd length a" "md5_state ctx = foldl md5_transform md5_init_state (blocks64 a)"
    and "length (md5_buffer ctx) = 64" "md5_count ctx = word_of_nat (length (a @ data))"
  shows "md5_inv (md5_update_rest ctx data) (a @ data)"
proof -
  obtain b t where data: "data = b @ t" "64 dvd length b" "length t < 64" by (rule split64)
  then have "md5_inv (md5_update_rest ctx data) ((a @ b) @ t)"
    using assms
    by (subst md5_inv_split)
      (auto simp: md5_update_rest_def md5_blocks_loop_eq blocks64_append memcpy_at_def Let_def)
  then show ?thesis using data(1) by simp
qed

lemma md5_update_inv:
  assumes "md5_inv ctx m"
  shows "md5_inv (compy_md5_update ctx data) (m @ data)"
proof -
  obtain a t where m: "m = a @ t" "64 dvd length a" "length t < 64" "length t = length m mod 64"
    by (rule split64)
  note inv = assms [unfolded m(1) md5_inv_split [OF m(2,3)]]
  have index: "unat (md5_count ctx AND 0x3F) = length t"
    using assms m(4) by (simp add: md5_inv_def md5_index_mod)
  have count: "md5_count ctx + word_of_nat (length data) = word_of_nat (length (m @ data))"
    using assms by (simp add: md5_inv_def)
  consider "t = []" | "t \<noteq> []" "64 - length t \<le> length data" | "t \<noteq> []" "length data < 64 - length t"
    by linarith
  then show ?thesis
  proof cases
    case 1
    then show ?thesis using inv m(2) index count
      by (simp add: compy_md5_update_def Let_def m(1) md5_update_rest_inv)
  next
    case 2
    let ?p = "take (64 - length t) data"
    let ?buffer = "memcpy_at (md5_buffer ctx) (length t) ?p"
    have buffer: "?buffer = t @ ?p" "length (t @ ?p) = 64"
      using inv 2 m(3) by (simp_all add: memcpy_at_def min_def)
    have "compy_md5_update ctx data =
        md5_update_rest (ctx\<lparr>md5_count := word_of_nat (length (m @ data)), md5_buffer := t @ ?p,
          md5_state := md5_transform (md5_state ctx) (t @ ?p)\<rparr>) (drop (64 - length t) data)"
      unfolding compy_md5_update_def index Let_def count using 2 buffer by simp
    moreover have "64 dvd length (a @ t @ ?p)" using m(2) buffer(2) by simp
    ultimately have "md5_inv (compy_md5_update ctx data) ((a @ t @ ?p) @ drop (64 - length t) data)"
      using buffer(2) m(2) inv by (simp only:, intro md5_update_rest_inv)
        (simp_all add: m(1) blocks64_append blocks64_one)
    then show ?thesis by (simp add: m(1))
  next
    case 3
    then have "md5_inv (compy_md5_update ctx data) (a @ t @ data)"
      using inv m(2,3) index count
      by (subst md5_inv_split) (auto simp: compy_md5_update_def Let_def memcpy_at_def m(1))
    then show ?thesis by (simp add: m(1))
  qed
qed

lemma md5_updates_inv:
  "md5_inv ctx m \<Longrightarrow> md5_inv (foldl compy_md5_update ctx chunks) (m @ concat chunks)"
  by (induction chunks arbitrary: ctx m) (auto dest: md5_update_inv simp flip: append_assoc)

lemma md5_init_inv: "length (md5_buffer ctx) = 64 \<Longrightarrow> md5_inv (compy_md5_init ctx) []"
  by (simp add: md5_inv_def compy_md5_init_def md5_init_state_def blocks64_short)

section \<open>The padding\<close>

lemma md5_pad_octets:
  assumes "index = n mod 64"
  shows "take (if index < 56 then 56 - index else 120 - index) md5_padding =
     [0x80] @ replicate (nat ((55 - int n) mod 64)) 0"
proof -
  let ?k = "if index < 56 then 55 - index else 119 - index"
  have "index < 64" using assms by simp
  have "(55 - int n) mod 64 = (55 - int index) mod 64"
    using assms by (simp add: zmod_int mod_diff_right_eq)
  also have "\<dots> = int ?k"
  proof (cases "index < 56")
    case False
    have "(55 - int index) mod 64 = (55 - int index + 64) mod 64" by (rule mod_add_self2 [symmetric])
    then show ?thesis using False \<open>index < 64\<close> by (simp add: of_nat_diff)
  qed (simp add: of_nat_diff)
  finally have "nat ((55 - int n) mod 64) = ?k" by simp
  moreover have "?k \<le> 63" "(if index < 56 then 56 - index else 120 - index) = Suc ?k" using \<open>index < 64\<close> by auto
  ultimately show ?thesis by (simp add: md5_padding_def take_replicate min_def del: replicate_Suc)
qed

lemma md5_bits_octet:
  assumes "i < 8"
  shows "(ucast (drop_bit (i * 8) ((word_of_nat n :: u64) * 8)) :: u8) = word_of_nat (n * 8 div 256 ^ i)"
proof (rule bit_word_eqI)
  fix k assume "k < LENGTH(8)"
  then have k: "k < 8" by simp
  have "(word_of_nat n :: u64) * 8 = word_of_nat (n * 8)" by simp
  then have "bit (ucast (drop_bit (i * 8) ((word_of_nat n :: u64) * 8)) :: u8) k \<longleftrightarrow> bit (n * 8) (i * 8 + k)"
    using assms k by (simp add: bit_simps del: of_nat_mult)
  also have "\<dots> \<longleftrightarrow> bit (drop_bit (8 * i) (n * 8)) k" by (simp add: bit_drop_bit_eq mult.commute)
  also have "drop_bit (8 * i) (n * 8) = n * 8 div 256 ^ i"
    by (simp add: drop_bit_eq_div power_mult)
  finally show "bit (ucast (drop_bit (i * 8) ((word_of_nat n :: u64) * 8)) :: u8) k \<longleftrightarrow>
      bit (word_of_nat (n * 8 div 256 ^ i) :: u8) k"
    using k by (simp add: bit_simps)
qed

lemma md5_final_reference:
  assumes "md5_inv ctx m"
  shows "compy_md5_final ctx = md5_reference m"
proof -
  let ?n = "length m"
  let ?pad = "[0x80] @ replicate (nat ((55 - int ?n) mod 64)) (0 :: u8)"
  let ?bits = "map (\<lambda>i. word_of_nat (?n * 8 div 256 ^ i)) [0..<8] :: u8 list"
  have count: "md5_count ctx = word_of_nat ?n" using assms by (simp add: md5_inv_def)
  have bits: "md5_bits (word_of_nat ?n) = ?bits" by (simp add: md5_bits_def md5_bits_octet)
  have "md5_inv (compy_md5_update (compy_md5_update ctx ?pad) ?bits) ((m @ ?pad) @ ?bits)"
    by (intro md5_update_inv assms)
  then have "md5_state (compy_md5_update (compy_md5_update ctx ?pad) ?bits) =
      foldl md5_compress md5_init_state (blocks64 (md5_pad m))"
    by (simp add: md5_inv_def md5_pad_def md5_transform_compress [abs_def])
  then show ?thesis
    unfolding compy_md5_final_def md5_reference_def Let_def count md5_index_mod bits
      md5_pad_octets [OF refl] by (simp split: prod.split)
qed

section \<open>Properties\<close>

text \<open>
  C11. The digest is MD5: however a message is cut into calls of \<open>compy_md5_update\<close>, and whatever the
  buffer held before, the digest is the one RFC 1321 defines for the whole message, and
  \<open>compy_md5_hex\<close> is its hexadecimal text.
\<close>

theorem md5_equivalence:
  assumes "length (md5_buffer ctx) = 64"
  shows "compy_md5_final (foldl compy_md5_update (compy_md5_init ctx) chunks) = md5_reference (concat chunks) \<and>
     compy_md5_hex ctx m = concat (map hex_octet (md5_reference m))"
  using md5_final_reference [OF md5_updates_inv [OF md5_init_inv [OF assms], of chunks]]
    md5_final_reference [OF md5_updates_inv [OF md5_init_inv [OF assms], of "[m]"]]
  by (simp add: compy_md5_hex_def)

text \<open>The test vector of RFC 1321 for \<open>abc\<close>, in two updates.\<close>

lemma md5_step_eval:
  "md5_steps f x ((k, t, n) # ss) (a, b, c, d) =
     md5_steps f x ss (d, b + (let y = a + f b c d + x ! k + t in push_bit n y OR drop_bit (32 - n) y), b, c)"
  by (simp add: ROT_def Let_def)

definition abc_words :: "u32 list" where
  "abc_words = [0x80636261, 0, 0, 0, 0, 0, 0, 0, 0, 0, 0, 0, 0, 0, 0x18, 0]"

lemma md5_abc_words: "map (md5_word (md5_pad [0x61, 0x62, 0x63])) [0..<16] = abc_words"
  by (simp add: md5_pad_def md5_word_def abc_words_def upt_rec nth_append)

lemma md5_abc_rounds:
  shows "md5_steps md5_F abc_words (md5_schedule 0) md5_init_state =
     (0xdda9b9a6, 0x72aff2e0, 0xe396856b, 0xa1051895)"
    and "md5_steps md5_G abc_words (md5_schedule 1) (0xdda9b9a6, 0x72aff2e0, 0xe396856b, 0xa1051895) =
     (0x790a77fb, 0x726342d3, 0xa62884aa, 0x9f47e4f8)"
    and "md5_steps md5_H abc_words (md5_schedule 2) (0x790a77fb, 0x726342d3, 0xa62884aa, 0x9f47e4f8) =
     (0x7f2e507b, 0x7beb9700, 0x8fae6399, 0x99d9679d)"
    and "md5_steps md5_I abc_words (md5_schedule 3) (0x7f2e507b, 0x7beb9700, 0x8fae6399, 0x99d9679d) =
     (0x310ade8f, 0xc08226b3, 0xe484b9d8, 0x624d8cb2)"
  unfolding abc_words_def md5_schedule_0 md5_schedule_1 md5_schedule_2 md5_schedule_3 md5_init_state_def
  by (simp_all add: md5_step_eval md5_F_def md5_G_def md5_H_def md5_I_def del: md5_steps.simps(2))

lemma md5_reference_abc:
  "md5_reference [0x61, 0x62, 0x63] =
     [0x90, 0x01, 0x50, 0x98, 0x3c, 0xd2, 0x4f, 0xb0, 0xd6, 0x96, 0x3f, 0x7d, 0x28, 0xe1, 0x7f, 0x72]"
proof -
  have "length (md5_pad [0x61, 0x62, 0x63]) = 64" by (simp add: md5_pad_def)
  then show ?thesis
    by (simp add: md5_reference_def blocks64_one md5_compress_def md5_abc_words md5_abc_rounds
        md5_abc_rounds [unfolded One_nat_def] Let_def)
      (simp add: md5_init_state_def le32_octets_def)
qed

theorem md5_equivalence_witness:
  "compy_md5_final (foldl compy_md5_update
       (compy_md5_init \<lparr>md5_state = (0, 0, 0, 0), md5_count = 0, md5_buffer = replicate 64 7\<rparr>)
       [[0x61], [0x62, 0x63]]) =
     [0x90, 0x01, 0x50, 0x98, 0x3c, 0xd2, 0x4f, 0xb0, 0xd6, 0x96, 0x3f, 0x7d, 0x28, 0xe1, 0x7f, 0x72]"
  using md5_equivalence [of "\<lparr>md5_state = (0, 0, 0, 0), md5_count = 0, md5_buffer = replicate 64 7\<rparr>"
      "[[0x61], [0x62, 0x63]]"] md5_reference_abc
  by simp

end
