(* ===== verification/Auth.thy ===== *)
theory Auth
  imports Controller Md5
begin

text \<open>
  Digest authentication, \<open>src/auth.c\<close>. A C string is the list of its characters before the NUL; a
  buffer that is zeroed and then filled by \<open>strncpy\<close> with one octet less than its size holds the first
  octets of the value. What the kernel gives as randomness is an argument, and so is the credential
  lookup: it gets the user name and the size of the password buffer.
\<close>

section \<open>Definitions\<close>

definition NONCE_LEN :: nat where "NONCE_LEN = 32"
definition MAX_REALM :: nat where "MAX_REALM = 128"

record Compy_Auth =
  auth_realm :: string
  auth_nonce :: string

type_synonym Compy_CredentialLookup = "string \<Rightarrow> nat \<Rightarrow> string option"

text \<open>
  \<open>getrandom\<close> is what the system call wrote, \<open>urandom\<close> what was read from the device, \<open>None\<close> when it
  could not be opened. The result is \<open>None\<close> where the code returns \<open>-1\<close>; the nonce is then unchanged.
\<close>

record entropy =
  getrandom :: "u8 list"
  urandom :: "u8 list option"

definition generate_nonce :: "entropy \<Rightarrow> string option" where
  "generate_nonce e =
     (if length (getrandom e) = NONCE_LEN div 2 then Some (concat (map hex_octet (getrandom e)))
      else
        (case urandom e of
           None \<Rightarrow> None
         | Some raw \<Rightarrow>
             if length raw \<noteq> NONCE_LEN div 2 then None else Some (concat (map hex_octet raw))))"

definition Compy_Auth_new :: "string \<Rightarrow> entropy \<Rightarrow> Compy_Auth option" where
  "Compy_Auth_new realm e =
     (case generate_nonce e of
        None \<Rightarrow> None
      | Some nonce \<Rightarrow> Some \<lparr>auth_realm = take (MAX_REALM - 1) realm, auth_nonce = nonce\<rparr>)"

text \<open>\<open>snprintf\<close> into the buffer of 1024 octets.\<close>

definition snprintf_buf :: "string \<Rightarrow> string" where
  "snprintf_buf formatted = take 1023 formatted"

text \<open>The context on the stack of \<open>compy_md5_hex\<close>; its first contents do not matter.\<close>

definition md5_ctx_0 :: Compy_Md5 where
  "md5_ctx_0 = \<lparr>md5_state = (0, 0, 0, 0), md5_count = 0, md5_buffer = replicate 64 0\<rparr>"

definition md5_hex_str :: "string \<Rightarrow> string" where
  "md5_hex_str buf = compy_md5_hex md5_ctx_0 (map u8_of_char buf)"

definition compy_digest_response ::
  "string \<Rightarrow> string \<Rightarrow> string \<Rightarrow> string \<Rightarrow> string \<Rightarrow> string \<Rightarrow> string" where
  "compy_digest_response username realm password nonce method uri =
     (let buf = snprintf_buf (username @ '':'' @ realm @ '':'' @ password);
          ha1 = md5_hex_str buf;
          buf = snprintf_buf (method @ '':'' @ uri);
          ha2 = md5_hex_str buf;
          buf = snprintf_buf (ha1 @ '':'' @ nonce @ '':'' @ ha2)
      in md5_hex_str buf)"

text \<open>
  The loop that reads a key or a value: up to \<open>room\<close> characters that do not satisfy \<open>stop\<close>. It gives
  what it read and the rest of the string.
\<close>

fun read_field :: "(char \<Rightarrow> bool) \<Rightarrow> nat \<Rightarrow> string \<Rightarrow> string \<times> string" where
  "read_field stop room [] = ([], [])"
| "read_field stop room (c # s) =
     (if stop c \<or> room = 0 then ([], c # s)
      else (case read_field stop (room - 1) s of (field, rest) \<Rightarrow> (c # field, rest)))"

definition parse_digest_param :: "string \<Rightarrow> nat \<Rightarrow> nat \<Rightarrow> (string \<times> string \<times> string) option" where
  "parse_digest_param p key_max value_max =
     (let s = dropWhile (\<lambda>c. c = CHR '' '' \<or> c = CHR '','' \<or> c = CHR 0x09) p
      in if s = [] then None
         else
           (case read_field (\<lambda>c. c = CHR ''='') (key_max - 1) s of
              (key, s) \<Rightarrow>
                if s = [] \<or> hd s \<noteq> CHR ''='' then None
                else
                  let s = tl s;
                      quoted = (s \<noteq> [] \<and> hd s = CHR 0x22);
                      s = (if quoted then tl s else s)
                  in (case read_field (\<lambda>c. if quoted then c = CHR 0x22 else c = CHR '','' \<or> c = CHR '' '')
                             (value_max - 1) s of
                        (value, s) \<Rightarrow>
                          let s = (if quoted \<and> s \<noteq> [] \<and> hd s = CHR 0x22 then tl s else s)
                          in Some (s, key, value))))"

record digest_params =
  dp_username :: string
  dp_realm :: string
  dp_nonce :: string
  dp_uri :: string
  dp_response :: string

definition store_param :: "string \<Rightarrow> string \<Rightarrow> digest_params \<Rightarrow> digest_params" where
  "store_param key value ps =
     (if key = ''username'' then ps\<lparr>dp_username := take 255 value\<rparr>
      else if key = ''realm'' then ps\<lparr>dp_realm := take (MAX_REALM - 1) value\<rparr>
      else if key = ''nonce'' then ps\<lparr>dp_nonce := take NONCE_LEN value\<rparr>
      else if key = ''uri'' then ps\<lparr>dp_uri := take 511 value\<rparr>
      else if key = ''response'' then ps\<lparr>dp_response := take 32 value\<rparr>
      else ps)"

lemma read_field_shorter:
  "read_field stop room s = (field, rest) \<Longrightarrow> length field + length rest = length s"
  by (induction stop room s arbitrary: field rest rule: read_field.induct)
    (auto split: if_splits prod.splits)

lemma parse_digest_param_shorter:
  assumes "parse_digest_param p km vm = Some (p', key, value)"
  shows "length p' < length p"
proof -
  let ?s = "dropWhile (\<lambda>c. c = CHR '' '' \<or> c = CHR '','' \<or> c = CHR 0x09) p"
  have drop: "length ?s \<le> length p" by (rule length_dropWhile_le)
  show ?thesis
    using assms drop
    by (auto simp: parse_digest_param_def Let_def split: if_splits prod.splits dest!: read_field_shorter)
      (auto simp: Suc_le_eq length_greater_0_conv [symmetric] simp del: length_greater_0_conv)
qed

function parse_digest_loop :: "string \<Rightarrow> digest_params \<Rightarrow> digest_params" where
  "parse_digest_loop p ps =
     (case parse_digest_param p 64 512 of
        None \<Rightarrow> ps
      | Some (p, key, value) \<Rightarrow> parse_digest_loop p (store_param key value ps))"
  by pat_completeness auto
termination
  by (relation "measure (length \<circ> fst)") (auto dest: parse_digest_param_shorter)

declare parse_digest_loop.simps [simp del]

definition digest_params_0 :: digest_params where
  "digest_params_0 = \<lparr>dp_username = [], dp_realm = [], dp_nonce = [], dp_uri = [], dp_response = []\<rparr>"

text \<open>The comparison over the 32 octets of both buffers; the response is followed by zeros.\<close>

definition response_diff :: "string \<Rightarrow> string \<Rightarrow> u8" where
  "response_diff expected response =
     (let buffer = response @ replicate (33 - length response) (CHR 0x00)
      in fold (\<lambda>i diff. diff OR (u8_of_char (expected ! i) XOR u8_of_char (buffer ! i))) [0..<32] 0)"

definition tolower :: "char \<Rightarrow> char" where
  "tolower c = (if (65 :: nat) \<le> of_char c \<and> (of_char c :: nat) \<le> 90 then char_of (of_char c + 32 :: nat) else c)"

definition auth_challenge ::
  "'w Compy_Writer \<Rightarrow> entropy \<Rightarrow> Compy_Auth \<Rightarrow> 'w Compy_Context \<Rightarrow> (int \<times> Compy_Auth \<times> 'w Compy_Context) option" where
  "auth_challenge W e self ctx =
     (let self = (case generate_nonce e of None \<Rightarrow> self | Some nonce \<Rightarrow> self\<lparr>auth_nonce := nonce\<rparr>)
      in compy_header ctx COMPY_HEADER_WWW_AUTHENTICATE
           (''Digest realm='' @ [CHR 0x22] @ auth_realm self @ [CHR 0x22] @ '', nonce='' @ [CHR 0x22] @
            auth_nonce self @ [CHR 0x22]) \<bind> (\<lambda>ctx.
         compy_respond W ctx COMPY_STATUS_UNAUTHORIZED ''Unauthorized'' \<bind> (\<lambda>(_, ctx).
         Some (-1, self, ctx))))"

definition compy_auth_check ::
  "'w Compy_Writer \<Rightarrow> Compy_CredentialLookup \<Rightarrow> entropy \<Rightarrow> Compy_Auth \<Rightarrow> 'w Compy_Context \<Rightarrow> Compy_Request \<Rightarrow>
     (int \<times> Compy_Auth \<times> 'w Compy_Context) option" where
  "compy_auth_check W lookup e self ctx req =
     (let challenge = auth_challenge W e self ctx
      in case Compy_HeaderMap_find (req_header_map req) COMPY_HEADER_AUTHORIZATION of
           None \<Rightarrow> challenge
         | Some auth_value \<Rightarrow>
             let prefix_len = length ''Digest ''
             in if length auth_value < prefix_len \<or>
                   map tolower (take prefix_len auth_value) \<noteq> map tolower ''Digest '' then challenge
                else
                  let copy_len = (if length auth_value - prefix_len < 1023 then length auth_value - prefix_len else 1023);
                      auth_str = c_str (take copy_len (drop prefix_len auth_value));
                      ps = parse_digest_loop auth_str digest_params_0
                  in if dp_username ps = [] \<or> dp_nonce ps = [] \<or> dp_uri ps = [] \<or> dp_response ps = [] then challenge
                     else if dp_realm ps \<noteq> auth_realm self then challenge
                     else if dp_nonce ps \<noteq> auth_nonce self then challenge
                     else
                       (case lookup (dp_username ps) 256 of
                          None \<Rightarrow> challenge
                        | Some password \<Rightarrow>
                            let method = c_str (take 31 (rql_method (req_start_line req)));
                                expected = compy_digest_response (dp_username ps) (auth_realm self) password
                                  (dp_nonce ps) method (dp_uri ps)
                            in if response_diff expected (dp_response ps) \<noteq> 0 then challenge
                               else Some (0, self, ctx)))"

section \<open>The reference\<close>

text \<open>RFC 2617, section 3.2.2, without the limits of buffers.\<close>

definition md5_text :: "string \<Rightarrow> string" where
  "md5_text s = concat (map hex_octet (md5_reference (map u8_of_char s)))"

definition rfc2617_response :: "string \<Rightarrow> string \<Rightarrow> string \<Rightarrow> string \<Rightarrow> string \<Rightarrow> string \<Rightarrow> string" where
  "rfc2617_response username realm password nonce method uri =
     md5_text (md5_text (username @ '':'' @ realm @ '':'' @ password) @ '':'' @ nonce @ '':'' @
       md5_text (method @ '':'' @ uri))"

text \<open>What the documentation of the lookup promises: the password fits into the buffer it is given.\<close>

definition lookup_ok :: "Compy_CredentialLookup \<Rightarrow> bool" where
  "lookup_ok lookup \<longleftrightarrow>
     (\<forall>username size password. 0 < size \<longrightarrow> lookup username size = Some password \<longrightarrow> length password < size)"

text \<open>The realm and the nonce of an object as the constructor makes it.\<close>

definition wf_auth :: "Compy_Auth \<Rightarrow> bool" where
  "wf_auth self \<longleftrightarrow> length (auth_realm self) < MAX_REALM \<and> length (auth_nonce self) = NONCE_LEN"

lemma length_md5_reference [simp]: "length (md5_reference m) = 16"
  by (simp add: md5_reference_def le32_octets_def split: prod.split)

lemma length_hex_text [simp]: "length (concat (map hex_octet bs)) = 2 * length bs"
  by (induction bs) (simp_all add: hex_octet_def)

lemma length_md5_text [simp]: "length (md5_text s) = 32"
  by (simp add: md5_text_def)

lemma md5_text_not_Nil [simp]: "md5_text s \<noteq> []"
  using length_md5_text [of s] by (cases "md5_text s") simp_all

lemma md5_hex_str_text: "md5_hex_str s = md5_text s"
proof -
  have "md5_inv (compy_md5_init md5_ctx_0) []" by (rule md5_init_inv) (simp add: md5_ctx_0_def)
  then show ?thesis
    using md5_final_reference [OF md5_update_inv]
    by (simp add: md5_hex_str_def md5_text_def compy_md5_hex_def)
qed

lemma wf_auth_new: "Compy_Auth_new realm e = Some self \<Longrightarrow> wf_auth self"
  by (auto simp: Compy_Auth_new_def wf_auth_def generate_nonce_def NONCE_LEN_def MAX_REALM_def
      split: option.splits if_splits)

lemma digest_response_reference:
  assumes "length username \<le> 255" "length realm < MAX_REALM" "length password < 256"
    and "length nonce \<le> NONCE_LEN" "length method \<le> 31" "length uri \<le> 511"
  shows "compy_digest_response username realm password nonce method uri =
     rfc2617_response username realm password nonce method uri"
  using assms
  by (simp add: compy_digest_response_def rfc2617_response_def snprintf_buf_def Let_def md5_hex_str_text
      NONCE_LEN_def MAX_REALM_def)

section \<open>The decision\<close>

definition params_bounded :: "digest_params \<Rightarrow> bool" where
  "params_bounded ps \<longleftrightarrow> length (dp_username ps) \<le> 255 \<and> length (dp_realm ps) < MAX_REALM \<and>
     length (dp_nonce ps) \<le> NONCE_LEN \<and> length (dp_uri ps) \<le> 511 \<and> length (dp_response ps) \<le> 32"

lemma parse_digest_loop_bounded: "params_bounded ps \<Longrightarrow> params_bounded (parse_digest_loop p ps)"
proof (induction p ps rule: parse_digest_loop.induct)
  case (1 p ps)
  have "params_bounded (store_param k v ps)" for k v
    using 1(2) by (simp add: params_bounded_def store_param_def MAX_REALM_def min_less_iff_disj)
  then show ?case using 1 by (subst parse_digest_loop.simps) (auto split: option.split)
qed

lemma hex_octet_code:
  assumes "c \<in> set (hex_octet b)"
  shows "(48 :: nat) \<le> of_char c"
proof -
  have code: "(48 :: nat) \<le> of_char (hex_digit d)" if "d < 16" for d
    using that by (simp add: hex_digit_def)
  have "unat b < 2 ^ LENGTH(8)" by (rule unsigned_less)
  then have "unat b div 16 < 16" by (simp add: less_mult_imp_div_less)
  then show ?thesis using assms code by (auto simp: hex_octet_def)
qed

lemma hex_octet_chars:
  "CHR 0x00 \<notin> set (hex_octet b)" "CHR 0x22 \<notin> set (hex_octet b)" "CHR 0x0D \<notin> set (hex_octet b)"
  using hex_octet_code [of "CHR 0x00" b] hex_octet_code [of "CHR 0x22" b] hex_octet_code [of "CHR 0x0D" b] by auto

lemma md5_text_chars:
  "CHR 0x22 \<notin> set (md5_text s)" "CHR '','' \<notin> set (md5_text s)" "CHR '' '' \<notin> set (md5_text s)" "nul_free (md5_text s)"
proof -
  have "(48 :: nat) \<le> of_char c" if "c \<in> set (md5_text s)" for c using that hex_octet_code by (auto simp: md5_text_def)
  from this [of "CHR 0x22"] this [of "CHR '',''"] this [of "CHR '' ''"] this [of "CHR 0x00"]
  show "CHR 0x22 \<notin> set (md5_text s)" "CHR '','' \<notin> set (md5_text s)" "CHR '' '' \<notin> set (md5_text s)" "nul_free (md5_text s)"
    by (auto simp: nul_free_def)
qed

lemma response_diff_iff:
  assumes "length response \<le> 32"
  shows "response_diff (md5_text s) response = 0 \<longleftrightarrow> response = md5_text s"
proof -
  let ?buffer = "response @ replicate (33 - length response) (CHR 0x00)"
  have nul: "md5_text s ! i \<noteq> CHR 0x00" if "i < 32" for i
    using that by (metis length_md5_text nth_mem md5_text_chars(4) nul_free_def)
  have "response_diff (md5_text s) response = 0 \<longleftrightarrow> (\<forall>i < 32. md5_text s ! i = ?buffer ! i)"
    unfolding response_diff_def Let_def octet_diff_eq_0 by simp
  also have "\<dots> \<longleftrightarrow> response = md5_text s"
  proof
    assume same: "\<forall>i < 32. md5_text s ! i = ?buffer ! i"
    have "length response = 32"
    proof (rule ccontr)
      assume "length response \<noteq> 32"
      then have "md5_text s ! length response = CHR 0x00" using assms same by (simp add: nth_append)
      then show False using nul assms \<open>length response \<noteq> 32\<close> by simp
    qed
    then show "response = md5_text s" using same by (auto simp: list_eq_iff_nth_eq nth_append)
  qed (simp add: nth_append)
  finally show ?thesis .
qed

text \<open>
  The condition of the code with its buffers, in closed form: \<open>credentials\<close> are the parameters that its parser reads from
  the \<open>Authorization\<close> header, cut to their buffers, and \<open>authentic\<close> is what it asks of them. What they mean for the text of
  the header is shown below.
\<close>

definition credentials :: "Compy_Request \<Rightarrow> digest_params option" where
  "credentials req =
     (case Compy_HeaderMap_find (req_header_map req) COMPY_HEADER_AUTHORIZATION of
        None \<Rightarrow> None
      | Some v \<Rightarrow>
          if map tolower (take 7 v) = ''digest ''
          then Some (parse_digest_loop (c_str (take 1023 (drop 7 v))) digest_params_0) else None)"

definition authentic :: "Compy_CredentialLookup \<Rightarrow> Compy_Auth \<Rightarrow> Compy_Request \<Rightarrow> bool" where
  "authentic lookup self req \<longleftrightarrow>
     (case credentials req of
        None \<Rightarrow> False
      | Some ps \<Rightarrow>
          dp_username ps \<noteq> [] \<and> dp_uri ps \<noteq> [] \<and>
          dp_realm ps = auth_realm self \<and> dp_nonce ps = auth_nonce self \<and>
          (case lookup (dp_username ps) 256 of
             None \<Rightarrow> False
           | Some password \<Rightarrow>
               rfc2617_response (dp_username ps) (auth_realm self) password (auth_nonce self)
                 (c_str (take 31 (rql_method (req_start_line req)))) (dp_uri ps) = dp_response ps))"

lemma digest_prefix:
  "length v < 7 \<or> map tolower (take 7 v) \<noteq> map tolower ''Digest '' \<longleftrightarrow> map tolower (take 7 v) \<noteq> ''digest ''"
proof -
  have lower: "map tolower ''Digest '' = ''digest ''" by (simp add: tolower_def char_of_def bit_numeral_rec bit_Suc_0_iff)
  have "length v \<ge> 7" if "map tolower (take 7 v) = ''digest ''"
    using arg_cong [OF that, of length] by simp
  then show ?thesis unfolding lower by fastforce
qed

lemma auth_check_decision:
  assumes "lookup_ok lookup" "wf_auth self"
  shows "compy_auth_check W lookup e self ctx req =
     (if authentic lookup self req then Some (0, self, ctx) else auth_challenge W e self ctx)"
proof (cases "Compy_HeaderMap_find (req_header_map req) COMPY_HEADER_AUTHORIZATION")
  case None
  then show ?thesis by (simp add: compy_auth_check_def authentic_def credentials_def)
next
  case (Some v)
  let ?meth = "c_str (take 31 (rql_method (req_start_line req)))"
  define ps where "ps = parse_digest_loop (c_str (take 1023 (drop 7 v))) digest_params_0"
  have copy: "take (if length v - 7 < 1023 then length v - 7 else 1023) (drop 7 v) = take 1023 (drop 7 v)" by simp
  have bounded: "params_bounded ps"
    unfolding ps_def by (rule parse_digest_loop_bounded) (simp add: params_bounded_def digest_params_0_def MAX_REALM_def)
  have "length ?meth \<le> 31" by (simp add: c_str_def length_takeWhile_le [THEN le_trans])
  then have expected: "compy_digest_response (dp_username ps) (auth_realm self) password (auth_nonce self) ?meth (dp_uri ps) =
      rfc2617_response (dp_username ps) (auth_realm self) password (auth_nonce self) ?meth (dp_uri ps)"
    if "lookup (dp_username ps) 256 = Some password" for password
    using that bounded assms
    by (intro digest_response_reference) (auto simp: params_bounded_def lookup_ok_def wf_auth_def)
  have diff: "response_diff (rfc2617_response u r p n m uri) (dp_response ps) = 0 \<longleftrightarrow>
      rfc2617_response u r p n m uri = dp_response ps" for u r p n m uri
    unfolding eq_commute [of _ "dp_response ps"] rfc2617_response_def by (rule response_diff_iff) (use bounded in \<open>simp add: params_bounded_def\<close>)
  have ne: "auth_nonce self \<noteq> []" "rfc2617_response u r p n m uri \<noteq> []" for u r p n m uri
    using assms(2) by (auto simp: wf_auth_def NONCE_LEN_def rfc2617_response_def)
  have len: "length ''Digest '' = 7" by simp
  show ?thesis
  proof (cases "map tolower (take 7 v) = ''digest ''")
    case True
    show ?thesis
      unfolding compy_auth_check_def Let_def Some option.case len copy digest_prefix authentic_def credentials_def
        if_P [OF True] True ps_def [symmetric]
      using ne expected diff
      by ((cases "dp_nonce ps = auth_nonce self"; cases "lookup (dp_username ps) 256"; cases "dp_response ps = []"),
          simp_all) metis
  next
    case False
    then show ?thesis
      unfolding compy_auth_check_def Let_def Some option.case len digest_prefix authentic_def credentials_def
      by simp
  qed
qed

section \<open>The client's side\<close>

definition quoted :: "string \<Rightarrow> string \<Rightarrow> string" where
  "quoted key v = key @ ''='' @ [CHR 0x22] @ v @ [CHR 0x22]"

definition digest_header :: "digest_params \<Rightarrow> string" where
  "digest_header ps = ''Digest '' @ quoted ''username'' (dp_username ps) @ '', '' @ quoted ''realm'' (dp_realm ps) @
     '', '' @ quoted ''nonce'' (dp_nonce ps) @ '', '' @ quoted ''uri'' (dp_uri ps) @ '', '' @
     quoted ''response'' (dp_response ps)"

definition client_value :: "nat \<Rightarrow> string \<Rightarrow> bool" where
  "client_value n v \<longleftrightarrow> v \<noteq> [] \<and> length v \<le> n \<and> CHR 0x22 \<notin> set v \<and> nul_free v"

lemma read_field_all:
  "list_all (\<lambda>c. \<not> stop c) v \<Longrightarrow> length v \<le> room \<Longrightarrow> rest = [] \<or> stop (hd rest) \<Longrightarrow>
     read_field stop room (v @ rest) = (v, rest)"
proof (induction v arbitrary: room)
  case Nil
  then show ?case by (cases rest) auto
qed auto

lemma parse_quoted:
  assumes "list_all (\<lambda>c. c = CHR '' '' \<or> c = CHR '','') sep" "key \<noteq> []" "hd key \<notin> {CHR '' '', CHR '','', CHR 0x09}"
    and "CHR ''='' \<notin> set key" "length key \<le> 63" "CHR 0x22 \<notin> set v" "length v \<le> 511"
  shows "parse_digest_param (sep @ quoted key v @ rest) 64 512 = Some (rest, key, v)"
proof -
  let ?sep = "\<lambda>c. c = CHR '' '' \<or> c = CHR '','' \<or> c = CHR 0x09"
  have skip: "dropWhile ?sep (sep @ key @ t) = key @ t" for t
    using assms(1-3) by (induction sep) (cases key; auto)+
  have key: "read_field (\<lambda>c. c = CHR ''='') 63 (key @ CHR ''='' # t) = (key, CHR ''='' # t)" for t
    using assms(4,5) by (intro read_field_all) (auto simp: list_all_iff)
  have val: "read_field (\<lambda>c. c = CHR 0x22) 511 (v @ CHR 0x22 # t) = (v, CHR 0x22 # t)" for t
    using assms(6,7) by (intro read_field_all) (auto simp: list_all_iff)
  show ?thesis using assms(2) by (simp add: parse_digest_param_def quoted_def skip key val)
qed

lemma parse_digest_steps:
  assumes "key \<noteq> []" "hd key \<notin> {CHR '' '', CHR '','', CHR 0x09}" "CHR ''='' \<notin> set key" "length key \<le> 63"
    and "CHR 0x22 \<notin> set v" "length v \<le> 511"
  shows "parse_digest_loop (quoted key v @ rest) ps = parse_digest_loop rest (store_param key v ps)"
    and "parse_digest_loop (CHR '','' # CHR '' '' # quoted key v @ rest) ps =
      parse_digest_loop rest (store_param key v ps)"
    and "parse_digest_loop (CHR '','' # CHR '' '' # quoted key v) ps = store_param key v ps"
proof -
  have step: "parse_digest_loop (sep @ quoted key v @ t) ps = parse_digest_loop t (store_param key v ps)"
    if "list_all (\<lambda>c. c = CHR '' '' \<or> c = CHR '','') sep" for sep t
    using parse_quoted [OF that assms] by (subst parse_digest_loop.simps) simp
  have last: "parse_digest_loop [] qs = qs" for qs
    by (simp add: parse_digest_loop.simps parse_digest_param_def)
  show "parse_digest_loop (quoted key v @ rest) ps = parse_digest_loop rest (store_param key v ps)"
    using step [of "[]"] by simp
  show "parse_digest_loop (CHR '','' # CHR '' '' # quoted key v @ rest) ps =
      parse_digest_loop rest (store_param key v ps)"
    using step [of "'', ''"] by simp
  show "parse_digest_loop (CHR '','' # CHR '' '' # quoted key v) ps = store_param key v ps"
    using step [of "'', ''" "[]"] by (simp add: last)
qed

lemma parse_digest_header:
  assumes "client_value 255 (dp_username ps)" "client_value 127 (dp_realm ps)" "client_value 32 (dp_nonce ps)"
    and "client_value 511 (dp_uri ps)" "client_value 32 (dp_response ps)"
  shows "parse_digest_loop (drop 7 (digest_header ps)) digest_params_0 = ps"
  using assms
  by (simp add: digest_header_def parse_digest_steps client_value_def store_param_def digest_params_0_def
      MAX_REALM_def NONCE_LEN_def)

section \<open>The header as a text\<close>

text \<open>
  The fields of a digest header in the grammar of RFC 2617, with what separates each from the one before: a key and a
  value, quoted or not. The last field with a key counts.
\<close>

datatype digest_field = Field (df_sep: string) (df_key: string) (df_quoted: bool) (df_value: string)

definition field_text :: "digest_field \<Rightarrow> string" where
  "field_text f = df_sep f @ df_key f @ ''='' @ (if df_quoted f then [CHR 0x22] @ df_value f @ [CHR 0x22] else df_value f)"

definition field_value :: "digest_field list \<Rightarrow> string \<Rightarrow> string" where
  "field_value fs key = (case filter (\<lambda>f. df_key f = key) (rev fs) of [] \<Rightarrow> [] | f # _ \<Rightarrow> df_value f)"

text \<open>The sizes of the buffers: 63 characters for a key, and for a value what the key has room for.\<close>

definition value_room :: "string \<Rightarrow> nat" where
  "value_room key = (if key = ''username'' then 255 else if key = ''realm'' then 127 else if key = ''nonce'' then 32
     else if key = ''response'' then 32 else 511)"

definition wf_field :: "digest_field \<Rightarrow> bool" where
  "wf_field f \<longleftrightarrow> list_all (\<lambda>c. c \<in> {CHR '' '', CHR '','', CHR 0x09}) (df_sep f) \<and>
     df_key f \<noteq> [] \<and> hd (df_key f) \<notin> {CHR '' '', CHR '','', CHR 0x09} \<and> CHR ''='' \<notin> set (df_key f) \<and> length (df_key f) \<le> 63 \<and>
     length (df_value f) \<le> value_room (df_key f) \<and>
     (if df_quoted f then CHR 0x22 \<notin> set (df_value f)
      else CHR '','' \<notin> set (df_value f) \<and> CHR '' '' \<notin> set (df_value f) \<and> (df_value f = [] \<or> hd (df_value f) \<noteq> CHR 0x22))"

fun wf_fields :: "digest_field list \<Rightarrow> bool" where
  "wf_fields [] \<longleftrightarrow> True"
| "wf_fields [f] \<longleftrightarrow> wf_field f"
| "wf_fields (f # g # fs) \<longleftrightarrow> wf_field f \<and>
     (df_quoted f \<or> (df_sep g \<noteq> [] \<and> hd (df_sep g) \<in> {CHR '','', CHR '' ''})) \<and> wf_fields (g # fs)"

definition carries :: "Compy_Request \<Rightarrow> digest_field list \<Rightarrow> bool" where
  "carries req fs \<longleftrightarrow> wf_fields fs \<and> nul_free (concat (map field_text fs)) \<and> length (concat (map field_text fs)) \<le> 1023 \<and>
     Compy_HeaderMap_find (req_header_map req) COMPY_HEADER_AUTHORIZATION = Some (''Digest '' @ concat (map field_text fs))"

text \<open>What RFC 2617 asks of the fields.\<close>

definition valid_digest :: "Compy_CredentialLookup \<Rightarrow> Compy_Auth \<Rightarrow> string \<Rightarrow> (string \<Rightarrow> string) \<Rightarrow> bool" where
  "valid_digest lookup self meth val \<longleftrightarrow> val ''username'' \<noteq> [] \<and> val ''uri'' \<noteq> [] \<and>
     val ''realm'' = auth_realm self \<and> val ''nonce'' = auth_nonce self \<and>
     (case lookup (val ''username'') 256 of
        None \<Rightarrow> False
      | Some password \<Rightarrow>
          val ''response'' =
            rfc2617_response (val ''username'') (auth_realm self) password (auth_nonce self) meth (val ''uri''))"

text \<open>A header of any form that holds a value behind a key, with a quotation mark or without one.\<close>

definition states :: "string \<Rightarrow> string \<Rightarrow> string \<Rightarrow> bool" where
  "states header key v \<longleftrightarrow> (\<exists>a q b. header = a @ key @ ''='' @ q @ v @ b \<and> q \<in> {[], [CHR 0x22]})"

lemma value_room_le: "value_room key \<le> 511"
  by (simp add: value_room_def)

lemma dropWhile_separators: "list_all P s \<Longrightarrow> k \<noteq> [] \<Longrightarrow> \<not> P (hd k) \<Longrightarrow> dropWhile P (s @ k @ t) = k @ t"
  by (induction s) (cases k; simp)+

lemma parse_field:
  assumes "wf_field f" "df_quoted f \<or> rest = [] \<or> hd rest \<in> {CHR '','', CHR '' ''}"
  shows "parse_digest_param (field_text f @ rest) 64 512 = Some (rest, df_key f, df_value f)"
proof -
  let ?sep = "\<lambda>c. c = CHR '' '' \<or> c = CHR '','' \<or> c = CHR 0x09"
  have wf: "list_all ?sep (df_sep f)" "df_key f \<noteq> []" "\<not> ?sep (hd (df_key f))" "CHR ''='' \<notin> set (df_key f)"
    "length (df_key f) \<le> 63" "length (df_value f) \<le> 511"
    using assms(1) value_room_le [of "df_key f"] by (simp_all add: wf_field_def)
  have skip: "dropWhile ?sep (df_sep f @ df_key f @ t) = df_key f @ t" for t
    using wf(1-3) by (rule dropWhile_separators)
  have key: "read_field (\<lambda>c. c = CHR ''='') 63 (df_key f @ CHR ''='' # t) = (df_key f, CHR ''='' # t)" for t
    using wf(4,5) by (intro read_field_all) (auto simp: list_all_iff)
  show ?thesis
  proof (cases "df_quoted f")
    case True
    then have "read_field (\<lambda>c. c = CHR 0x22) 511 (df_value f @ CHR 0x22 # t) = (df_value f, CHR 0x22 # t)" for t
      using assms(1) wf(6) by (intro read_field_all) (auto simp: list_all_iff wf_field_def)
    then show ?thesis using True wf(2) by (simp add: parse_digest_param_def field_text_def skip key)
  next
    case False
    then have "read_field (\<lambda>c. c = CHR '','' \<or> c = CHR '' '') 511 (df_value f @ rest) = (df_value f, rest)"
      using assms wf(6) by (intro read_field_all) (auto simp: list_all_iff wf_field_def)
    moreover have "\<not> (df_value f @ rest \<noteq> [] \<and> hd (df_value f @ rest) = CHR 0x22)"
      using False assms by (cases "df_value f"; cases rest) (auto simp: wf_field_def)
    ultimately show ?thesis
      using False wf(2) by (cases "df_value f @ rest = []") (auto simp: parse_digest_param_def field_text_def skip key Let_def)
  qed
qed

lemma parse_fields:
  "wf_fields fs \<Longrightarrow> parse_digest_loop (concat (map field_text fs)) ps = fold (\<lambda>f. store_param (df_key f) (df_value f)) fs ps"
proof (induction fs arbitrary: ps rule: wf_fields.induct)
  case 1
  show ?case by (simp add: parse_digest_loop.simps parse_digest_param_def)
next
  case (2 f)
  then show ?case
    using parse_field [of f "[]"] by (subst parse_digest_loop.simps) (simp add: parse_digest_loop.simps parse_digest_param_def)
next
  case (3 f g fs)
  have "hd (field_text g @ t) = hd (df_sep g)" if "df_sep g \<noteq> []" for t using that by (simp add: field_text_def)
  then have "parse_digest_param (field_text f @ concat (map field_text (g # fs))) 64 512 =
      Some (concat (map field_text (g # fs)), df_key f, df_value f)"
    using 3(2) by (intro parse_field) auto
  then show ?case using 3 by (subst parse_digest_loop.simps) simp
qed

lemma stored_fields:
  assumes "list_all wf_field fs"
  shows "fold (\<lambda>f. store_param (df_key f) (df_value f)) fs digest_params_0 =
     \<lparr>dp_username = field_value fs ''username'', dp_realm = field_value fs ''realm'', dp_nonce = field_value fs ''nonce'',
      dp_uri = field_value fs ''uri'', dp_response = field_value fs ''response''\<rparr>"
  using assms
proof (induction fs rule: rev_induct)
  case Nil
  then show ?case by (simp add: digest_params_0_def field_value_def)
next
  case (snoc f fs)
  then have "length (df_value f) \<le> value_room (df_key f)" by (simp add: wf_field_def)
  then show ?case
    using snoc by (auto simp: store_param_def field_value_def value_room_def MAX_REALM_def NONCE_LEN_def)
qed

lemma wf_fields_all: "wf_fields fs \<Longrightarrow> list_all wf_field fs"
  by (induction fs rule: wf_fields.induct) auto

lemma carries_authentic:
  assumes "carries req fs" "length (rql_method (req_start_line req)) \<le> 31" "nul_free (rql_method (req_start_line req))"
  shows "authentic lookup self req \<longleftrightarrow> valid_digest lookup self (rql_method (req_start_line req)) (field_value fs)"
proof -
  let ?t = "concat (map field_text fs)"
  have fs: "wf_fields fs" and t: "nul_free ?t" "length ?t \<le> 1023"
    and find: "Compy_HeaderMap_find (req_header_map req) COMPY_HEADER_AUTHORIZATION = Some (''Digest '' @ ?t)"
    using assms(1) by (simp_all add: carries_def)
  have "c_str (take 1023 (drop 7 (''Digest '' @ ?t))) = ?t" using t by (simp add: c_str_id nul_free_def)
  moreover have "map tolower (take 7 (''Digest '' @ ?t)) = ''digest ''"
    by (simp add: tolower_def char_of_def bit_numeral_rec bit_Suc_0_iff)
  ultimately have "credentials req = Some \<lparr>dp_username = field_value fs ''username'', dp_realm = field_value fs ''realm'',
      dp_nonce = field_value fs ''nonce'', dp_uri = field_value fs ''uri'', dp_response = field_value fs ''response''\<rparr>"
    unfolding credentials_def find by (simp only: option.case if_True simp_thms parse_fields [OF fs] stored_fields [OF wf_fields_all [OF fs]])
  moreover have "c_str (take 31 (rql_method (req_start_line req))) = rql_method (req_start_line req)"
    using assms(2,3) by (simp add: c_str_id nul_free_def)
  ultimately show ?thesis
    unfolding authentic_def valid_digest_def
    by (cases "lookup (field_value fs ''username'') 256") (simp_all, metis)
qed

text \<open>Whatever a header looks like, the parameters the parser takes from it are stated there.\<close>

lemma read_field_split: "read_field stop room s = (field, rest) \<Longrightarrow> s = field @ rest"
  by (induction stop room s arbitrary: field rest rule: read_field.induct) (auto split: if_splits prod.splits)

lemma states_embed: "states h key v \<Longrightarrow> states (a @ h @ b) key v"
  unfolding states_def by (metis append.assoc)

lemma states_prefix: "states h key v \<Longrightarrow> states h key (take n v)"
  unfolding states_def by (metis append_take_drop_id append.assoc)

lemma states_key: "q \<in> {[], [CHR 0x22]} \<Longrightarrow> h = a @ key @ CHR ''='' # q @ v @ b \<Longrightarrow> states h key v"
  unfolding states_def by auto

lemma parse_digest_param_states:
  assumes "parse_digest_param p km vm = Some (p', key, v)"
  shows "states p key v \<and> (\<exists>a. p = a @ p')"
proof -
  let ?sep = "\<lambda>c. c = CHR '' '' \<or> c = CHR '','' \<or> c = CHR 0x09"
  obtain key0 s0 where key: "read_field (\<lambda>c. c = CHR ''='') (km - 1) (dropWhile ?sep p) = (key0, s0)" by fastforce
  define quoted where "quoted \<longleftrightarrow> tl s0 \<noteq> [] \<and> hd (tl s0) = CHR 0x22"
  define s where "s = (if quoted then tl (tl s0) else tl s0)"
  obtain v0 t where val:
    "read_field (\<lambda>c. if quoted then c = CHR 0x22 else c = CHR '','' \<or> c = CHR '' '') (vm - 1) s = (v0, t)" by fastforce
  have s0: "s0 \<noteq> []" "hd s0 = CHR ''=''" and r: "key = key0" "v = v0"
      "p' = (if quoted \<and> t \<noteq> [] \<and> hd t = CHR 0x22 then tl t else t)"
    using assms unfolding parse_digest_param_def Let_def key prod.case quoted_def [symmetric] s_def [symmetric] val
    by (auto split: if_splits)
  define q where "q = (if quoted then [CHR 0x22 :: char] else [])"
  have q: "tl s0 = q @ s" "q \<in> {[], [CHR 0x22]}" by (auto simp: q_def s_def quoted_def neq_Nil_conv)
  have "t = (if quoted \<and> t \<noteq> [] \<and> hd t = CHR 0x22 then [CHR 0x22] else []) @ p'" unfolding r(3) by (cases t) auto
  then obtain e where e: "t = e @ p'" by blast
  have "dropWhile ?sep p = key @ CHR ''='' # q @ v @ e @ p'"
    using read_field_split [OF key] read_field_split [OF val] q(1) e s0 r(1,2) by (cases s0) auto
  then have p: "p = takeWhile ?sep p @ key @ CHR ''='' # q @ v @ e @ p'" by (metis takeWhile_dropWhile_id)
  have "p = (takeWhile ?sep p @ key @ CHR ''='' # q @ v @ e) @ p'" using p by simp
  then show ?thesis using states_key [OF q(2) p] by blast
qed

definition params_state :: "string \<Rightarrow> digest_params \<Rightarrow> bool" where
  "params_state h ps \<longleftrightarrow>
     (\<forall>(key, v) \<in> {(''username'', dp_username ps), (''realm'', dp_realm ps), (''nonce'', dp_nonce ps), (''uri'', dp_uri ps),
        (''response'', dp_response ps)}. v = [] \<or> states h key v)"

lemma store_param_states:
  assumes "params_state h ps" "states h key v"
  shows "params_state h (store_param key v ps)"
proof -
  consider "key = ''username''" | "key = ''realm''" | "key = ''nonce''" | "key = ''uri''" | "key = ''response''"
    | "key \<notin> {''username'', ''realm'', ''nonce'', ''uri'', ''response''}" by blast
  then show ?thesis
    using assms(1) states_prefix [OF assms(2)] by cases (simp_all add: params_state_def store_param_def)
qed

lemma parse_digest_loop_states: "params_state (a @ p) ps \<Longrightarrow> params_state (a @ p) (parse_digest_loop p ps)"
proof (induction p ps arbitrary: a rule: parse_digest_loop.induct)
  case (1 p ps)
  show ?case
  proof (cases "parse_digest_param p 64 512")
    case None
    then show ?thesis using 1(2) by (subst parse_digest_loop.simps) simp
  next
    case (Some r)
    then obtain p' key v where r: "parse_digest_param p 64 512 = Some (p', key, v)" by (cases r) auto
    then obtain c where "states p key v" and c: "p = c @ p'" using parse_digest_param_states by blast
    then have "params_state ((a @ c) @ p') (store_param key v ps)"
      using 1(2) states_embed [of p key v a "[]"] by (simp add: store_param_states)
    then have "params_state ((a @ c) @ p') (parse_digest_loop p' (store_param key v ps))"
      using 1(1) r by blast
    then show ?thesis using r c by (subst parse_digest_loop.simps) simp
  qed
qed

lemma c_str_prefix: "\<exists>b. s = c_str s @ b"
  unfolding c_str_def by (metis takeWhile_dropWhile_id)

lemma credentials_state:
  assumes "credentials req = Some ps"
  shows "\<exists>header. Compy_HeaderMap_find (req_header_map req) COMPY_HEADER_AUTHORIZATION = Some header \<and> params_state header ps"
proof -
  obtain v where v: "Compy_HeaderMap_find (req_header_map req) COMPY_HEADER_AUTHORIZATION = Some v"
    and ps: "ps = parse_digest_loop (c_str (take 1023 (drop 7 v))) digest_params_0"
    using assms by (auto simp: credentials_def split: option.splits if_splits)
  have "params_state (c_str (take 1023 (drop 7 v))) ps"
    unfolding ps by (rule parse_digest_loop_states [of "[]", simplified]) (simp add: params_state_def digest_params_0_def)
  moreover obtain b where "take 1023 (drop 7 v) = c_str (take 1023 (drop 7 v)) @ b" using c_str_prefix by blast
  then have "v = take 7 v @ c_str (take 1023 (drop 7 v)) @ b @ drop 1023 (drop 7 v)"
    by (metis append_take_drop_id append.assoc)
  ultimately have "params_state v ps"
    unfolding params_state_def using states_embed by (smt (verit) case_prodI2 case_prodD)
  then show ?thesis using v by blast
qed

lemma authentic_states:
  assumes "wf_auth self" "authentic lookup self req"
  shows "\<exists>header username uri password.
     Compy_HeaderMap_find (req_header_map req) COMPY_HEADER_AUTHORIZATION = Some header \<and>
     lookup username 256 = Some password \<and> states header ''username'' username \<and> states header ''uri'' uri \<and>
     (auth_realm self = [] \<or> states header ''realm'' (auth_realm self)) \<and> states header ''nonce'' (auth_nonce self) \<and>
     states header ''response'' (rfc2617_response username (auth_realm self) password (auth_nonce self)
       (c_str (take 31 (rql_method (req_start_line req)))) uri)"
proof -
  obtain ps password where ps: "credentials req = Some ps" "dp_username ps \<noteq> []" "dp_uri ps \<noteq> []"
      "dp_realm ps = auth_realm self" "dp_nonce ps = auth_nonce self" "lookup (dp_username ps) 256 = Some password"
      "dp_response ps = rfc2617_response (dp_username ps) (auth_realm self) password (auth_nonce self)
        (c_str (take 31 (rql_method (req_start_line req)))) (dp_uri ps)"
    using assms(2) unfolding authentic_def by (auto split: option.splits)
  obtain header where header:
    "Compy_HeaderMap_find (req_header_map req) COMPY_HEADER_AUTHORIZATION = Some header" "params_state header ps"
    using credentials_state [OF ps(1)] by blast
  have "auth_nonce self \<noteq> []" "dp_response ps \<noteq> []"
    using assms(1) ps(7) by (auto simp: wf_auth_def NONCE_LEN_def rfc2617_response_def)
  then show ?thesis using header ps by (intro exI [of _ header] exI) (auto simp: params_state_def)
qed

section \<open>Properties\<close>

definition sample_auth :: Compy_Auth where
  "sample_auth = \<lparr>auth_realm = ''cam'', auth_nonce = replicate 32 CHR ''0''\<rparr>"

definition sample_lookup :: Compy_CredentialLookup where
  "sample_lookup username n = (if username = ''joe'' \<and> 4 < n then Some ''pass'' else None)"

lemma sample_auth_ok: "lookup_ok sample_lookup" "wf_auth sample_auth"
  by (simp_all add: lookup_ok_def sample_lookup_def wf_auth_def sample_auth_def MAX_REALM_def NONCE_LEN_def)

text \<open>
  C6. The decision of the check, against the text of the header. A header whose fields are written in the grammar of RFC
  2617, in any order and number, quoted or not, and fit into the buffers of the code, is accepted exactly when the last
  field of each key gives a known user, the realm and the current nonce of the server, a URI, and the response that RFC
  2617 computes from them, the password and the method; the state and the output are then as before, and otherwise the
  request is challenged. For a header of any other form, with truncated, repeated or malformed fields: the request is
  challenged, or else the header states, each behind its key, a known user, the realm, the nonce, a URI and the response
  that belongs to them, where each may be only the beginning of what the header has there. The URI of the request itself
  plays no part.
\<close>

theorem auth_decision:
  assumes "lookup_ok lookup" "wf_auth self" "meth = rql_method (req_start_line req)"
  shows "(\<forall>fs. carries req fs \<and> length meth \<le> 31 \<and> nul_free meth \<longrightarrow>
       compy_auth_check W lookup e self ctx req =
         (if valid_digest lookup self meth (field_value fs) then Some (0, self, ctx) else auth_challenge W e self ctx)) \<and>
     (compy_auth_check W lookup e self ctx req = auth_challenge W e self ctx \<or>
      compy_auth_check W lookup e self ctx req = Some (0, self, ctx) \<and>
      (\<exists>header username uri password.
         Compy_HeaderMap_find (req_header_map req) COMPY_HEADER_AUTHORIZATION = Some header \<and>
         lookup username 256 = Some password \<and> states header ''username'' username \<and> states header ''uri'' uri \<and>
         (auth_realm self = [] \<or> states header ''realm'' (auth_realm self)) \<and> states header ''nonce'' (auth_nonce self) \<and>
         states header ''response''
           (rfc2617_response username (auth_realm self) password (auth_nonce self) (c_str (take 31 meth)) uri)))"
proof (intro conjI allI impI, goal_cases)
  case (1 fs)
  then show ?case using carries_authentic [of req fs] assms by (simp add: auth_check_decision)
next
  case 2
  show ?case
  proof (cases "authentic lookup self req")
    case True
    show ?thesis
      unfolding auth_check_decision [OF assms(1,2)] if_P [OF True] assms(3)
      by (intro disjI2 conjI refl authentic_states [OF assms(2) True])
  qed (simp add: auth_check_decision [OF assms(1,2)])
qed

definition sample_fields :: "digest_field list" where
  "sample_fields =
     [Field [] ''response'' False (rfc2617_response ''joe'' ''cam'' ''pass'' (replicate 32 CHR ''0'') ''PLAY'' ''/a,b''),
      Field '', '' ''nonce'' False (replicate 32 CHR ''0''), Field '' '' ''uri'' True ''/a,b'', Field [] ''qop'' True ''x'',
      Field [CHR 0x09] ''realm'' True ''cam'', Field '' ,'' ''username'' False ''joe'']"

definition sample_digest_request :: "digest_field list \<Rightarrow> Compy_Request" where
  "sample_digest_request fs =
     \<lparr>req_start_line = \<lparr>rql_method = ''PLAY'', rql_uri = ''/y'', rql_version = \<lparr>ver_major = 1, ver_minor = 0\<rparr>\<rparr>,
      req_header_map = [\<lparr>hdr_key = COMPY_HEADER_AUTHORIZATION, hdr_value = ''Digest '' @ concat (map field_text fs)\<rparr>],
      req_body = [], req_cseq = 2\<rparr>"

lemma sample_carries: "carries (sample_digest_request sample_fields) sample_fields"
proof -
  have chars: "CHR 0x22 \<notin> set (rfc2617_response u r p n m uri)" "CHR '','' \<notin> set (rfc2617_response u r p n m uri)"
    "CHR '' '' \<notin> set (rfc2617_response u r p n m uri)" "nul_free (rfc2617_response u r p n m uri)"
    "length (rfc2617_response u r p n m uri) = 32" for u r p n m uri
    by (simp_all add: rfc2617_response_def md5_text_chars)
  then have "hd (rfc2617_response u r p n m uri) \<noteq> CHR 0x22" for u r p n m uri
    by (metis hd_in_set list.size(3) zero_neq_numeral)
  with chars show ?thesis
    by (simp add: carries_def sample_digest_request_def sample_fields_def wf_field_def value_room_def field_text_def nul_free_def)
qed

theorem auth_decision_witness:
  "compy_auth_check compy_string_writer sample_lookup \<lparr>getrandom = [], urandom = None\<rparr> sample_auth
     (Compy_Context_new [] 2) (sample_digest_request sample_fields) = Some (0, sample_auth, Compy_Context_new [] 2)"
proof -
  have "valid_digest sample_lookup sample_auth ''PLAY'' (field_value sample_fields)"
    by (simp add: valid_digest_def field_value_def sample_fields_def sample_auth_def sample_lookup_def)
  moreover have "rql_method (req_start_line (sample_digest_request sample_fields)) = ''PLAY''" "nul_free ''PLAY''"
    by (simp_all add: sample_digest_request_def nul_free_def)
  ultimately show ?thesis
    using auth_decision [OF sample_auth_ok refl, of "sample_digest_request sample_fields", THEN conjunct1, rule_format,
        of sample_fields] sample_carries by simp
qed

text \<open>
  C15. A client that knows the password gets in: the header it makes from the realm and the nonce of the
  challenge and from its user name, password and URI is accepted.
\<close>

theorem auth_client_accepted:
  assumes "lookup_ok lookup" "wf_auth self" "lookup username 256 = Some password"
    and "client_value 255 username" "client_value 511 uri"
    and "client_value 127 (auth_realm self)" "client_value 32 (auth_nonce self)"
    and "length meth \<le> 31" "nul_free meth"
    and "rql_method (req_start_line req) = meth"
    and header: "Compy_HeaderMap_find (req_header_map req) COMPY_HEADER_AUTHORIZATION =
      Some (digest_header \<lparr>dp_username = username, dp_realm = auth_realm self, dp_nonce = auth_nonce self, dp_uri = uri,
        dp_response = rfc2617_response username (auth_realm self) password (auth_nonce self) meth uri\<rparr>)"
  shows "compy_auth_check W lookup e self ctx req = Some (0, self, ctx)"
proof -
  define ps where "ps = \<lparr>dp_username = username, dp_realm = auth_realm self, dp_nonce = auth_nonce self, dp_uri = uri,
      dp_response = rfc2617_response username (auth_realm self) password (auth_nonce self) meth uri\<rparr>"
  have response: "client_value 32 (dp_response ps)"
    by (simp add: ps_def client_value_def rfc2617_response_def md5_text_chars)
  have parse: "parse_digest_loop (drop 7 (digest_header ps)) digest_params_0 = ps"
    using assms response by (intro parse_digest_header) (simp_all add: ps_def)
  have "nul_free (digest_header ps)" "length (digest_header ps) \<le> 1023"
    using assms response by (simp_all add: digest_header_def quoted_def ps_def client_value_def)
  then have "c_str (take 1023 (drop 7 (digest_header ps))) = drop 7 (digest_header ps)"
    by (auto simp: nul_free_def intro!: c_str_id dest: in_set_dropD)
  moreover have "map tolower (take 7 (digest_header ps)) = ''digest ''"
    by (simp add: digest_header_def tolower_def char_of_def bit_numeral_rec bit_Suc_0_iff)
  ultimately have "credentials req = Some ps"
    using header parse by (simp add: credentials_def ps_def [symmetric])
  moreover have "c_str (take 31 meth) = meth" using assms(8,9) by (simp add: c_str_id nul_free_def)
  ultimately have "authentic lookup self req"
    using assms by (simp add: authentic_def ps_def client_value_def)
  then show ?thesis by (simp add: auth_check_decision [OF assms(1,2)])
qed

definition sample_login :: Compy_Request where
  "sample_login =
     \<lparr>req_start_line = \<lparr>rql_method = ''PLAY'', rql_uri = ''/x'', rql_version = \<lparr>ver_major = 1, ver_minor = 0\<rparr>\<rparr>,
      req_header_map = [\<lparr>hdr_key = COMPY_HEADER_AUTHORIZATION,
        hdr_value = digest_header \<lparr>dp_username = ''joe'', dp_realm = auth_realm sample_auth,
          dp_nonce = auth_nonce sample_auth, dp_uri = ''/x'',
          dp_response = rfc2617_response ''joe'' (auth_realm sample_auth) ''pass'' (auth_nonce sample_auth) ''PLAY'' ''/x''\<rparr>\<rparr>],
      req_body = [], req_cseq = 2\<rparr>"

lemma sample_auth_values: "client_value 127 (auth_realm sample_auth)" "client_value 32 (auth_nonce sample_auth)"
  "client_value 255 ''joe''" "client_value 511 ''/x''"
  by (simp_all add: client_value_def sample_auth_def nul_free_def)

theorem auth_client_accepted_witness:
  "compy_auth_check compy_string_writer sample_lookup \<lparr>getrandom = [], urandom = None\<rparr> sample_auth
     (Compy_Context_new [] 2) sample_login = Some (0, sample_auth, Compy_Context_new [] 2)"
  by (rule auth_client_accepted [OF sample_auth_ok, where username = "''joe''" and password = "''pass''" and
        uri = "''/x''" and meth = "''PLAY''"])
    (simp_all add: sample_auth_values sample_lookup_def sample_login_def)

end
