(* ===== verification/Auth_Gate.thy ===== *)
theory Auth_Gate
  imports Auth
begin

text \<open>
  Authentication in front of the handlers: the hooks \<open>Client_before\<close> and \<open>Client_after\<close> of the example
  server (\<open>examples/server.c\<close>) and its handlers that keep no state, with the dispatch of
  \<open>src/controller.c\<close>. The controller's state is the server's authentication object, if it has one, and
  whatever else the handlers keep.
\<close>

section \<open>Definitions\<close>

type_synonym 'c client = "Compy_Auth option \<times> 'c"

definition COMPY_HEADER_PUBLIC :: string where "COMPY_HEADER_PUBLIC = ''Public''"
definition COMPY_STATUS_NOT_IMPLEMENTED :: Compy_StatusCode where "COMPY_STATUS_NOT_IMPLEMENTED = 501"

definition Client_before ::
  "'w Compy_Writer \<Rightarrow> Compy_CredentialLookup \<Rightarrow> entropy \<Rightarrow> 'c client \<Rightarrow> 'w Compy_Context \<Rightarrow> Compy_Request \<Rightarrow>
     (Compy_ControlFlow \<times> 'c client \<times> 'w Compy_Context) option" where
  "Client_before W lookup e self ctx req =
     (case fst self of
        None \<Rightarrow> Some (Compy_ControlFlow_Continue, self, ctx)
      | Some auth \<Rightarrow>
          compy_auth_check W lookup e auth ctx req \<bind> (\<lambda>(ret, auth, ctx).
          Some (if ret \<noteq> 0 then Compy_ControlFlow_Break else Compy_ControlFlow_Continue,
                (Some auth, snd self), ctx)))"

definition Client_after :: "'c client \<Rightarrow> int \<Rightarrow> 'w Compy_Context \<Rightarrow> Compy_Request \<Rightarrow> ('c client \<times> 'w Compy_Context) option" where
  "Client_after self ret ctx req = Some (self, ctx)"

definition Client_options :: "'w Compy_Writer \<Rightarrow> ('c client, 'w) handler" where
  "Client_options W self ctx req =
     compy_header ctx COMPY_HEADER_PUBLIC ''DESCRIBE, SETUP, PLAY, PAUSE, TEARDOWN, GET_PARAMETER'' \<bind> (\<lambda>ctx.
     compy_respond_ok W ctx \<bind> (\<lambda>(_, ctx). Some (self, ctx)))"

definition Client_pause_method :: "'w Compy_Writer \<Rightarrow> ('c client, 'w) handler" where
  "Client_pause_method W self ctx req = compy_respond_ok W ctx \<bind> (\<lambda>(_, ctx). Some (self, ctx))"

definition Client_get_parameter :: "'w Compy_Writer \<Rightarrow> ('c client, 'w) handler" where
  "Client_get_parameter W self ctx req = compy_respond_ok W ctx \<bind> (\<lambda>(_, ctx). Some (self, ctx))"

definition Client_unknown :: "'w Compy_Writer \<Rightarrow> ('c client, 'w) handler" where
  "Client_unknown W self ctx req =
     compy_respond W ctx COMPY_STATUS_NOT_IMPLEMENTED ''Not Implemented'' \<bind> (\<lambda>(_, ctx). Some (self, ctx))"

section \<open>The challenge as the client reads it\<close>

lemma crlf_free_no_cr: "CHR 0x0D \<notin> set v \<Longrightarrow> crlf_free v"
  by (induction v rule: crlf_free.induct) auto

definition challenge_value :: "string \<Rightarrow> string \<Rightarrow> string" where
  "challenge_value realm nonce =
     ''Digest realm='' @ [CHR 0x22] @ realm @ [CHR 0x22] @ '', nonce='' @ [CHR 0x22] @ nonce @ [CHR 0x22]"

definition challenge_response :: "u32 \<Rightarrow> string \<Rightarrow> string \<Rightarrow> Compy_Response" where
  "challenge_response cseq realm nonce =
     \<lparr>resp_start_line = \<lparr>rsl_version = \<lparr>ver_major = 1, ver_minor = 0\<rparr>, rsl_code = COMPY_STATUS_UNAUTHORIZED,
        rsl_reason = ''Unauthorized''\<rparr>,
      resp_header_map = [header_of (COMPY_HEADER_WWW_AUTHENTICATE, challenge_value realm nonce)],
      resp_body = [], resp_cseq = cseq\<rparr>"

lemma generated_nonce:
  assumes "generate_nonce e = Some nonce"
  shows "length nonce = NONCE_LEN" "nul_free nonce" "CHR 0x0D \<notin> set nonce" "CHR 0x22 \<notin> set nonce"
proof -
  obtain raw where raw: "nonce = concat (map hex_octet raw)" "length raw = NONCE_LEN div 2"
    using assms by (auto simp: generate_nonce_def split: if_splits option.splits)
  then show "length nonce = NONCE_LEN" by (simp add: NONCE_LEN_def)
  show "nul_free nonce" "CHR 0x0D \<notin> set nonce" "CHR 0x22 \<notin> set nonce"
    using hex_octet_chars by (auto simp: raw(1) nul_free_def)
qed

lemma plain_challenge:
  assumes "nul_free realm" "CHR 0x0D \<notin> set realm" "nul_free nonce" "CHR 0x0D \<notin> set nonce"
  shows "plain_header (COMPY_HEADER_WWW_AUTHENTICATE, challenge_value realm nonce)"
proof -
  have "nul_free (challenge_value realm nonce)" "CHR 0x0D \<notin> set (challenge_value realm nonce)"
    using assms by (simp_all add: challenge_value_def)
  then show ?thesis
    by (auto simp: plain_header_def header_of_def wf_header_def wf_line_def crlf_free_no_cr challenge_value_def
        COMPY_HEADER_WWW_AUTHENTICATE_def COMPY_HEADER_C_SEQ_def COMPY_HEADER_CONTENT_LENGTH_def
        header_name_char_matcher_def isalpha_def starts_with_def)
qed

lemma challenge_response_wf:
  assumes "nul_free realm" "CHR 0x0D \<notin> set realm" "nul_free nonce" "CHR 0x0D \<notin> set nonce"
  shows "wf_response (challenge_response cseq realm nonce)"
  using wf_plain_headers [of "[(COMPY_HEADER_WWW_AUTHENTICATE, challenge_value realm nonce)]" "[]" cseq]
    plain_challenge [OF assms]
  by (simp add: wf_response_def challenge_response_def wf_line_def COMPY_HEADER_MAP_CAPACITY_def starts_with_def)

lemma auth_challenge_text:
  assumes "nul_free (auth_realm auth)" "CHR 0x0D \<notin> set (auth_realm auth)" "generate_nonce e = Some nonce"
  shows "\<exists>ctx. auth_challenge compy_string_writer e auth (Compy_Context_new w cseq) =
       Some (-1, auth\<lparr>auth_nonce := nonce\<rparr>, ctx) \<and>
     ctx_writer ctx = w @ response_text (challenge_response cseq (auth_realm auth) nonce)"
proof -
  note nonce = generated_nonce [OF assms(3)]
  let ?kv = "(COMPY_HEADER_WWW_AUTHENTICATE, challenge_value (auth_realm auth) nonce)"
  let ?ctx = "(Compy_Context_new w cseq)\<lparr>ctx_header_map := [header_of ?kv]\<rparr>"
  have add: "compy_header (Compy_Context_new w cseq) COMPY_HEADER_WWW_AUTHENTICATE
      (challenge_value (auth_realm auth) nonce) = Some ?ctx"
    using add_headers_ok [of "[?kv]" "Compy_Context_new w cseq"] plain_challenge [OF assms(1,2) nonce(2,3)]
    by (simp add: Compy_Context_new_def Compy_HeaderMap_empty_def COMPY_HEADER_MAP_CAPACITY_def
        split: bind_splits)
  have resp: "response_of ?ctx COMPY_STATUS_UNAUTHORIZED ''Unauthorized'' = challenge_response cseq (auth_realm auth) nonce"
    by (simp add: response_of_def challenge_response_def Compy_Context_new_def Compy_MessageBody_empty_def)
  have "auth_challenge compy_string_writer e auth ctx =
      compy_header ctx COMPY_HEADER_WWW_AUTHENTICATE (challenge_value (auth_realm auth) nonce) \<bind> (\<lambda>ctx.
      compy_respond compy_string_writer ctx COMPY_STATUS_UNAUTHORIZED ''Unauthorized'' \<bind> (\<lambda>(_, ctx).
      Some (-1, auth\<lparr>auth_nonce := nonce\<rparr>, ctx)))" for ctx
    by (simp add: auth_challenge_def assms(3) challenge_value_def Let_def)
  moreover have "ctx_writer ?ctx = w" by (simp add: Compy_Context_new_def)
  ultimately show ?thesis
    using respond_string [of ?ctx COMPY_STATUS_UNAUTHORIZED "''Unauthorized''", unfolded resp,
        OF challenge_response_wf [OF assms(1,2) nonce(2,3)]]
    by (simp add: add)
qed

section \<open>Properties\<close>

text \<open>
  C3. No handler runs for a request that is not authenticated: with the hooks of the example server,
  whatever the handlers are, dispatching such a request changes nothing but the nonce, which is the
  fresh one, and writes exactly one message, the 401 response with the \<open>CSeq\<close> of the request and the
  challenge for the new nonce, which a client reads back.
\<close>

theorem auth_gate:
  assumes "lookup_ok lookup" "wf_auth auth" "\<not> authentic lookup auth req"
    and "nul_free (auth_realm auth)" "CHR 0x0D \<notin> set (auth_realm auth)" "generate_nonce e = Some nonce"
    and "con_before controller = Client_before compy_string_writer lookup e" "con_after controller = Client_after"
  shows "\<exists>msg. compy_dispatch controller (Some auth, client) w req =
       Some ((Some (auth\<lparr>auth_nonce := nonce\<rparr>), client), w @ msg) \<and>
     Compy_Response_parse en self msg =
       Some (Compy_ParseResult_complete (length msg),
         \<lparr>resp_start_line = \<lparr>rsl_version = \<lparr>ver_major = 1, ver_minor = 0\<rparr>, rsl_code = COMPY_STATUS_UNAUTHORIZED,
            rsl_reason = ''Unauthorized''\<rparr>,
          resp_header_map = [\<lparr>hdr_key = COMPY_HEADER_C_SEQ, hdr_value = show_nat (unat (req_cseq req))\<rparr>,
            \<lparr>hdr_key = COMPY_HEADER_WWW_AUTHENTICATE, hdr_value = challenge_value (auth_realm auth) nonce\<rparr>],
          resp_body = [], resp_cseq = req_cseq req\<rparr>)"
proof -
  let ?r = "challenge_response (req_cseq req) (auth_realm auth) nonce"
  obtain ctx where "auth_challenge compy_string_writer e auth (Compy_Context_new w (req_cseq req)) =
      Some (-1, auth\<lparr>auth_nonce := nonce\<rparr>, ctx)" and written: "ctx_writer ctx = w @ response_text ?r"
    using auth_challenge_text [OF assms(4-6)] by blast
  then have "con_before controller (Some auth, client) (Compy_Context_new w (req_cseq req)) req =
      Some (Compy_ControlFlow_Break, (Some (auth\<lparr>auth_nonce := nonce\<rparr>), client), ctx)"
    by (simp add: assms(3,7) Client_before_def auth_check_decision [OF assms(1,2)])
  from dispatch_break [OF this] written have "compy_dispatch controller (Some auth, client) w req =
      Some ((Some (auth\<lparr>auth_nonce := nonce\<rparr>), client), w @ response_text ?r)"
    by (simp add: assms(8) Client_after_def)
  moreover have "Compy_Response_parse en self (response_text ?r @ []) =
      Some (Compy_ParseResult_complete (length (response_text ?r)), ?r\<lparr>resp_header_map :=
        wire_headers (resp_cseq ?r) (resp_body ?r) (resp_header_map ?r)\<rparr>)"
    by (rule response_parse_text [OF challenge_response_wf])
      (use assms(4,5) generated_nonce [OF assms(6)] in \<open>simp_all add: challenge_response_def no_cr_end_def ends_with_def\<close>)
  ultimately show ?thesis
    by (simp add: challenge_response_def wire_headers_def header_of_def Compy_HeaderMap_contains_key_def
        COMPY_HEADER_WWW_AUTHENTICATE_def COMPY_HEADER_C_SEQ_def)
qed

definition sample_controller :: "(unit client, string) Compy_Controller" where
  "sample_controller =
     \<lparr>con_options = Client_options compy_string_writer, con_describe = Client_unknown compy_string_writer,
      con_setup = Client_unknown compy_string_writer, con_play = Client_unknown compy_string_writer,
      con_pause_method = Client_pause_method compy_string_writer, con_teardown = Client_unknown compy_string_writer,
      con_get_parameter = Client_get_parameter compy_string_writer, con_unknown = Client_unknown compy_string_writer,
      con_before = Client_before compy_string_writer sample_lookup \<lparr>getrandom = replicate 16 0xAB, urandom = None\<rparr>,
      con_after = Client_after\<rparr>"

theorem auth_gate_witness:
  "\<exists>msg. compy_dispatch sample_controller (Some sample_auth, ()) [] Compy_Request_uninit =
       Some ((Some (sample_auth\<lparr>auth_nonce := concat (replicate 16 ''ab'')\<rparr>), ()), [] @ msg) \<and>
     Compy_Response_parse LittleEndian Compy_Response_uninit msg =
       Some (Compy_ParseResult_complete (length msg),
         \<lparr>resp_start_line = \<lparr>rsl_version = \<lparr>ver_major = 1, ver_minor = 0\<rparr>, rsl_code = COMPY_STATUS_UNAUTHORIZED,
            rsl_reason = ''Unauthorized''\<rparr>,
          resp_header_map = [\<lparr>hdr_key = COMPY_HEADER_C_SEQ, hdr_value = show_nat (unat (req_cseq Compy_Request_uninit))\<rparr>,
            \<lparr>hdr_key = COMPY_HEADER_WWW_AUTHENTICATE,
             hdr_value = challenge_value (auth_realm sample_auth) (concat (replicate 16 ''ab''))\<rparr>],
          resp_body = [], resp_cseq = req_cseq Compy_Request_uninit\<rparr>)"
proof (rule auth_gate [OF sample_auth_ok])
  show "\<not> authentic sample_lookup sample_auth Compy_Request_uninit"
    by (simp add: authentic_def credentials_def Compy_Request_uninit_def Compy_HeaderMap_empty_def)
  show "nul_free (auth_realm sample_auth)" "CHR 0x0D \<notin> set (auth_realm sample_auth)"
    by (simp_all add: sample_auth_def)
  have "hex_octet 0xAB = ''ab''" by (simp add: hex_octet_def hex_digit_def char_of_def bit_numeral_rec bit_Suc_0_iff)
  then show "generate_nonce \<lparr>getrandom = replicate 16 0xAB, urandom = None\<rparr> = Some (concat (replicate 16 ''ab''))"
    by (simp add: generate_nonce_def NONCE_LEN_def)
qed (simp_all add: sample_controller_def)

end
