(* ===== verification/Rtcp.thy ===== *)
theory Rtcp
  imports Prelude
begin

text \<open>
  RTCP packets, \<open>src/types/rtcp.c\<close>: the compound of a sender report and a source description, the
  goodbye packet, and the parsers of the common header and of a report block. A serialiser returns
  the octets it writes from the start of its buffer.
\<close>

section \<open>Definitions\<close>

definition RTCP_VERSION :: u8 where "RTCP_VERSION = 2"
definition RTCP_HEADER_SIZE :: nat where "RTCP_HEADER_SIZE = 4"
definition SR_SENDER_INFO_SIZE :: nat where "SR_SENDER_INFO_SIZE = 24"
definition RR_REPORT_BLOCK_SIZE :: nat where "RR_REPORT_BLOCK_SIZE = 24"
definition COMPY_RTCP_SR :: u8 where "COMPY_RTCP_SR = 200"
definition COMPY_RTCP_RR :: u8 where "COMPY_RTCP_RR = 201"
definition COMPY_RTCP_SDES :: u8 where "COMPY_RTCP_SDES = 202"
definition COMPY_RTCP_BYE :: u8 where "COMPY_RTCP_BYE = 203"
definition COMPY_RTCP_SDES_CNAME :: u8 where "COMPY_RTCP_SDES_CNAME = 1"
definition COMPY_RTCP_MAX_PACKET_SIZE :: nat where "COMPY_RTCP_MAX_PACKET_SIZE = 512"

record Compy_RtcpHeader =
  rh_version :: u8
  rh_padding :: u8
  rh_count :: u8
  rh_packet_type :: u8
  rh_length :: u16

record Compy_RtcpSenderInfo =
  si_ssrc :: u32
  si_ntp_timestamp_msw :: u32
  si_ntp_timestamp_lsw :: u32
  si_rtp_timestamp :: u32
  si_sender_packet_count :: u32
  si_sender_octet_count :: u32

record Compy_RtcpReportBlock =
  rb_ssrc :: u32
  rb_fraction_lost :: u8
  rb_cumulative_lost :: u32
  rb_extended_highest_seq :: u32
  rb_interarrival_jitter :: u32
  rb_last_sr :: u32
  rb_delay_since_last_sr :: u32

definition write_u32 :: "endian \<Rightarrow> u32 \<Rightarrow> u8 list" where
  "write_u32 en val = store32 en (htonl en val)"

definition write_u16 :: "endian \<Rightarrow> u16 \<Rightarrow> u8 list" where
  "write_u16 en val = store16 en (htons en val)"

definition read_u32 :: "endian \<Rightarrow> u8 list \<Rightarrow> u32" where
  "read_u32 en p = htonl en (load32 en p)"

definition read_u16 :: "endian \<Rightarrow> u8 list \<Rightarrow> u16" where
  "read_u16 en p = htons en (load16 en p)"

definition sdes_chunk_size :: "nat \<Rightarrow> nat" where
  "sdes_chunk_size cname_len = 4 + 2 + cname_len + 1"

text \<open>\<open>(size + 3) & ~3\<close>.\<close>

definition sdes_chunk_padded :: "nat \<Rightarrow> nat" where
  "sdes_chunk_padded cname_len = (sdes_chunk_size cname_len + 3) div 4 * 4"

definition Compy_RtcpSenderReport_serialize ::
  "endian \<Rightarrow> Compy_RtcpSenderInfo \<Rightarrow> u8 list \<Rightarrow> u8 list" where
  "Compy_RtcpSenderReport_serialize en info cname =
     (let sr = [push_bit 6 RTCP_VERSION, COMPY_RTCP_SR] @
            write_u16 en (word_of_nat ((SR_SENDER_INFO_SIZE + 4) div 4 - 1)) @
            write_u32 en (si_ssrc info) @
            write_u32 en (si_ntp_timestamp_msw info) @
            write_u32 en (si_ntp_timestamp_lsw info) @
            write_u32 en (si_rtp_timestamp info) @
            write_u32 en (si_sender_packet_count info) @
            write_u32 en (si_sender_octet_count info);
          cname_len = length cname;
          sdes_total = RTCP_HEADER_SIZE + sdes_chunk_padded cname_len;
          sdes = [push_bit 6 RTCP_VERSION OR 1, COMPY_RTCP_SDES] @
            write_u16 en (word_of_nat (sdes_total div 4 - 1)) @
            write_u32 en (si_ssrc info) @
            [COMPY_RTCP_SDES_CNAME, word_of_nat cname_len] @ cname;
          pad = sdes_chunk_padded cname_len - sdes_chunk_size cname_len
      in sr @ sdes @ replicate (pad + 1) 0)"

definition Compy_RtcpBye_serialize :: "endian \<Rightarrow> u32 \<Rightarrow> u8 list" where
  "Compy_RtcpBye_serialize en ssrc =
     [push_bit 6 RTCP_VERSION OR 1, COMPY_RTCP_BYE] @ write_u16 en 1 @ write_u32 en ssrc"

definition Compy_RtcpHeader_deserialize ::
  "endian \<Rightarrow> Compy_RtcpHeader \<Rightarrow> u8 list \<Rightarrow> int \<times> Compy_RtcpHeader" where
  "Compy_RtcpHeader_deserialize en self data =
     (if length data < RTCP_HEADER_SIZE then (-1, self)
      else
        let self = self\<lparr>rh_version := drop_bit 6 (data ! 0) AND 3\<rparr>
        in if rh_version self \<noteq> RTCP_VERSION then (-1, self)
           else (0, self\<lparr>rh_padding := drop_bit 5 (data ! 0) AND 1, rh_count := data ! 0 AND 31,
                         rh_packet_type := data ! 1, rh_length := read_u16 en (drop 2 data)\<rparr>))"

definition Compy_RtcpReportBlock_deserialize ::
  "endian \<Rightarrow> Compy_RtcpReportBlock \<Rightarrow> u8 list \<Rightarrow> int \<times> Compy_RtcpReportBlock" where
  "Compy_RtcpReportBlock_deserialize en self data =
     (if length data < RR_REPORT_BLOCK_SIZE then (-1, self)
      else (0, \<lparr>rb_ssrc = read_u32 en data,
                rb_fraction_lost = data ! 4,
                rb_cumulative_lost = push_bit 16 (ucast (data ! 5)) OR push_bit 8 (ucast (data ! 6))
                  OR ucast (data ! 7),
                rb_extended_highest_seq = read_u32 en (drop 8 data),
                rb_interarrival_jitter = read_u32 en (drop 12 data),
                rb_last_sr = read_u32 en (drop 16 data),
                rb_delay_since_last_sr = read_u32 en (drop 20 data)\<rparr>))"

section \<open>The wire format\<close>

lemma write_eq [simp]: "write_u32 en val = be32 val" "write_u16 en val' = be16 val'"
  by (simp_all add: write_u32_def write_u16_def)

lemma read_eq [simp]: "read_u32 en (be32 val @ rest) = val" "read_u16 en (be16 val' @ rest) = val'"
  by (simp_all add: read_u32_def read_u16_def)

lemma sdes_sizes:
  "sdes_chunk_size n \<le> sdes_chunk_padded n" "sdes_chunk_padded n < sdes_chunk_size n + 4"
  "sdes_chunk_padded n mod 4 = 0"
  by (simp_all add: sdes_chunk_padded_def)

lemma length_sender_report:
  "length (Compy_RtcpSenderReport_serialize en info cname) = 32 + sdes_chunk_padded (length cname)"
  using sdes_sizes(1) [of "length cname"]
  by (simp add: Compy_RtcpSenderReport_serialize_def Let_def sdes_chunk_size_def)

text \<open>The packets of a compound, cut by the length fields of their headers.\<close>

function rtcp_packets :: "endian \<Rightarrow> u8 list \<Rightarrow> (Compy_RtcpHeader \<times> u8 list) list option" where
  "rtcp_packets en data =
     (if data = [] then Some []
      else
        (case Compy_RtcpHeader_deserialize en \<lparr>rh_version = 0, rh_padding = 0, rh_count = 0,
                rh_packet_type = 0, rh_length = 0\<rparr> data of
           (ret, hdr) \<Rightarrow>
             let n = 4 * (unat (rh_length hdr) + 1)
             in if ret \<noteq> 0 \<or> length data < n then None
                else (case rtcp_packets en (drop n data) of
                        None \<Rightarrow> None
                      | Some ps \<Rightarrow> Some ((hdr, take (n - 4) (drop 4 data)) # ps))))"
  by pat_completeness auto
termination by (relation "measure (\<lambda>(_, data). length data)") auto

declare rtcp_packets.simps [simp del]

lemma rtcp_packets_Nil [simp]: "rtcp_packets en [] = Some []"
  by (simp add: rtcp_packets.simps)

definition rtcp_header_octets :: "u8 \<Rightarrow> u8 \<Rightarrow> u16 \<Rightarrow> u8 list" where
  "rtcp_header_octets count ty len = [push_bit 6 RTCP_VERSION OR count, ty] @ be16 len"

lemma length_rtcp_header_octets [simp]:
  "length (rtcp_header_octets count ty len) = 4" "rtcp_header_octets count ty len \<noteq> []"
  by (simp_all add: rtcp_header_octets_def)

lemma rtcp_octet0:
  assumes "unat count < 32"
  shows "drop_bit 6 (push_bit 6 RTCP_VERSION OR count) AND 3 = RTCP_VERSION"
    "drop_bit 5 (push_bit 6 RTCP_VERSION OR count) AND 1 = 0"
    "(push_bit 6 RTCP_VERSION OR count) AND 31 = count"
proof -
  have small: "n < 5" if "bit count n" for n using small_u8_bits [of count 5 n] assms that by fastforce
  have "drop_bit 5 count = 0" "drop_bit 6 count = 0" "count AND 31 = count"
    by (rule bit_word_eqI; use small in \<open>fastforce simp: word_masks word_bits\<close>)+
  then show "drop_bit 6 (push_bit 6 RTCP_VERSION OR count) AND 3 = RTCP_VERSION"
    "drop_bit 5 (push_bit 6 RTCP_VERSION OR count) AND 1 = 0"
    "(push_bit 6 RTCP_VERSION OR count) AND 31 = count"
    by (simp_all add: RTCP_VERSION_def bit.conj_disj_distrib2)
qed

lemma rtcp_header_deserialize:
  assumes "unat count < 32"
  shows "Compy_RtcpHeader_deserialize en self (rtcp_header_octets count ty len @ rest) =
     (0, \<lparr>rh_version = 2, rh_padding = 0, rh_count = count, rh_packet_type = ty, rh_length = len\<rparr>)"
  using rtcp_octet0 [OF assms]
  by (cases self)
    (simp add: Compy_RtcpHeader_deserialize_def rtcp_header_octets_def RTCP_HEADER_SIZE_def Let_def,
     simp add: RTCP_VERSION_def)

lemma rtcp_packets_step:
  assumes "unat count < 32" "length body = 4 * unat len"
  shows "rtcp_packets en (rtcp_header_octets count ty len @ body @ rest) =
     (case rtcp_packets en rest of
        None \<Rightarrow> None
      | Some ps \<Rightarrow> Some ((\<lparr>rh_version = 2, rh_padding = 0, rh_count = count, rh_packet_type = ty,
                           rh_length = len\<rparr>, body) # ps))"
  using assms rtcp_header_deserialize [OF assms(1)]
  by (subst rtcp_packets.simps) (simp add: Let_def split: option.split)

definition report_block_octets :: "Compy_RtcpReportBlock \<Rightarrow> u8 list" where
  "report_block_octets b =
     be32 (rb_ssrc b) @ [rb_fraction_lost b] @ tl (be32 (rb_cumulative_lost b)) @
     be32 (rb_extended_highest_seq b) @ be32 (rb_interarrival_jitter b) @ be32 (rb_last_sr b) @
     be32 (rb_delay_since_last_sr b)"

lemma sender_report_packets:
  assumes "length cname \<le> 255"
  shows "\<exists>zeros. rtcp_packets en (Compy_RtcpSenderReport_serialize en info cname) =
     Some [(\<lparr>rh_version = 2, rh_padding = 0, rh_count = 0, rh_packet_type = COMPY_RTCP_SR, rh_length = 6\<rparr>,
            be32 (si_ssrc info) @ be32 (si_ntp_timestamp_msw info) @ be32 (si_ntp_timestamp_lsw info) @
            be32 (si_rtp_timestamp info) @ be32 (si_sender_packet_count info) @
            be32 (si_sender_octet_count info)),
           (\<lparr>rh_version = 2, rh_padding = 0, rh_count = 1, rh_packet_type = COMPY_RTCP_SDES,
             rh_length = word_of_nat (sdes_chunk_padded (length cname) div 4)\<rparr>,
            be32 (si_ssrc info) @ [COMPY_RTCP_SDES_CNAME, word_of_nat (length cname)] @ cname @
            replicate (Suc zeros) 0)] \<and>
     length (Compy_RtcpSenderReport_serialize en info cname) mod 4 = 0"
proof -
  let ?padded = "sdes_chunk_padded (length cname)"
  let ?len = "word_of_nat (?padded div 4) :: u16"
  let ?info = "be32 (si_ssrc info) @ be32 (si_ntp_timestamp_msw info) @ be32 (si_ntp_timestamp_lsw info) @
      be32 (si_rtp_timestamp info) @ be32 (si_sender_packet_count info) @ be32 (si_sender_octet_count info)"
  let ?chunk = "be32 (si_ssrc info) @ [COMPY_RTCP_SDES_CNAME, word_of_nat (length cname)] @ cname @
      replicate (Suc (?padded - sdes_chunk_size (length cname))) 0"
  note sizes = sdes_sizes [of "length cname"]
  have "?padded div 4 < 2 ^ 16"
    using assms sizes by (simp add: sdes_chunk_size_def)
  then have "unat ?len = ?padded div 4" by (simp add: unat_of_nat take_bit_eq_mod)
  then have chunk: "length ?chunk = 4 * unat ?len"
    using sizes dvd_mult_div_cancel [of 4 ?padded]
    by (simp add: sdes_chunk_size_def mod_eq_0_iff_dvd)
  have "Compy_RtcpSenderReport_serialize en info cname =
      rtcp_header_octets 0 COMPY_RTCP_SR 6 @ ?info @ rtcp_header_octets 1 COMPY_RTCP_SDES ?len @ ?chunk @ []"
    using sizes(3) div_add1_eq [of 4 ?padded 4]
    by (simp add: Compy_RtcpSenderReport_serialize_def Let_def rtcp_header_octets_def
        SR_SENDER_INFO_SIZE_def RTCP_HEADER_SIZE_def replicate_append_same [symmetric])
  moreover have "rtcp_packets en (rtcp_header_octets 1 COMPY_RTCP_SDES ?len @ ?chunk @ []) =
      Some [(\<lparr>rh_version = 2, rh_padding = 0, rh_count = 1, rh_packet_type = COMPY_RTCP_SDES,
        rh_length = ?len\<rparr>, ?chunk)]"
    by (subst rtcp_packets_step [OF _ chunk]) simp_all
  ultimately have "rtcp_packets en (Compy_RtcpSenderReport_serialize en info cname) =
      Some [(\<lparr>rh_version = 2, rh_padding = 0, rh_count = 0, rh_packet_type = COMPY_RTCP_SR, rh_length = 6\<rparr>, ?info),
        (\<lparr>rh_version = 2, rh_padding = 0, rh_count = 1, rh_packet_type = COMPY_RTCP_SDES, rh_length = ?len\<rparr>, ?chunk)]"
    using rtcp_packets_step [of 0 ?info 6 en COMPY_RTCP_SR] by simp
  then show ?thesis
    using sizes(3) length_sender_report [of en info cname] by auto
qed

text \<open>
  The report block parser reads the seven fields of RFC 3550, section 6.4.1, at their places, the
  cumulative number of packets lost being the twenty-four bits after the fraction; fewer than 24
  octets are refused.
\<close>

lemma report_block_read:
  assumes "unat (rb_cumulative_lost b) < 2 ^ 24"
  shows "Compy_RtcpReportBlock_deserialize en self (report_block_octets b @ rest) = (0, b) \<and>
     fst (Compy_RtcpReportBlock_deserialize en self (take 23 (report_block_octets b))) = -1"
proof -
  obtain z x y w where cl: "be32 (rb_cumulative_lost b) = [z, x, y, w]" by (simp add: be32_def)
  have z: "z = 0"
  proof -
    have "drop_bit 24 (rb_cumulative_lost b) = 0"
      using assms unat_drop_bit_eq [of 24 "rb_cumulative_lost b"]
      by (simp add: drop_bit_eq_div [where 'a = nat] flip: unat_eq_zero del: drop_bit_eq_div)
    then show ?thesis using cl by (simp add: be32_def)
  qed
  have "rb_cumulative_lost b = of_be32 [z, x, y, w]" using cl of_be32_be32 [of "rb_cumulative_lost b"] by simp
  then have "push_bit 16 (ucast x) OR push_bit 8 (ucast y) OR ucast w = rb_cumulative_lost b"
    by (simp add: of_be32_def z)
  then show ?thesis
    using cl by (cases b) (simp add: Compy_RtcpReportBlock_deserialize_def report_block_octets_def
        RR_REPORT_BLOCK_SIZE_def nth_append)
qed

section \<open>Properties\<close>

text \<open>
  The sender report is a well-formed compound packet: cut by the length fields of its headers it
  is exactly a sender report with the six words of the sender information and a source description
  with one chunk, which holds the SSRC, the CNAME and at least one terminating zero octet; its
  total length is a multiple of four. For every CNAME the length octet can express.
\<close>

theorem sender_report_compound:
  assumes "length cname \<le> 255"
  shows "\<exists>zeros. rtcp_packets en (Compy_RtcpSenderReport_serialize en info cname) =
     Some [(\<lparr>rh_version = 2, rh_padding = 0, rh_count = 0, rh_packet_type = COMPY_RTCP_SR, rh_length = 6\<rparr>,
            be32 (si_ssrc info) @ be32 (si_ntp_timestamp_msw info) @ be32 (si_ntp_timestamp_lsw info) @
            be32 (si_rtp_timestamp info) @ be32 (si_sender_packet_count info) @
            be32 (si_sender_octet_count info)),
           (\<lparr>rh_version = 2, rh_padding = 0, rh_count = 1, rh_packet_type = COMPY_RTCP_SDES,
             rh_length = word_of_nat (sdes_chunk_padded (length cname) div 4)\<rparr>,
            be32 (si_ssrc info) @ [COMPY_RTCP_SDES_CNAME, word_of_nat (length cname)] @ cname @
            replicate (Suc zeros) 0)] \<and>
     length (Compy_RtcpSenderReport_serialize en info cname) mod 4 = 0"
  by (rule sender_report_packets [OF assms])

theorem sender_report_compound_witness:
  "\<exists>zeros. rtcp_packets LittleEndian (Compy_RtcpSenderReport_serialize LittleEndian
       \<lparr>si_ssrc = 1, si_ntp_timestamp_msw = 2, si_ntp_timestamp_lsw = 3, si_rtp_timestamp = 4,
        si_sender_packet_count = 5, si_sender_octet_count = 6\<rparr> [0x63, 0x61, 0x6D]) =
     Some [(\<lparr>rh_version = 2, rh_padding = 0, rh_count = 0, rh_packet_type = COMPY_RTCP_SR, rh_length = 6\<rparr>,
            be32 1 @ be32 2 @ be32 3 @ be32 4 @ be32 5 @ be32 6),
           (\<lparr>rh_version = 2, rh_padding = 0, rh_count = 1, rh_packet_type = COMPY_RTCP_SDES,
             rh_length = word_of_nat (sdes_chunk_padded 3 div 4)\<rparr>,
            be32 1 @ [COMPY_RTCP_SDES_CNAME, 3] @ [0x63, 0x61, 0x6D] @ replicate (Suc zeros) 0)]"
  using sender_report_compound [of "[0x63, 0x61, 0x6D]" LittleEndian
    "\<lparr>si_ssrc = 1, si_ntp_timestamp_msw = 2, si_ntp_timestamp_lsw = 3, si_rtp_timestamp = 4,
      si_sender_packet_count = 5, si_sender_octet_count = 6\<rparr>"]
  by (auto simp: numeral_3_eq_3)

end
