(* ===== verification/Rtcp_Session.thy ===== *)
theory Rtcp_Session
  imports Rtcp Rtp_Transport
begin

text \<open>
  The RTCP session of a stream, \<open>src/rtcp.c\<close>, and what is fed by incoming packets: the receiver
  (\<open>src/receiver.c\<close>) and the backchannel (\<open>src/backchannel.c\<close>). The session shares the RTP transport
  of its stream with the code that sends media, so its functions get the transport's current state as
  an argument; the RTCP transport is its own. The clocks and the contents of fresh stack memory are
  arguments; \<open>None\<close> is a transport without a defined result. The drop functions only free memory.
\<close>

section \<open>Definitions\<close>

definition NTP_EPOCH_OFFSET :: u64 where "NTP_EPOCH_OFFSET = 2208988800"

record 't Compy_Rtcp =
  rs_rtcp_transport :: 't
  rs_cname :: "u8 list"
  rs_last_rr :: Compy_RtcpReportBlock
  rs_has_rr :: bool

definition rtcp_report_block_0 :: Compy_RtcpReportBlock where
  "rtcp_report_block_0 =
     \<lparr>rb_ssrc = 0, rb_fraction_lost = 0, rb_cumulative_lost = 0, rb_extended_highest_seq = 0,
      rb_interarrival_jitter = 0, rb_last_sr = 0, rb_delay_since_last_sr = 0\<rparr>"

definition Compy_Rtcp_new :: "'t \<Rightarrow> u8 list \<Rightarrow> 't Compy_Rtcp" where
  "Compy_Rtcp_new rtcp_transport cname =
     \<lparr>rs_rtcp_transport = rtcp_transport, rs_cname = take 255 cname, rs_last_rr = rtcp_report_block_0,
      rs_has_rr = False\<rparr>"

text \<open>
  The offset from the monotonic clock to NTP time, computed once; \<open>init\<close> are the seconds of both
  clocks at that moment.
\<close>

definition ntp_init_once :: "u64 \<times> u64 \<Rightarrow> u64" where
  "ntp_init_once init = (case init of (rt_sec, mt_sec) \<Rightarrow> (rt_sec - mt_sec) + NTP_EPOCH_OFFSET)"

definition get_ntp_timestamp :: "u64 option \<Rightarrow> u64 \<times> u64 \<Rightarrow> u64 \<times> u64 \<Rightarrow> u32 \<times> u32 \<times> u64 option" where
  "get_ntp_timestamp once init now =
     (let offset = (case once of None \<Rightarrow> ntp_init_once init | Some offset \<Rightarrow> offset)
      in (ucast (fst now + offset), ucast (push_bit 32 (snd now) div 1000000000), Some offset))"

text \<open>\<open>now\<close> and \<open>now'\<close> are two readings of the monotonic clock.\<close>

definition Compy_Rtcp_send_sr ::
  "endian \<Rightarrow> 't Compy_Transport \<Rightarrow> u64 option \<Rightarrow> u64 \<times> u64 \<Rightarrow> u64 \<times> u64 \<Rightarrow> u64 \<times> u64 \<Rightarrow>
     'r Compy_RtpTransport \<Rightarrow> 't Compy_Rtcp \<Rightarrow> (int \<times> 't Compy_Rtcp \<times> u64 option) option" where
  "Compy_Rtcp_send_sr en T once init now now' rtp self =
     (case get_ntp_timestamp once init now of
        (ntp_msw, ntp_lsw, once) \<Rightarrow>
          let info =
                \<lparr>si_ssrc = Compy_RtpTransport_get_ssrc rtp,
                 si_ntp_timestamp_msw = ntp_msw,
                 si_ntp_timestamp_lsw = ntp_lsw,
                 si_rtp_timestamp = Compy_RtpTransport_get_rtp_timestamp_now now' rtp,
                 si_sender_packet_count = Compy_RtpTransport_get_packet_count rtp,
                 si_sender_octet_count = Compy_RtpTransport_get_octet_count rtp\<rparr>;
              buffer = Compy_RtcpSenderReport_serialize en info (rs_cname self)
          in if length buffer > COMPY_RTCP_MAX_PACKET_SIZE then None
             else
               (case t_transmit T (rs_rtcp_transport self) [buffer] of
                  None \<Rightarrow> None
                | Some (ret, t) \<Rightarrow> Some (ret, self\<lparr>rs_rtcp_transport := t\<rparr>, once)))"

definition Compy_Rtcp_send_bye ::
  "endian \<Rightarrow> 't Compy_Transport \<Rightarrow> 'r Compy_RtpTransport \<Rightarrow> 't Compy_Rtcp \<Rightarrow> (int \<times> 't Compy_Rtcp) option" where
  "Compy_Rtcp_send_bye en T rtp self =
     (case t_transmit T (rs_rtcp_transport self)
             [Compy_RtcpBye_serialize en (Compy_RtpTransport_get_ssrc rtp)] of
        None \<Rightarrow> None
      | Some (ret, t) \<Rightarrow> Some (ret, self\<lparr>rs_rtcp_transport := t\<rparr>))"

definition Compy_Rtcp_handle_incoming ::
  "endian \<Rightarrow> Compy_RtcpHeader \<Rightarrow> 't Compy_Rtcp \<Rightarrow> u8 list \<Rightarrow> int \<times> 't Compy_Rtcp" where
  "Compy_Rtcp_handle_incoming en hdr self data =
     (case Compy_RtcpHeader_deserialize en hdr data of
        (ret, hdr) \<Rightarrow>
          if ret \<noteq> 0 then (-1, self)
          else if rh_packet_type hdr = COMPY_RTCP_RR \<and> rh_count hdr > 0 then
            let offset = 8
            in if length data < offset + 24 then (-1, self)
               else
                 (case Compy_RtcpReportBlock_deserialize en (rs_last_rr self) (drop offset data) of
                    (ret, last_rr) \<Rightarrow>
                      let self = self\<lparr>rs_last_rr := last_rr\<rparr>
                      in if ret \<noteq> 0 then (-1, self) else (0, self\<lparr>rs_has_rr := True\<rparr>))
          else (0, self))"

definition Compy_Rtcp_get_last_rr :: "'t Compy_Rtcp \<Rightarrow> Compy_RtcpReportBlock option" where
  "Compy_Rtcp_get_last_rr self = (if rs_has_rr self then Some (rs_last_rr self) else None)"

section \<open>The receiver and the backchannel\<close>

definition COMPY_CHANNEL_RTCP :: u8 where "COMPY_CHANNEL_RTCP = 0"
definition COMPY_CHANNEL_RTP :: u8 where "COMPY_CHANNEL_RTP = 1"

text \<open>The interface \<open>Compy_AudioReceiver\<close>: payload type, timestamp, SSRC and payload.\<close>

type_synonym 'a Compy_AudioReceiver = "'a \<Rightarrow> u8 \<Rightarrow> u32 \<Rightarrow> u32 \<Rightarrow> u8 list \<Rightarrow> 'a"

record ('t, 'a) Compy_RtpReceiver =
  rv_rtcp :: "'t Compy_Rtcp option"
  rv_audio_receiver :: "'a option"

definition Compy_RtpReceiver_new :: "'t Compy_Rtcp option \<Rightarrow> 'a option \<Rightarrow> ('t, 'a) Compy_RtpReceiver" where
  "Compy_RtpReceiver_new rtcp audio_receiver = \<lparr>rv_rtcp = rtcp, rv_audio_receiver = audio_receiver\<rparr>"

definition Compy_RtpReceiver_feed ::
  "endian \<Rightarrow> 'a Compy_AudioReceiver \<Rightarrow> Compy_RtcpHeader \<Rightarrow> Compy_RtpHeader \<Rightarrow> ('t, 'a) Compy_RtpReceiver \<Rightarrow> u8 \<Rightarrow>
     u8 list \<Rightarrow> int \<times> ('t, 'a) Compy_RtpReceiver" where
  "Compy_RtpReceiver_feed en on_audio rtcp_hdr hdr self channel_type data =
     (if channel_type = COMPY_CHANNEL_RTCP then
        (case rv_rtcp self of
           Some rtcp \<Rightarrow>
             (case Compy_Rtcp_handle_incoming en rtcp_hdr rtcp data of
                (ret, rtcp) \<Rightarrow> (ret, self\<lparr>rv_rtcp := Some rtcp\<rparr>))
         | None \<Rightarrow> (0, self))
      else if channel_type = COMPY_CHANNEL_RTP then
        (case rv_audio_receiver self of
           None \<Rightarrow> (0, self)
         | Some audio \<Rightarrow>
             (case Compy_RtpHeader_deserialize en hdr data of
                (hdr_size, hdr) \<Rightarrow>
                  if hdr_size < 0 then (-1, self)
                  else
                    let payload = drop (nat hdr_size) data
                    in (0, self\<lparr>rv_audio_receiver := Some
                          (on_audio audio (rtp_payload_ty hdr) (htonl en (rtp_timestamp hdr))
                            (htonl en (rtp_ssrc hdr)) payload)\<rparr>)))
      else (-1, self))"

record Compy_BackchannelConfig =
  bc_payload_type :: u8
  bc_clock_rate :: u32

definition Compy_BackchannelConfig_default :: Compy_BackchannelConfig where
  "Compy_BackchannelConfig_default = \<lparr>bc_payload_type = 0, bc_clock_rate = 8000\<rparr>"

record ('t, 'a) Compy_Backchannel =
  bc_config :: Compy_BackchannelConfig
  bc_receiver :: "('t, 'a) Compy_RtpReceiver"

definition Compy_Backchannel_new :: "Compy_BackchannelConfig \<Rightarrow> 'a \<Rightarrow> ('t, 'a) Compy_Backchannel" where
  "Compy_Backchannel_new config audio_receiver =
     \<lparr>bc_config = config, bc_receiver = Compy_RtpReceiver_new None (Some audio_receiver)\<rparr>"

definition Compy_Backchannel_get_receiver :: "('t, 'a) Compy_Backchannel \<Rightarrow> ('t, 'a) Compy_RtpReceiver" where
  "Compy_Backchannel_get_receiver self = bc_receiver self"

definition Compy_Backchannel_get_config :: "('t, 'a) Compy_Backchannel \<Rightarrow> Compy_BackchannelConfig" where
  "Compy_Backchannel_get_config self = bc_config self"

section \<open>Reports\<close>

lemma rtcp_new_cname: "length (rs_cname (Compy_Rtcp_new t cname)) \<le> 255"
  by (simp add: Compy_Rtcp_new_def)

lemma sender_report_fits:
  assumes "length cname \<le> 255"
  shows "length (Compy_RtcpSenderReport_serialize en info cname) \<le> COMPY_RTCP_MAX_PACKET_SIZE"
  using assms sdes_sizes(2) [of "length cname"]
  by (simp add: length_sender_report COMPY_RTCP_MAX_PACKET_SIZE_def sdes_chunk_size_def)

text \<open>NTP time as a number of units of \<open>2 ^ -32\<close> seconds.\<close>

definition ntp_units :: "u32 \<Rightarrow> u32 \<Rightarrow> nat" where
  "ntp_units msw lsw = unat msw * 2 ^ 32 + unat lsw"

lemma ntp_fraction:
  assumes "unat nsec < 1000000000"
  shows "unat (ucast (push_bit 32 nsec div 1000000000 :: u64) :: u32) = unat nsec * 2 ^ 32 div 1000000000"
proof -
  have "unat nsec * 2 ^ 32 < 2 ^ 64" using assms by simp
  then have "unat (push_bit 32 nsec) = unat nsec * 2 ^ 32"
    by (simp add: push_bit_eq_mult unat_word_ariths)
  then have "unat (push_bit 32 nsec div 1000000000 :: u64) = unat nsec * 2 ^ 32 div 1000000000"
    by (simp add: unat_div)
  moreover have "unat nsec * 2 ^ 32 div 1000000000 < 2 ^ 32"
    using assms by (simp add: less_mult_imp_div_less)
  ultimately show ?thesis by (simp add: unsigned_ucast_eq take_bit_eq_mod)
qed

lemma send_sr_udp:
  assumes "udp_ok 0 (rs_rtcp_transport self)" "length (rs_cname self) \<le> 255"
    and "get_ntp_timestamp once init now = (msw, lsw, once')"
  shows "\<exists>t. Compy_Rtcp_send_sr en compy_transport_udp once init now now' rtp self =
       Some (0, self\<lparr>rs_rtcp_transport := t\<rparr>, once') \<and>
     udp_sent t = udp_sent (rs_rtcp_transport self) @
       [Compy_RtcpSenderReport_serialize en
          \<lparr>si_ssrc = rt_ssrc rtp, si_ntp_timestamp_msw = msw, si_ntp_timestamp_lsw = lsw,
           si_rtp_timestamp = Compy_RtpTransport_get_rtp_timestamp_now now' rtp,
           si_sender_packet_count = rt_packet_count rtp, si_sender_octet_count = rt_octet_count rtp\<rparr> (rs_cname self)]"
proof -
  let ?report = "Compy_RtcpSenderReport_serialize en
      \<lparr>si_ssrc = rt_ssrc rtp, si_ntp_timestamp_msw = msw, si_ntp_timestamp_lsw = lsw,
       si_rtp_timestamp = Compy_RtpTransport_get_rtp_timestamp_now now' rtp,
       si_sender_packet_count = rt_packet_count rtp, si_sender_octet_count = rt_octet_count rtp\<rparr> (rs_cname self)"
  obtain t where t: "t_transmit compy_transport_udp (rs_rtcp_transport self) [?report] = Some (0, t)"
    "udp_sent t = udp_sent (rs_rtcp_transport self) @ [?report]"
    using udp.transmit_ok [where bufs = "[?report]" and n = 0 and t = "rs_rtcp_transport self"] assms(1) by auto
  have "\<not> length ?report > COMPY_RTCP_MAX_PACKET_SIZE" by (simp add: not_less sender_report_fits [OF assms(2)])
  then show ?thesis
    using t by (intro exI [of _ t]) (simp add: Compy_Rtcp_send_sr_def assms(3) Let_def Compy_RtpTransport_get_ssrc_def
        Compy_RtpTransport_get_packet_count_def Compy_RtpTransport_get_octet_count_def)
qed

lemma udp_send_items_ssrc:
  assumes "wf_rt t" "udp_ok 0 (rt_transport t)" "send_items en compy_transport_udp now t items = Some (0, t')"
  shows "rt_ssrc t' = rt_ssrc t"
  using udp.send_items_ok [of t en items 0 now] assms by (auto simp: udp_ok_def list_all_iff)

section \<open>Incoming packets\<close>

lemma handle_incoming_refused:
  "fst (Compy_Rtcp_handle_incoming en hdr self data) = -1 \<Longrightarrow>
     snd (Compy_Rtcp_handle_incoming en hdr self data) = self"
  by (auto simp: Compy_Rtcp_handle_incoming_def Compy_RtcpReportBlock_deserialize_def RR_REPORT_BLOCK_SIZE_def
      Let_def split: prod.splits if_splits)

lemma handle_incoming_rr:
  assumes "0 < count" "unat count < 32" "unat (rb_cumulative_lost b) < 2 ^ 24"
  shows "Compy_Rtcp_handle_incoming en hdr self
       (rtcp_header_octets count COMPY_RTCP_RR len @ be32 reporter @ report_block_octets b @ rest) =
     (0, self\<lparr>rs_last_rr := b, rs_has_rr := True\<rparr>)"
proof -
  have "length (report_block_octets b) = 24" by (simp add: report_block_octets_def)
  moreover have "drop 8 (rtcp_header_octets count COMPY_RTCP_RR len @ be32 reporter @ report_block_octets b @ rest) =
      report_block_octets b @ rest" by simp
  ultimately show ?thesis
    using assms(1) report_block_read [OF assms(3)]
    by (simp add: Compy_Rtcp_handle_incoming_def rtcp_header_deserialize [OF assms(2)] Let_def)
qed

section \<open>A stream at the receiver\<close>

fun feed_all ::
  "endian \<Rightarrow> 'a Compy_AudioReceiver \<Rightarrow> Compy_RtcpHeader \<Rightarrow> Compy_RtpHeader \<Rightarrow> ('t, 'a) Compy_RtpReceiver \<Rightarrow>
     u8 list list \<Rightarrow> int list \<times> ('t, 'a) Compy_RtpReceiver" where
  "feed_all en on_audio rtcp_hdr hdr self [] = ([], self)"
| "feed_all en on_audio rtcp_hdr hdr self (p # ps) =
     (case Compy_RtpReceiver_feed en on_audio rtcp_hdr hdr self COMPY_CHANNEL_RTP p of
        (ret, self) \<Rightarrow> (case feed_all en on_audio rtcp_hdr hdr self ps of (rets, self) \<Rightarrow> (ret # rets, self)))"

text \<open>What the application is to hear of an item of the stream.\<close>

definition heard :: "'t Compy_RtpTransport \<Rightarrow> 'a Compy_AudioReceiver \<Rightarrow> rtp_item \<Rightarrow> 'a \<Rightarrow> 'a" where
  "heard rtp on_audio item audio =
     on_audio audio (rt_payload_ty rtp) (compute_timestamp (fst item) (rt_clock_rate rtp)) (rt_ssrc rtp)
       (item_payload item)"

lemma feed_nth_packet:
  assumes "wf_rt rtp"
  shows "Compy_RtpReceiver_feed en on_audio rtcp_hdr hdr \<lparr>rv_rtcp = r, rv_audio_receiver = Some audio\<rparr>
       COMPY_CHANNEL_RTP (nth_packet en rtp k item) =
     (0, \<lparr>rv_rtcp = r, rv_audio_receiver = Some (heard rtp on_audio item audio)\<rparr>)"
proof -
  obtain ts marker ph pl where item: "item = (ts, marker, ph, pl)" by (cases item)
  show ?thesis
    using nth_packet_header [OF assms item, where en = en and h = hdr and k = k]
    by (auto simp: Compy_RtpReceiver_feed_def COMPY_CHANNEL_RTCP_def COMPY_CHANNEL_RTP_def heard_def item
        item_payload_def split: prod.splits)
qed

lemma feed_packets:
  assumes "wf_rt rtp"
  shows "feed_all en on_audio rtcp_hdr hdr \<lparr>rv_rtcp = r, rv_audio_receiver = Some audio\<rparr> (packets_from en rtp k items) =
     (replicate (length items) 0, \<lparr>rv_rtcp = r, rv_audio_receiver = Some (fold (heard rtp on_audio) items audio)\<rparr>)"
  by (induction items arbitrary: k audio) (simp_all add: feed_nth_packet [OF assms])

section \<open>Properties\<close>

text \<open>
  C17. A sender report describes the stream: after a run of media packets over UDP, the report that goes
  out over the RTCP transport is one compound packet with the SSRC of the media packets, their number
  and the number of their payload octets so far (modulo \<open>2 ^ 32\<close>), the NTP time of the clock and the
  RTP time of the same clock, and the CNAME.
\<close>

theorem sr_describes_stream:
  assumes "wf_rt rtp" "udp_ok 0 (rt_transport rtp)"
    and "udp_ok 0 (rs_rtcp_transport self)" "length (rs_cname self) \<le> 255"
    and "get_ntp_timestamp once init now = (msw, lsw, once')" "unat (snd now) < 1000000000"
  shows "\<exists>rtp' t report zeros.
     send_items en compy_transport_udp sent rtp items = Some (0, rtp') \<and>
     Compy_Rtcp_send_sr en compy_transport_udp once init now now' rtp' self =
       Some (0, self\<lparr>rs_rtcp_transport := t\<rparr>, once') \<and>
     udp_sent t = udp_sent (rs_rtcp_transport self) @ [report] \<and>
     rtcp_packets en report =
       Some [(\<lparr>rh_version = 2, rh_padding = 0, rh_count = 0, rh_packet_type = COMPY_RTCP_SR, rh_length = 6\<rparr>,
              be32 (rt_ssrc rtp) @ be32 msw @ be32 lsw @
              be32 (Compy_RtpTransport_get_rtp_timestamp_now now' rtp') @
              be32 (rt_packet_count rtp + word_of_nat (length items)) @
              be32 (rt_octet_count rtp + word_of_nat (sum_list (map item_octets items)))),
             (\<lparr>rh_version = 2, rh_padding = 0, rh_count = 1, rh_packet_type = COMPY_RTCP_SDES,
               rh_length = word_of_nat (sdes_chunk_padded (length (rs_cname self)) div 4)\<rparr>,
              be32 (rt_ssrc rtp) @ [COMPY_RTCP_SDES_CNAME, word_of_nat (length (rs_cname self))] @ rs_cname self @
              replicate (Suc zeros) 0)] \<and>
     unat lsw = unat (snd now) * 2 ^ 32 div 1000000000"
proof -
  obtain rtp' where rtp': "send_items en compy_transport_udp sent rtp items = Some (0, rtp')"
    "rt_packet_count rtp' = rt_packet_count rtp + word_of_nat (length items)"
    "rt_octet_count rtp' = rt_octet_count rtp + word_of_nat (sum_list (map item_octets items))"
    using udp_send_items [OF assms(1,2)] by blast
  note ssrc = udp_send_items_ssrc [OF assms(1,2) rtp'(1)]
  obtain t where "Compy_Rtcp_send_sr en compy_transport_udp once init now now' rtp' self =
      Some (0, self\<lparr>rs_rtcp_transport := t\<rparr>, once')"
    "udp_sent t = udp_sent (rs_rtcp_transport self) @
       [Compy_RtcpSenderReport_serialize en
          \<lparr>si_ssrc = rt_ssrc rtp, si_ntp_timestamp_msw = msw, si_ntp_timestamp_lsw = lsw,
           si_rtp_timestamp = Compy_RtpTransport_get_rtp_timestamp_now now' rtp',
           si_sender_packet_count = rt_packet_count rtp', si_sender_octet_count = rt_octet_count rtp'\<rparr> (rs_cname self)]"
    using send_sr_udp [OF assms(3-5), of en now' rtp'] unfolding ssrc by blast
  moreover have "unat lsw = unat (snd now) * 2 ^ 32 div 1000000000"
    using assms(5) ntp_fraction [OF assms(6)] by (auto simp: get_ntp_timestamp_def Let_def)
  ultimately show ?thesis
    using rtp' sender_report_packets [OF assms(4), of en
        "\<lparr>si_ssrc = rt_ssrc rtp, si_ntp_timestamp_msw = msw, si_ntp_timestamp_lsw = lsw,
          si_rtp_timestamp = Compy_RtpTransport_get_rtp_timestamp_now now' rtp',
          si_sender_packet_count = rt_packet_count rtp', si_sender_octet_count = rt_octet_count rtp'\<rparr>"]
    by auto
qed

definition sample_items :: "rtp_item list" where
  "sample_items = [(Compy_RtpTimestamp_Raw 8000, True, [], [1, 2, 3]), (Compy_RtpTimestamp_Raw 8160, False, [9], [4, 5])]"

definition sample_rtcp :: "Compy_UdpTransport Compy_Rtcp" where
  "sample_rtcp = Compy_Rtcp_new (rt_transport sample_rt) [0x63, 0x61, 0x6D]"

lemma sample_streams_ok: "udp_ok 0 (rt_transport sample_rt)" "udp_sent (rt_transport sample_rt) = []"
  by (auto simp: udp_ok_def sample_rt_def Compy_RtpTransport_new_def MAX_RETRANSMITS_def intro!: exI [of _ 0])

theorem sr_describes_stream_witness:
  "\<exists>rtp' t report zeros.
     send_items LittleEndian compy_transport_udp (1, 0) sample_rt sample_items = Some (0, rtp') \<and>
     Compy_Rtcp_send_sr LittleEndian compy_transport_udp None (1700000000, 1) (2, 500000000) (2, 500000000) rtp' sample_rtcp =
       Some (0, sample_rtcp\<lparr>rs_rtcp_transport := t\<rparr>, Some 3908988799) \<and>
     udp_sent t = udp_sent (rs_rtcp_transport sample_rtcp) @ [report] \<and>
     rtcp_packets LittleEndian report =
       Some [(\<lparr>rh_version = 2, rh_padding = 0, rh_count = 0, rh_packet_type = COMPY_RTCP_SR, rh_length = 6\<rparr>,
              be32 (rt_ssrc sample_rt) @ be32 3908988801 @ be32 0x80000000 @
              be32 (Compy_RtpTransport_get_rtp_timestamp_now (2, 500000000) rtp') @
              be32 (rt_packet_count sample_rt + word_of_nat (length sample_items)) @
              be32 (rt_octet_count sample_rt + word_of_nat (sum_list (map item_octets sample_items)))),
             (\<lparr>rh_version = 2, rh_padding = 0, rh_count = 1, rh_packet_type = COMPY_RTCP_SDES,
               rh_length = word_of_nat (sdes_chunk_padded (length (rs_cname sample_rtcp)) div 4)\<rparr>,
              be32 (rt_ssrc sample_rt) @ [COMPY_RTCP_SDES_CNAME, word_of_nat (length (rs_cname sample_rtcp))] @
              rs_cname sample_rtcp @ replicate (Suc zeros) 0)] \<and>
     unat (0x80000000 :: u32) = unat (snd (2 :: u64, 500000000 :: u64)) * 2 ^ 32 div 1000000000"
  by (rule sr_describes_stream [OF sample_rt_wf sample_streams_ok(1)])
    (simp_all add: sample_rtcp_def Compy_Rtcp_new_def sample_streams_ok get_ntp_timestamp_def ntp_init_once_def
      NTP_EPOCH_OFFSET_def push_bit_eq_mult)

text \<open>
  C18. The receiver hears the stream: packets sent by the RTP transport over UDP and fed to a receiver in
  the order they left are all accepted, and the application gets, one call per packet, the payload type,
  timestamp and SSRC of the sender and exactly the payload, on hosts of either byte order.
\<close>

theorem receiver_hears_stream:
  assumes "wf_rt rtp" "udp_ok 0 (rt_transport rtp)"
  shows "\<exists>rtp' packets. send_items en compy_transport_udp now rtp items = Some (0, rtp') \<and>
     udp_sent (rt_transport rtp') = udp_sent (rt_transport rtp) @ packets \<and>
     feed_all en on_audio rtcp_hdr hdr (Compy_RtpReceiver_new r (Some audio)) packets =
       (replicate (length items) 0, Compy_RtpReceiver_new r (Some (fold (heard rtp on_audio) items audio)))"
  using udp_send_items [OF assms, of en now items] feed_packets [OF assms(1)]
  by (fastforce simp: Compy_RtpReceiver_new_def)

theorem receiver_hears_stream_witness:
  "\<exists>rtp' packets. send_items BigEndian compy_transport_udp (1, 0) sample_rt sample_items = Some (0, rtp') \<and>
     udp_sent (rt_transport rtp') = udp_sent (rt_transport sample_rt) @ packets \<and>
     feed_all BigEndian (\<lambda>log pt ts ssrc pl. log @ [(ts, pl)])
       \<lparr>rh_version = 0, rh_padding = 0, rh_count = 0, rh_packet_type = 0, rh_length = 0\<rparr> sample_rtp
       (Compy_RtpReceiver_new (Some sample_rtcp) (Some [])) packets =
       (replicate (length sample_items) 0,
        Compy_RtpReceiver_new (Some sample_rtcp) (Some [(8000, [1, 2, 3]), (8160, [9, 4, 5])]))"
  using receiver_hears_stream [OF sample_rt_wf sample_streams_ok(1), where en = BigEndian and now = "(1, 0)" and
      items = sample_items and audio = "[]" and on_audio = "\<lambda>log pt ts ssrc pl. log @ [(ts, pl)]"]
  by (simp add: sample_items_def heard_def item_payload_def compute_timestamp_def)

text \<open>
  Receiver reports: a packet that is refused changes nothing; a receiver report with at least one
  block, whatever follows its first block, is stored, and the block is what the application reads.
\<close>

theorem rtcp_incoming_reports:
  assumes "0 < count" "unat count < 32" "unat (rb_cumulative_lost b) < 2 ^ 24"
  shows "Compy_Rtcp_get_last_rr (snd (Compy_Rtcp_handle_incoming en hdr self
       (rtcp_header_octets count COMPY_RTCP_RR len @ be32 reporter @ report_block_octets b @ rest))) = Some b \<and>
     fst (Compy_Rtcp_handle_incoming en hdr self
       (rtcp_header_octets count COMPY_RTCP_RR len @ be32 reporter @ report_block_octets b @ rest)) = 0 \<and>
     (fst (Compy_Rtcp_handle_incoming en hdr self data) = -1 \<longrightarrow>
        snd (Compy_Rtcp_handle_incoming en hdr self data) = self)"
  using handle_incoming_refused [of en hdr self data]
  by (simp add: handle_incoming_rr [OF assms] Compy_Rtcp_get_last_rr_def)

theorem rtcp_incoming_reports_witness:
  "Compy_Rtcp_get_last_rr (snd (Compy_Rtcp_handle_incoming LittleEndian
       \<lparr>rh_version = 0, rh_padding = 0, rh_count = 0, rh_packet_type = 0, rh_length = 0\<rparr> sample_rtcp
       (rtcp_header_octets 2 COMPY_RTCP_RR 13 @ be32 7 @ report_block_octets (rtcp_report_block_0\<lparr>rb_ssrc := 5\<rparr>) @
        report_block_octets rtcp_report_block_0))) = Some (rtcp_report_block_0\<lparr>rb_ssrc := 5\<rparr>)"
  by (rule rtcp_incoming_reports [THEN conjunct1]) (simp_all add: rtcp_report_block_0_def)

end
