(* ===== verification/Sdp.thy ===== *)
theory Sdp
  imports Writers Parsing
begin

text \<open>
  Session descriptions, \<open>src/types/sdp.c\<close> and the macro of \<open>include/compy/types/sdp.h\<close>, and the texts of
  parse errors, \<open>src/types/error.c\<close>: the two users of the writer interface beside the messages.
  \<open>compy_sdp_printf\<close> gets the text its format produces.
\<close>

section \<open>Definitions\<close>

type_synonym Compy_SdpType = char

definition COMPY_SDP_VERSION :: Compy_SdpType where "COMPY_SDP_VERSION = CHR ''v''"
definition COMPY_SDP_ORIGIN :: Compy_SdpType where "COMPY_SDP_ORIGIN = CHR ''o''"
definition COMPY_SDP_SESSION_NAME :: Compy_SdpType where "COMPY_SDP_SESSION_NAME = CHR ''s''"
definition COMPY_SDP_CONNECTION :: Compy_SdpType where "COMPY_SDP_CONNECTION = CHR ''c''"
definition COMPY_SDP_TIME :: Compy_SdpType where "COMPY_SDP_TIME = CHR ''t''"
definition COMPY_SDP_ATTR :: Compy_SdpType where "COMPY_SDP_ATTR = CHR ''a''"
definition COMPY_SDP_MEDIA :: Compy_SdpType where "COMPY_SDP_MEDIA = CHR ''m''"

record Compy_SdpLine =
  sdp_ty :: Compy_SdpType
  sdp_value :: string

definition Compy_SdpLine_serialize ::
  "Compy_SdpLine \<Rightarrow> 'w Compy_Writer \<Rightarrow> 'w \<Rightarrow> (int \<times> 'w) option" where
  "Compy_SdpLine_serialize self W w =
     compy_write_slices W w [[sdp_ty self], ''='', sdp_value self, CRLF]"

definition compy_sdp_printf ::
  "'w Compy_Writer \<Rightarrow> 'w \<Rightarrow> Compy_SdpType \<Rightarrow> string \<Rightarrow> (int \<times> 'w) option" where
  "compy_sdp_printf W w ty formatted =
     CHK_WRITE_ERR 0 (w_writef W w ([ty] @ ''='')) (\<lambda>result w.
     CHK_WRITE_ERR result (w_vwritef W w formatted) (\<lambda>result w.
     CHK_WRITE_ERR result (w_write W w CRLF) (\<lambda>result w.
     Some (result, w))))"

text \<open>
  \<open>COMPY_SDP_DESCRIBE (ret, w, lines)\<close>: line after line, until one gives a negative value, which is
  not added.
\<close>

fun COMPY_SDP_DESCRIBE ::
  "int \<Rightarrow> 'w Compy_Writer \<Rightarrow> 'w \<Rightarrow> (Compy_SdpType \<times> string) list \<Rightarrow> (int \<times> 'w) option" where
  "COMPY_SDP_DESCRIBE ret W w [] = Some (ret, w)"
| "COMPY_SDP_DESCRIBE ret W w ((ty, formatted) # lines) =
     (case compy_sdp_printf W w ty formatted of
        None \<Rightarrow> None
      | Some (sdp_ret, w) \<Rightarrow>
          if sdp_ret < 0 then Some (ret, w) else COMPY_SDP_DESCRIBE (ret + sdp_ret) W w lines)"

fun Compy_ParseType_str :: "Compy_ParseType \<Rightarrow> string" where
  "Compy_ParseType_str Compy_ParseType_Int = ''Integer''"
| "Compy_ParseType_str Compy_ParseType_Ident = ''Identifier''"
| "Compy_ParseType_str Compy_ParseType_HeaderName = ''Header name''"

definition MAX_STR :: nat where "MAX_STR = 10"

definition TRUNCATE_STR :: "string \<Rightarrow> string" where
  "TRUNCATE_STR str = (if length str \<le> MAX_STR then str else take MAX_STR str)"

text \<open>The character 0x60 is the backquote.\<close>

fun Compy_ParseError_print ::
  "Compy_ParseError \<Rightarrow> 'w Compy_Writer \<Rightarrow> 'w \<Rightarrow> (int \<times> 'w) option" where
  "Compy_ParseError_print (Compy_ParseError_ContentLength v) W w =
     compy_write_slices W w [''Invalid Content-Length '' @ [CHR 0x60], TRUNCATE_STR v, [CHR 0x60]]"
| "Compy_ParseError_print (Compy_ParseError_StrMismatch expected actual) W w =
     compy_write_slices W w [''String mismatch: expected '' @ [CHR 0x60], TRUNCATE_STR expected,
       [CHR 0x60] @ '', found '' @ [CHR 0x60], TRUNCATE_STR actual, [CHR 0x60]]"
| "Compy_ParseError_print (Compy_ParseError_TypeMismatch kind str) W w =
     compy_write_slices W w [''Type mismatch: expected '', Compy_ParseType_str kind, '', found '' @ [CHR 0x60],
       TRUNCATE_STR str, [CHR 0x60]]"
| "Compy_ParseError_print Compy_ParseError_HeaderMapOverflow W w =
     w_write W w ''Not enough space left in the header map''"
| "Compy_ParseError_print Compy_ParseError_MissingCSeq W w = w_write W w ''Missing CSeq''"
| "Compy_ParseError_print (Compy_ParseError_InvalidCSeq v) W w =
     compy_write_slices W w [''Invalid CSeq '' @ [CHR 0x60], TRUNCATE_STR v, [CHR 0x60]]"

section \<open>A description as its reader sees it\<close>

text \<open>The line up to the first line end, and the lines of a description.\<close>

fun take_line :: "string \<Rightarrow> (string \<times> string) option" where
  "take_line (c # d # s) =
     (if c = CHR 0x0D \<and> d = CHR 0x0A then Some ([], s)
      else map_option (\<lambda>(line, rest). (c # line, rest)) (take_line (d # s)))"
| "take_line s = None"

lemma take_line_shorter: "take_line s = Some (line, rest) \<Longrightarrow> length rest < length s"
  by (induction s arbitrary: line rest rule: take_line.induct) (auto split: if_splits)

lemma take_line_CRLF: "crlf_free v \<Longrightarrow> take_line (v @ CRLF @ rest) = Some (v, rest)"
  by (induction v rule: crlf_free.induct) (auto simp: CRLF_def)

function sdp_read :: "string \<Rightarrow> (Compy_SdpType \<times> string) list option" where
  "sdp_read s =
     (if s = [] then Some []
      else
        (case take_line s of
           Some (ty # eq # v, rest) \<Rightarrow>
             if eq = CHR ''='' then map_option ((#) (ty, v)) (sdp_read rest) else None
         | _ \<Rightarrow> None))"
  by pat_completeness auto
termination by (relation "measure length") (auto dest: take_line_shorter)

declare sdp_read.simps [simp del]

definition sdp_text :: "Compy_SdpType \<times> string \<Rightarrow> string" where
  "sdp_text l = fst l # CHR ''='' # snd l @ CRLF"

definition wf_sdp :: "Compy_SdpType \<times> string \<Rightarrow> bool" where
  "wf_sdp l \<longleftrightarrow> fst l \<notin> {CHR 0x00, CHR 0x0D} \<and> crlf_free (snd l) \<and> nul_free (snd l)"

lemma sdp_read_line:
  assumes "wf_sdp l"
  shows "sdp_read (sdp_text l @ rest) = map_option ((#) l) (sdp_read rest)"
proof -
  have "crlf_free (fst l # CHR ''='' # snd l)"
    using assms by (cases "snd l") (auto simp: wf_sdp_def)
  then have "take_line (sdp_text l @ rest) = Some (fst l # CHR ''='' # snd l, rest)"
    using take_line_CRLF [of "fst l # CHR ''='' # snd l" rest] by (simp add: sdp_text_def)
  then show ?thesis by (subst sdp_read.simps) (simp add: sdp_text_def)
qed

lemma sdp_read_text: "list_all wf_sdp lines \<Longrightarrow> sdp_read (concat (map sdp_text lines)) = Some lines"
  by (induction lines) (simp_all add: sdp_read_line sdp_read.simps [of "[]"])

context reliable_writer
begin

lemma sdp_printf_emits:
  assumes "ok ([ty] @ ''='')" "ok v" "ok CRLF"
  shows "emits out (compy_sdp_printf W w ty v) 0 w (([ty] @ ''='') @ v @ CRLF @ [])"
  unfolding compy_sdp_printf_def
  by (intro emits_CHK_WRITE_ERR writef_emits vwritef_emits write_emits assms emits_done) auto

lemma describe_emits:
  assumes "\<forall>(ty, v) \<in> set lines. ok ([ty] @ ''='') \<and> ok v" "ok CRLF" "0 \<le> ret"
  shows "emits out (COMPY_SDP_DESCRIBE ret W w lines) ret w (concat (map sdp_text lines))"
  using assms
proof (induction lines arbitrary: ret w)
  case (Cons l lines)
  obtain ty v where l: "l = (ty, v)" by (cases l)
  obtain w' where step: "compy_sdp_printf W w ty v = Some (int (length (sdp_text l)), w')" "out w' = out w @ sdp_text l"
    using sdp_printf_emits [of ty v w] Cons.prems by (auto simp: emits_def l sdp_text_def)
  show ?case using Cons.IH [of "ret + int (length (sdp_text l))" w'] Cons.prems step
    by (auto simp: emits_def l)
qed (simp add: emits_done)

end

lemma describe_text:
  assumes "list_all wf_sdp lines" "0 \<le> ret"
  shows "COMPY_SDP_DESCRIBE ret compy_string_writer w lines =
     Some (ret + int (length (concat (map sdp_text lines))), w @ concat (map sdp_text lines))"
proof -
  have "\<forall>(ty, v) \<in> set lines. nul_free ([ty] @ ''='') \<and> nul_free v"
    using assms(1) by (auto simp: list_all_iff wf_sdp_def)
  then show ?thesis
    using string_writer.describe_emits [of lines ret w] assms(2) by (auto simp: emits_def)
qed

section \<open>Properties\<close>

text \<open>
  A session description reads back: lines printed with \<open>COMPY_SDP_DESCRIBE\<close> into a string, whose
  values hold neither a line end nor a NUL, are read back line by line with their types and values, in
  order, and the value returned is the number of octets, on top of what was counted before.
\<close>

theorem sdp_describe_roundtrip:
  assumes "list_all wf_sdp lines" "0 \<le> ret"
  shows "\<exists>sdp. COMPY_SDP_DESCRIBE ret compy_string_writer w lines = Some (ret + int (length sdp), w @ sdp) \<and>
     sdp_read sdp = Some lines"
  using describe_text [OF assms] sdp_read_text [OF assms(1)] by blast

theorem sdp_describe_roundtrip_witness:
  "\<exists>sdp. COMPY_SDP_DESCRIBE 0 compy_string_writer [] [(COMPY_SDP_VERSION, ''0''), (COMPY_SDP_TIME, ''0 0'')] =
       Some (0 + int (length sdp), [] @ sdp) \<and>
     sdp_read sdp = Some [(COMPY_SDP_VERSION, ''0''), (COMPY_SDP_TIME, ''0 0'')]"
  by (rule sdp_describe_roundtrip) (simp_all add: wf_sdp_def COMPY_SDP_VERSION_def COMPY_SDP_TIME_def)

text \<open>
  The text of an error is short whatever the input was: at most 62 octets are written, and the number
  is returned.
\<close>

lemma parse_error_print_bound:
  assumes "Compy_ParseError_print e compy_string_writer w = Some (ret, w')"
  shows "ret \<le> 62 \<and> length w' \<le> length w + 62"
proof -
  have slices: "compy_write_slices compy_string_writer w data =
      Some (int (length (concat data)), w @ concat (map c_str data))" for data
  proof -
    have "write_slices_loop compy_string_writer data r v = Some (r + int (length (concat data)), v @ concat (map c_str data))"
      for r v
      by (induction data arbitrary: r v)
        (simp_all add: CHK_WRITE_ERR_def compy_string_writer_def StringWriter_write_def)
    then show ?thesis by (simp add: compy_write_slices_def)
  qed
  have trunc: "length (TRUNCATE_STR s) \<le> 10" "length (c_str s) \<le> length s" for s
    by (simp_all add: TRUNCATE_STR_def MAX_STR_def c_str_def length_takeWhile_le)
  have cut: "length (c_str (TRUNCATE_STR s)) \<le> 10" for s using trunc le_trans by blast
  have kind: "length (Compy_ParseType_str k) \<le> 11" for k by (cases k) simp_all
  have ckind: "length (c_str (Compy_ParseType_str k)) \<le> 11" for k using kind trunc(2) le_trans by blast
  note out = compy_string_writer_def StringWriter_write_def
  show ?thesis
  proof (cases e)
    case (Compy_ParseError_StrMismatch a b)
    then show ?thesis using assms trunc(1) [of a] trunc(1) [of b] cut [of a] cut [of b]
      by (auto simp: slices) (simp_all add: c_str_def)
  next
    case (Compy_ParseError_TypeMismatch k a)
    then show ?thesis using assms trunc(1) [of a] cut [of a] kind [of k] ckind [of k]
      by (auto simp: slices) (simp_all add: c_str_def)
  next
    case (Compy_ParseError_ContentLength a)
    then show ?thesis using assms trunc(1) [of a] cut [of a] by (auto simp: slices) (simp_all add: c_str_def)
  next
    case (Compy_ParseError_InvalidCSeq a)
    then show ?thesis using assms trunc(1) [of a] cut [of a] by (auto simp: slices) (simp_all add: c_str_def)
  qed (use assms in \<open>auto simp: out c_str_def\<close>)
qed

end
