(* ===== verification/Tls.thy ===== *)
theory Tls
  imports Transport
begin

text \<open>
  The TLS layer, \<open>src/tls.c\<close>: connections that die on the first error, reading, and the writer over a
  connection. What the TLS backend does is the record \<open>Compy_CryptoTlsOps\<close> of its functions on the
  backend's connection, as in the code; its write and read return the value of the call and the new
  connection; a write and a handshake may also never return. The recursive mutex is the number of times it is held.
  \<open>None\<close> is an access outside a buffer or such a call that does not return. Freeing a context or a connection has no counterpart.
\<close>

section \<open>Definitions\<close>

record ('c, 'x) Compy_CryptoTlsOps =
  tls_ctx_new :: "string \<Rightarrow> string \<Rightarrow> 'c option"
  tls_accept :: "'c \<Rightarrow> int \<Rightarrow> 'x option option"
  tls_ctx_set_cipher_preference :: "('c \<Rightarrow> int \<Rightarrow> int \<times> 'c) option"
  tls_write :: "'x \<Rightarrow> string \<Rightarrow> (int \<times> 'x) option"
  tls_read :: "'x \<Rightarrow> nat \<Rightarrow> int \<times> string \<times> 'x"
  tls_shutdown :: "'x \<Rightarrow> int \<times> 'x"
  tls_pending :: "'x \<Rightarrow> nat"

record 'x Compy_TlsConn =
  tc_crypto_conn :: 'x
  tc_mtx :: nat
  tc_dead :: bool

definition pthread_mutex_lock :: "'x Compy_TlsConn \<Rightarrow> 'x Compy_TlsConn" where
  "pthread_mutex_lock self = self\<lparr>tc_mtx := tc_mtx self + 1\<rparr>"

definition pthread_mutex_unlock :: "'x Compy_TlsConn \<Rightarrow> 'x Compy_TlsConn" where
  "pthread_mutex_unlock self = self\<lparr>tc_mtx := tc_mtx self - 1\<rparr>"

text \<open>
  Creating a context or a connection; \<open>allocated\<close> says whether \<open>malloc\<close> succeeds. The second component
  is the backend's object when it is given back with \<open>ctx_free\<close> or \<open>conn_free\<close>.
\<close>

definition Compy_TlsContext_new ::
  "('c, 'x) Compy_CryptoTlsOps \<Rightarrow> bool \<Rightarrow> string \<Rightarrow> string \<Rightarrow> 'c option \<times> 'c option" where
  "Compy_TlsContext_new ops allocated cert_path key_path =
     (case tls_ctx_new ops cert_path key_path of
        None \<Rightarrow> (None, None)
      | Some crypto_ctx \<Rightarrow> if \<not> allocated then (None, Some crypto_ctx) else (Some crypto_ctx, None))"

text \<open>The presets are the numbers of the enumeration \<open>Compy_TlsCipherPreference\<close>.\<close>

definition Compy_TlsContext_set_cipher_preference ::
  "('c, 'x) Compy_CryptoTlsOps \<Rightarrow> 'c \<Rightarrow> int \<Rightarrow> int \<times> 'c" where
  "Compy_TlsContext_set_cipher_preference ops ctx pref =
     (case tls_ctx_set_cipher_preference ops of None \<Rightarrow> (-1, ctx) | Some f \<Rightarrow> f ctx pref)"

definition Compy_TlsConn_accept ::
  "('c, 'x) Compy_CryptoTlsOps \<Rightarrow> bool \<Rightarrow> 'c \<Rightarrow> int \<Rightarrow> ('x Compy_TlsConn option \<times> 'x option) option" where
  "Compy_TlsConn_accept ops allocated ctx fd =
     tls_accept ops ctx fd \<bind> (\<lambda>conn.
     case conn of
       None \<Rightarrow> Some (None, None)
     | Some crypto_conn \<Rightarrow>
         if \<not> allocated then Some (None, Some crypto_conn)
         else Some (Some \<lparr>tc_crypto_conn = crypto_conn, tc_mtx = 0, tc_dead = False\<rparr>, None))"

definition compy_tls_read :: "('c, 'x) Compy_CryptoTlsOps \<Rightarrow> 'x Compy_TlsConn \<Rightarrow> nat \<Rightarrow> int \<times> string \<times> 'x Compy_TlsConn" where
  "compy_tls_read ops conn len =
     (if tc_dead conn then (-1, [], conn)
      else
        let conn = pthread_mutex_lock conn
        in case tls_read ops (tc_crypto_conn conn) len of
             (ret, buf, crypto_conn) \<Rightarrow>
               let conn = pthread_mutex_unlock (conn\<lparr>tc_crypto_conn := crypto_conn\<rparr>)
               in (ret, buf, if ret < 0 then conn\<lparr>tc_dead := True\<rparr> else conn))"

definition compy_tls_shutdown :: "('c, 'x) Compy_CryptoTlsOps \<Rightarrow> 'x Compy_TlsConn \<Rightarrow> int \<times> 'x Compy_TlsConn" where
  "compy_tls_shutdown ops conn =
     (let conn = pthread_mutex_lock conn
      in case tls_shutdown ops (tc_crypto_conn conn) of
           (ret, crypto_conn) \<Rightarrow> (ret, pthread_mutex_unlock (conn\<lparr>tc_crypto_conn := crypto_conn\<rparr>)))"

definition TlsWriter_write :: "('c, 'x) Compy_CryptoTlsOps \<Rightarrow> 'x Compy_TlsConn \<Rightarrow> string \<Rightarrow> (int \<times> 'x Compy_TlsConn) option" where
  "TlsWriter_write ops self data =
     (if tc_dead self then Some (-1, self)
      else
        tls_write ops (tc_crypto_conn self) data \<bind> (\<lambda>(ret, crypto_conn).
        let self = self\<lparr>tc_crypto_conn := crypto_conn\<rparr>
        in Some (ret, if ret < 0 then self\<lparr>tc_dead := True\<rparr> else self)))"

definition TlsWriter_lock :: "'x Compy_TlsConn \<Rightarrow> 'x Compy_TlsConn" where
  "TlsWriter_lock self = pthread_mutex_lock self"

definition TlsWriter_unlock :: "'x Compy_TlsConn \<Rightarrow> 'x Compy_TlsConn" where
  "TlsWriter_unlock self = pthread_mutex_unlock self"

definition TlsWriter_filled :: "('c, 'x) Compy_CryptoTlsOps \<Rightarrow> 'x Compy_TlsConn \<Rightarrow> nat" where
  "TlsWriter_filled ops self = tls_pending ops (tc_crypto_conn self)"

text \<open>
  \<open>vsnprintf\<close> into the buffer of 1024 octets, for a format that it can print: it returns the length of the whole text and leaves the
  first 1023 octets and a NUL. The write then takes that many octets from the buffer; \<open>None\<close> when the
  buffer has fewer.
\<close>

definition tls_format_buf :: "string \<Rightarrow> string" where
  "tls_format_buf formatted = take 1023 formatted @ [CHR 0x00]"

definition TlsWriter_vwritef ::
  "('c, 'x) Compy_CryptoTlsOps \<Rightarrow> 'x Compy_TlsConn \<Rightarrow> string \<Rightarrow> (int \<times> 'x Compy_TlsConn) option" where
  "TlsWriter_vwritef ops self formatted =
     (if tc_dead self then Some (-1, self)
      else
        let n = length formatted
        in if n > 0 then
             let self = pthread_mutex_lock self
             in if n > 1024 then None
                else
                  tls_write ops (tc_crypto_conn self) (take n (tls_format_buf formatted)) \<bind> (\<lambda>(ret, crypto_conn).
                  let self = pthread_mutex_unlock (self\<lparr>tc_crypto_conn := crypto_conn\<rparr>)
                  in if ret < 0 then Some (-1, self\<lparr>tc_dead := True\<rparr>) else Some (int n, self))
           else Some (int n, self))"

definition TlsWriter_writef ::
  "('c, 'x) Compy_CryptoTlsOps \<Rightarrow> 'x Compy_TlsConn \<Rightarrow> string \<Rightarrow> (int \<times> 'x Compy_TlsConn) option" where
  "TlsWriter_writef ops self formatted = TlsWriter_vwritef ops self formatted"

definition compy_tls_writer :: "('c, 'x) Compy_CryptoTlsOps \<Rightarrow> 'x Compy_TlsConn Compy_Writer" where
  "compy_tls_writer ops =
     \<lparr>w_write = TlsWriter_write ops, w_lock = TlsWriter_lock, w_unlock = TlsWriter_unlock,
      w_filled = TlsWriter_filled ops, w_writef = TlsWriter_writef ops, w_vwritef = TlsWriter_vwritef ops\<rparr>"

lemmas tls_defs =
  TlsWriter_write_def TlsWriter_lock_def TlsWriter_unlock_def TlsWriter_vwritef_def TlsWriter_writef_def
  pthread_mutex_lock_def pthread_mutex_unlock_def compy_tls_read_def compy_tls_shutdown_def

section \<open>The life of a connection\<close>

text \<open>
  The calls an application makes on a connection, each with the value it returns. Locking and unlocking
  come in pairs around the other calls.
\<close>

datatype tls_call = Read nat | Write string | Writef string | Lock | Unlock

inductive tls_step :: "('c, 'x) Compy_CryptoTlsOps \<Rightarrow> 'x Compy_TlsConn \<Rightarrow> tls_call \<Rightarrow> int \<Rightarrow> 'x Compy_TlsConn \<Rightarrow> bool"
  for ops where
  "compy_tls_read ops c n = (ret, buf, c') \<Longrightarrow> tls_step ops c (Read n) ret c'"
| "TlsWriter_write ops c d = Some (ret, c') \<Longrightarrow> tls_step ops c (Write d) ret c'"
| "TlsWriter_writef ops c d = Some (ret, c') \<Longrightarrow> tls_step ops c (Writef d) ret c'"
| "tls_step ops c Lock 0 (TlsWriter_lock c)"
| "0 < tc_mtx c \<Longrightarrow> tls_step ops c Unlock 0 (TlsWriter_unlock c)"

inductive_cases tls_stepE [elim]: "tls_step ops c call ret c'"

inductive tls_run :: "('c, 'x) Compy_CryptoTlsOps \<Rightarrow> 'x Compy_TlsConn \<Rightarrow> (tls_call \<times> int) list \<Rightarrow> 'x Compy_TlsConn \<Rightarrow> bool"
  for ops where
  "tls_run ops c [] c"
| "tls_step ops c call ret c' \<Longrightarrow> tls_run ops c' calls c'' \<Longrightarrow> tls_run ops c ((call, ret) # calls) c''"

fun tls_io :: "tls_call \<Rightarrow> bool" where
  "tls_io (Read n) = True"
| "tls_io (Write d) = True"
| "tls_io (Writef d) = True"
| "tls_io Lock = False"
| "tls_io Unlock = False"

lemma dead_step:
  "tls_step ops c call ret c' \<Longrightarrow> tc_dead c \<Longrightarrow>
     tc_dead c' \<and> tc_crypto_conn c' = tc_crypto_conn c \<and> (tls_io call \<longrightarrow> ret = -1)"
  by (erule tls_stepE) (auto simp: tls_defs)

lemma dead_run:
  "tls_run ops c calls c' \<Longrightarrow> tc_dead c \<Longrightarrow>
     tc_dead c' \<and> tc_crypto_conn c' = tc_crypto_conn c \<and> list_all (\<lambda>(call, ret). tls_io call \<longrightarrow> ret = -1) calls"
  by (induction rule: tls_run.induct) (auto dest: dead_step)

lemma failed_step: "tls_step ops c call ret c' \<Longrightarrow> ret < 0 \<Longrightarrow> tc_dead c'"
  by (erule tls_stepE) (auto simp: tls_defs Let_def split: if_splits prod.splits bind_splits)

text \<open>A call of input or output leaves the mutex as it found it.\<close>

lemma mutex_step: "tls_step ops c call ret c' \<Longrightarrow> tls_io call \<Longrightarrow> tc_mtx c' = tc_mtx c"
  by (erule tls_stepE) (auto simp: tls_defs Let_def split: if_splits prod.splits bind_splits)

section \<open>The writer's contract\<close>

text \<open>
  A backend that takes the next \<open>n\<close> octets, in whatever pieces they come; \<open>out\<close> is what has reached the
  peer.
\<close>

function tls_accepts :: "('c, 'x) Compy_CryptoTlsOps \<Rightarrow> ('x \<Rightarrow> string) \<Rightarrow> nat \<Rightarrow> 'x \<Rightarrow> bool" where
  "tls_accepts ops out n x \<longleftrightarrow>
     (\<forall>d. length d \<le> n \<longrightarrow>
        (case tls_write ops x d of
           None \<Rightarrow> False
         | Some (ret, x') \<Rightarrow>
             ret = int (length d) \<and> out x' = out x @ d \<and>
             (d \<noteq> [] \<longrightarrow> length d \<le> n \<longrightarrow> tls_accepts ops out (n - length d) x') \<and> (d = [] \<longrightarrow> x' = x)))"
  by pat_completeness auto
termination
proof (relation "measure (\<lambda>(_, _, n, _). n)", goal_cases)
  case (2 ops out n x d r ret x')
  then have "0 < length d" by simp
  with 2 show ?case by (simp only: in_measure split_conv)
qed simp

declare tls_accepts.simps [simp del]

definition tls_good :: "('c, 'x) Compy_CryptoTlsOps \<Rightarrow> ('x \<Rightarrow> string) \<Rightarrow> nat \<Rightarrow> 'x Compy_TlsConn \<Rightarrow> bool" where
  "tls_good ops out n c \<longleftrightarrow> \<not> tc_dead c \<and> tls_accepts ops out n (tc_crypto_conn c)"

lemma tls_accepts_write:
  assumes "tls_accepts ops out (length d + n) x"
  obtains x' where "tls_write ops x d = Some (int (length d), x')" "out x' = out x @ d" "tls_accepts ops out n x'"
proof -
  have law: "case tls_write ops x d of
      None \<Rightarrow> False
    | Some (ret, x') \<Rightarrow>
        ret = int (length d) \<and> out x' = out x @ d \<and>
        (d \<noteq> [] \<longrightarrow> length d \<le> length d + n \<longrightarrow> tls_accepts ops out (length d + n - length d) x') \<and> (d = [] \<longrightarrow> x' = x)"
    by (rule mp [OF spec [OF iffD1 [OF tls_accepts.simps assms]]]) simp
  then obtain x' where x': "tls_write ops x d = Some (int (length d), x')" "out x' = out x @ d"
    "d \<noteq> [] \<longrightarrow> tls_accepts ops out n x'" "d = [] \<longrightarrow> x' = x"
    by (cases "tls_write ops x d") auto
  then have "tls_accepts ops out n x'" using assms by (cases "d = []") simp_all
  with x' that show ?thesis by blast
qed

interpretation tls_writer: binary_writer "compy_tls_writer ops" "\<lambda>c. out (tc_crypto_conn c)" "tls_good ops out"
  for ops :: "('c, 'x) Compy_CryptoTlsOps" and out
proof
  fix d :: string and n and w :: "'x Compy_TlsConn"
  assume "tls_good ops out (length d + n) w"
  then show "\<exists>w'. w_write (compy_tls_writer ops) (w_lock (compy_tls_writer ops) w) d = Some (int (length d), w') \<and>
      out (tc_crypto_conn (w_unlock (compy_tls_writer ops) w')) = out (tc_crypto_conn w) @ d \<and>
      tls_good ops out n (w_unlock (compy_tls_writer ops) w')"
    by (auto simp: tls_good_def compy_tls_writer_def tls_defs elim!: tls_accepts_write)
qed

section \<open>Properties\<close>

text \<open>
  C19. A connection dies on its first error and stays dead: once a read or a write has returned a negative
  value, every later read and write of any sequence of calls returns -1, and none of them reaches the
  backend, whose connection stays as it was.
\<close>

theorem tls_dead_sticky:
  assumes "tls_step ops c call ret c'" "ret < 0" "tls_run ops c' calls c''"
  shows "tc_dead c'' \<and> tc_crypto_conn c'' = tc_crypto_conn c' \<and>
     list_all (\<lambda>(call, ret). tls_io call \<longrightarrow> ret = -1) calls"
  using dead_run [OF assms(3)] failed_step [OF assms(1,2)] by blast

text \<open>A backend for the examples: it takes \<open>n\<close> octets, then fails.\<close>

definition example_tls :: "nat \<Rightarrow> (unit, nat \<times> string) Compy_CryptoTlsOps" where
  "example_tls n =
     \<lparr>tls_ctx_new = (\<lambda>_ _. Some ()), tls_accept = (\<lambda>_ _. Some (Some (0, []))), tls_ctx_set_cipher_preference = None,
      tls_write = (\<lambda>(k, out) d. Some (if k + length d \<le> n then (int (length d), k + length d, out @ d) else (-1, k, out))),
      tls_read = (\<lambda>(k, out) len. (0, [], (k, out))),
      tls_shutdown = (\<lambda>x. (0, x)), tls_pending = (\<lambda>_. 0)\<rparr>"

theorem tls_dead_sticky_witness:
  "tc_dead (\<lparr>tc_crypto_conn = (0, []), tc_mtx = 0, tc_dead = True\<rparr> :: (nat \<times> string) Compy_TlsConn) \<and>
   tc_crypto_conn (\<lparr>tc_crypto_conn = (0, []), tc_mtx = 0, tc_dead = True\<rparr> :: (nat \<times> string) Compy_TlsConn) =
   tc_crypto_conn \<lparr>tc_crypto_conn = (0, []), tc_mtx = 0, tc_dead = True\<rparr> \<and>
   list_all (\<lambda>(call, ret). tls_io call \<longrightarrow> ret = -1) [(Write ''a'', -1), (Read 4, -1)]"
proof -
  let ?c = "\<lambda>dead. \<lparr>tc_crypto_conn = (0, []), tc_mtx = 0, tc_dead = dead\<rparr>"
  have failed: "tls_step (example_tls 0) (?c False) (Write ''x'') (-1) (?c True)"
    by (auto simp: tls_defs example_tls_def intro!: tls_step.intros)
  have "tls_run (example_tls 0) (?c True) [(Write ''a'', -1), (Read 4, -1)] (?c True)"
    by (intro tls_run.intros(2) tls_step.intros) (auto simp: tls_defs intro: tls_run.intros(1))
  from tls_dead_sticky [OF failed _ this] show ?thesis by simp
qed

text \<open>
  Interleaved packets survive TLS: any sequence of packets sent over a TCP transport whose writer is
  a live connection to a backend that takes the octets is delivered as whole frames that hold exactly the
  packets, in order, and the connection stays alive.
\<close>

theorem tls_stream_decodes:
  assumes "tcp_ok (\<lambda>c. out (tc_crypto_conn c)) (tls_good ops out)
      (sum_list (map (\<lambda>b. tcp_cost (concat b)) packets)) t"
    and "list_all (\<lambda>b. tcp_fits (concat b)) packets"
  shows "\<exists>t' frames. transmit_all (compy_transport_tcp en (compy_tls_writer ops)) t packets = Some (0, t') \<and>
     \<not> tc_dead (tcp_w t') \<and>
     read_frames (map u8_of_char (out (tc_crypto_conn (tcp_w t')))) = Some frames \<and>
     map snd frames = tcp_log (\<lambda>c. out (tc_crypto_conn c)) t @ map concat packets"
proof -
  obtain t' where "transmit_all (compy_transport_tcp en (compy_tls_writer ops)) t packets = Some (0, t')"
    "tcp_log (\<lambda>c. out (tc_crypto_conn c)) t' = tcp_log (\<lambda>c. out (tc_crypto_conn c)) t @ map concat packets"
    "tcp_ok (\<lambda>c. out (tc_crypto_conn c)) (tls_good ops out) 0 t'"
    using tls_writer.tcp.transmit_all_ok [where ops = ops and out = out and bss = packets and n = 0 and t = t and en = en]
      assms by auto
  then show ?thesis by (auto simp: tcp_ok_def tcp_log_def tls_good_def)
qed

lemma example_tls_accepts: "fst x + n \<le> m \<Longrightarrow> tls_accepts (example_tls m) snd n x"
proof (induction n arbitrary: x rule: less_induct)
  case (less n)
  show ?case
  proof (subst tls_accepts.simps, intro allI impI)
    fix d :: string
    assume d: "length d \<le> n"
    obtain k s where x: "x = (k, s)" by force
    have step: "d \<noteq> [] \<Longrightarrow> tls_accepts (example_tls m) snd (n - length d) (k + length d, s @ d)"
      using d less.prems x by (intro less.IH) (cases d; auto)+
    show "case tls_write (example_tls m) x d of
        None \<Rightarrow> False
      | Some (ret, x') \<Rightarrow>
          ret = int (length d) \<and> snd x' = snd x @ d \<and>
          (d \<noteq> [] \<longrightarrow> length d \<le> n \<longrightarrow> tls_accepts (example_tls m) snd (n - length d) x') \<and> (d = [] \<longrightarrow> x' = x)"
      using step d less.prems x by (auto simp: example_tls_def)
  qed
qed

theorem tls_stream_decodes_witness:
  "\<exists>t' frames. transmit_all (compy_transport_tcp LittleEndian (compy_tls_writer (example_tls 100)))
       \<lparr>tcp_w = \<lparr>tc_crypto_conn = (0, []), tc_mtx = 0, tc_dead = False\<rparr>, tcp_channel_id = 1,
        tcp_max_buffer = 0, tcp_malloc = \<lambda>_. True\<rparr> [[[1], [2, 3]], [[4]]] = Some (0, t') \<and>
     \<not> tc_dead (tcp_w t') \<and>
     read_frames (map u8_of_char (snd (tc_crypto_conn (tcp_w t')))) = Some frames \<and>
     map snd frames = [[1, 2, 3], [4]]"
proof -
  let ?t = "\<lparr>tcp_w = \<lparr>tc_crypto_conn = (0, [] :: string), tc_mtx = 0, tc_dead = False\<rparr>, tcp_channel_id = 1,
        tcp_max_buffer = 0, tcp_malloc = \<lambda>_. True\<rparr>"
  have log: "tcp_log (\<lambda>c. snd (tc_crypto_conn c)) ?t = []"
    by (simp add: tcp_log_def read_frames.simps)
  have "tcp_ok (\<lambda>c. snd (tc_crypto_conn c)) (tls_good (example_tls 100) snd) 12 ?t"
    by (simp add: tcp_ok_def tls_good_def example_tls_accepts read_frames.simps)
  then show ?thesis
    using tls_stream_decodes
      [where out = snd and ops = "example_tls 100" and packets = "[[[1], [2, 3]], [[4]]]" and t = ?t and en = LittleEndian]
    by (simp add: log tcp_cost_def tcp_fits_def)
qed

text \<open>
  C20. Formatted writes go through a buffer of 1024 octets: a text of up to 1023 octets is written as it is,
  one of exactly 1024 octets goes out with a NUL in the place of its last octet, and a longer one makes the
  write read past the end of the buffer. The call returns the length of the text, or -1 when the connection is
  dead or dies of the write, and leaves the mutex as it found it.
\<close>

theorem tls_writef_cases:
  "TlsWriter_writef ops c s =
     (if tc_dead c then Some (-1, c)
      else if s = [] then Some (0, c)
      else if 1024 < length s then None
      else
        tls_write ops (tc_crypto_conn c) (if length s = 1024 then butlast s @ [CHR 0x00] else s) \<bind> (\<lambda>(ret, x).
        Some (if ret < 0 then -1 else int (length s), c\<lparr>tc_crypto_conn := x, tc_dead := ret < 0\<rparr>)))"
proof -
  have "take (length s) (tls_format_buf s) = s" if "length s < 1024"
    using that by (simp add: tls_format_buf_def)
  moreover have "take (length s) (tls_format_buf s) = butlast s @ [CHR 0x00]" if "length s = 1024"
    using that by (simp add: tls_format_buf_def butlast_conv_take)
  ultimately show ?thesis
    by (auto simp: TlsWriter_writef_def TlsWriter_vwritef_def pthread_mutex_lock_def pthread_mutex_unlock_def
        Let_def split: prod.split bind_split)
qed

end
