(* ===== verification/Parse_Prefix.thy ===== *)
theory Parse_Prefix
  imports Requests
begin

text \<open>
  What the request parser answers while a request is still arriving: the second half of the contract of
  the parsers. A parser that rejects a buffer does not accept it when more data has arrived behind it, with
  the one exception of a full header map. So every buffer that holds a proper part of a request is partial.
\<close>

section \<open>Rejection is final\<close>

lemma match_until_str_never_fails: "match_until_str_loop str input offset \<noteq> Compy_ParseResult_Failure e"
  by (induction str input offset rule: match_until_str_loop.induct) auto

lemma match_str_rejects:
  assumes "compy_match_str input str = Compy_ParseResult_Failure e"
  shows "compy_match_str (input @ ext) str \<noteq> Compy_ParseResult_complete n"
proof
  assume "compy_match_str (input @ ext) str = Compy_ParseResult_complete n"
  then obtain rest where "input @ ext = str @ rest" by (auto simp: compy_match_str_complete)
  then have "take (min (length input) (length str)) input = take (min (length input) (length str)) str"
    by (metis append_eq_append_conv_if min.commute take_all_iff take_take min_def order_refl nle_le)
  then show False using assms by (auto simp: compy_match_str_def Let_def min_def split: if_splits)
qed

lemma match_rejects:
  "Some (compy_match_until input m) = Some (Compy_ParseResult_Failure e) \<Longrightarrow>
     Some (compy_match_until (input @ ext) m) \<noteq> Some (Compy_ParseResult_complete n)"
  "Some (compy_match_until_crlf input) = Some (Compy_ParseResult_Failure e) \<Longrightarrow>
     Some (compy_match_until_crlf (input @ ext)) \<noteq> Some (Compy_ParseResult_complete n)"
  "Some (compy_match_str input str) = Some (Compy_ParseResult_Failure e) \<Longrightarrow>
     Some (compy_match_str (input @ ext) str) \<noteq> Some (Compy_ParseResult_complete n)"
  "compy_match_numeric input = Some (Compy_ParseResult_Failure e) \<Longrightarrow>
     compy_match_numeric (input @ ext) \<noteq> Some (Compy_ParseResult_complete n)"
  "compy_match_ident input = Some (Compy_ParseResult_Failure e) \<Longrightarrow>
     compy_match_ident (input @ ext) \<noteq> Some (Compy_ParseResult_complete n)"
  "compy_match_header_name input = Some (Compy_ParseResult_Failure e) \<Longrightarrow>
     compy_match_header_name (input @ ext) \<noteq> Some (Compy_ParseResult_complete n)"
  by (auto simp: match_str_rejects match_until_str_never_fails compy_match_until_crlf_def
      compy_match_until_str_def compy_match_numeric_def compy_match_ident_def compy_match_header_name_def
      split: list.splits if_splits)

lemma MATCH_failure:
  "MATCH r input self k = Some (Compy_ParseResult_Failure e, s) \<longleftrightarrow>
     r = Some (Compy_ParseResult_Failure e) \<and> s = self \<or>
     (\<exists>n. r = Some (Compy_ParseResult_complete n) \<and> k (drop n input) = Some (Compy_ParseResult_Failure e, s))"
  by (auto simp: MATCH_def split: option.splits Compy_ParseResult.splits Compy_ParseStatus.splits)

text \<open>One step of a parser that rejects, on the longer input.\<close>

lemma MATCH_reject:
  assumes "MATCH r input self k = Some (Compy_ParseResult_Failure e, s)"
    and "\<And>e n. r = Some (Compy_ParseResult_Failure e) \<Longrightarrow> r' \<noteq> Some (Compy_ParseResult_complete n)"
    and "\<And>n. r = Some (Compy_ParseResult_complete n) \<Longrightarrow>
        r' = Some (Compy_ParseResult_complete n) \<and> n \<le> length input"
    and "\<And>n. r = Some (Compy_ParseResult_complete n) \<Longrightarrow> n \<le> length input \<Longrightarrow>
        k (drop n input) = Some (Compy_ParseResult_Failure e, s) \<Longrightarrow>
        k' (drop n input @ ext) \<noteq> Some (Compy_ParseResult_complete off, s')"
  shows "MATCH r' (input @ ext) self k' \<noteq> Some (Compy_ParseResult_complete off, s')"
  using assms by (fastforce simp: MATCH_failure MATCH_complete)

locale rejecting_parser = incremental_parser +
  assumes reject: "p self input = Some (Compy_ParseResult_Failure e, s) \<Longrightarrow> no_cr_end ext \<Longrightarrow>
      p self (input @ ext) \<noteq> Some (Compy_ParseResult_complete off, s')"
begin

lemma MATCH_INTO_reject:
  assumes "MATCH_INTO (p a input) input assign k = Some (Compy_ParseResult_Failure e, s)"
    and "no_cr_end ext"
    and "\<And>n x. 0 < n \<Longrightarrow> n \<le> length input \<Longrightarrow>
        k (assign x) (drop n input) = Some (Compy_ParseResult_Failure e, s) \<Longrightarrow>
        k' (assign x) (drop n input @ ext) \<noteq> Some (Compy_ParseResult_complete off, s')"
  shows "MATCH_INTO (p a (input @ ext)) (input @ ext) assign k' \<noteq> Some (Compy_ParseResult_complete off, s')"
proof -
  from assms(1) obtain res x where px: "p a input = Some (res, x)" by (cases "p a input") (auto simp: MATCH_INTO_def)
  show ?thesis
  proof (cases "\<exists>n. res = Compy_ParseResult_complete n")
    case True
    then obtain n where n: "p a input = Some (Compy_ParseResult_complete n, x)" using px by auto
    have "k (assign x) (drop n input) = Some (Compy_ParseResult_Failure e, s)"
      using assms(1) by (simp add: n MATCH_INTO_def)
    from assms(3) [OF _ _ this] consumes [OF n] show ?thesis by (simp add: stable_drop [OF n assms(2)])
  next
    case False
    with assms(1) have "res = Compy_ParseResult_Failure e" by (auto simp: px MATCH_INTO_def MATCH_failure)
    with reject [of a input e x ext] px assms(2) show ?thesis by (auto simp: MATCH_INTO_complete)
  qed
qed

end

interpretation method_parser: rejecting_parser Compy_Method_parse
proof (unfold_locales, unfold part_defs match_defs, goal_cases)
  case (1 self input e s ext off s')
  from 1(1) show ?case
    by - (erule MATCH_reject, erule match_rejects, erule match_steps,
      ((erule MATCH_reject, erule match_rejects, erule match_steps)+; auto simp: Let_def split: option.splits))
qed

interpretation uri_parser: rejecting_parser Compy_RequestUri_parse
proof (unfold_locales, unfold part_defs match_defs, goal_cases)
  case (1 self input e s ext off s')
  from 1(1) show ?case
    by - (erule MATCH_reject, erule match_rejects, erule match_steps,
      ((erule MATCH_reject, erule match_rejects, erule match_steps)+; auto simp: Let_def split: option.splits))
qed

interpretation version_parser: rejecting_parser Compy_RtspVersion_parse
proof (unfold_locales, unfold part_defs match_defs, goal_cases)
  case (1 self input e s ext off s')
  from 1(1) show ?case
    by - (erule MATCH_reject, erule match_rejects, erule match_steps,
      ((erule MATCH_reject, erule match_rejects, erule match_steps)+; auto simp: Let_def split: option.splits))
qed

interpretation header_parser: rejecting_parser Compy_Header_parse
proof (unfold_locales, unfold part_defs match_defs, goal_cases)
  case (1 self input e s ext off s')
  from 1(1) show ?case
    by - (erule MATCH_reject, erule match_rejects, erule match_steps,
      ((erule MATCH_reject, erule match_rejects, erule match_steps)+; auto simp: Let_def split: option.splits))
qed

interpretation request_line_parser: rejecting_parser Compy_RequestLine_parse
proof (unfold_locales, unfold Compy_RequestLine_parse_def, goal_cases)
  case (1 self input e s ext off s')
  from 1(1) show ?case
    by - (erule method_parser.MATCH_INTO_reject [OF _ 1(2)], erule uri_parser.MATCH_INTO_reject [OF _ 1(2)],
      erule version_parser.MATCH_INTO_reject [OF _ 1(2)],
      erule MATCH_reject, erule match_rejects, erule match_steps, auto)
qed

text \<open>
  The header map is the exception: a full map rejects a buffer that ends before the last line end, which
  it accepts once that has arrived.
\<close>

lemma no_new_crlf:
  assumes "input \<noteq> []" "\<not> ends_with input [CHR 0x0D]" "\<not> starts_with input CRLF"
  shows "\<not> starts_with (input @ ext) CRLF"
  using assms by (cases input rule: rev_cases; cases input; cases "tl input")
    (auto simp: starts_with_def ends_with_single CRLF_def Cons_eq_append_conv split: if_splits)

lemma header_map_reject:
  assumes "header_map_parse_loop backup self input = Some (Compy_ParseResult_Failure e, s)" "no_cr_end ext"
    and "header_map_parse_loop backup' self (input @ ext) = Some (Compy_ParseResult_complete off, m)"
  shows "length m = COMPY_HEADER_MAP_CAPACITY"
  using assms(1,3)
proof (induction "length input" arbitrary: self input rule: less_induct)
  case less
  note accepted = iffD1 [OF header_map_parse_loop_complete less(3)]
  let ?h = "Compy_Header_parse \<lparr>hdr_key = [], hdr_value = []\<rparr> input"
  have open_map: "\<not> ends_with input [CHR 0x0D]" "\<not> starts_with input CRLF"
    using less(2) by (subst (asm) header_map_parse_loop.simps, simp split: if_splits)+
  show ?case
  proof (cases "Compy_HeaderMap_is_full self")
    case True
    with accepted show ?thesis by (auto simp: Compy_HeaderMap_is_full_def split: if_splits)
  next
    case False
    then have turn: "(\<exists>n h. ?h = Some (Compy_ParseResult_complete n, h) \<and>
          header_map_parse_loop backup (self @ [h]) (drop n input) = Some (Compy_ParseResult_Failure e, s)) \<or>
        (\<exists>h. ?h = Some (Compy_ParseResult_Failure e, h))"
      using less(2) open_map
      by (subst (asm) header_map_parse_loop.simps)
        (auto simp: Compy_HeaderMap_append_def
          split: option.splits prod.splits Compy_ParseResult.splits Compy_ParseStatus.splits)
    have "input \<noteq> []" using turn by (auto simp: Compy_Header_parse_def match_defs compy_match_until_eq)
    then have more: "\<not> starts_with (input @ ext) CRLF" using no_new_crlf open_map by blast
    with accepted obtain n' h' where h': "Compy_Header_parse \<lparr>hdr_key = [], hdr_value = []\<rparr> (input @ ext) =
        Some (Compy_ParseResult_complete n', h')"
      and rest: "header_map_parse_loop backup' (self @ [h']) (drop n' (input @ ext)) =
        Some (Compy_ParseResult_complete off, m)"
      by auto
    obtain n h where h: "?h = Some (Compy_ParseResult_complete n, h)"
      using turn header_parser.reject [OF _ assms(2), of _ input] h' by blast
    from header_parser.stable [OF h assms(2)] h' have "n' = n" "h' = h" by simp_all
    with rest turn header_parser.consumes [OF h] show ?thesis
      by (intro less(1) [of "drop n input" "self @ [h]"]) (auto simp: h)
  qed
qed

lemma MATCH_INTO_failure:
  "MATCH_INTO call input assign k = Some (Compy_ParseResult_Failure e, s) \<longleftrightarrow>
     (\<exists>x. call = Some (Compy_ParseResult_Failure e, x) \<and> s = assign x) \<or>
     (\<exists>n x. call = Some (Compy_ParseResult_complete n, x) \<and>
        k (assign x) (drop n input) = Some (Compy_ParseResult_Failure e, s))"
  by (auto simp: MATCH_INTO_def MATCH_failure split: option.splits)

lemma message_tail_reject:
  assumes "message_tail m body cseq backup input = (Compy_ParseResult_Failure e, body', cseq')"
  shows "fst (message_tail m body cseq backup' (input @ ext)) \<noteq> Compy_ParseResult_complete off"
  using assms
  by (auto simp: message_tail_def Compy_MessageBody_parse_def Let_def split: option.splits if_splits)

lemma request_reject:
  assumes "Compy_Request_parse en self input = Some (Compy_ParseResult_Failure e, s)" "no_cr_end ext"
    and "Compy_Request_parse en self (input @ ext) = Some (Compy_ParseResult_complete off, r)"
  shows "length (req_header_map r) = COMPY_HEADER_MAP_CAPACITY"
proof -
  obtain i where i: "skip_interleaved en input = Some (Some i)"
    using assms(1) by (auto simp: Compy_Request_parse_def split: option.splits)
  note parse = Compy_Request_parse_def i skip_interleaved_stable [OF i] option.case MATCH_INTO_complete MATCH_INTO_failure
  from assms(3) obtain n l n2 m where line': "Compy_RequestLine_parse (req_start_line self) (i @ ext) =
        Some (Compy_ParseResult_complete n, l)"
    and map': "Compy_HeaderMap_parse (req_header_map self) (drop n (i @ ext)) = Some (Compy_ParseResult_complete n2, m)"
    and r: "req_header_map r = m"
    and tail': "fst (message_tail m (req_body self) (req_cseq self) (input @ ext) (drop n2 (drop n (i @ ext)))) =
        Compy_ParseResult_complete off"
    unfolding parse by (auto simp: case_prod_beta)
  from request_line_parser.reject [OF _ assms(2), of "req_start_line self" i] line'
  have "Compy_RequestLine_parse (req_start_line self) i \<noteq> Some (Compy_ParseResult_Failure e', x)" for e' x by blast
  with assms(1) obtain n' l' where line: "Compy_RequestLine_parse (req_start_line self) i =
        Some (Compy_ParseResult_complete n', l')"
    and rest: "(\<exists>x. Compy_HeaderMap_parse (req_header_map self) (drop n' i) = Some (Compy_ParseResult_Failure e, x)) \<or>
      (\<exists>n2 m. Compy_HeaderMap_parse (req_header_map self) (drop n' i) = Some (Compy_ParseResult_complete n2, m) \<and>
        fst (message_tail m (req_body self) (req_cseq self) input (drop n2 (drop n' i))) = Compy_ParseResult_Failure e)"
    unfolding parse by (auto simp: case_prod_beta)
  from request_line_parser.stable_drop [OF line assms(2)] line'
  have n: "n' = n" "drop n (i @ ext) = drop n i @ ext" by simp_all
  show ?thesis
    using rest
  proof (elim disjE exE conjE, goal_cases)
    case (1 x)
    from 1 map' show ?thesis
      unfolding n r Compy_HeaderMap_parse_def by (rule header_map_reject [OF _ assms(2)])
  next
    case (2 n3 m3)
    note more = header_map_parser.stable_drop [OF 2(1) assms(2), unfolded n(1)]
    with map' [unfolded n(2)] have same: "n2 = n3" "m = m3" by simp_all
    from tail' have "fst (message_tail m3 (req_body self) (req_cseq self) (input @ ext) (drop n3 (drop n i) @ ext)) =
        Compy_ParseResult_complete off"
      unfolding n(2) same more(2) .
    with 2(2) message_tail_reject show ?thesis by (metis n(1) prod.collapse)
  qed
qed

section \<open>A request that is still arriving\<close>

lemma request_line_fault:
  assumes "Compy_Request_parse en self input = None"
  shows "ends_with input ''RTSP/''"
proof -
  have "\<exists>line. skip_interleaved en input = Some (Some line) \<and> Compy_RequestLine_parse (req_start_line self) line = None"
    using assms by (auto simp: Compy_Request_parse_def MATCH_INTO_fault fault_simps skip_interleaved_no_fault case_prod_beta
        split: option.splits)
  then obtain line n sp where line: "skip_interleaved en input = Some (Some line)" "drop n line = sp @ ''RTSP/''"
    by (auto simp: Compy_RequestLine_parse_def fault_simps version_parse_fault add.commute)
  from skip_interleaved_is_drop [OF line(1)] obtain k where "line = drop k input" ..
  with line(2) have "drop (n + k) input = sp @ ''RTSP/''" by simp
  then obtain pre where "input = pre @ ''RTSP/''" by (metis append_assoc append_take_drop_id)
  then show ?thesis by (simp add: ends_with_def)
qed

text \<open>
  A request whose headers do not fill the map, and the pieces in which it may arrive: none of them ends right
  behind \<open>RTSP/\<close>, where the parser reads past the end of the buffer.
\<close>

definition arriving :: "Compy_Request \<Rightarrow> bool" where
  "arriving r \<longleftrightarrow> wf_request r \<and> no_cr_end (req_body r) \<and>
     length (wire_headers (req_cseq r) (req_body r) (req_header_map r)) < COMPY_HEADER_MAP_CAPACITY"

definition received :: "Compy_Request \<Rightarrow> Compy_Request" where
  "received r = r\<lparr>req_header_map := wire_headers (req_cseq r) (req_body r) (req_header_map r)\<rparr>"

lemma arriving_complete:
  "arriving r \<Longrightarrow> Compy_Request_parse en self (request_text r) =
     Some (Compy_ParseResult_complete (length (request_text r)), received r)"
  using request_parse_text [of r "[]" en self] by (simp add: arriving_def received_def)

lemma request_text_cr_end:
  assumes "no_cr_end (req_body r)" "request_text r = pre @ rest"
  shows "no_cr_end rest"
proof (cases "rest = []")
  case False
  have ends: "last (headers_text m) = CHR 0x0A" "headers_text m \<noteq> []" for m
    by (simp_all add: headers_text_def CRLF_def)
  have "last (request_text r) \<noteq> CHR 0x0D"
    using assms(1) ends by (cases "req_body r = []") (auto simp: request_text_def no_cr_end_def ends_with_single)
  with False assms(2) show ?thesis by (simp add: no_cr_end_def ends_with_single)
qed (simp add: no_cr_end_def ends_with_def)

lemma arriving_partial:
  assumes "arriving r" "request_text r = pre @ rest" "rest \<noteq> []" "\<not> ends_with pre ''RTSP/''"
  shows "\<exists>s. Compy_Request_parse en self pre = Some (Compy_ParseResult_partial, s)"
proof -
  have cr: "no_cr_end rest" using request_text_cr_end assms(1,2) by (auto simp: arriving_def)
  have whole: "Compy_Request_parse en self (pre @ rest) =
      Some (Compy_ParseResult_complete (length pre + length rest), received r)"
    using arriving_complete [OF assms(1), of en self] assms(2) by simp
  obtain res s where res: "Compy_Request_parse en self pre = Some (res, s)"
    using request_line_fault [of en self pre] assms(4) by (cases "Compy_Request_parse en self pre") auto
  have "res \<noteq> Compy_ParseResult_complete off" for off
    using request_parser.consumes [of en self pre off s] request_parser.stable [OF _ cr, of en self pre off s]
      res whole assms(3) by auto
  moreover have "res \<noteq> Compy_ParseResult_Failure e" for e
    using request_reject [OF _ cr whole] res assms(1) by (auto simp: received_def arriving_def)
  ultimately have "res = Compy_ParseResult_partial"
    by (metis Compy_ParseResult.exhaust Compy_ParseStatus.exhaust)
  with res show ?thesis by simp
qed

end
