(* ===== verification/Libevent.thy ===== *)
theory Libevent
  imports Parse_Prefix Controller
begin

text \<open>
  The receive loop of the example server, \<open>examples/compy-libevent.c\<close>: octets from the socket are collected in
  a buffer of 4096 octets, parsed, and dispatched to the controller. What libevent has received when it calls back
  is the argument \<open>input\<close>; \<open>w\<close> is the state of the writer over the same connection, whatever the writer is.
\<close>

section \<open>The writer over a bufferevent\<close>

text \<open>
  The output buffer and the number of times the bufferevent is locked. \<open>add_ok\<close> says whether libevent can add the
  octets to the buffer. The formatted write copies from a buffer of 1024 octets as many octets as the whole text has,
  \<open>None\<close> when that is more; it does not look at the result of \<open>bufferevent_write\<close>.
\<close>

record BevWriter =
  bev_output :: string
  bev_locks :: nat

definition bufferevent_write :: "(string \<Rightarrow> bool) \<Rightarrow> BevWriter \<Rightarrow> string \<Rightarrow> int \<times> BevWriter" where
  "bufferevent_write add_ok self data =
     (if add_ok data then (0, self\<lparr>bev_output := bev_output self @ data\<rparr>) else (-1, self))"

definition BevWriter_write :: "(string \<Rightarrow> bool) \<Rightarrow> BevWriter \<Rightarrow> string \<Rightarrow> (int \<times> BevWriter) option" where
  "BevWriter_write add_ok self data =
     (case bufferevent_write add_ok self data of
        (ret, self) \<Rightarrow> if ret = -1 then Some (-1, self) else Some (int (length data), self))"

definition BevWriter_lock :: "BevWriter \<Rightarrow> BevWriter" where
  "BevWriter_lock self = self\<lparr>bev_locks := bev_locks self + 1\<rparr>"

definition BevWriter_unlock :: "BevWriter \<Rightarrow> BevWriter" where
  "BevWriter_unlock self = self\<lparr>bev_locks := bev_locks self - 1\<rparr>"

definition BevWriter_filled :: "BevWriter \<Rightarrow> nat" where
  "BevWriter_filled self = length (bev_output self)"

definition BevWriter_vwritef :: "(string \<Rightarrow> bool) \<Rightarrow> BevWriter \<Rightarrow> string \<Rightarrow> (int \<times> BevWriter) option" where
  "BevWriter_vwritef add_ok self formatted =
     (let tmp = take 1023 formatted @ [CHR 0x00];
          n = length formatted
      in if n > 0 then
           if n > 1024 then None else Some (int n, snd (bufferevent_write add_ok self (take n tmp)))
         else Some (int n, self))"

definition BevWriter_writef :: "(string \<Rightarrow> bool) \<Rightarrow> BevWriter \<Rightarrow> string \<Rightarrow> (int \<times> BevWriter) option" where
  "BevWriter_writef add_ok self formatted = BevWriter_vwritef add_ok self formatted"

definition compy_bev_writer :: "(string \<Rightarrow> bool) \<Rightarrow> BevWriter Compy_Writer" where
  "compy_bev_writer add_ok =
     \<lparr>w_write = BevWriter_write add_ok, w_lock = BevWriter_lock, w_unlock = BevWriter_unlock,
      w_filled = BevWriter_filled, w_writef = BevWriter_writef add_ok, w_vwritef = BevWriter_vwritef add_ok\<rparr>"

lemmas bev_defs =
  compy_bev_writer_def BevWriter_write_def BevWriter_lock_def BevWriter_unlock_def BevWriter_writef_def
  BevWriter_vwritef_def bufferevent_write_def

text \<open>As long as libevent can add to the buffer, short texts and octets of any number are written.\<close>

interpretation bev_writer: reliable_writer "compy_bev_writer (\<lambda>_. True)" bev_output "\<lambda>d. length d < 1024"
  by unfold_locales (auto simp: emits_def bev_defs Let_def)

interpretation bev_binary_writer: binary_writer "compy_bev_writer (\<lambda>_. True)" bev_output "\<lambda>_ _. True"
  by unfold_locales (simp add: bev_defs)

section \<open>The receive loop\<close>

definition PARSE_BUF_SIZE :: nat where "PARSE_BUF_SIZE = 4096"

text \<open>The controller's state and the used part of the buffer; the virtual table is the argument \<open>controller\<close>.\<close>

record 'c LibeventCtx =
  lc_controller :: 'c
  lc_buf :: string

definition compy_libevent_ctx :: "'c \<Rightarrow> 'c LibeventCtx" where
  "compy_libevent_ctx controller = \<lparr>lc_controller = controller, lc_buf = []\<rparr>"

text \<open>The start of a turn: as much of the input as the buffer has space for; a full buffer is discarded.\<close>

definition libevent_fill :: "'c LibeventCtx \<Rightarrow> string \<Rightarrow> 'c LibeventCtx \<times> string" where
  "libevent_fill ctx input =
     (let ctx = (if PARSE_BUF_SIZE - length (lc_buf ctx) = 0 then ctx\<lparr>lc_buf := []\<rparr> else ctx);
          space = PARSE_BUF_SIZE - length (lc_buf ctx);
          to_read = (if length input < space then length input else space)
      in (ctx\<lparr>lc_buf := lc_buf ctx @ take to_read input\<rparr>, drop to_read input))"

text \<open>The rest of the buffer behind a request.\<close>

definition libevent_shift :: "'c LibeventCtx \<Rightarrow> nat \<Rightarrow> 'c LibeventCtx" where
  "libevent_shift ctx consumed =
     (if consumed > 0 \<and> consumed < length (lc_buf ctx) then ctx\<lparr>lc_buf := drop consumed (lc_buf ctx)\<rparr>
      else ctx\<lparr>lc_buf := []\<rparr>)"

lemma libevent_fill_shorter: "input \<noteq> [] \<Longrightarrow> length (snd (libevent_fill ctx input)) < length input"
  by (auto simp: libevent_fill_def Let_def PARSE_BUF_SIZE_def)

function libevent_loop ::
  "endian \<Rightarrow> ('c, 'w) Compy_Controller \<Rightarrow> 'c LibeventCtx \<Rightarrow> 'w \<Rightarrow> string \<Rightarrow> ('c LibeventCtx \<times> 'w) option" where
  "libevent_loop en controller ctx w input =
     (if length input = 0 then Some (ctx, w)
      else
        (case libevent_fill ctx input of
           (ctx, input) \<Rightarrow>
             (case Compy_Request_parse en Compy_Request_uninit (lc_buf ctx) of
                None \<Rightarrow> None
              | Some (Compy_ParseResult_Success (Compy_ParseStatus_Complete consumed), req) \<Rightarrow>
                  compy_dispatch controller (lc_controller ctx) w req \<bind> (\<lambda>(self, w).
                  libevent_loop en controller (libevent_shift (ctx\<lparr>lc_controller := self\<rparr>) consumed) w input)
              | Some (Compy_ParseResult_Failure _, _) \<Rightarrow> libevent_loop en controller (ctx\<lparr>lc_buf := []\<rparr>) w input
              | Some (Compy_ParseResult_Success Compy_ParseStatus_Partial, _) \<Rightarrow>
                  libevent_loop en controller ctx w input)))"
  by pat_completeness auto
termination
  by (relation "measure (\<lambda>(_, _, _, _, input). length input)")
    (simp_all, (metis length_greater_0_conv libevent_fill_shorter snd_conv)+)

declare libevent_loop.simps [simp del]

definition compy_libevent_cb ::
  "endian \<Rightarrow> ('c, 'w) Compy_Controller \<Rightarrow> 'c LibeventCtx \<Rightarrow> 'w \<Rightarrow> string \<Rightarrow> ('c LibeventCtx \<times> 'w) option" where
  "compy_libevent_cb en controller ctx w input = libevent_loop en controller ctx w input"

text \<open>The callbacks of a connection, one for each piece that arrives.\<close>

fun libevent_run ::
  "endian \<Rightarrow> ('c, 'w) Compy_Controller \<Rightarrow> 'c LibeventCtx \<Rightarrow> 'w \<Rightarrow> string list \<Rightarrow> ('c LibeventCtx \<times> 'w) option" where
  "libevent_run en controller ctx w [] = Some (ctx, w)"
| "libevent_run en controller ctx w (piece # pieces) =
     compy_libevent_cb en controller ctx w piece \<bind> (\<lambda>(ctx, w). libevent_run en controller ctx w pieces)"

section \<open>One request\<close>

text \<open>What the connection should do: the requests are dispatched one after the other.\<close>

fun dispatch_all :: "('c, 'w) Compy_Controller \<Rightarrow> 'c \<Rightarrow> 'w \<Rightarrow> Compy_Request list \<Rightarrow> ('c \<times> 'w) option" where
  "dispatch_all controller self w [] = Some (self, w)"
| "dispatch_all controller self w (r # rs) =
     compy_dispatch controller self w r \<bind> (\<lambda>(self, w). dispatch_all controller self w rs)"

definition fits :: "Compy_Request \<Rightarrow> bool" where
  "fits r \<longleftrightarrow> arriving r \<and> length (request_text r) \<le> PARSE_BUF_SIZE"

text \<open>
  Pieces that follow \<open>pre\<close> in the buffer: none is empty, and none but the last ends right behind
  \<open>RTSP/\<close>.
\<close>

fun good_cuts :: "string \<Rightarrow> string list \<Rightarrow> bool" where
  "good_cuts pre [] \<longleftrightarrow> True"
| "good_cuts pre (piece # pieces) \<longleftrightarrow>
     piece \<noteq> [] \<and> (pieces \<noteq> [] \<longrightarrow> \<not> ends_with (pre @ piece) ''RTSP/'') \<and> good_cuts (pre @ piece) pieces"

lemma libevent_read:
  assumes "piece \<noteq> []" "length (lc_buf ctx @ piece) \<le> PARSE_BUF_SIZE"
  shows "compy_libevent_cb en controller ctx w piece =
     (let ctx = ctx\<lparr>lc_buf := lc_buf ctx @ piece\<rparr>
      in case Compy_Request_parse en Compy_Request_uninit (lc_buf ctx) of
           None \<Rightarrow> None
         | Some (Compy_ParseResult_Success (Compy_ParseStatus_Complete consumed), req) \<Rightarrow>
             compy_dispatch controller (lc_controller ctx) w req \<bind> (\<lambda>(self, w).
             Some (libevent_shift (ctx\<lparr>lc_controller := self\<rparr>) consumed, w))
         | Some (Compy_ParseResult_Failure _, _) \<Rightarrow> Some (ctx\<lparr>lc_buf := []\<rparr>, w)
         | Some (Compy_ParseResult_Success Compy_ParseStatus_Partial, _) \<Rightarrow> Some (ctx, w))"
proof -
  have "length (lc_buf ctx) < PARSE_BUF_SIZE" using assms by (cases piece) auto
  with assms have "libevent_fill ctx piece = (ctx\<lparr>lc_buf := lc_buf ctx @ piece\<rparr>, [])"
    by (auto simp: libevent_fill_def Let_def)
  moreover have "libevent_loop en controller ctx w [] = Some (ctx, w)" for ctx w
    by (simp add: libevent_loop.simps)
  ultimately show ?thesis
    unfolding compy_libevent_cb_def using assms(1)
    by (subst libevent_loop.simps)
      (auto simp: Let_def split: option.split Compy_ParseResult.split Compy_ParseStatus.split)
qed

lemma libevent_partial:
  assumes "fits r" "request_text r = lc_buf ctx @ piece @ rest" "piece \<noteq> []" "rest \<noteq> []"
    and "\<not> ends_with (lc_buf ctx @ piece) ''RTSP/''"
  shows "compy_libevent_cb en controller ctx w piece = Some (ctx\<lparr>lc_buf := lc_buf ctx @ piece\<rparr>, w)"
proof -
  have "length (lc_buf ctx @ piece) \<le> PARSE_BUF_SIZE" using assms(1,2) by (simp add: fits_def)
  moreover obtain s where "Compy_Request_parse en Compy_Request_uninit (lc_buf ctx @ piece) =
      Some (Compy_ParseResult_partial, s)"
    using arriving_partial [of r "lc_buf ctx @ piece" rest en Compy_Request_uninit] assms by (auto simp: fits_def)
  ultimately show ?thesis by (simp add: libevent_read [OF assms(3)])
qed

lemma libevent_complete:
  assumes "fits r" "request_text r = lc_buf ctx @ piece" "piece \<noteq> []"
  shows "compy_libevent_cb en controller ctx w piece =
     compy_dispatch controller (lc_controller ctx) w (received r) \<bind> (\<lambda>(self, w).
     Some (compy_libevent_ctx self, w))"
proof -
  have "length (lc_buf ctx @ piece) \<le> PARSE_BUF_SIZE" using assms(1,2) by (simp add: fits_def)
  moreover have "Compy_Request_parse en Compy_Request_uninit (lc_buf ctx @ piece) =
      Some (Compy_ParseResult_complete (length (lc_buf ctx @ piece)), received r)"
    using arriving_complete [of r en Compy_Request_uninit] assms by (auto simp: fits_def)
  ultimately show ?thesis
    by (cases ctx) (simp add: libevent_read [OF assms(3)] libevent_shift_def compy_libevent_ctx_def)
qed

lemma libevent_request:
  assumes "fits r" "request_text r = lc_buf ctx @ concat pieces" "pieces \<noteq> []" "good_cuts (lc_buf ctx) pieces"
  shows "libevent_run en controller ctx w pieces =
     compy_dispatch controller (lc_controller ctx) w (received r) \<bind> (\<lambda>(self, w).
     Some (compy_libevent_ctx self, w))"
  using assms(2-4)
proof (induction pieces arbitrary: ctx)
  case (Cons piece pieces)
  show ?case
  proof (cases "pieces = []")
    case True
    with Cons.prems libevent_complete [OF assms(1), of ctx piece en controller w] show ?thesis
      by (auto split: bind_splits)
  next
    case False
    have nonempty: "good_cuts pre ps \<Longrightarrow> ps \<noteq> [] \<Longrightarrow> concat ps \<noteq> []" for pre ps
      by (cases ps) auto
    have "compy_libevent_cb en controller ctx w piece = Some (ctx\<lparr>lc_buf := lc_buf ctx @ piece\<rparr>, w)"
      using Cons.prems False nonempty by (intro libevent_partial [OF assms(1), of _ _ "concat pieces"]) auto
    with Cons.IH [of "ctx\<lparr>lc_buf := lc_buf ctx @ piece\<rparr>"] Cons.prems False show ?thesis by simp
  qed
qed simp

lemma libevent_run_append:
  "libevent_run en controller ctx w (ps @ qs) =
     libevent_run en controller ctx w ps \<bind> (\<lambda>(ctx, w). libevent_run en controller ctx w qs)"
  by (induction ps arbitrary: ctx w) (auto split: bind_splits)

section \<open>Properties\<close>

text \<open>A controller for the examples, which counts the requests, and a request that fits.\<close>

definition counting_controller :: "(nat, string) Compy_Controller" where
  "counting_controller =
     (let count = (\<lambda>self ctx req. Some (self + 1, ctx))
      in \<lparr>con_options = count, con_describe = count, con_setup = count, con_play = count, con_pause_method = count,
          con_teardown = count, con_get_parameter = count, con_unknown = count,
          con_before = (\<lambda>self ctx req. Some (Compy_ControlFlow_Continue, self, ctx)),
          con_after = (\<lambda>self ret ctx req. Some (self, ctx))\<rparr>)"

lemma counting_dispatch: "compy_dispatch counting_controller self w req = Some (self + 1, w)"
  by (simp add: compy_dispatch_def counting_controller_def dispatch_method_def Let_def Compy_Context_new_def)

lemma sample_request_fits: "fits sample_request" "length (request_text sample_request) \<le> 1000"
  "4 < length (request_text sample_request)"
  using sample_request_wf
  by (simp_all add: fits_def arriving_def sample_request_def request_text_def request_line_text_def version_text_def
      headers_text_def header_text_def wire_headers_def Compy_HeaderMap_contains_key_def no_cr_end_def ends_with_def
      COMPY_HEADER_MAP_CAPACITY_def COMPY_HEADER_C_SEQ_def COMPY_HEADER_CONTENT_LENGTH_def
      COMPY_METHOD_GET_PARAMETER_def PARSE_BUF_SIZE_def CRLF_def show_nat.simps)

text \<open>
  C13. A client that waits for each answer is served when no read ends right behind \<open>RTSP/\<close>: requests that
  fit the buffer, each cut into any pieces that do not end right behind \<open>RTSP/\<close>, are dispatched to the
  controller one after the other, each exactly once and as the client wrote it, and between the requests the
  buffer is empty.
\<close>

theorem libevent_serves:
  assumes "list_all (\<lambda>(r, pieces). fits r \<and> concat pieces = request_text r \<and> good_cuts [] pieces) traffic"
  shows "libevent_run en controller (compy_libevent_ctx self) w (concat (map snd traffic)) =
     dispatch_all controller self w (map (\<lambda>(r, _). received r) traffic) \<bind> (\<lambda>(self, w).
     Some (compy_libevent_ctx self, w))"
  using assms
proof (induction traffic arbitrary: self w)
  case (Cons rp traffic)
  obtain r pieces where rp: "rp = (r, pieces)" by force
  have "request_text r \<noteq> []" using Cons.prems
    by (auto simp: rp fits_def arriving_def wf_request_def wf_method_def request_text_def request_line_text_def)
  then have "pieces \<noteq> []" using Cons.prems by (auto simp: rp)
  then have "libevent_run en controller (compy_libevent_ctx self) w pieces =
      compy_dispatch controller self w (received r) \<bind> (\<lambda>(self, w). Some (compy_libevent_ctx self, w))"
    using libevent_request [of r "compy_libevent_ctx self" pieces en controller w] Cons.prems
    by (auto simp: rp compy_libevent_ctx_def)
  with Cons show ?case by (auto simp: rp libevent_run_append split: bind_splits)
qed simp

theorem libevent_serves_witness:
  "libevent_run LittleEndian counting_controller (compy_libevent_ctx 0) []
       [take 4 (request_text sample_request), drop 4 (request_text sample_request), request_text sample_request] =
     Some (compy_libevent_ctx 2, [])"
  using libevent_serves [of "[(sample_request, [take 4 (request_text sample_request), drop 4 (request_text sample_request)]),
      (sample_request, [request_text sample_request])]" LittleEndian counting_controller 0 "[]"]
    sample_request_fits
  by (cases "request_text sample_request = []") (simp_all add: counting_dispatch ends_with_def numeral_2_eq_2)

text \<open>
  A client that does not wait is not served: of two requests that arrive together only the first is
  dispatched; the second is complete in the buffer, and stays there until something else arrives.
\<close>

theorem libevent_pipelined_stall:
  assumes "arriving r1" "arriving r2" "length (request_text r1 @ request_text r2) \<le> PARSE_BUF_SIZE"
  shows "compy_libevent_cb en controller (compy_libevent_ctx self) w (request_text r1 @ request_text r2) =
       compy_dispatch controller self w (received r1) \<bind> (\<lambda>(self, w).
       Some (\<lparr>lc_controller = self, lc_buf = request_text r2\<rparr>, w)) \<and>
     Compy_Request_parse en Compy_Request_uninit (request_text r2) =
       Some (Compy_ParseResult_complete (length (request_text r2)), received r2)"
proof -
  have texts: "request_text r1 \<noteq> []" "request_text r2 \<noteq> []" using assms
    by (auto simp: arriving_def wf_request_def wf_method_def request_text_def request_line_text_def)
  have "no_cr_end (request_text r2)" using request_text_cr_end [of r2 "[]"] assms(2) by (simp add: arriving_def)
  then have "no_cr_end (req_body r1 @ request_text r2)" using texts by (simp add: no_cr_end_def ends_with_single)
  then have "Compy_Request_parse en Compy_Request_uninit (request_text r1 @ request_text r2) =
      Some (Compy_ParseResult_complete (length (request_text r1)), received r1)"
    using request_parse_text [of r1 "request_text r2"] assms(1) by (simp add: arriving_def received_def)
  then show ?thesis
    using libevent_read [of "request_text r1 @ request_text r2" "compy_libevent_ctx self" en controller w] texts assms
      arriving_complete [OF assms(2)]
    by (auto simp: compy_libevent_ctx_def libevent_shift_def)
qed

theorem libevent_pipelined_stall_witness:
  "compy_libevent_cb LittleEndian counting_controller (compy_libevent_ctx 0) []
       (request_text sample_request @ request_text sample_request) =
     Some (\<lparr>lc_controller = 1, lc_buf = request_text sample_request\<rparr>, [])"
  using libevent_pipelined_stall [of sample_request sample_request LittleEndian counting_controller 0 "[]"]
    sample_request_fits
  by (simp add: counting_dispatch fits_def PARSE_BUF_SIZE_def)

text \<open>
  C26. The buffer is never overrun: whatever arrives, after a callback the used part of the buffer is
  within its 4096 octets if it was before.
\<close>

theorem libevent_buffer_bound:
  assumes "compy_libevent_cb en controller ctx w input = Some (ctx', w')"
    and "length (lc_buf ctx) \<le> PARSE_BUF_SIZE"
  shows "length (lc_buf ctx') \<le> PARSE_BUF_SIZE"
  using assms unfolding compy_libevent_cb_def
proof (induction "length input" arbitrary: ctx w input rule: less_induct)
  case less
  show ?case
  proof (cases "input = []")
    case True
    with less.prems show ?thesis by (simp add: libevent_loop.simps)
  next
    case False
    let ?ctx = "fst (libevent_fill ctx input)" and ?input = "snd (libevent_fill ctx input)"
    have fill: "length (lc_buf ?ctx) \<le> PARSE_BUF_SIZE"
      using less.prems(2) by (auto simp: libevent_fill_def Let_def)
    note shorter = libevent_fill_shorter [OF False, of ctx]
    have shift: "length (lc_buf (libevent_shift c n)) \<le> length (lc_buf c)" for c :: "'a LibeventCtx" and n
      by (simp add: libevent_shift_def)
    from less.prems(1) [unfolded libevent_loop.simps [of en controller ctx w input]] False obtain c v where "libevent_loop en controller c v ?input = Some (ctx', w')"
      and "length (lc_buf c) \<le> length (lc_buf ?ctx)"
      by (auto simp: case_prod_beta dest: that [OF _ shift [THEN order_trans]]
          split: option.splits Compy_ParseResult.splits Compy_ParseStatus.splits bind_splits)
    with fill less.hyps [OF shorter] show ?thesis by force
  qed
qed

theorem libevent_buffer_bound_witness:
  "length (lc_buf \<lparr>lc_controller = 0 :: nat, lc_buf = take 4 (request_text sample_request)\<rparr>) \<le> PARSE_BUF_SIZE"
proof (rule libevent_buffer_bound [where ctx = "compy_libevent_ctx 0" and w = "[]" and en = LittleEndian
      and controller = counting_controller and input = "take 4 (request_text sample_request)"])
  show "compy_libevent_cb LittleEndian counting_controller (compy_libevent_ctx 0) [] (take 4 (request_text sample_request)) =
      Some (\<lparr>lc_controller = 0, lc_buf = take 4 (request_text sample_request)\<rparr>, [])"
    using libevent_partial [OF sample_request_fits(1), of "compy_libevent_ctx 0" "take 4 (request_text sample_request)"
        "drop 4 (request_text sample_request)" LittleEndian counting_controller "[]"] sample_request_fits(3)
    by (cases "request_text sample_request = []") (auto simp: compy_libevent_ctx_def ends_with_def)
qed (simp add: compy_libevent_ctx_def)

end
