(* ===== verification/Server_Media.thy ===== *)
theory Server_Media
  imports Nal_Transport
begin

text \<open>
  The media side of the example server, \<open>examples/server.c\<close>: the index of the NAL units of the video file, and
  the two timer callbacks that send the audio and the video. A file is the list of its octets, a pointer into it
  an offset. A timer is pending or not; \<open>clock\<close> gives the monotonic clock at the sending of the unit with that
  index. \<open>None\<close> is an access outside the file, a division by zero or a failed \<open>assert\<close>.
\<close>

section \<open>The index of the video\<close>

record NalEntry =
  ne_data :: nat
  ne_len :: nat
  ne_nal_type :: u8

text \<open>The first pass; \<open>scan\<close> is the rest of the file.\<close>

function count_nals :: "(u8 list \<Rightarrow> nat) \<Rightarrow> u8 list \<Rightarrow> nat" where
  "count_nals tester scan =
     (if scan = [] then 0
      else if tester scan > 0 then 1 + count_nals tester (drop (tester scan) scan)
      else count_nals tester (drop 1 scan))"
  by pat_completeness auto
termination by (relation "measure (\<lambda>(_, scan). length scan)") auto

declare count_nals.simps [simp del]

text \<open>\<open>g_nal_table[idx - 1].len = end - prev_nal\<close>, where \<open>prev_nal\<close> is the unit entered last.\<close>

definition close_entry :: "NalEntry list \<Rightarrow> nat \<Rightarrow> NalEntry list" where
  "close_entry table end_offset =
     (if table = [] then table
      else butlast table @ [(last table)\<lparr>ne_len := end_offset - ne_data (last table)\<rparr>])"

text \<open>
  The second pass: the entries made so far, and the type read from the octet behind the start code, \<open>None\<close> when
  the file ends there. An entry is written only while the table that was allocated after the first pass has room.
\<close>

function index_nals ::
  "(u8 list \<Rightarrow> nat) \<Rightarrow> nat \<Rightarrow> nat \<Rightarrow> u8 list \<Rightarrow> NalEntry list \<Rightarrow> NalEntry list option" where
  "index_nals tester len count scan table =
     (if scan = [] then Some table
      else if tester scan > 0 then
        let table = close_entry table (len - length scan);
            scan' = drop (tester scan) scan
        in if scan' = [] \<or> count \<le> length table then None
           else index_nals tester len count scan'
                  (table @ [\<lparr>ne_data = len - length scan', ne_len = 0, ne_nal_type = hd scan' AND 0x1F\<rparr>])
      else index_nals tester len count (drop 1 scan) table)"
  by pat_completeness auto
termination by (relation "measure (\<lambda>(_, _, _, scan, _). length scan)") auto

declare index_nals.simps [simp del]

fun first_sps :: "NalEntry list \<Rightarrow> nat \<Rightarrow> nat option" where
  "first_sps [] i = None"
| "first_sps (e # table) i = (if ne_nal_type e = COMPY_H264_NAL_UNIT_SPS then Some i else first_sps table (i + 1))"

text \<open>The table and the index of the first unit to send.\<close>

definition build_nal_index :: "u8 list \<Rightarrow> (NalEntry list \<times> nat) option" where
  "build_nal_index media_video =
     (if media_video = [] then Some ([], 0)
      else
        (case compy_determine_start_code media_video of
           None \<Rightarrow> Some ([], 0)
         | Some tester \<Rightarrow>
             (let count = count_nals tester media_video
              in case index_nals tester (length media_video) count media_video [] of
                   None \<Rightarrow> None
                 | Some table \<Rightarrow>
                     let table = close_entry table (length media_video)
                     in Some (table, case first_sps table 0 of None \<Rightarrow> 0 | Some i \<Rightarrow> i))))"

section \<open>Sending\<close>

definition AUDIO_SAMPLES_PER_PACKET :: nat where "AUDIO_SAMPLES_PER_PACKET = 160"
definition VIDEO_SAMPLE_RATE_int :: int where "VIDEO_SAMPLE_RATE_int = 90000"
definition COMPY_H264_NAL_UNIT_AUD :: u8 where "COMPY_H264_NAL_UNIT_AUD = 9"

text \<open>The counter \<open>streams_playing\<close> is that of the client, shared by its streams.\<close>

record 't AudioCtx =
  ac_transport :: "'t Compy_RtpTransport"
  ac_i :: nat
  ac_ev :: bool
  ac_streams_playing :: int

definition play_audio :: "'t Compy_RtpTransport \<Rightarrow> int \<Rightarrow> 't AudioCtx" where
  "play_audio t streams_playing =
     \<lparr>ac_transport = t, ac_i = 0, ac_ev = True, ac_streams_playing = streams_playing + 1\<rparr>"

definition send_audio_packet_cb ::
  "endian \<Rightarrow> 't Compy_Transport \<Rightarrow> (nat \<Rightarrow> u64 \<times> u64) \<Rightarrow> u8 list \<Rightarrow> 't AudioCtx \<Rightarrow> 't AudioCtx option" where
  "send_audio_packet_cb en T clock media_audio ctx =
     (let offset = ac_i ctx * AUDIO_SAMPLES_PER_PACKET
      in if length media_audio \<le> offset
         then Some (ctx\<lparr>ac_ev := False, ac_streams_playing := ac_streams_playing ctx - 1\<rparr>)
         else
           let samples_count =
                 (if length media_audio < offset + AUDIO_SAMPLES_PER_PACKET
                  then length media_audio mod AUDIO_SAMPLES_PER_PACKET else AUDIO_SAMPLES_PER_PACKET)
           in if length media_audio < offset + samples_count then None
              else
                (case Compy_RtpTransport_send_packet en T (clock (ac_i ctx)) (ac_transport ctx)
                        (Compy_RtpTimestamp_Raw (word_of_nat offset)) False []
                        (take samples_count (drop offset media_audio)) of
                   None \<Rightarrow> None
                 | Some (_, t) \<Rightarrow> Some (ctx\<lparr>ac_transport := t, ac_i := ac_i ctx + 1\<rparr>)))"

record 't VideoCtx =
  vc_transport :: "'t Compy_NalTransport"
  vc_timestamp :: u32
  vc_nal_idx :: nat
  vc_ev :: bool
  vc_streams_playing :: int

definition play_video :: "nat \<Rightarrow> 't Compy_RtpTransport \<Rightarrow> int \<Rightarrow> 't VideoCtx" where
  "play_video nal_start_idx t streams_playing =
     \<lparr>vc_transport = Compy_NalTransport_new t, vc_timestamp = 0, vc_nal_idx = nal_start_idx, vc_ev = True,
      vc_streams_playing = streams_playing + 1\<rparr>"

text \<open>
  The unit of an entry; \<open>nal->len - 1\<close> wraps around for an empty one, whose payload then reaches past the end
  of the file.
\<close>

definition nalu_of :: "u8 list \<Rightarrow> NalEntry \<Rightarrow> Compy_NalUnit option" where
  "nalu_of media_video nal =
     (if ne_len nal = 0 \<or> length media_video < ne_data nal + ne_len nal then None
      else Some \<lparr>nalu_header = Compy_NalHeader_H264 (Compy_H264NalHeader_parse (media_video ! ne_data nal)),
                 nalu_payload = take (ne_len nal - 1) (drop (ne_data nal + 1) media_video)\<rparr>)"

text \<open>Sending the unit at the current index; a failure is only reported.\<close>

definition send_nal ::
  "endian \<Rightarrow> 't Compy_Transport \<Rightarrow> (nat \<Rightarrow> u64 \<times> u64) \<Rightarrow> u8 list \<Rightarrow> NalEntry list \<Rightarrow> 't VideoCtx \<Rightarrow> 't VideoCtx option" where
  "send_nal en T clock media_video table ctx =
     nalu_of media_video (table ! vc_nal_idx ctx) \<bind> (\<lambda>nalu.
     Compy_NalTransport_send_packet en T (clock (vc_nal_idx ctx)) (vc_transport ctx)
       (Compy_RtpTimestamp_Raw (vc_timestamp ctx)) nalu \<bind> (\<lambda>(_, t).
     Some (ctx\<lparr>vc_transport := t, vc_nal_idx := vc_nal_idx ctx + 1\<rparr>)))"

definition is_vcl :: "NalEntry \<Rightarrow> bool" where
  "is_vcl nal \<longleftrightarrow> ne_nal_type nal \<ge> 1 \<and> ne_nal_type nal \<le> 5"

text \<open>The loop over the units in front of the picture, with the number of entries behind the current one.\<close>

fun video_lead_loop ::
  "endian \<Rightarrow> 't Compy_Transport \<Rightarrow> (nat \<Rightarrow> u64 \<times> u64) \<Rightarrow> u8 list \<Rightarrow> NalEntry list \<Rightarrow> nat \<Rightarrow> 't VideoCtx \<Rightarrow>
     't VideoCtx option" where
  "video_lead_loop en T clock media_video table 0 ctx = Some ctx"
| "video_lead_loop en T clock media_video table (Suc n) ctx =
     (let nal = table ! vc_nal_idx ctx
      in if ne_nal_type nal = COMPY_H264_NAL_UNIT_AUD
         then video_lead_loop en T clock media_video table n (ctx\<lparr>vc_nal_idx := vc_nal_idx ctx + 1\<rparr>)
         else if is_vcl nal then Some ctx
         else send_nal en T clock media_video table ctx \<bind>
           video_lead_loop en T clock media_video table n)"

definition video_tick :: "int \<Rightarrow> u32 option" where
  "video_tick fps =
     (if fps = 0 then None
      else Some (word_of_int (if 0 < fps then VIDEO_SAMPLE_RATE_int div fps else - (VIDEO_SAMPLE_RATE_int div - fps))))"

definition send_video_packet_cb ::
  "endian \<Rightarrow> 't Compy_Transport \<Rightarrow> (nat \<Rightarrow> u64 \<times> u64) \<Rightarrow> int \<Rightarrow> u8 list \<Rightarrow> NalEntry list \<Rightarrow> 't VideoCtx \<Rightarrow>
     't VideoCtx option" where
  "send_video_packet_cb en T clock fps media_video table ctx =
     video_lead_loop en T clock media_video table (length table - vc_nal_idx ctx) ctx \<bind> (\<lambda>ctx.
     (if vc_nal_idx ctx < length table
      then send_nal en T clock media_video table ctx \<bind> (\<lambda>ctx.
           video_tick fps \<bind> (\<lambda>tick. Some (ctx\<lparr>vc_timestamp := vc_timestamp ctx + tick\<rparr>)))
      else Some ctx) \<bind> (\<lambda>ctx.
     Some (if vc_nal_idx ctx \<ge> length table
           then ctx\<lparr>vc_ev := False, vc_streams_playing := vc_streams_playing ctx - 1\<rparr> else ctx)))"

text \<open>A persistent timer: the callback runs again and again, at most \<open>n\<close> times, as long as it is pending.\<close>

fun timer_run :: "('s \<Rightarrow> bool) \<Rightarrow> ('s \<Rightarrow> 's option) \<Rightarrow> nat \<Rightarrow> 's \<Rightarrow> 's option" where
  "timer_run pending cb 0 s = Some s"
| "timer_run pending cb (Suc n) s = (if pending s then cb s \<bind> timer_run pending cb n else Some s)"

section \<open>The index lists the units\<close>

text \<open>A byte stream in the format of Annex B, with one kind of start code, and a unit that contains none.\<close>

definition annexb :: "u8 list \<Rightarrow> u8 list list \<Rightarrow> u8 list" where
  "annexb sc nals = concat (map (\<lambda>nal. sc @ nal) nals)"

fun sc_free :: "u8 list \<Rightarrow> u8 list \<Rightarrow> bool" where
  "sc_free sc [] \<longleftrightarrow> True"
| "sc_free sc (c # nal) \<longleftrightarrow> take (length sc) (c # nal) \<noteq> sc \<and> sc_free sc nal"

definition sc_tester :: "u8 list \<Rightarrow> u8 list \<Rightarrow> nat" where
  "sc_tester sc data = (if take (length sc) data = sc then length sc else 0)"

lemma sc_testers:
  "compy_test_start_code_3b = sc_tester start_code_3b" "compy_test_start_code_4b = sc_tester start_code_4b"
  by (auto simp: fun_eq_iff compy_test_start_code_3b_def compy_test_start_code_4b_def sc_tester_def
      start_code_3b_def start_code_4b_def numeral_eq_Suc dest: arg_cong [of _ _ length])

lemma annexb_simps [simp]: "annexb sc [] = []" "annexb sc (nal # nals) = sc @ nal @ annexb sc nals"
  by (simp_all add: annexb_def)

lemma sc_tester_inside:
  assumes "sc \<in> {start_code_3b, start_code_4b}" "sc_free sc (c # nal)"
  shows "sc_tester sc (c # nal @ annexb sc nals) = 0"
proof -
  have free: "take (length sc) (c # nal) \<noteq> sc" using assms(2) by simp
  obtain rest where rest: "annexb sc nals = [] \<or> annexb sc nals = sc @ rest" by (cases nals) auto
  have "take (length sc) (c # nal @ annexb sc nals) \<noteq> sc"
  proof (cases "length sc \<le> length (c # nal)")
    case True
    with free show ?thesis using take_append [of "length sc" "c # nal" "annexb sc nals"] by simp
  next
    case False
    with rest assms(1) show ?thesis
      by (cases nal; cases "tl nal"; cases "tl (tl nal)")
        (auto simp: start_code_3b_def start_code_4b_def)
  qed
  then show ?thesis by (simp add: sc_tester_def)
qed

lemma sc_tester_start: "sc \<in> {start_code_3b, start_code_4b} \<Longrightarrow> sc_tester sc (sc @ rest) = length sc \<and> 0 < length sc"
  by (auto simp: sc_tester_def start_code_3b_def start_code_4b_def)

lemma count_nals_skip:
  assumes "sc \<in> {start_code_3b, start_code_4b}"
  shows "sc_free sc nal \<Longrightarrow> count_nals (sc_tester sc) (nal @ annexb sc nals) = count_nals (sc_tester sc) (annexb sc nals)"
proof (induction nal)
  case (Cons c nal)
  then show ?case
    using sc_tester_inside [OF assms Cons.prems, of nals]
    by (subst count_nals.simps) simp
qed simp

lemma index_nals_skip:
  assumes "sc \<in> {start_code_3b, start_code_4b}"
  shows "sc_free sc nal \<Longrightarrow> index_nals (sc_tester sc) len count (nal @ annexb sc nals) table =
     index_nals (sc_tester sc) len count (annexb sc nals) table"
proof (induction nal)
  case (Cons c nal)
  then show ?case
    using sc_tester_inside [OF assms Cons.prems, of nals]
    by (subst index_nals.simps) simp
qed simp

lemma count_nals_annexb:
  assumes "sc \<in> {start_code_3b, start_code_4b}"
  shows "list_all (sc_free sc) nals \<Longrightarrow> count_nals (sc_tester sc) (annexb sc nals) = length nals"
proof (induction nals)
  case (Cons nal nals)
  then show ?case
    using sc_tester_start [OF assms, of "nal @ annexb sc nals"] count_nals_skip [OF assms, of nal nals]
    by (subst count_nals.simps) auto
qed (simp add: count_nals.simps)

text \<open>The entries of a stream that starts at offset \<open>off\<close>.\<close>

fun nal_entries :: "u8 list \<Rightarrow> nat \<Rightarrow> u8 list list \<Rightarrow> NalEntry list" where
  "nal_entries sc off [] = []"
| "nal_entries sc off (nal # nals) =
     \<lparr>ne_data = off + length sc, ne_len = length nal, ne_nal_type = hd nal AND 0x1F\<rparr> #
     nal_entries sc (off + length sc + length nal) nals"

lemma close_entry_snoc: "close_entry (table @ [e]) off = table @ [e\<lparr>ne_len := off - ne_data e\<rparr>]"
  by (simp add: close_entry_def)

lemma length_close_entry [simp]: "length (close_entry table off) = length table"
  by (simp add: close_entry_def)

lemma index_nals_annexb:
  assumes "sc \<in> {start_code_3b, start_code_4b}"
  shows "list_all (\<lambda>nal. nal \<noteq> [] \<and> sc_free sc nal) nals \<Longrightarrow> length table + length nals \<le> count \<Longrightarrow>
     len = off + length (annexb sc nals) \<Longrightarrow>
     \<exists>res. index_nals (sc_tester sc) len count (annexb sc nals) table = Some res \<and>
       close_entry res len = close_entry table off @ nal_entries sc off nals"
proof (induction nals arbitrary: table off)
  case Nil
  then show ?case by (simp add: index_nals.simps)
next
  case (Cons nal nals)
  let ?e = "\<lparr>ne_data = off + length sc, ne_len = 0, ne_nal_type = hd nal AND 0x1F\<rparr>"
  let ?table = "close_entry table off @ [?e]"
  note start = sc_tester_start [OF assms, of "nal @ annexb sc nals"]
  have "index_nals (sc_tester sc) len count (annexb sc (nal # nals)) table =
      index_nals (sc_tester sc) len count (nal @ annexb sc nals) ?table"
    using start Cons.prems by (subst index_nals.simps) (auto simp: Let_def)
  then have "index_nals (sc_tester sc) len count (annexb sc (nal # nals)) table =
      index_nals (sc_tester sc) len count (annexb sc nals) ?table"
    using index_nals_skip [OF assms, of nal] Cons.prems by simp
  moreover have "\<exists>res. index_nals (sc_tester sc) len count (annexb sc nals) ?table = Some res \<and>
      close_entry res len = close_entry ?table (off + length sc + length nal) @
        nal_entries sc (off + length sc + length nal) nals"
    using Cons.prems by (intro Cons.IH) auto
  ultimately show ?case by (simp add: close_entry_snoc)
qed

definition unit_of :: "u8 list \<Rightarrow> Compy_NalUnit" where
  "unit_of nal = \<lparr>nalu_header = Compy_NalHeader_H264 (Compy_H264NalHeader_parse (hd nal)), nalu_payload = tl nal\<rparr>"

lemma nalu_of_at:
  assumes "nal \<noteq> []"
  shows "nalu_of (pre @ sc @ nal @ rest)
     \<lparr>ne_data = length pre + length sc, ne_len = length nal, ne_nal_type = ty\<rparr> = Some (unit_of nal)"
proof -
  obtain c cs where nal: "nal = c # cs" using assms by (cases nal) auto
  have "(pre @ sc @ c # cs @ rest) ! (length pre + length sc) = c"
    using nth_append_length [of "pre @ sc" c "cs @ rest"] by simp
  then show ?thesis by (simp add: nalu_of_def unit_of_def nal)
qed

lemma nalu_of_entries:
  "list_all (\<lambda>nal. nal \<noteq> []) nals \<Longrightarrow>
     map (nalu_of (pre @ annexb sc nals)) (nal_entries sc (length pre) nals) = map (\<lambda>nal. Some (unit_of nal)) nals"
proof (induction nals arbitrary: pre)
  case (Cons nal nals)
  then have "nalu_of (pre @ annexb sc (nal # nals))
      \<lparr>ne_data = length pre + length sc, ne_len = length nal, ne_nal_type = hd nal AND 0x1F\<rparr> = Some (unit_of nal)"
    by (simp add: nalu_of_at)
  moreover from Cons.IH [of "pre @ sc @ nal"] Cons.prems
  have "map (nalu_of (pre @ annexb sc (nal # nals))) (nal_entries sc (length pre + length sc + length nal) nals) =
      map (\<lambda>nal. Some (unit_of nal)) nals"
    by (simp add: add.assoc)
  ultimately show ?case by simp
qed simp

definition nal_type :: "u8 list \<Rightarrow> u8" where
  "nal_type nal = hd nal AND 0x1F"

fun start_idx :: "u8 list list \<Rightarrow> nat \<Rightarrow> nat option" where
  "start_idx [] i = None"
| "start_idx (nal # nals) i = (if nal_type nal = 7 then Some i else start_idx nals (i + 1))"

lemma first_sps_entries: "first_sps (nal_entries sc off nals) i = start_idx nals i"
  by (induction nals arbitrary: off i) (simp_all add: nal_type_def COMPY_H264_NAL_UNIT_SPS_def)

lemma start_idx_less: "start_idx nals i = Some k \<Longrightarrow> k \<le> i + length nals"
  by (induction nals arbitrary: i) (auto split: if_splits, fastforce)

lemma build_index_annexb:
  assumes "sc \<in> {start_code_3b, start_code_4b}" "nals \<noteq> []"
    and "list_all (\<lambda>nal. nal \<noteq> [] \<and> sc_free sc nal) nals"
  shows "build_nal_index (annexb sc nals) =
     Some (nal_entries sc 0 nals, case start_idx nals 0 of None \<Rightarrow> 0 | Some i \<Rightarrow> i)"
proof -
  obtain nal rest where nals: "nals = nal # rest" using assms(2) by (cases nals) auto
  have free: "list_all (sc_free sc) nals" using assms(3) by (auto simp: list_all_iff)
  have det: "compy_determine_start_code (annexb sc nals) = Some (sc_tester sc)"
    using assms(1) by (auto simp: nals compy_determine_start_code_def sc_testers sc_tester_def
        start_code_3b_def start_code_4b_def)
  obtain res where "index_nals (sc_tester sc) (length (annexb sc nals)) (length nals) (annexb sc nals) [] = Some res"
    "close_entry res (length (annexb sc nals)) = nal_entries sc 0 nals"
    using index_nals_annexb [OF assms(1,3), of "[]" "length nals" "length (annexb sc nals)" 0]
    by (auto simp: close_entry_def [of "[]"])
  moreover have "annexb sc nals \<noteq> []" using sc_tester_start [OF assms(1), of "[]"] by (simp add: nals)
  ultimately show ?thesis
    by (simp add: build_nal_index_def det count_nals_annexb [OF assms(1) free] first_sps_entries)
qed

section \<open>Audio\<close>

text \<open>The packets of the audio: 160 octets each, the last one with what is left.\<close>

definition audio_item :: "u8 list \<Rightarrow> nat \<Rightarrow> rtp_item" where
  "audio_item media i = (Compy_RtpTimestamp_Raw (word_of_nat (i * 160)), False, [], take 160 (drop (i * 160) media))"

definition audio_count :: "u8 list \<Rightarrow> nat" where
  "audio_count media = (length media + 159) div 160"

definition audio_items :: "u8 list \<Rightarrow> nat \<Rightarrow> rtp_item list" where
  "audio_items media i = map (audio_item media) [i..<audio_count media]"

lemma audio_count_less: "i < audio_count media \<longleftrightarrow> i * 160 < length media"
  by (auto simp: audio_count_def)

lemma audio_items_Cons:
  "i * 160 < length media \<Longrightarrow> audio_items media i = audio_item media i # audio_items media (Suc i)"
  using audio_count_less [of i media] by (simp add: audio_items_def upt_conv_Cons)

text \<open>One callback: the end of the file stops the timer, otherwise the next packet is sent.\<close>

lemma send_audio_cb:
  "send_audio_packet_cb en T clock media ctx =
     (if length media \<le> ac_i ctx * 160
      then Some (ctx\<lparr>ac_ev := False, ac_streams_playing := ac_streams_playing ctx - 1\<rparr>)
      else case audio_item media (ac_i ctx) of (ts, marker, ph, pl) \<Rightarrow>
        (case Compy_RtpTransport_send_packet en T (clock (ac_i ctx)) (ac_transport ctx) ts marker ph pl of
           None \<Rightarrow> None
         | Some (_, t) \<Rightarrow> Some (ctx\<lparr>ac_transport := t, ac_i := ac_i ctx + 1\<rparr>)))"
proof -
  let ?off = "ac_i ctx * 160"
  have "length media mod 160 = length media - ?off" if "?off < length media" "length media < ?off + 160"
  proof -
    from that have "length media = (length media - ?off) + 160 * ac_i ctx" "length media - ?off < 160" by simp_all
    then show ?thesis by (metis mod_less mod_mult_self2)
  qed
  then show ?thesis
    by (auto simp: send_audio_packet_cb_def AUDIO_SAMPLES_PER_PACKET_def audio_item_def Let_def not_le)
qed

lemma rt_transport_accepted [simp]: "rt_transport (rt_accepted now self ts ph pl t) = t"
  by (simp add: rt_accepted_def)

lemma audio_run:
  assumes "wf_rt (ac_transport ctx)" "udp_ok 0 (rt_transport (ac_transport ctx))"
    and "ac_ev ctx" "audio_count media - ac_i ctx < n"
  shows "\<exists>ctx'. timer_run ac_ev (send_audio_packet_cb en compy_transport_udp clock media) n ctx = Some ctx' \<and>
     \<not> ac_ev ctx' \<and> ac_streams_playing ctx' = ac_streams_playing ctx - 1 \<and>
     udp_sent (rt_transport (ac_transport ctx')) =
       udp_sent (rt_transport (ac_transport ctx)) @ packets_from en (ac_transport ctx) 0 (audio_items media (ac_i ctx))"
  using assms
proof (induction n arbitrary: ctx)
  case (Suc n)
  show ?case
  proof (cases "length media \<le> ac_i ctx * 160")
    case True
    then have "audio_items media (ac_i ctx) = []"
      using audio_count_less [of "ac_i ctx" media] by (simp add: audio_items_def)
    with True Suc.prems show ?thesis by (cases n) (simp_all add: send_audio_cb)
  next
    case False
    let ?t = "ac_transport ctx" and ?item = "audio_item media (ac_i ctx)"
    obtain ts m ph pl where item: "?item = (ts, m, ph, pl)" by (cases ?item)
    obtain t' where t': "Compy_RtpTransport_send_packet en compy_transport_udp (clock (ac_i ctx)) ?t ts m ph pl =
        Some (0, rt_accepted (clock (ac_i ctx)) ?t ts ph pl t')"
      "udp_sent t' = udp_sent (rt_transport ?t) @ [rtp_packet en ?t ts m ph pl]" "udp_ok 0 t'"
      using udp.send_packet_ok [OF Suc.prems(1), where en = en and ts = ts and marker = m and payload_header = ph
          and payload = pl and n = 0 and now = "clock (ac_i ctx)"] Suc.prems(2) by auto
    let ?t1 = "rt_accepted (clock (ac_i ctx)) ?t ts ph pl t'"
    let ?ctx = "ctx\<lparr>ac_transport := ?t1, ac_i := ac_i ctx + 1\<rparr>"
    have "wf_rt (ac_transport ?ctx)" "udp_ok 0 (rt_transport (ac_transport ?ctx))" "ac_ev ?ctx"
      "audio_count media - ac_i ?ctx < n"
      using Suc.prems t'(3) False audio_count_less [of "ac_i ctx" media] by (simp_all add: wf_rt_accepted)
    note rest = Suc.IH [OF this, simplified]
    have "packets_from en ?t 0 (audio_items media (ac_i ctx)) =
        rtp_packet en ?t ts m ph pl # packets_from en ?t1 0 (audio_items media (Suc (ac_i ctx)))"
      using False by (simp add: audio_items_Cons item packets_from_accepted nth_packet_def)
    with rest t'(2) show ?thesis using Suc.prems(3) False t'(1) by (simp add: send_audio_cb item)
  qed
qed simp

text \<open>The timestamp of an RTP packet, as a receiver reads it.\<close>

definition rtp_ts :: "endian \<Rightarrow> Compy_RtpHeader \<Rightarrow> u8 list \<Rightarrow> u32" where
  "rtp_ts en h p = htonl en (rtp_timestamp (snd (Compy_RtpHeader_deserialize en h p)))"

lemma packets_read:
  assumes "wf_rt t"
  shows "map (rtp_body en h) (packets_from en t 0 items) = map item_payload items"
    "map (rtp_ts en h) (packets_from en t 0 items) = map (\<lambda>item. compute_timestamp (fst item) (rt_clock_rate t)) items"
proof -
  show "map (rtp_body en h) (packets_from en t 0 items) = map item_payload items"
    by (rule nth_equalityI) (simp_all add: packet_read [OF assms])
  have "rtp_ts en h (nth_packet en t k item) = compute_timestamp (fst item) (rt_clock_rate t)" for k item
    using nth_packet_header [OF assms, of item, where en = en and h = h and k = k]
    by (cases item) (auto simp: rtp_ts_def split: prod.splits)
  then show "map (rtp_ts en h) (packets_from en t 0 items) = map (\<lambda>item. compute_timestamp (fst item) (rt_clock_rate t)) items"
    by (intro nth_equalityI) (simp_all add: packets_from_nth)
qed

section \<open>Video\<close>

text \<open>
  What has to be sent: the units from the start on without the delimiters, each with its timestamp, which grows
  with every picture.
\<close>

fun video_schedule :: "u32 \<Rightarrow> u32 \<Rightarrow> u8 list list \<Rightarrow> (u32 \<times> u8 list) list" where
  "video_schedule tick ts [] = []"
| "video_schedule tick ts (nal # nals) =
     (if nal_type nal = 9 then video_schedule tick ts nals
      else (ts, nal) # video_schedule tick (if 1 \<le> nal_type nal \<and> nal_type nal \<le> 5 then ts + tick else ts) nals)"

text \<open>The datagrams \<open>ps\<close> are one unit, with one timestamp.\<close>

definition received_as :: "endian \<Rightarrow> Compy_RtpHeader \<Rightarrow> u32 \<times> u8 list \<Rightarrow> u8 list list \<Rightarrow> bool" where
  "received_as en h unit ps \<longleftrightarrow>
     nal_receive False (map (rtp_body en h) ps) = Some (snd unit) \<and> list_all (\<lambda>p. rtp_ts en h p = fst unit) ps"

definition video_ready :: "Compy_UdpTransport VideoCtx \<Rightarrow> bool" where
  "video_ready ctx \<longleftrightarrow>
     wf_rt (nt_transport (vc_transport ctx)) \<and> udp_ok 0 (rt_transport (nt_transport (vc_transport ctx))) \<and>
     COMPY_H264_FU_HEADER_SIZE < max_h264_nalu_size (nt_config (vc_transport ctx))"

text \<open>From one state to a later one, exactly the units of \<open>sched\<close> have left.\<close>

definition delivers ::
  "endian \<Rightarrow> Compy_RtpHeader \<Rightarrow> Compy_UdpTransport VideoCtx \<Rightarrow> (u32 \<times> u8 list) list \<Rightarrow> Compy_UdpTransport VideoCtx \<Rightarrow> bool" where
  "delivers en h ctx sched ctx' \<longleftrightarrow> video_ready ctx' \<and>
     (\<exists>pss. udp_sent (rt_transport (nt_transport (vc_transport ctx'))) =
          udp_sent (rt_transport (nt_transport (vc_transport ctx))) @ concat pss \<and>
        list_all2 (received_as en h) sched pss)"

lemma delivers_trans:
  "delivers en h c1 s1 c2 \<Longrightarrow> delivers en h c2 s2 c3 \<Longrightarrow> delivers en h c1 (s1 @ s2) c3"
  unfolding delivers_def by (metis append_assoc concat_append list_all2_appendI)

lemma delivers_Nil: "video_ready ctx \<Longrightarrow> vc_transport ctx' = vc_transport ctx \<Longrightarrow> delivers en h ctx [] ctx'"
  by (auto simp: delivers_def video_ready_def intro: exI [of _ "[]"])

text \<open>The index agrees with the units of the file, and the units can be sent.\<close>

definition indexed :: "u8 list \<Rightarrow> NalEntry list \<Rightarrow> u8 list list \<Rightarrow> bool" where
  "indexed video table nals \<longleftrightarrow>
     map (nalu_of video) table = map (\<lambda>nal. Some (unit_of nal)) nals \<and> map ne_nal_type table = map nal_type nals \<and>
     list_all (\<lambda>nal. nal \<noteq> [] \<and> wf_nal (nalu_header (unit_of nal))) nals"

lemma indexed_nth:
  assumes "indexed video table nals" "i < length nals"
  shows "i < length table" "nalu_of video (table ! i) = Some (unit_of (nals ! i))"
    "ne_nal_type (table ! i) = nal_type (nals ! i)" "nals ! i \<noteq> []" "wf_nal (nalu_header (unit_of (nals ! i)))"
proof -
  have maps: "map (nalu_of video) table = map (\<lambda>nal. Some (unit_of nal)) nals" "map ne_nal_type table = map nal_type nals"
    using assms(1) by (simp_all add: indexed_def)
  from map_eq_imp_length_eq [OF maps(1)] show i: "i < length table" using assms(2) by simp
  show "nalu_of video (table ! i) = Some (unit_of (nals ! i))"
    using arg_cong [OF maps(1), of "\<lambda>xs. xs ! i"] i assms(2) by simp
  show "ne_nal_type (table ! i) = nal_type (nals ! i)"
    using arg_cong [OF maps(2), of "\<lambda>xs. xs ! i"] i assms(2) by simp
  show "nals ! i \<noteq> []" "wf_nal (nalu_header (unit_of (nals ! i)))"
    using assms by (simp_all add: indexed_def list_all_length)
qed

lemma unit_text: "nal \<noteq> [] \<Longrightarrow>
    Compy_NalHeader_serialize en (nalu_header (unit_of nal)) @ nalu_payload (unit_of nal) = nal"
  by (cases nal) (simp_all add: unit_of_def nal_header_roundtrip [THEN conjunct1, simplified])

lemma unit_received:
  assumes "wf_rt t" "nal \<noteq> []" "wf_nal (nalu_header (unit_of nal))"
    and "Compy_NalHeader_fu_size (nalu_header (unit_of nal)) < limit"
  shows "received_as en h (ts, nal)
     (packets_from en t 0 (nal_items en (Compy_RtpTimestamp_Raw ts) limit (unit_of nal)))"
proof -
  let ?items = "nal_items en (Compy_RtpTimestamp_Raw ts) limit (unit_of nal)"
  have stamps: "fst item = Compy_RtpTimestamp_Raw ts" if "item \<in> set ?items" for item
    using that by (auto simp: nal_items_def Let_def fu_items_def fu_item_def split: if_splits)
  have "rtp_ts en h p = ts" if "p \<in> set (packets_from en t 0 ?items)" for p
  proof -
    from that have "rtp_ts en h p \<in> set (map (rtp_ts en h) (packets_from en t 0 ?items))" by simp
    then show ?thesis unfolding packets_read(2) [OF assms(1)] using stamps by (auto simp: compute_timestamp_def)
  qed
  moreover have "nal_is_h265 (nalu_header (unit_of nal)) = False" by (simp add: unit_of_def nal_is_h265_def)
  ultimately show ?thesis
    using nal_receive_items [OF assms(3,4), of en "Compy_RtpTimestamp_Raw ts"]
    by (simp add: received_as_def packets_read(1) [OF assms(1)] unit_text [OF assms(2)] list_all_iff)
qed

lemma send_nal_delivers:
  assumes "indexed video table nals" "video_ready ctx" "vc_nal_idx ctx < length nals"
  shows "\<exists>t. send_nal en compy_transport_udp clock video table ctx =
       Some (ctx\<lparr>vc_transport := t, vc_nal_idx := vc_nal_idx ctx + 1\<rparr>) \<and>
     delivers en h ctx [(vc_timestamp ctx, nals ! vc_nal_idx ctx)]
       (ctx\<lparr>vc_transport := t, vc_nal_idx := vc_nal_idx ctx + 1\<rparr>)"
proof -
  let ?nt = "vc_transport ctx" and ?unit = "unit_of (nals ! vc_nal_idx ctx)" and ?ts = "Compy_RtpTimestamp_Raw (vc_timestamp ctx)"
  note nth = indexed_nth [OF assms(1,3)]
  have h264: "\<exists>x. nalu_header ?unit = Compy_NalHeader_H264 x" by (simp add: unit_of_def)
  then have limit: "Compy_NalHeader_fu_size (nalu_header ?unit) < nal_limit ?nt (nalu_header ?unit)"
    using assms(2) by (auto simp: video_ready_def nal_limit_def)
  let ?items = "nal_items en ?ts (nal_limit ?nt (nalu_header ?unit)) ?unit"
  have wf: "wf_rt (nt_transport ?nt)" "udp_ok 0 (rt_transport (nt_transport ?nt))"
    using assms(2) by (simp_all add: video_ready_def)
  obtain t where sent: "send_items en compy_transport_udp (clock (vc_nal_idx ctx)) (nt_transport ?nt) ?items = Some (0, t)"
    "udp_sent (rt_transport t) = udp_sent (rt_transport (nt_transport ?nt)) @ packets_from en (nt_transport ?nt) 0 ?items"
    "udp_ok 0 (rt_transport t)" "wf_rt t"
    using udp.send_items_ok [OF wf(1), where en = en and items = ?items and n = 0 and now = "clock (vc_nal_idx ctx)"] wf(2)
    by (auto simp: udp_ok_def list_all_iff)
  let ?nt' = "?nt\<lparr>nt_transport := t\<rparr>"
  obtain ret where "Compy_NalTransport_send_packet en compy_transport_udp (clock (vc_nal_idx ctx)) ?nt ?ts ?unit = Some (ret, ?nt')"
    using sent(1) limit nal_send_items [of en compy_transport_udp "clock (vc_nal_idx ctx)" ?nt ?ts ?unit]
    by (auto split: option.splits prod.splits if_splits)
  then have "send_nal en compy_transport_udp clock video table ctx =
      Some (ctx\<lparr>vc_transport := ?nt', vc_nal_idx := vc_nal_idx ctx + 1\<rparr>)"
    by (simp add: send_nal_def nth(2))
  moreover have "received_as en h (vc_timestamp ctx, nals ! vc_nal_idx ctx) (packets_from en (nt_transport ?nt) 0 ?items)"
    using unit_received [OF wf(1) nth(4,5) limit] .
  ultimately show ?thesis
    using sent assms(2) by (intro exI [of _ ?nt']) (auto simp: delivers_def video_ready_def intro!: exI [of _ "[packets_from en (nt_transport ?nt) 0 ?items]"])
qed

text \<open>
  The units in front of a picture: \<open>r\<close> is what the loop returns from the state \<open>ctx\<close>. The state reached stands at a
  picture or at the end, and the rest of the schedule is still to be sent.
\<close>

definition picture :: "u8 list \<Rightarrow> bool" where
  "picture nal \<longleftrightarrow> 1 \<le> nal_type nal \<and> nal_type nal \<le> 5"

definition lead_post where
  "lead_post en h tick nals ctx r \<longleftrightarrow>
     (\<exists>t idx sched. r = Some (ctx\<lparr>vc_transport := t, vc_nal_idx := idx\<rparr>) \<and>
        delivers en h ctx sched (ctx\<lparr>vc_transport := t, vc_nal_idx := idx\<rparr>) \<and> vc_nal_idx ctx \<le> idx \<and> idx \<le> length nals \<and>
        (idx < length nals \<longrightarrow> picture (nals ! idx)) \<and>
        video_schedule tick (vc_timestamp ctx) (drop (vc_nal_idx ctx) nals) =
          sched @ video_schedule tick (vc_timestamp ctx) (drop idx nals))"

lemma lead_post_step:
  assumes "ctx1 = ctx\<lparr>vc_transport := t1, vc_nal_idx := Suc (vc_nal_idx ctx)\<rparr>" "delivers en h ctx s1 ctx1"
    and "video_schedule tick (vc_timestamp ctx) (drop (vc_nal_idx ctx) nals) =
      s1 @ video_schedule tick (vc_timestamp ctx) (drop (Suc (vc_nal_idx ctx)) nals)"
    and "lead_post en h tick nals ctx1 r"
  shows "lead_post en h tick nals ctx r"
proof -
  from assms(4) obtain t idx s where "r = Some (ctx1\<lparr>vc_transport := t, vc_nal_idx := idx\<rparr>)"
    "delivers en h ctx1 s (ctx1\<lparr>vc_transport := t, vc_nal_idx := idx\<rparr>)" "vc_nal_idx ctx1 \<le> idx" "idx \<le> length nals"
    "idx < length nals \<longrightarrow> picture (nals ! idx)"
    "video_schedule tick (vc_timestamp ctx1) (drop (vc_nal_idx ctx1) nals) =
       s @ video_schedule tick (vc_timestamp ctx1) (drop idx nals)"
    unfolding lead_post_def by blast
  with delivers_trans [OF assms(2)] assms(1,3) show ?thesis
    unfolding lead_post_def by (intro exI [of _ t] exI [of _ idx] exI [of _ "s1 @ s"]) auto
qed

lemma lead_post_done:
  "video_ready ctx \<Longrightarrow> vc_nal_idx ctx \<le> length nals \<Longrightarrow> (vc_nal_idx ctx < length nals \<Longrightarrow> picture (nals ! vc_nal_idx ctx)) \<Longrightarrow>
     lead_post en h tick nals ctx (Some ctx)"
  unfolding lead_post_def
  by (intro exI [of _ "vc_transport ctx"] exI [of _ "vc_nal_idx ctx"] exI [of _ "[]"]) (simp add: delivers_Nil)

lemma video_lead_delivers:
  assumes "indexed video table nals" "video_ready ctx" "vc_nal_idx ctx \<le> length nals" "n = length nals - vc_nal_idx ctx"
  shows "lead_post en h tick nals ctx (video_lead_loop en compy_transport_udp clock video table n ctx)"
  using assms(2-4)
proof (induction n arbitrary: ctx)
  case (Suc n)
  let ?i = "vc_nal_idx ctx"
  have i: "?i < length nals" using Suc.prems(3) by simp
  note nth = indexed_nth [OF assms(1) i]
  have sched: "video_schedule tick ts (drop ?i nals) = video_schedule tick ts (nals ! ?i # drop (Suc ?i) nals)" for ts
    by (simp add: Cons_nth_drop_Suc i)
  consider "nal_type (nals ! ?i) = 9" | "nal_type (nals ! ?i) \<noteq> 9" "picture (nals ! ?i)"
    | "nal_type (nals ! ?i) \<noteq> 9" "\<not> picture (nals ! ?i)"
    by blast
  then show ?case
  proof cases
    case 1
    let ?ctx = "ctx\<lparr>vc_nal_idx := ?i + 1\<rparr>"
    have ready: "video_ready ?ctx" "delivers en h ctx [] ?ctx"
      using Suc.prems(1) by (simp_all add: video_ready_def delivers_Nil)
    have "lead_post en h tick nals ?ctx (video_lead_loop en compy_transport_udp clock video table n ?ctx)"
      using ready(1) i Suc.prems(3) by (intro Suc.IH) auto
    from lead_post_step [OF _ ready(2) _ this, of "vc_transport ctx"] 1 show ?thesis
      by (simp add: nth(3) COMPY_H264_NAL_UNIT_AUD_def sched)
  next
    case 2
    with lead_post_done [OF Suc.prems(1,2)] show ?thesis
      by (simp add: nth(3) COMPY_H264_NAL_UNIT_AUD_def is_vcl_def picture_def)
  next
    case 3
    obtain t1 where t1: "send_nal en compy_transport_udp clock video table ctx =
        Some (ctx\<lparr>vc_transport := t1, vc_nal_idx := ?i + 1\<rparr>)"
      "delivers en h ctx [(vc_timestamp ctx, nals ! ?i)] (ctx\<lparr>vc_transport := t1, vc_nal_idx := ?i + 1\<rparr>)"
      using send_nal_delivers [OF assms(1) Suc.prems(1) i] by blast
    let ?ctx = "ctx\<lparr>vc_transport := t1, vc_nal_idx := ?i + 1\<rparr>"
    have "lead_post en h tick nals ?ctx (video_lead_loop en compy_transport_udp clock video table n ?ctx)"
      using t1(2) i Suc.prems(3) by (intro Suc.IH) (auto simp: delivers_def)
    from lead_post_step [OF _ t1(2) _ this, of t1] 3 t1(1) show ?thesis
      by (auto simp: nth(3) COMPY_H264_NAL_UNIT_AUD_def is_vcl_def picture_def sched)
  qed
qed (simp add: lead_post_done)

lemma delivers_upd:
  "delivers en h c1 s (c2\<lparr>vc_ev := e, vc_streams_playing := k\<rparr>) = delivers en h c1 s c2"
  "delivers en h c1 s (c2\<lparr>vc_timestamp := ts\<rparr>) = delivers en h c1 s c2"
  by (simp_all add: delivers_def video_ready_def)

lemma video_cb_delivers:
  assumes "indexed video table nals" "video_ready ctx" "vc_nal_idx ctx \<le> length nals" "video_tick fps = Some tick"
  shows "\<exists>ctx' sched. send_video_packet_cb en compy_transport_udp clock fps video table ctx = Some ctx' \<and>
     delivers en h ctx sched ctx' \<and>
     video_schedule tick (vc_timestamp ctx) (drop (vc_nal_idx ctx) nals) =
       sched @ video_schedule tick (vc_timestamp ctx') (drop (vc_nal_idx ctx') nals) \<and>
     (if vc_nal_idx ctx' < length nals
      then vc_nal_idx ctx < vc_nal_idx ctx' \<and> vc_ev ctx' = vc_ev ctx \<and> vc_streams_playing ctx' = vc_streams_playing ctx
      else \<not> vc_ev ctx' \<and> vc_streams_playing ctx' = vc_streams_playing ctx - 1)"
proof -
  have len: "length table = length nals"
    using assms(1) map_eq_imp_length_eq by (metis indexed_def)
  obtain t idx s where lead: "video_lead_loop en compy_transport_udp clock video table (length nals - vc_nal_idx ctx) ctx =
      Some (ctx\<lparr>vc_transport := t, vc_nal_idx := idx\<rparr>)"
    "delivers en h ctx s (ctx\<lparr>vc_transport := t, vc_nal_idx := idx\<rparr>)" "vc_nal_idx ctx \<le> idx" "idx \<le> length nals"
    "idx < length nals \<longrightarrow> picture (nals ! idx)"
    "video_schedule tick (vc_timestamp ctx) (drop (vc_nal_idx ctx) nals) = s @ video_schedule tick (vc_timestamp ctx) (drop idx nals)"
    using video_lead_delivers [OF assms(1-3) refl] unfolding lead_post_def by blast
  let ?ctx = "ctx\<lparr>vc_transport := t, vc_nal_idx := idx\<rparr>"
  show ?thesis
  proof (cases "idx < length nals")
    case False
    with lead show ?thesis
      by (intro exI [of _ "?ctx\<lparr>vc_ev := False, vc_streams_playing := vc_streams_playing ctx - 1\<rparr>"] exI [of _ s])
        (simp add: send_video_packet_cb_def len delivers_upd)
  next
    case True
    have "video_ready ?ctx" using lead(2) by (simp add: delivers_def)
    then obtain t' where sent: "send_nal en compy_transport_udp clock video table ?ctx =
        Some (?ctx\<lparr>vc_transport := t', vc_nal_idx := idx + 1\<rparr>)"
      "delivers en h ?ctx [(vc_timestamp ctx, nals ! idx)] (?ctx\<lparr>vc_transport := t', vc_nal_idx := idx + 1\<rparr>)"
      using send_nal_delivers [OF assms(1), of ?ctx en clock h] True by auto
    let ?ctx' = "ctx\<lparr>vc_transport := t', vc_nal_idx := idx + 1, vc_timestamp := vc_timestamp ctx + tick\<rparr>"
    let ?fin = "if Suc idx < length nals then ?ctx'
        else ?ctx'\<lparr>vc_ev := False, vc_streams_playing := vc_streams_playing ctx - 1\<rparr>"
    have "nal_type (nals ! idx) \<noteq> 9" "1 \<le> nal_type (nals ! idx)" "nal_type (nals ! idx) \<le> 5"
      using lead(5) True by (auto simp: picture_def)
    then have "video_schedule tick ts (drop idx nals) = (ts, nals ! idx) # video_schedule tick (ts + tick) (drop (Suc idx) nals)" for ts
      by (simp add: Cons_nth_drop_Suc [OF True, symmetric])
    moreover have "send_video_packet_cb en compy_transport_udp clock fps video table ctx = Some ?fin"
      using lead(1) sent(1) True by (simp add: send_video_packet_cb_def len assms(4))
    ultimately show ?thesis
      using delivers_trans [OF lead(2) sent(2)] lead(3,6)
      by (intro exI [of _ ?fin] exI [of _ "s @ [(vc_timestamp ctx, nals ! idx)]"]) (simp add: delivers_upd)
  qed
qed

lemma video_run:
  assumes "indexed video table nals" "video_tick fps = Some tick" "video_ready ctx" "vc_nal_idx ctx \<le> length nals"
    and "vc_ev ctx" "length nals - vc_nal_idx ctx < n"
  shows "\<exists>ctx'. timer_run vc_ev (send_video_packet_cb en compy_transport_udp clock fps video table) n ctx = Some ctx' \<and>
     \<not> vc_ev ctx' \<and> vc_streams_playing ctx' = vc_streams_playing ctx - 1 \<and>
     delivers en h ctx (video_schedule tick (vc_timestamp ctx) (drop (vc_nal_idx ctx) nals)) ctx'"
  using assms(3-6)
proof (induction n arbitrary: ctx)
  case (Suc n)
  obtain ctx1 s where cb: "send_video_packet_cb en compy_transport_udp clock fps video table ctx = Some ctx1"
    "delivers en h ctx s ctx1"
    "video_schedule tick (vc_timestamp ctx) (drop (vc_nal_idx ctx) nals) =
       s @ video_schedule tick (vc_timestamp ctx1) (drop (vc_nal_idx ctx1) nals)"
    "if vc_nal_idx ctx1 < length nals
      then vc_nal_idx ctx < vc_nal_idx ctx1 \<and> vc_ev ctx1 = vc_ev ctx \<and> vc_streams_playing ctx1 = vc_streams_playing ctx
      else \<not> vc_ev ctx1 \<and> vc_streams_playing ctx1 = vc_streams_playing ctx - 1"
    using video_cb_delivers [OF assms(1) Suc.prems(1,2) assms(2)] by blast
  show ?case
  proof (cases "vc_nal_idx ctx1 < length nals")
    case True
    with cb Suc.prems have "video_ready ctx1" "vc_nal_idx ctx1 \<le> length nals" "vc_ev ctx1"
      "length nals - vc_nal_idx ctx1 < n" by (auto simp: delivers_def)
    from Suc.IH [OF this] cb True Suc.prems(3) show ?thesis by (auto intro: delivers_trans)
  next
    case False
    with cb Suc.prems(3) show ?thesis by (cases n) simp_all
  qed
qed simp

section \<open>Properties\<close>

text \<open>
  C22. The server plays an audio file: the datagrams that leave after PLAY hold, put together, exactly the octets
  of the file, the timestamp of each is the number of octets before it, and after the last one the timer is
  stopped and the stream no longer counts as playing. As many callbacks as there are packets and one more are
  enough.
\<close>

theorem audio_file_over_udp:
  assumes "wf_rt t" "udp_ok 0 (rt_transport t)" "audio_count media < n"
  shows "\<exists>ctx packets. timer_run ac_ev (send_audio_packet_cb en compy_transport_udp clock media) n (play_audio t playing) =
       Some ctx \<and>
     \<not> ac_ev ctx \<and> ac_streams_playing ctx = playing \<and>
     udp_sent (rt_transport (ac_transport ctx)) = udp_sent (rt_transport t) @ packets \<and>
     concat (map (rtp_body en h) packets) = media \<and>
     map (rtp_ts en h) packets = map (\<lambda>i. word_of_nat (i * 160)) [0..<length packets]"
proof -
  let ?packets = "packets_from en t 0 (audio_items media 0)"
  have len: "length ?packets = audio_count media" by (simp add: audio_items_def)
  have "length media \<le> audio_count media * 160" by (simp add: audio_count_def)
  then have "concat (map (\<lambda>i. take 160 (drop (i * 160) media)) [0..<audio_count media]) = media"
    by (simp add: concat_pieces)
  then have "concat (map (rtp_body en h) ?packets) = media"
    by (simp add: packets_read(1) [OF assms(1)] audio_items_def audio_item_def item_payload_def comp_def)
  moreover have "map (rtp_ts en h) ?packets = map (\<lambda>i. word_of_nat (i * 160)) [0..<length ?packets]"
    unfolding packets_read(2) [OF assms(1)] len
    by (simp add: audio_items_def audio_item_def compute_timestamp_def)
  ultimately show ?thesis
    using audio_run [of "play_audio t playing" media n en clock] assms
    by (auto simp: play_audio_def)
qed

lemma sample_rt_ok: "udp_ok 0 (rt_transport sample_rt)"
  by (auto simp: udp_ok_def sample_rt_def Compy_RtpTransport_new_def MAX_RETRANSMITS_def intro!: exI [of _ 0])

theorem audio_file_over_udp_witness:
  "\<exists>ctx packets. timer_run ac_ev (send_audio_packet_cb LittleEndian compy_transport_udp (\<lambda>_. (0, 0)) (replicate 400 7)) 4
       (play_audio sample_rt 0) = Some ctx \<and>
     \<not> ac_ev ctx \<and> ac_streams_playing ctx = 0 \<and>
     udp_sent (rt_transport (ac_transport ctx)) = udp_sent (rt_transport sample_rt) @ packets \<and>
     concat (map (rtp_body LittleEndian sample_rtp) packets) = replicate 400 7 \<and>
     map (rtp_ts LittleEndian sample_rtp) packets = map (\<lambda>i. word_of_nat (i * 160)) [0..<length packets]"
  by (rule audio_file_over_udp [OF sample_rt_wf sample_rt_ok]) (simp add: audio_count_def)

lemma play_video_simps [simp]:
  "vc_nal_idx (play_video start t playing) = start" "vc_timestamp (play_video start t playing) = 0"
  "vc_ev (play_video start t playing)" "vc_streams_playing (play_video start t playing) = playing + 1"
  "nt_transport (vc_transport (play_video start t playing)) = t"
  "nt_config (vc_transport (play_video start t playing)) = Compy_NalTransportConfig_default"
  by (simp_all add: play_video_def Compy_NalTransport_new_def Compy_NalTransport_new_with_config_def)

text \<open>
  C21. The server plays a video file: for a file of NAL units behind start codes of one kind, none of which
  occurs inside a unit, the datagrams that leave after PLAY are, unit by unit and in the order of the file, put
  together by a receiver into the units from the first sequence parameter set on, without the delimiters. The
  datagrams of a unit have the timestamp of its picture, and each picture adds a tick to it. After the last unit the
  timer is stopped and the stream no longer counts as playing; as many callbacks as there are units and one more
  are enough.
\<close>

theorem video_file_over_udp:
  assumes "wf_rt t" "udp_ok 0 (rt_transport t)" "video_tick fps = Some tick"
    and "sc \<in> {start_code_3b, start_code_4b}" "nals \<noteq> []" "length nals < n"
    and "list_all (\<lambda>nal. nal \<noteq> [] \<and> sc_free sc nal \<and> wf_nal (nalu_header (unit_of nal))) nals"
  shows "\<exists>table start ctx units. build_nal_index (annexb sc nals) = Some (table, start) \<and>
     start = (case start_idx nals 0 of None \<Rightarrow> 0 | Some i \<Rightarrow> i) \<and>
     timer_run vc_ev (send_video_packet_cb en compy_transport_udp clock fps (annexb sc nals) table) n
       (play_video start t playing) = Some ctx \<and>
     \<not> vc_ev ctx \<and> vc_streams_playing ctx = playing \<and>
     udp_sent (rt_transport (nt_transport (vc_transport ctx))) = udp_sent (rt_transport t) @ concat units \<and>
     list_all2 (received_as en h) (video_schedule tick 0 (drop start nals)) units"
proof -
  define start where "start = (case start_idx nals 0 of None \<Rightarrow> 0 | Some i \<Rightarrow> i)"
  have nals: "list_all (\<lambda>nal. nal \<noteq> [] \<and> sc_free sc nal) nals" "list_all (\<lambda>nal. nal \<noteq> []) nals"
    using assms(7) by (auto simp: list_all_iff)
  have build: "build_nal_index (annexb sc nals) = Some (nal_entries sc 0 nals, start)"
    using build_index_annexb [OF assms(4,5) nals(1)] by (simp add: start_def)
  have "map ne_nal_type (nal_entries sc off nals) = map nal_type nals" for off
    by (induction nals arbitrary: off) (simp_all add: nal_type_def)
  then have indexed: "indexed (annexb sc nals) (nal_entries sc 0 nals) nals"
    using nalu_of_entries [OF nals(2), of "[]" sc] assms(7) by (auto simp: indexed_def list_all_iff)
  have start: "start \<le> length nals" using start_idx_less [of nals 0] by (auto simp: start_def split: option.split)
  have "length nals - start < n" using assms(6) by simp
  moreover have "video_ready (play_video start t playing)"
    using assms(1,2) by (simp add: video_ready_def Compy_NalTransportConfig_default_def COMPY_H264_FU_HEADER_SIZE_def
        COMPY_MAX_H264_NALU_SIZE_def)
  ultimately obtain ctx where "timer_run vc_ev (send_video_packet_cb en compy_transport_udp clock fps (annexb sc nals)
        (nal_entries sc 0 nals)) n (play_video start t playing) = Some ctx"
    "\<not> vc_ev ctx" "vc_streams_playing ctx = playing"
    "delivers en h (play_video start t playing) (video_schedule tick 0 (drop start nals)) ctx"
    using video_run [OF indexed assms(3), of "play_video start t playing" n en clock h] start
    by auto
  then show ?thesis
    using build start_def unfolding delivers_def by auto
qed

theorem video_file_over_udp_witness:
  "\<exists>table start ctx units. build_nal_index (annexb start_code_4b [[9, 1], [0x67, 1], [0x68, 2], [0x65, 1, 2, 3]]) =
       Some (table, start) \<and>
     start = (case start_idx [[9, 1], [0x67, 1], [0x68, 2], [0x65, 1, 2, 3]] 0 of None \<Rightarrow> 0 | Some i \<Rightarrow> i) \<and>
     timer_run vc_ev (send_video_packet_cb LittleEndian compy_transport_udp (\<lambda>_. (0, 0)) 30
         (annexb start_code_4b [[9, 1], [0x67, 1], [0x68, 2], [0x65, 1, 2, 3]]) table) 5
       (play_video start sample_rt 0) = Some ctx \<and>
     \<not> vc_ev ctx \<and> vc_streams_playing ctx = 0 \<and>
     udp_sent (rt_transport (nt_transport (vc_transport ctx))) = udp_sent (rt_transport sample_rt) @ concat units \<and>
     list_all2 (received_as LittleEndian sample_rtp)
       (video_schedule 3000 0 (drop start [[9, 1], [0x67, 1], [0x68, 2], [0x65, 1, 2, 3]])) units"
  by (rule video_file_over_udp [OF sample_rt_wf sample_rt_ok])
    (simp_all add: video_tick_def VIDEO_SAMPLE_RATE_int_def start_code_3b_def start_code_4b_def unit_of_def
      Compy_H264NalHeader_parse_def bit_numeral_rec)

end
