(* ===== verification/Sockets.thy ===== *)
theory Sockets
  imports Transport
begin

text \<open>
  The two functions of \<open>src/transport/udp.c\<close> that open datagram sockets, over a small model of the kernel: the open
  descriptors, the peer and the local address of a socket, and whether the next system calls succeed. A new socket
  gets the lowest descriptor that is not open, as POSIX has it. A failed \<open>setsockopt\<close> changes nothing.
\<close>

section \<open>The kernel\<close>

record kernel =
  k_open :: "nat list"
  k_peer :: "nat \<Rightarrow> sockaddr option"
  k_bound :: "nat \<Rightarrow> sockaddr option"
  k_calls :: nat
  k_env :: "nat \<Rightarrow> bool"

definition k_next :: "kernel \<Rightarrow> bool \<times> kernel" where
  "k_next k = (k_env k (k_calls k), k\<lparr>k_calls := k_calls k + 1\<rparr>)"

definition lowest_fd :: "nat list \<Rightarrow> nat" where
  "lowest_fd fds = hd (filter (\<lambda>n. n \<notin> set fds) [0..<Suc (length fds)])"

definition sys_socket :: "kernel \<Rightarrow> int \<times> kernel" where
  "sys_socket k =
     (case k_next k of
        (success, k) \<Rightarrow>
          if \<not> success then (-1, k) else
          let fd = lowest_fd (k_open k)
          in (int fd, k\<lparr>k_open := fd # k_open k, k_peer := (k_peer k)(fd := None), k_bound := (k_bound k)(fd := None)\<rparr>))"

definition sys_connect :: "nat \<Rightarrow> sockaddr \<Rightarrow> kernel \<Rightarrow> int \<times> kernel" where
  "sys_connect fd addr k =
     (case k_next k of
        (success, k) \<Rightarrow>
          if \<not> success then (-1, k) else (0, k\<lparr>k_peer := (k_peer k)(fd := Some addr)\<rparr>))"

definition sys_bind :: "nat \<Rightarrow> sockaddr \<Rightarrow> kernel \<Rightarrow> int \<times> kernel" where
  "sys_bind fd addr k =
     (case k_next k of
        (success, k) \<Rightarrow>
          if \<not> success then (-1, k) else (0, k\<lparr>k_bound := (k_bound k)(fd := Some addr)\<rparr>))"

definition sys_setsockopt :: "nat \<Rightarrow> kernel \<Rightarrow> int \<times> kernel" where
  "sys_setsockopt fd k = (case k_next k of (r, k) \<Rightarrow> (if r then 0 else -1, k))"

definition sys_close :: "nat \<Rightarrow> kernel \<Rightarrow> kernel" where
  "sys_close fd k = k\<lparr>k_open := removeAll fd (k_open k)\<rparr>"

section \<open>Opening sockets\<close>

definition compy_dgram_socket :: "endian \<Rightarrow> address_family \<Rightarrow> u8 list \<Rightarrow> u16 \<Rightarrow> kernel \<Rightarrow> int \<times> kernel" where
  "compy_dgram_socket en af addr port k =
     (case new_sockaddr en af addr port of
        None \<Rightarrow> (-1, k)
      | Some dest \<Rightarrow>
          (case sys_socket k of
             (fd, k) \<Rightarrow>
               if fd = -1 then (-1, k)
               else
                 (case sys_connect (nat fd) dest k of
                    (ret, k) \<Rightarrow>
                      if ret = -1 then (-1, sys_close (nat fd) k)
                      else
                        (case sys_setsockopt (nat fd) k of
                           (ret, k) \<Rightarrow> if ret = -1 then (-1, sys_close (nat fd) k) else (fd, k)))))"

text \<open>The address with the wildcard of its family.\<close>

definition recv_sockaddr :: "endian \<Rightarrow> address_family \<Rightarrow> u16 \<Rightarrow> sockaddr option" where
  "recv_sockaddr en af port =
     (case af of
        AF_INET \<Rightarrow> Some \<lparr>sa_family = AF_INET, sa_ip = replicate 4 0, sa_port = htons en port\<rparr>
      | AF_INET6 \<Rightarrow> Some \<lparr>sa_family = AF_INET6, sa_ip = replicate 16 0, sa_port = htons en port\<rparr>
      | AF_OTHER \<Rightarrow> None)"

definition compy_recv_dgram_socket :: "endian \<Rightarrow> address_family \<Rightarrow> u16 \<Rightarrow> kernel \<Rightarrow> int \<times> kernel" where
  "compy_recv_dgram_socket en af port k =
     (case recv_sockaddr en af port of
        None \<Rightarrow> (-1, k)
      | Some bind_addr \<Rightarrow>
          (case sys_socket k of
             (fd, k) \<Rightarrow>
               if fd = -1 then (-1, k)
               else
                 let k = snd (sys_setsockopt (nat fd) k)
                 in case sys_bind (nat fd) bind_addr k of
                      (ret, k) \<Rightarrow> if ret = -1 then (-1, sys_close (nat fd) k) else (fd, k)))"

section \<open>No descriptor is lost\<close>

lemma lowest_fd_fresh: "lowest_fd fds \<notin> set fds"
proof -
  let ?free = "filter (\<lambda>n. n \<notin> set fds) [0..<Suc (length fds)]"
  have "?free \<noteq> []"
  proof
    assume "?free = []"
    then have "{0..<Suc (length fds)} \<subseteq> set fds" unfolding filter_empty_conv by (simp only: set_upt subset_iff) blast
    from card_mono [OF _ this] card_length [of fds] show False by simp
  qed
  then have "lowest_fd fds \<in> set ?free" unfolding lowest_fd_def by (rule hd_in_set)
  then show ?thesis unfolding set_filter by blast
qed

lemmas sys_defs = k_next_def sys_socket_def sys_connect_def sys_bind_def sys_setsockopt_def sys_close_def

text \<open>The descriptor that is open after a call, in addition to those before it.\<close>

definition opened :: "int \<Rightarrow> nat list" where
  "opened ret = (if ret = -1 then [] else [nat ret])"

lemma dgram_socket_open:
  "case compy_dgram_socket en af ip port k of (ret, k') \<Rightarrow>
     k_open k' = opened ret @ k_open k \<and> set (opened ret) \<inter> set (k_open k) = {} \<and>
     (ret \<noteq> -1 \<longrightarrow> 0 \<le> ret \<and> k_peer k' (nat ret) = new_sockaddr en af ip port)"
  using lowest_fd_fresh
  by (auto simp: compy_dgram_socket_def sys_defs Let_def opened_def split: option.split if_splits)

lemma recv_dgram_socket_open:
  "case compy_recv_dgram_socket en af port k of (ret, k') \<Rightarrow>
     k_open k' = opened ret @ k_open k \<and> set (opened ret) \<inter> set (k_open k) = {} \<and>
     (ret \<noteq> -1 \<longrightarrow> 0 \<le> ret \<and> k_bound k' (nat ret) = recv_sockaddr en af port)"
  using lowest_fd_fresh
  by (auto simp: compy_recv_dgram_socket_def sys_defs Let_def opened_def split: option.split if_splits)

end
