(* ===== verification/Server_Session.thy ===== *)
theory Server_Session
  imports Auth_Gate Sockets Sdp Srtp_Keys Rtcp_Session
begin

text \<open>
  The session side of the example server, \<open>examples/server.c\<close>: the state of a client and its handlers for DESCRIBE,
  SETUP, PLAY and TEARDOWN. Sockets are those of the kernel model, which the state holds; a stream's transport names
  what it sends through, an interleaved channel of the connection or a descriptor, protected by SRTP or not. Timers
  are numbered in the order of their creation and pending or not. What the server reads from \<open>/dev/urandom\<close>, what
  the transports get as random numbers, and the ports \<open>getsockname\<close> reports are arguments. \<open>None\<close> is a failed
  \<open>assert\<close> or the use of a null pointer.
\<close>

section \<open>State\<close>

datatype conn_transport =
    TcpTransport u8 nat
  | UdpTransport nat
  | SrtpTransport "nat Compy_SrtpTransport"
  | SrtcpTransport "nat Compy_SrtcpTransport"

text \<open>
  Which of the two players a stream has been given to. The player shares the transport the stream had at that time; the
  audio player takes a null pointer as well, and \<open>AudioPlayer\<close> says whether it got a transport.
\<close>

datatype player = AudioPlayer bool | VideoPlayer

record Stream =
  sm_session_id :: u64
  sm_transport :: "conn_transport Compy_RtpTransport option"
  sm_rtcp :: "conn_transport Compy_Rtcp option"
  sm_ev :: "nat option"
  sm_rtcp_ev :: "nat option"
  sm_ctx :: "player option"

record BackchannelReceiver =
  br_total_bytes :: nat

definition BackchannelReceiver_on_audio :: "BackchannelReceiver Compy_AudioReceiver" where
  "BackchannelReceiver_on_audio self payload_type timestamp ssrc payload =
     self\<lparr>br_total_bytes := br_total_bytes self + length payload\<rparr>"

record Client =
  cl_addr :: sockaddr
  cl_streams :: "Stream list"
  cl_streams_playing :: int
  cl_backchannel_supported :: bool
  cl_backchannel :: "(conn_transport, BackchannelReceiver) Compy_Backchannel option"
  cl_events :: "bool list"
  cl_kernel :: kernel

definition AUDIO_STREAM_ID :: nat where "AUDIO_STREAM_ID = 0"
definition VIDEO_STREAM_ID :: nat where "VIDEO_STREAM_ID = 1"
definition BACKCHANNEL_STREAM_ID :: nat where "BACKCHANNEL_STREAM_ID = 2"
definition MAX_STREAMS :: nat where "MAX_STREAMS = 3"
definition AUDIO_PCMU_PAYLOAD_TYPE :: u8 where "AUDIO_PCMU_PAYLOAD_TYPE = 0"
definition AUDIO_SAMPLE_RATE :: u32 where "AUDIO_SAMPLE_RATE = 8000"
definition VIDEO_PAYLOAD_TYPE :: u8 where "VIDEO_PAYLOAD_TYPE = 96"
definition VIDEO_SAMPLE_RATE :: u32 where "VIDEO_SAMPLE_RATE = 90000"
definition BACKCHANNEL_PAYLOAD_TYPE :: u8 where "BACKCHANNEL_PAYLOAD_TYPE = 0"
definition BACKCHANNEL_SAMPLE_RATE :: u32 where "BACKCHANNEL_SAMPLE_RATE = 8000"

definition COMPY_HEADER_SESSION :: string where "COMPY_HEADER_SESSION = ''Session''"
definition COMPY_HEADER_TRANSPORT :: string where "COMPY_HEADER_TRANSPORT = ''Transport''"
definition COMPY_HEADER_RANGE :: string where "COMPY_HEADER_RANGE = ''Range''"
definition COMPY_HEADER_CONTENT_TYPE :: string where "COMPY_HEADER_CONTENT_TYPE = ''Content-Type''"
definition COMPY_STATUS_BAD_REQUEST :: Compy_StatusCode where "COMPY_STATUS_BAD_REQUEST = 400"
definition COMPY_STATUS_SESSION_NOT_FOUND :: Compy_StatusCode where "COMPY_STATUS_SESSION_NOT_FOUND = 454"

text \<open>A connection that was just accepted: \<open>calloc\<close> leaves zeros and null pointers.\<close>

definition Stream_0 :: Stream where
  "Stream_0 = \<lparr>sm_session_id = 0, sm_transport = None, sm_rtcp = None, sm_ev = None, sm_rtcp_ev = None, sm_ctx = None\<rparr>"

definition Client_new :: "sockaddr \<Rightarrow> kernel \<Rightarrow> Client" where
  "Client_new addr k =
     \<lparr>cl_addr = addr, cl_streams = replicate MAX_STREAMS Stream_0, cl_streams_playing = 0,
      cl_backchannel_supported = False, cl_backchannel = None, cl_events = [], cl_kernel = k\<rparr>"

text \<open>The globals of the server, and what it gets from outside during one request.\<close>

record server =
  sv_video_fps :: int
  sv_srtp_key :: "Compy_SrtpKeyMaterial option"
  sv_srtp_ops :: Compy_CryptoSrtpOps

record outside =
  o_sid :: u64
  o_rng :: "(u32 \<times> u32) option"
  o_rand1 :: u32
  o_rand2 :: u32
  o_fresh :: u64
  o_local_port :: "nat \<Rightarrow> u16 option"

section \<open>Timers\<close>

definition event_new :: "Client \<Rightarrow> nat \<times> Client" where
  "event_new self = (length (cl_events self), self\<lparr>cl_events := cl_events self @ [False]\<rparr>)"

definition event_add :: "nat \<Rightarrow> Client \<Rightarrow> Client" where
  "event_add ev self = self\<lparr>cl_events := (cl_events self)[ev := True]\<rparr>"

definition event_del :: "nat option \<Rightarrow> Client \<Rightarrow> Client option" where
  "event_del ev self =
     (case ev of None \<Rightarrow> None | Some e \<Rightarrow> Some (self\<lparr>cl_events := (cl_events self)[e := False]\<rparr>))"

section \<open>DESCRIBE\<close>

text \<open>An IPv4-mapped address: ten zero octets and two of all ones.\<close>

definition is_v4mapped :: "u8 list \<Rightarrow> bool" where
  "is_v4mapped ip \<longleftrightarrow> take 12 ip = replicate 10 0 @ [0xFF, 0xFF]"

definition session_lines :: "Client \<Rightarrow> (Compy_SdpType \<times> string) list" where
  "session_lines self =
     (let is_ipv6 = (sa_family (cl_addr self) = AF_INET6 \<and> \<not> is_v4mapped (sa_ip (cl_addr self)));
          ip_ver = (if is_ipv6 then ''IP6'' else ''IP4'');
          ip_any = (if is_ipv6 then ''::'' else ''0.0.0.0'')
      in [(COMPY_SDP_VERSION, ''0''),
          (COMPY_SDP_ORIGIN, ''Compy 3855320066 3855320129 IN '' @ ip_ver @ '' '' @ ip_any),
          (COMPY_SDP_SESSION_NAME, ''Compy example''),
          (COMPY_SDP_CONNECTION, ''IN '' @ ip_ver @ '' '' @ ip_any),
          (COMPY_SDP_TIME, ''0 0'')])"

definition video_lines :: "server \<Rightarrow> (Compy_SdpType \<times> string) list" where
  "video_lines srv =
     [(COMPY_SDP_MEDIA, ''video 0 RTP/AVP '' @ show_nat (unat VIDEO_PAYLOAD_TYPE)),
      (COMPY_SDP_ATTR, ''control:video''),
      (COMPY_SDP_ATTR, ''recvonly''),
      (COMPY_SDP_ATTR, ''rtpmap:'' @ show_nat (unat VIDEO_PAYLOAD_TYPE) @ '' H264/'' @ show_nat (unat VIDEO_SAMPLE_RATE)),
      (COMPY_SDP_ATTR, ''fmtp:'' @ show_nat (unat VIDEO_PAYLOAD_TYPE) @ '' packetization-mode=1''),
      (COMPY_SDP_ATTR, ''framerate:'' @ show_int (sv_video_fps srv))]"

definition audio_lines :: "(Compy_SdpType \<times> string) list" where
  "audio_lines =
     [(COMPY_SDP_MEDIA, ''audio 0 RTP/AVP '' @ show_nat (unat AUDIO_PCMU_PAYLOAD_TYPE)),
      (COMPY_SDP_ATTR, ''control:audio''),
      (COMPY_SDP_ATTR, ''recvonly'')]"

definition backchannel_lines :: "(Compy_SdpType \<times> string) list" where
  "backchannel_lines =
     [(COMPY_SDP_MEDIA, ''audio 0 RTP/AVP '' @ show_nat (unat BACKCHANNEL_PAYLOAD_TYPE)),
      (COMPY_SDP_ATTR, ''control:audioback''),
      (COMPY_SDP_ATTR, ''rtpmap:'' @ show_nat (unat BACKCHANNEL_PAYLOAD_TYPE) @ '' PCMU/'' @ show_nat (unat BACKCHANNEL_SAMPLE_RATE)),
      (COMPY_SDP_ATTR, ''sendonly'')]"

text \<open>
  The attribute with the key; when it does not fit the buffer of 128 octets, which is then only reported, the text
  is what was left in the buffer.
\<close>

definition crypto_lines :: "server \<Rightarrow> (Compy_SdpType \<times> string) list" where
  "crypto_lines srv =
     (case sv_srtp_key srv of
        None \<Rightarrow> []
      | Some key \<Rightarrow>
          [(COMPY_SDP_ATTR,
            ''crypto:'' @ c_str (snd (compy_srtp_format_crypto_attr 128 1 Compy_SrtpSuite_AES_CM_128_HMAC_SHA1_80 key)))])"

definition Client_describe :: "'w Compy_Writer \<Rightarrow> server \<Rightarrow> (Client client, 'w) handler" where
  "Client_describe W srv self ctx req =
     (let cl = (snd self)\<lparr>cl_backchannel_supported :=
            compy_require_has_tag (req_header_map req) COMPY_REQUIRE_ONVIF_BACKCHANNEL\<rparr>
      in COMPY_SDP_DESCRIBE 0 compy_string_writer [] (session_lines cl) \<bind> (\<lambda>(ret, sdp).
         COMPY_SDP_DESCRIBE ret compy_string_writer sdp (video_lines srv) \<bind> (\<lambda>(ret, sdp).
         COMPY_SDP_DESCRIBE ret compy_string_writer sdp audio_lines \<bind> (\<lambda>(ret, sdp).
         (if cl_backchannel_supported cl then COMPY_SDP_DESCRIBE ret compy_string_writer sdp backchannel_lines
          else Some (ret, sdp)) \<bind> (\<lambda>(ret, sdp).
         COMPY_SDP_DESCRIBE ret compy_string_writer sdp (crypto_lines srv) \<bind> (\<lambda>(ret, sdp).
         if length sdp \<ge> 2048 \<or> ret \<le> 0 then None
         else
           compy_header ctx COMPY_HEADER_CONTENT_TYPE ''application/sdp'' \<bind> (\<lambda>ctx.
           compy_respond_ok W (compy_body ctx sdp) \<bind> (\<lambda>(_, ctx).
           Some ((fst self, cl), ctx)))))))))"

section \<open>SETUP\<close>

definition setup_tcp ::
  "'w Compy_Writer \<Rightarrow> 'w Compy_Context \<Rightarrow> Compy_TransportConfig \<Rightarrow>
     ((conn_transport \<times> conn_transport) option \<times> 'w Compy_Context) option" where
  "setup_tcp W ctx config =
     (case tc_interleaved config of
        Some interleaved \<Rightarrow>
          compy_header ctx COMPY_HEADER_TRANSPORT
            (''RTP/AVP/TCP;unicast;interleaved='' @ show_nat (unat (rtp_channel interleaved)) @ ''-'' @
             show_nat (unat (rtcp_channel interleaved))) \<bind> (\<lambda>ctx.
          Some (Some (TcpTransport (rtp_channel interleaved) 0, TcpTransport (rtcp_channel interleaved) 0), ctx))
      | None \<Rightarrow>
          compy_respond W ctx COMPY_STATUS_BAD_REQUEST ([CHR 0x60] @ ''interleaved'' @ [CHR 0x27] @ '' not found'') \<bind>
          (\<lambda>(_, ctx). Some (None, ctx)))"

definition server_port :: "outside \<Rightarrow> nat \<Rightarrow> u16" where
  "server_port out fd = (case o_local_port out fd of None \<Rightarrow> 0 | Some port \<Rightarrow> port)"

text \<open>The transport of a descriptor, inside SRTP when that is enabled.\<close>

definition udp_transports :: "server \<Rightarrow> nat \<Rightarrow> nat \<Rightarrow> conn_transport \<times> conn_transport" where
  "udp_transports srv fd rtcp_fd =
     (case sv_srtp_key srv of
        None \<Rightarrow> (UdpTransport fd, UdpTransport rtcp_fd)
      | Some key \<Rightarrow>
          (SrtpTransport (compy_transport_srtp_new (sv_srtp_ops srv) fd Compy_SrtpSuite_AES_CM_128_HMAC_SHA1_80 key),
           SrtcpTransport (compy_transport_srtcp_new (sv_srtp_ops srv) rtcp_fd Compy_SrtpSuite_AES_CM_128_HMAC_SHA1_80 key)))"

definition setup_udp ::
  "endian \<Rightarrow> 'w Compy_Writer \<Rightarrow> server \<Rightarrow> outside \<Rightarrow> sockaddr \<Rightarrow> kernel \<Rightarrow> 'w Compy_Context \<Rightarrow> Compy_TransportConfig \<Rightarrow>
     ((conn_transport \<times> conn_transport) option \<times> kernel \<times> 'w Compy_Context) option" where
  "setup_udp en W srv out addr k ctx config =
     (case tc_client_port config of
        Some client_port \<Rightarrow>
          let ip = (case compy_sockaddr_ip addr of Some ip \<Rightarrow> ip | None \<Rightarrow> [])
          in case compy_dgram_socket en (sa_family addr) ip (rtp_port client_port) k of
               (fd, k) \<Rightarrow>
                 if fd = -1 then Some (None, k, ctx)
                 else
                   (case compy_dgram_socket en (sa_family addr) ip (rtcp_port client_port) k of
                      (rtcp_fd, k) \<Rightarrow>
                        if rtcp_fd = -1 then Some (None, sys_close (nat fd) k, ctx)
                        else
                          compy_header ctx COMPY_HEADER_TRANSPORT
                            (''RTP/AVP/UDP;unicast;client_port='' @ show_nat (unat (rtp_port client_port)) @ ''-'' @
                             show_nat (unat (rtcp_port client_port)) @ '';server_port='' @
                             show_nat (unat (server_port out (nat fd))) @ ''-'' @
                             show_nat (unat (server_port out (nat rtcp_fd)))) \<bind> (\<lambda>ctx.
                          Some (Some (udp_transports srv (nat fd) (nat rtcp_fd)), k, ctx)))
      | None \<Rightarrow>
          compy_respond W ctx COMPY_STATUS_BAD_REQUEST ([CHR 0x60] @ ''client_port'' @ [CHR 0x27] @ '' not found'') \<bind>
          (\<lambda>(_, ctx). Some (None, k, ctx)))"

definition setup_transport ::
  "endian \<Rightarrow> 'w Compy_Writer \<Rightarrow> server \<Rightarrow> outside \<Rightarrow> Client \<Rightarrow> 'w Compy_Context \<Rightarrow> Compy_Request \<Rightarrow>
     ((conn_transport \<times> conn_transport) option \<times> Client \<times> 'w Compy_Context) option" where
  "setup_transport en W srv out self ctx req =
     (case Compy_HeaderMap_find (req_header_map req) COMPY_HEADER_TRANSPORT of
        None \<Rightarrow>
          compy_respond W ctx COMPY_STATUS_BAD_REQUEST ([CHR 0x60] @ ''Transport'' @ [CHR 0x27] @ '' not present'') \<bind>
          (\<lambda>(_, ctx). Some (None, self, ctx))
      | Some transport_val \<Rightarrow>
          (case compy_parse_transport transport_val of
             None \<Rightarrow>
               compy_respond W ctx COMPY_STATUS_BAD_REQUEST (''Malformed '' @ [CHR 0x60] @ ''Transport'' @ [CHR 0x27]) \<bind>
               (\<lambda>(_, ctx). Some (None, self, ctx))
           | Some config \<Rightarrow>
               (case tc_lower config of
                  Compy_LowerTransport_TCP \<Rightarrow> setup_tcp W ctx config \<bind> (\<lambda>(t, ctx). Some (t, self, ctx))
                | Compy_LowerTransport_UDP \<Rightarrow>
                    setup_udp en W srv out (cl_addr self) (cl_kernel self) ctx config \<bind> (\<lambda>(t, k, ctx).
                    Some (t, self\<lparr>cl_kernel := k\<rparr>, ctx))) \<bind> (\<lambda>(t, self, ctx).
               if t = None then compy_respond_internal_error W ctx \<bind> (\<lambda>(_, ctx). Some (None, self, ctx))
               else Some (t, self, ctx))))"

text \<open>
  \<open>compy_scanf_header\<close> with a format of one conversion: the value when that is assigned, that is when the C
  function returns 1.
\<close>

definition compy_scanf_header :: "Compy_HeaderMap \<Rightarrow> string \<Rightarrow> (string \<Rightarrow> 'a option) \<Rightarrow> 'a option" where
  "compy_scanf_header headers key scan =
     (case Compy_HeaderMap_find headers key of None \<Rightarrow> None | Some val \<Rightarrow> scan (c_str val))"

definition setup_stream_id :: "Compy_Request \<Rightarrow> nat" where
  "setup_stream_id req =
     (if ends_with (rql_uri (req_start_line req)) ''/audioback'' then BACKCHANNEL_STREAM_ID
      else if ends_with (rql_uri (req_start_line req)) ''/audio'' then AUDIO_STREAM_ID
      else VIDEO_STREAM_ID)"

definition cname :: "u8 list" where
  "cname = map u8_of_char ''compy@camera''"

text \<open>
  The stream with its new transports; those of a backchannel are dropped, which frees them and leaves their
  descriptors open.
\<close>

definition setup_stream ::
  "outside \<Rightarrow> nat \<Rightarrow> u64 \<Rightarrow> conn_transport \<Rightarrow> conn_transport \<Rightarrow> Client \<Rightarrow> Client" where
  "setup_stream out stream_id session_id t rtcp_t self =
     (let stream = (cl_streams self ! stream_id)\<lparr>sm_session_id := session_id\<rparr>
      in if BACKCHANNEL_STREAM_ID = stream_id then
           self\<lparr>cl_streams := (cl_streams self)[stream_id := stream\<lparr>sm_transport := None\<rparr>],
                cl_backchannel := Some (Compy_Backchannel_new Compy_BackchannelConfig_default \<lparr>br_total_bytes = 0\<rparr>)\<rparr>
         else
           let rtp = (if AUDIO_STREAM_ID = stream_id
                      then Compy_RtpTransport_new t AUDIO_PCMU_PAYLOAD_TYPE AUDIO_SAMPLE_RATE
                             (o_rng out) (o_rand1 out) (o_rand2 out) (o_fresh out)
                      else Compy_RtpTransport_new t VIDEO_PAYLOAD_TYPE VIDEO_SAMPLE_RATE
                             (o_rng out) (o_rand1 out) (o_rand2 out) (o_fresh out))
           in self\<lparr>cl_streams := (cl_streams self)[stream_id :=
                  stream\<lparr>sm_transport := Some rtp, sm_rtcp := Some (Compy_Rtcp_new rtcp_t cname)\<rparr>]\<rparr>)"

definition Client_setup :: "endian \<Rightarrow> 'w Compy_Writer \<Rightarrow> server \<Rightarrow> outside \<Rightarrow> (Client client, 'w) handler" where
  "Client_setup en W srv out self ctx req =
     setup_transport en W srv out (snd self) ctx req \<bind> (\<lambda>(ts, cl, ctx).
     case ts of
       None \<Rightarrow> Some ((fst self, cl), ctx)
     | Some (transport, rtcp_transport) \<Rightarrow>
         (case (if Compy_HeaderMap_contains_key (req_header_map req) COMPY_HEADER_SESSION
                then compy_scanf_header (req_header_map req) COMPY_HEADER_SESSION sscanf_unsigned
                else Some (o_sid out)) of
            None \<Rightarrow>
              compy_respond W ctx COMPY_STATUS_BAD_REQUEST (''Malformed '' @ [CHR 0x60] @ ''Session'' @ [CHR 0x27]) \<bind>
              (\<lambda>(_, ctx). Some ((fst self, cl), ctx))
          | Some session_id \<Rightarrow>
              let cl = setup_stream out (setup_stream_id req) session_id transport rtcp_transport cl
              in compy_header ctx COMPY_HEADER_SESSION (show_nat (unat session_id)) \<bind> (\<lambda>ctx.
                 compy_respond_ok W ctx \<bind> (\<lambda>(_, ctx). Some ((fst self, cl), ctx)))))"

section \<open>PLAY and TEARDOWN\<close>

text \<open>
  \<open>play_audio\<close> and \<open>play_video\<close>: the timer is created and started, and the stream counts as playing. The video
  player asserts that the stream has a transport.
\<close>

definition play_stream :: "nat \<Rightarrow> Client \<Rightarrow> Client option" where
  "play_stream i self =
     (let stream = cl_streams self ! i;
          player = (if AUDIO_STREAM_ID = i then AudioPlayer (sm_transport stream \<noteq> None) else VideoPlayer)
      in if player = VideoPlayer \<and> sm_transport stream = None then None
         else
           (case event_new self of
              (ev, self) \<Rightarrow>
                let self = event_add ev self;
                    self = self\<lparr>cl_streams_playing := cl_streams_playing self + 1\<rparr>;
                    stream = stream\<lparr>sm_ev := Some ev, sm_ctx := Some player\<rparr>
                in if sm_rtcp stream \<noteq> None \<and> sm_rtcp_ev stream = None then
                     (case event_new self of
                        (rtcp_ev, self) \<Rightarrow>
                          let self = event_add rtcp_ev self
                          in Some (self\<lparr>cl_streams := (cl_streams self)[i := stream\<lparr>sm_rtcp_ev := Some rtcp_ev\<rparr>]\<rparr>))
                   else Some (self\<lparr>cl_streams := (cl_streams self)[i := stream]\<rparr>)))"

fun play_loop :: "u64 \<Rightarrow> nat list \<Rightarrow> bool \<Rightarrow> Client \<Rightarrow> (bool \<times> Client) option" where
  "play_loop session_id [] played self = Some (played, self)"
| "play_loop session_id (i # is) played self =
     (if sm_session_id (cl_streams self ! i) = session_id
      then play_stream i self \<bind> play_loop session_id is True
      else play_loop session_id is played self)"

definition Client_play :: "'w Compy_Writer \<Rightarrow> (Client client, 'w) handler" where
  "Client_play W self ctx req =
     (case compy_scanf_header (req_header_map req) COMPY_HEADER_SESSION sscanf_unsigned of
        None \<Rightarrow>
          compy_respond W ctx COMPY_STATUS_BAD_REQUEST (''Malformed '' @ [CHR 0x60] @ ''Session'' @ [CHR 0x27]) \<bind>
          (\<lambda>(_, ctx). Some (self, ctx))
      | Some session_id \<Rightarrow>
          play_loop session_id [0..<MAX_STREAMS] False (snd self) \<bind> (\<lambda>(played, cl).
          if \<not> played then
            compy_respond W ctx COMPY_STATUS_SESSION_NOT_FOUND ''Invalid Session ID'' \<bind>
            (\<lambda>(_, ctx). Some ((fst self, cl), ctx))
          else
            compy_header ctx COMPY_HEADER_RANGE ''npt=now-'' \<bind> (\<lambda>ctx.
            compy_respond_ok W ctx \<bind> (\<lambda>(_, ctx). Some ((fst self, cl), ctx)))))"

fun teardown_loop :: "u64 \<Rightarrow> nat list \<Rightarrow> bool \<Rightarrow> Client \<Rightarrow> (bool \<times> Client) option" where
  "teardown_loop session_id [] teardowned self = Some (teardowned, self)"
| "teardown_loop session_id (i # is) teardowned self =
     (if sm_session_id (cl_streams self ! i) = session_id
      then event_del (sm_ev (cl_streams self ! i)) self \<bind> teardown_loop session_id is True
      else teardown_loop session_id is teardowned self)"

definition Client_teardown :: "'w Compy_Writer \<Rightarrow> (Client client, 'w) handler" where
  "Client_teardown W self ctx req =
     (case compy_scanf_header (req_header_map req) COMPY_HEADER_SESSION sscanf_unsigned of
        None \<Rightarrow>
          compy_respond W ctx COMPY_STATUS_BAD_REQUEST (''Malformed '' @ [CHR 0x60] @ ''Session'' @ [CHR 0x27]) \<bind>
          (\<lambda>(_, ctx). Some (self, ctx))
      | Some session_id \<Rightarrow>
          teardown_loop session_id [0..<MAX_STREAMS] False (snd self) \<bind> (\<lambda>(teardowned, cl).
          if \<not> teardowned then
            compy_respond W ctx COMPY_STATUS_SESSION_NOT_FOUND ''Invalid Session ID'' \<bind>
            (\<lambda>(_, ctx). Some ((fst self, cl), ctx))
          else compy_respond_ok W ctx \<bind> (\<lambda>(_, ctx). Some ((fst self, cl), ctx))))"

text \<open>The controller of the server, with its authentication.\<close>

definition server_controller ::
  "endian \<Rightarrow> 'w Compy_Writer \<Rightarrow> Compy_CredentialLookup \<Rightarrow> entropy \<Rightarrow> server \<Rightarrow> outside \<Rightarrow> (Client client, 'w) Compy_Controller" where
  "server_controller en W lookup e srv out =
     \<lparr>con_options = Client_options W, con_describe = Client_describe W srv, con_setup = Client_setup en W srv out,
      con_play = Client_play W, con_pause_method = Client_pause_method W, con_teardown = Client_teardown W,
      con_get_parameter = Client_get_parameter W, con_unknown = Client_unknown W,
      con_before = Client_before W lookup e, con_after = Client_after\<rparr>"

text \<open>The descriptor a transport sends on.\<close>

definition transport_fd :: "conn_transport \<Rightarrow> nat option" where
  "transport_fd t =
     (case t of
        TcpTransport _ _ \<Rightarrow> None
      | UdpTransport fd \<Rightarrow> Some fd
      | SrtpTransport s \<Rightarrow> Some (st_inner s)
      | SrtcpTransport s \<Rightarrow> Some (sc_inner s))"

text \<open>The credentials of the server, \<open>user:pass\<close>.\<close>

definition auth_lookup :: "string \<Rightarrow> Compy_CredentialLookup" where
  "auth_lookup expected_creds username password_max =
     (case dropWhile (\<lambda>c. c \<noteq> CHR '':'') expected_creds of
        [] \<Rightarrow> None
      | _ # pass \<Rightarrow>
          (let user = takeWhile (\<lambda>c. c \<noteq> CHR '':'') expected_creds
           in if length username \<noteq> length user then None
              else if username \<noteq> take (length username) user then None
              else Some (take (password_max - 1) pass)))"

end
