(* ===== verification/Server_Properties.thy ===== *)
theory Server_Properties
  imports Server_Session
begin

text \<open>
  What the handlers of the example server do: the answers as the client reads them, the streams and timers they leave,
  and the invariant of the descriptors.
\<close>

section \<open>Answers\<close>

text \<open>The client reads the octets \<open>msg\<close> as one response.\<close>

definition reads_as ::
  "endian \<Rightarrow> string \<Rightarrow> Compy_StatusCode \<Rightarrow> string \<Rightarrow> u32 \<Rightarrow> (string \<times> string) list \<Rightarrow> string \<Rightarrow> bool" where
  "reads_as en msg code reason cseq hs body \<longleftrightarrow>
     (\<forall>self. Compy_Response_parse en self msg =
        Some (Compy_ParseResult_complete (length msg), read_response code reason cseq hs body))"

lemma respond_reads_as:
  assumes "ctx_header_map ctx = map header_of hs" "list_all plain_header hs" "length hs + 2 \<le> COMPY_HEADER_MAP_CAPACITY"
    and "wf_line reason" "nul_free reason" "length (ctx_body ctx) < 2 ^ 63" "nul_free (ctx_body ctx)" "no_cr_end (ctx_body ctx)"
  obtains msg where "compy_respond compy_string_writer ctx code reason =
      Some (int (length msg), ctx\<lparr>ctx_ret := int (length msg), ctx_writer := ctx_writer ctx @ msg\<rparr>)"
    "reads_as en msg code reason (ctx_cseq ctx) hs (ctx_body ctx)"
proof -
  let ?msg = "response_text (response_of ctx code reason)"
  have wf: "wf_response (response_of ctx code reason)"
    using assms(4-7) wf_plain_headers [OF assms(2,3)] by (simp add: wf_response_def response_of_def assms(1))
  note written = respond_string [OF wf]
  have "reads_as en ?msg code reason (ctx_cseq ctx) hs (ctx_body ctx)"
    unfolding reads_as_def
  proof
    fix self
    show "Compy_Response_parse en self ?msg =
        Some (Compy_ParseResult_complete (length ?msg), read_response code reason (ctx_cseq ctx) hs (ctx_body ctx))"
      using response_parse_text [OF wf, of "[]" en self] assms(1,8) by (simp add: response_of_def read_response_def)
  qed
  with written that show thesis by blast
qed

lemma compy_header_plain:
  assumes "plain_header (k, v)" "length (ctx_header_map ctx) < COMPY_HEADER_MAP_CAPACITY"
  shows "compy_header ctx k v = Some (ctx\<lparr>ctx_header_map := ctx_header_map ctx @ [header_of (k, v)]\<rparr>)"
  using add_headers_ok [of "[(k, v)]" ctx] assms by (simp split: bind_splits)

lemma plain_header_line:
  assumes "list_all header_name_char_matcher k" "k \<noteq> []" "k \<noteq> COMPY_HEADER_C_SEQ" "k \<noteq> COMPY_HEADER_CONTENT_LENGTH"
    and "nul_free v" "CHR 0x0D \<notin> set v" "v \<noteq> []" "hd v \<noteq> CHR '' ''"
  shows "plain_header (k, v)"
proof -
  have "\<not> starts_with v '' ''" using assms(7,8) by (cases v) (auto simp: starts_with_def)
  then show ?thesis
    using assms by (simp add: plain_header_def header_of_def wf_header_def wf_line_def crlf_free_no_cr)
qed

lemma show_nat_chars: "CHR 0x0D \<notin> set (show_nat n)" "hd (show_nat n) \<noteq> CHR '' ''"
proof -
  show "CHR 0x0D \<notin> set (show_nat n)" using show_nat_digits [of "CHR 0x0D" n] by (auto simp: isdigit_def)
  show "hd (show_nat n) \<noteq> CHR '' ''"
    using show_nat_digits [OF hd_in_set [OF show_nat_not_Nil], of n] by (auto simp: isdigit_def)
qed

lemmas header_defs = COMPY_HEADER_SESSION_def COMPY_HEADER_TRANSPORT_def COMPY_HEADER_RANGE_def
  COMPY_HEADER_CONTENT_TYPE_def COMPY_HEADER_C_SEQ_def COMPY_HEADER_CONTENT_LENGTH_def
  header_name_char_matcher_def isalpha_def

lemma range_text_line: "CHR 0x0D \<notin> set (range_text lhs rhs)"
  using range_text_chars [of "CHR 0x0D" lhs rhs] by (auto simp: isdigit_def)

lemma transport_params_line: "list_all (\<lambda>p. CHR 0x0D \<notin> set p) (transport_params c)"
  unfolding transport_params_def
  by (cases "tc_interleaved c"; cases "tc_client_port c"; cases "tc_server_port c") (simp_all add: range_text_line)

lemma plain_headers:
  "plain_header (COMPY_HEADER_SESSION, show_nat n)"
  "plain_header (COMPY_HEADER_RANGE, ''npt=now-'')"
  "plain_header (COMPY_HEADER_CONTENT_TYPE, ''application/sdp'')"
  "plain_header (COMPY_HEADER_TRANSPORT, transport_text c)"
proof -
  show "plain_header (COMPY_HEADER_SESSION, show_nat n)"
    by (rule plain_header_line) (simp_all add: show_nat_chars header_defs)
  show "plain_header (COMPY_HEADER_RANGE, ''npt=now-'')" "plain_header (COMPY_HEADER_CONTENT_TYPE, ''application/sdp'')"
    by (rule plain_header_line; simp add: header_defs)+
  have "CHR 0x0D \<notin> set (params_text (transport_params c))" "CHR 0x0D \<notin> set (Compy_LowerTransport_str (tc_lower c))"
    using transport_params_line [of c] by (auto simp: params_text_def list_all_iff) (cases "tc_lower c"; simp)
  moreover have "nul_free (Compy_LowerTransport_str (tc_lower c))" by (cases "tc_lower c") simp_all
  ultimately show "plain_header (COMPY_HEADER_TRANSPORT, transport_text c)"
    by (intro plain_header_line) (simp_all add: transport_text_def transport_text_nul_free header_defs)
qed

section \<open>Answers without a body\<close>

lemma Context_new_sel [simp]:
  "ctx_header_map (Compy_Context_new w cseq) = []" "ctx_body (Compy_Context_new w cseq) = []"
  "ctx_cseq (Compy_Context_new w cseq) = cseq" "ctx_writer (Compy_Context_new w cseq) = w"
  by (simp_all add: Compy_Context_new_def Compy_HeaderMap_empty_def Compy_MessageBody_empty_def)

lemma respond_headers:
  assumes "list_all plain_header hs" "length hs \<le> 30" "wf_line reason" "nul_free reason"
  obtains msg where "compy_respond compy_string_writer ((Compy_Context_new w cseq)\<lparr>ctx_header_map := map header_of hs\<rparr>) code reason =
      Some (int (length msg), (Compy_Context_new w cseq)\<lparr>ctx_header_map := map header_of hs,
        ctx_ret := int (length msg), ctx_writer := w @ msg\<rparr>)"
    "reads_as en msg code reason cseq hs []"
proof (rule respond_reads_as [of "(Compy_Context_new w cseq)\<lparr>ctx_header_map := map header_of hs\<rparr>" hs reason code en])
qed (use assms that in \<open>simp_all add: COMPY_HEADER_MAP_CAPACITY_def no_cr_end_def ends_with_def\<close>)

lemma respond_bare:
  assumes "wf_line reason" "nul_free reason"
  obtains msg where "compy_respond compy_string_writer (Compy_Context_new w cseq) code reason =
      Some (int (length msg), (Compy_Context_new w cseq)\<lparr>ctx_ret := int (length msg), ctx_writer := w @ msg\<rparr>)"
    "reads_as en msg code reason cseq [] []"
proof (rule respond_reads_as [of "Compy_Context_new w cseq" "[]" reason code en])
qed (use assms that in \<open>simp_all add: COMPY_HEADER_MAP_CAPACITY_def no_cr_end_def ends_with_def\<close>)

section \<open>SETUP over the connection\<close>

definition tcp_config :: "Compy_ChannelPair \<Rightarrow> Compy_TransportConfig" where
  "tcp_config ch = \<lparr>tc_lower = Compy_LowerTransport_TCP, tc_unicast = True, tc_multicast = False,
     tc_interleaved = Some ch, tc_client_port = None, tc_server_port = None\<rparr>"

lemma setup_tcp_ok:
  assumes "tc_interleaved config = Some ch" "length (ctx_header_map ctx) < COMPY_HEADER_MAP_CAPACITY"
  shows "setup_tcp W ctx config =
     Some (Some (TcpTransport (rtp_channel ch) 0, TcpTransport (rtcp_channel ch) 0),
       ctx\<lparr>ctx_header_map := ctx_header_map ctx @ [header_of (COMPY_HEADER_TRANSPORT, transport_text (tcp_config ch))]\<rparr>)"
proof -
  have "''RTP/AVP/TCP;unicast;interleaved='' @ show_nat (unat (rtp_channel ch)) @ ''-'' @ show_nat (unat (rtcp_channel ch)) =
      transport_text (tcp_config ch)"
    by (simp add: transport_text_def transport_params_def params_text_def tcp_config_def range_text_def)
  then show ?thesis
    using compy_header_plain [OF plain_headers(4) assms(2)] by (simp add: setup_tcp_def assms(1))
qed

definition asks_interleaved :: "Compy_Request \<Rightarrow> Compy_ChannelPair \<Rightarrow> bool" where
  "asks_interleaved req ch \<longleftrightarrow>
     (case Compy_HeaderMap_find (req_header_map req) COMPY_HEADER_TRANSPORT \<bind> compy_parse_transport of
        None \<Rightarrow> False
      | Some config \<Rightarrow> tc_lower config = Compy_LowerTransport_TCP \<and> tc_interleaved config = Some ch)"

text \<open>The session a SETUP is for: the one it names, or a new one.\<close>

definition setup_session :: "outside \<Rightarrow> Compy_Request \<Rightarrow> u64 option" where
  "setup_session out req =
     (case Compy_HeaderMap_find (req_header_map req) COMPY_HEADER_SESSION of
        None \<Rightarrow> Some (o_sid out)
      | Some v \<Rightarrow> sscanf_unsigned (c_str v))"

lemma setup_session_cases:
  "(if Compy_HeaderMap_contains_key (req_header_map req) COMPY_HEADER_SESSION
    then compy_scanf_header (req_header_map req) COMPY_HEADER_SESSION sscanf_unsigned else Some (o_sid out)) =
   setup_session out req"
  by (simp add: setup_session_def compy_scanf_header_def Compy_HeaderMap_contains_key_def split: option.split)

definition malformed_session :: string where
  "malformed_session = ''Malformed '' @ [CHR 0x60] @ ''Session'' @ [CHR 0x27]"

text \<open>What SETUP leaves and answers once it has transports \<open>t\<close> and \<open>rtcp_t\<close> and has added the header \<open>h\<close>.\<close>

definition setup_outcome ::
  "outside \<Rightarrow> Compy_Request \<Rightarrow> conn_transport \<times> conn_transport \<Rightarrow> string \<times> string \<Rightarrow> Client \<Rightarrow>
     Client \<times> Compy_StatusCode \<times> string \<times> (string \<times> string) list" where
  "setup_outcome out req ts h cl =
     (case setup_session out req of
        Some sid \<Rightarrow>
          (setup_stream out (setup_stream_id req) sid (fst ts) (snd ts) cl, COMPY_STATUS_OK, ''OK'',
           [h, (COMPY_HEADER_SESSION, show_nat (unat sid))])
      | None \<Rightarrow> (cl, COMPY_STATUS_BAD_REQUEST, malformed_session, [h]))"

lemma setup_answers:
  assumes "setup_transport en compy_string_writer srv out cl (Compy_Context_new w cseq) req =
      Some (Some ts, cl', (Compy_Context_new w cseq)\<lparr>ctx_header_map := [header_of h]\<rparr>)" "plain_header h"
    and "setup_outcome out req ts h cl' = (cl2, code, reason, hs)"
  obtains ctx msg where "Client_setup en compy_string_writer srv out (auth, cl) (Compy_Context_new w cseq) req = Some ((auth, cl2), ctx)"
    "ctx_writer ctx = w @ msg" "reads_as en msg code reason cseq hs []"
proof -
  have hs: "list_all plain_header hs" "length hs \<le> 30" "wf_line reason" "nul_free reason"
    using assms(2,3) plain_headers(1)
    by (auto simp: setup_outcome_def malformed_session_def wf_line_def starts_with_def split: option.splits)
  obtain msg where msg: "compy_respond compy_string_writer ((Compy_Context_new w cseq)\<lparr>ctx_header_map := map header_of hs\<rparr>) code reason =
      Some (int (length msg), (Compy_Context_new w cseq)\<lparr>ctx_header_map := map header_of hs,
        ctx_ret := int (length msg), ctx_writer := w @ msg\<rparr>)"
    "reads_as en msg code reason cseq hs []"
    by (rule respond_headers [OF hs])
  let ?ctx = "(Compy_Context_new w cseq)\<lparr>ctx_header_map := map header_of hs, ctx_ret := int (length msg), ctx_writer := w @ msg\<rparr>"
  show thesis
  proof (cases "setup_session out req")
    case None
    then have out: "cl2 = cl'" "code = COMPY_STATUS_BAD_REQUEST" "reason = malformed_session" "hs = [h]"
      using assms(3) by (simp_all add: setup_outcome_def)
    show thesis
      by (rule that [of ?ctx, OF _ _ msg(2)]) (use msg(1) in \<open>simp_all add: Client_setup_def assms(1) setup_session_cases None out
          case_prod_beta malformed_session_def\<close>)
  next
    case (Some sid)
    then have out: "cl2 = setup_stream out (setup_stream_id req) sid (fst ts) (snd ts) cl'" "code = COMPY_STATUS_OK" "reason = ''OK''"
      "hs = [h, (COMPY_HEADER_SESSION, show_nat (unat sid))]"
      using assms(3) by (simp_all add: setup_outcome_def)
    have "compy_header ((Compy_Context_new w cseq)\<lparr>ctx_header_map := [header_of h]\<rparr>) COMPY_HEADER_SESSION (show_nat (unat sid)) =
        Some ((Compy_Context_new w cseq)\<lparr>ctx_header_map := map header_of hs\<rparr>)"
      using compy_header_plain [OF plain_headers(1), of "(Compy_Context_new w cseq)\<lparr>ctx_header_map := [header_of h]\<rparr>"]
      by (simp add: out COMPY_HEADER_MAP_CAPACITY_def)
    then show thesis
      by (intro that [of ?ctx, OF _ _ msg(2)]) (use msg(1) in \<open>simp_all add: Client_setup_def assms(1) setup_session_cases Some out(1-3)
          case_prod_beta compy_respond_ok_def\<close>)
  qed
qed

lemma setup_interleaved_ok:
  assumes "asks_interleaved req ch" "setup_session out req = Some sid"
  obtains ctx msg where "Client_setup en compy_string_writer srv out (auth, cl) (Compy_Context_new w cseq) req =
      Some ((auth, setup_stream out (setup_stream_id req) sid (TcpTransport (rtp_channel ch) 0)
        (TcpTransport (rtcp_channel ch) 0) cl), ctx)"
    "ctx_writer ctx = w @ msg"
    "reads_as en msg COMPY_STATUS_OK ''OK'' cseq
       [(COMPY_HEADER_TRANSPORT, transport_text (tcp_config ch)), (COMPY_HEADER_SESSION, show_nat (unat sid))] []"
proof -
  let ?h = "(COMPY_HEADER_TRANSPORT, transport_text (tcp_config ch))"
  let ?ts = "(TcpTransport (rtp_channel ch) 0, TcpTransport (rtcp_channel ch) 0)"
  obtain config where config: "tc_lower config = Compy_LowerTransport_TCP" "tc_interleaved config = Some ch"
    and find: "Compy_HeaderMap_find (req_header_map req) COMPY_HEADER_TRANSPORT \<bind> compy_parse_transport = Some config"
    using assms(1) by (auto simp: asks_interleaved_def split: option.splits)
  have ran: "setup_transport en compy_string_writer srv out cl (Compy_Context_new w cseq) req =
      Some (Some ?ts, cl, (Compy_Context_new w cseq)\<lparr>ctx_header_map := [header_of ?h]\<rparr>)"
    using find setup_tcp_ok [OF config(2), of "Compy_Context_new w cseq"]
    by (auto simp: setup_transport_def config COMPY_HEADER_MAP_CAPACITY_def split: option.splits bind_splits)
  have "setup_outcome out req ?ts ?h cl = (setup_stream out (setup_stream_id req) sid (fst ?ts) (snd ?ts) cl, COMPY_STATUS_OK, ''OK'',
      [?h, (COMPY_HEADER_SESSION, show_nat (unat sid))])"
    by (simp add: setup_outcome_def assms(2))
  then show thesis by (rule setup_answers [OF ran plain_headers(4), of _ _ _ _ auth]) (use that in simp)
qed

section \<open>Dispatch\<close>

text \<open>Dispatch with no authentication configured: the hooks change nothing.\<close>

lemma server_dispatch:
  assumes "map_of (handler_table (server_controller en W lookup e srv out)) (rql_method (req_start_line req)) = Some h"
  shows "compy_dispatch (server_controller en W lookup e srv out) (None, cl) w req =
     h (None, cl) (Compy_Context_new w (req_cseq req)) req \<bind> (\<lambda>(self, ctx). Some (self, ctx_writer ctx))"
proof -
  let ?con = "server_controller en W lookup e srv out"
  have "con_before ?con (None, cl) (Compy_Context_new w (req_cseq req)) req =
      Some (Compy_ControlFlow_Continue, (None, cl), Compy_Context_new w (req_cseq req))"
    by (simp add: server_controller_def Client_before_def)
  from dispatch_continue [OF this] assms show ?thesis
    by (simp add: dispatch_method_table) (simp add: server_controller_def Client_after_def split: bind_splits)
qed

section \<open>PLAY and TEARDOWN of a stream that was set up\<close>

text \<open>The request names the session in the way the server printed it.\<close>

definition names_session :: "Compy_Request \<Rightarrow> u64 \<Rightarrow> bool" where
  "names_session req sid \<longleftrightarrow> Compy_HeaderMap_find (req_header_map req) COMPY_HEADER_SESSION = Some (show_nat (unat sid))"

lemma names_session_scanned:
  "names_session req sid \<Longrightarrow> compy_scanf_header (req_header_map req) COMPY_HEADER_SESSION sscanf_unsigned = Some sid"
  by (simp add: names_session_def compy_scanf_header_def c_str_id sscanf_unsigned_show_nat)

text \<open>The client in which stream \<open>i\<close> alone was set up, and then plays on timer 0 with reports on timer 1.\<close>

definition one_stream :: "sockaddr \<Rightarrow> kernel \<Rightarrow> nat \<Rightarrow> Stream \<Rightarrow> Client" where
  "one_stream addr k i stream = (Client_new addr k)\<lparr>cl_streams := (replicate MAX_STREAMS Stream_0)[i := stream]\<rparr>"

definition playing :: "nat \<Rightarrow> Stream \<Rightarrow> Stream" where
  "playing i stream = stream\<lparr>sm_ev := Some 0, sm_rtcp_ev := Some 1,
     sm_ctx := Some (if AUDIO_STREAM_ID = i then AudioPlayer True else VideoPlayer)\<rparr>"

lemmas stream_ids = AUDIO_STREAM_ID_def VIDEO_STREAM_ID_def BACKCHANNEL_STREAM_ID_def MAX_STREAMS_def
lemmas timer_defs = event_new_def event_add_def event_del_def

lemma stream_id_cases:
  assumes "i < MAX_STREAMS"
  obtains "i = 0" | "i = 1" | "i = 2"
proof -
  have "i = 0 \<or> i = 1 \<or> i = 2" using assms unfolding MAX_STREAMS_def by linarith
  with that show thesis by blast
qed

lemma play_one_stream:
  assumes "i < MAX_STREAMS" "sm_session_id stream \<noteq> 0" "sm_transport stream \<noteq> None" "sm_rtcp stream \<noteq> None"
    and "sm_rtcp_ev stream = None"
  shows "play_loop (sm_session_id stream) [0..<MAX_STREAMS] False (one_stream addr k i stream) =
     Some (True, (one_stream addr k i (playing i stream))\<lparr>cl_streams_playing := 1, cl_events := [True, True]\<rparr>)"
proof -
  from assms(1) show ?thesis
    by (rule stream_id_cases)
      (use assms in \<open>simp_all add: one_stream_def playing_def Client_new_def Stream_0_def play_stream_def timer_defs Let_def
        stream_ids upt_rec numeral_2_eq_2 numeral_3_eq_3\<close>)
qed

lemma teardown_one_stream:
  assumes "i < MAX_STREAMS" "sm_session_id stream \<noteq> 0" "sm_ev stream = Some e"
  shows "teardown_loop (sm_session_id stream) [0..<MAX_STREAMS] False
       ((one_stream addr k i stream)\<lparr>cl_streams_playing := n, cl_events := evs\<rparr>) =
     Some (True, (one_stream addr k i stream)\<lparr>cl_streams_playing := n, cl_events := evs[e := False]\<rparr>)"
proof -
  from assms(1) show ?thesis
    by (rule stream_id_cases)
      (use assms in \<open>simp_all add: one_stream_def Client_new_def Stream_0_def timer_defs stream_ids upt_rec
        numeral_2_eq_2 numeral_3_eq_3\<close>)
qed

lemma play_session_ok:
  assumes "names_session req sid" "play_loop sid [0..<MAX_STREAMS] False cl = Some (True, cl')"
  obtains ctx msg where "Client_play compy_string_writer (auth, cl) (Compy_Context_new w cseq) req = Some ((auth, cl'), ctx)"
    "ctx_writer ctx = w @ msg" "reads_as en msg COMPY_STATUS_OK ''OK'' cseq [(COMPY_HEADER_RANGE, ''npt=now-'')] []"
proof -
  let ?hs = "[(COMPY_HEADER_RANGE, ''npt=now-'')]"
  let ?ctx = "(Compy_Context_new w cseq)\<lparr>ctx_header_map := map header_of ?hs\<rparr>"
  obtain msg where "compy_respond compy_string_writer ?ctx COMPY_STATUS_OK ''OK'' =
      Some (int (length msg), ?ctx\<lparr>ctx_ret := int (length msg), ctx_writer := w @ msg\<rparr>)"
    "reads_as en msg COMPY_STATUS_OK ''OK'' cseq ?hs []"
    by (rule respond_headers [of ?hs "''OK''"]) (simp_all add: plain_headers wf_line_def starts_with_def)
  then show thesis
    using that names_session_scanned [OF assms(1)] compy_header_plain [OF plain_headers(2), of "Compy_Context_new w cseq"]
    by (simp add: Client_play_def assms(2) compy_respond_ok_def COMPY_HEADER_MAP_CAPACITY_def)
qed

lemma teardown_session_ok:
  assumes "names_session req sid" "teardown_loop sid [0..<MAX_STREAMS] False cl = Some (True, cl')"
  obtains ctx msg where "Client_teardown compy_string_writer (auth, cl) (Compy_Context_new w cseq) req = Some ((auth, cl'), ctx)"
    "ctx_writer ctx = w @ msg" "reads_as en msg COMPY_STATUS_OK ''OK'' cseq [] []"
proof -
  obtain msg where "compy_respond compy_string_writer (Compy_Context_new w cseq) COMPY_STATUS_OK ''OK'' =
      Some (int (length msg), (Compy_Context_new w cseq)\<lparr>ctx_ret := int (length msg), ctx_writer := w @ msg\<rparr>)"
    "reads_as en msg COMPY_STATUS_OK ''OK'' cseq [] []"
    by (rule respond_bare [of "''OK''"]) (simp_all add: wf_line_def starts_with_def)
  then show thesis
    using that names_session_scanned [OF assms(1)] by (simp add: Client_teardown_def assms(2) compy_respond_ok_def)
qed

section \<open>The life of a session\<close>

text \<open>The stream a SETUP over the connection leaves.\<close>

definition interleaved_stream :: "outside \<Rightarrow> nat \<Rightarrow> Compy_ChannelPair \<Rightarrow> Stream" where
  "interleaved_stream out i ch = Stream_0\<lparr>sm_session_id := o_sid out,
     sm_transport := Some (Compy_RtpTransport_new (TcpTransport (rtp_channel ch) 0)
       (if AUDIO_STREAM_ID = i then AUDIO_PCMU_PAYLOAD_TYPE else VIDEO_PAYLOAD_TYPE)
       (if AUDIO_STREAM_ID = i then AUDIO_SAMPLE_RATE else VIDEO_SAMPLE_RATE)
       (o_rng out) (o_rand1 out) (o_rand2 out) (o_fresh out)),
     sm_rtcp := Some (Compy_Rtcp_new (TcpTransport (rtcp_channel ch) 0) cname)\<rparr>"

lemma setup_fresh_stream:
  assumes "i \<noteq> BACKCHANNEL_STREAM_ID" "i < MAX_STREAMS"
  shows "setup_stream out i (o_sid out) (TcpTransport (rtp_channel ch) 0) (TcpTransport (rtcp_channel ch) 0) (Client_new addr k) =
     one_stream addr k i (interleaved_stream out i ch)"
  using assms by (auto simp: setup_stream_def one_stream_def interleaved_stream_def Client_new_def Let_def)

lemma interleaved_stream_sel:
  "sm_session_id (interleaved_stream out i ch) = o_sid out" "sm_session_id (playing i (interleaved_stream out i ch)) = o_sid out"
  "sm_ev (playing i (interleaved_stream out i ch)) = Some 0" "sm_transport (interleaved_stream out i ch) \<noteq> None"
  "sm_rtcp (interleaved_stream out i ch) \<noteq> None" "sm_rtcp_ev (interleaved_stream out i ch) = None"
  by (simp_all add: interleaved_stream_def playing_def Stream_0_def)

lemma server_table:
  "map_of (handler_table (server_controller en W lookup e srv out)) ''SETUP'' = Some (Client_setup en W srv out)"
  "map_of (handler_table (server_controller en W lookup e srv out)) ''PLAY'' = Some (Client_play W)"
  "map_of (handler_table (server_controller en W lookup e srv out)) ''TEARDOWN'' = Some (Client_teardown W)"
  "map_of (handler_table (server_controller en W lookup e srv out)) ''DESCRIBE'' = Some (Client_describe W srv)"
  by (simp_all add: handler_table_def server_controller_def)

lemma setup_stream_id_bound: "setup_stream_id req < MAX_STREAMS"
  by (simp add: setup_stream_id_def stream_ids)

text \<open>
  C8. A session over one connection lives as the protocol has it. With no authentication configured, a client sets
  up the video or the audio stream of a connection that was just accepted, on two interleaved channels and with no
  session of its own, then plays and then tears down the session it was given, in the form it was printed. It reads
  three responses, each 200 with the \<open>CSeq\<close> of its request: the first with the transport, which reads back as those
  channels, and the session, the second with the range. After PLAY the stream's packets and reports have pending
  timers and one stream plays; the others are as they were. After TEARDOWN the timer of the packets is stopped; the
  one of the reports still runs.
\<close>

theorem server_session_life:
  assumes "asks_interleaved req1 ch" "Compy_HeaderMap_find (req_header_map req1) COMPY_HEADER_SESSION = None"
    and "setup_stream_id req1 = i" "i \<noteq> BACKCHANNEL_STREAM_ID" "o_sid out \<noteq> 0"
    and "names_session req2 (o_sid out)" "names_session req3 (o_sid out)"
    and "rql_method (req_start_line req1) = ''SETUP''" "rql_method (req_start_line req2) = ''PLAY''"
      "rql_method (req_start_line req3) = ''TEARDOWN''"
  shows "let con = server_controller en compy_string_writer lookup e srv out;
       cl = one_stream addr k i (interleaved_stream out i ch);
       cl' = (one_stream addr k i (playing i (interleaved_stream out i ch)))\<lparr>cl_streams_playing := 1, cl_events := [True, True]\<rparr>
     in \<exists>msg1 msg2 msg3.
       compy_dispatch con (None, Client_new addr k) w req1 = Some ((None, cl), w @ msg1) \<and>
       compy_dispatch con (None, cl) (w @ msg1) req2 = Some ((None, cl'), w @ msg1 @ msg2) \<and>
       compy_dispatch con (None, cl') (w @ msg1 @ msg2) req3 =
         Some ((None, cl'\<lparr>cl_events := [False, True]\<rparr>), w @ msg1 @ msg2 @ msg3) \<and>
       reads_as en msg1 COMPY_STATUS_OK ''OK'' (req_cseq req1)
         [(COMPY_HEADER_TRANSPORT, transport_text (tcp_config ch)), (COMPY_HEADER_SESSION, show_nat (unat (o_sid out)))] [] \<and>
       reads_as en msg2 COMPY_STATUS_OK ''OK'' (req_cseq req2) [(COMPY_HEADER_RANGE, ''npt=now-'')] [] \<and>
       reads_as en msg3 COMPY_STATUS_OK ''OK'' (req_cseq req3) [] [] \<and>
       compy_parse_transport (transport_text (tcp_config ch)) = Some (tcp_config ch)"
proof -
  let ?con = "server_controller en compy_string_writer lookup e srv out" and ?st = "interleaved_stream out i ch"
  let ?cl = "one_stream addr k i ?st"
  let ?cl' = "(one_stream addr k i (playing i ?st))\<lparr>cl_streams_playing := 1, cl_events := [True, True]\<rparr>"
  have i: "i < MAX_STREAMS" using setup_stream_id_bound assms(3) by blast
  note st = interleaved_stream_sel
  have "setup_session out req1 = Some (o_sid out)" by (simp add: setup_session_def assms(2))
  then obtain ctx1 msg1 where 1: "Client_setup en compy_string_writer srv out (None, Client_new addr k)
      (Compy_Context_new w (req_cseq req1)) req1 = Some ((None, ?cl), ctx1)" "ctx_writer ctx1 = w @ msg1"
    "reads_as en msg1 COMPY_STATUS_OK ''OK'' (req_cseq req1)
       [(COMPY_HEADER_TRANSPORT, transport_text (tcp_config ch)), (COMPY_HEADER_SESSION, show_nat (unat (o_sid out)))] []"
    by (rule setup_interleaved_ok [OF assms(1), where w = w and auth = None and cl = "Client_new addr k"])
      (use setup_fresh_stream [OF assms(4) i] assms(3) in auto)
  have "play_loop (o_sid out) [0..<MAX_STREAMS] False ?cl = Some (True, ?cl')"
    using play_one_stream [OF i, of ?st] st assms(5) by simp
  then obtain ctx2 msg2 where 2: "Client_play compy_string_writer (None, ?cl) (Compy_Context_new (w @ msg1) (req_cseq req2)) req2 =
      Some ((None, ?cl'), ctx2)" "ctx_writer ctx2 = (w @ msg1) @ msg2"
    "reads_as en msg2 COMPY_STATUS_OK ''OK'' (req_cseq req2) [(COMPY_HEADER_RANGE, ''npt=now-'')] []"
    by (rule play_session_ok [OF assms(6)])
  have "teardown_loop (o_sid out) [0..<MAX_STREAMS] False ?cl' = Some (True, ?cl'\<lparr>cl_events := [False, True]\<rparr>)"
    using teardown_one_stream [OF i, where stream = "playing i ?st" and n = 1 and evs = "[True, True]"] st assms(5) by simp
  then obtain ctx3 msg3 where 3: "Client_teardown compy_string_writer (None, ?cl')
      (Compy_Context_new ((w @ msg1) @ msg2) (req_cseq req3)) req3 =
      Some ((None, ?cl'\<lparr>cl_events := [False, True]\<rparr>), ctx3)" "ctx_writer ctx3 = ((w @ msg1) @ msg2) @ msg3"
    "reads_as en msg3 COMPY_STATUS_OK ''OK'' (req_cseq req3) [] []"
    by (rule teardown_session_ok [OF assms(7)])
  note dispatched = server_dispatch [where en = en and W = compy_string_writer and lookup = lookup and e = e and srv = srv
      and out = out]
  have "compy_dispatch ?con (None, Client_new addr k) w req1 = Some ((None, ?cl), w @ msg1)"
    "compy_dispatch ?con (None, ?cl) (w @ msg1) req2 = Some ((None, ?cl'), w @ msg1 @ msg2)"
    "compy_dispatch ?con (None, ?cl') (w @ msg1 @ msg2) req3 =
       Some ((None, ?cl'\<lparr>cl_events := [False, True]\<rparr>), w @ msg1 @ msg2 @ msg3)"
    using dispatched [of req1] dispatched [of req2] dispatched [of req3] assms(8-10) 1 2 3 by (simp_all add: server_table)
  with 1(3) 2(3) 3(3) show ?thesis using parse_transport_text by (simp only: Let_def) blast
qed

text \<open>Sample requests, server and surroundings.\<close>

definition sample_request :: "string \<Rightarrow> string \<Rightarrow> Compy_HeaderMap \<Rightarrow> u32 \<Rightarrow> Compy_Request" where
  "sample_request meth uri hs cseq =
     \<lparr>req_start_line = \<lparr>rql_method = meth, rql_uri = uri, rql_version = \<lparr>ver_major = 1, ver_minor = 0\<rparr>\<rparr>,
      req_header_map = hs, req_body = [], req_cseq = cseq\<rparr>"

definition sample_setup :: Compy_Request where
  "sample_setup = sample_request ''SETUP'' ''rtsp://camera/video''
     [header_of (''Transport'', ''RTP/AVP/TCP;unicast;interleaved=0-1'')] 2"

definition sample_play :: Compy_Request where
  "sample_play = sample_request ''PLAY'' ''rtsp://camera/'' [header_of (''Session'', ''5'')] 3"

definition sample_teardown :: Compy_Request where
  "sample_teardown = sample_request ''TEARDOWN'' ''rtsp://camera/'' [header_of (''Session'', ''5'')] 4"

definition sample_outside :: outside where
  "sample_outside = \<lparr>o_sid = 5, o_rng = None, o_rand1 = 1, o_rand2 = 2, o_fresh = 0, o_local_port = (\<lambda>_. None)\<rparr>"

definition sample_server :: server where
  "sample_server = \<lparr>sv_video_fps = 25, sv_srtp_key = None, sv_srtp_ops = toy_ops\<rparr>"

definition sample_addr :: sockaddr where
  "sample_addr = \<lparr>sa_family = AF_INET, sa_ip = [10, 0, 0, 7], sa_port = 0\<rparr>"

definition sample_kernel :: kernel where
  "sample_kernel = \<lparr>k_open = [0, 1, 2], k_peer = (\<lambda>_. None), k_bound = (\<lambda>_. None), k_calls = 0, k_env = (\<lambda>_. True)\<rparr>"

lemma sample_setup_ok:
  "asks_interleaved sample_setup \<lparr>rtp_channel = 0, rtcp_channel = 1\<rparr>"
  "Compy_HeaderMap_find (req_header_map sample_setup) COMPY_HEADER_SESSION = None"
  "setup_stream_id sample_setup = 1" "names_session sample_play (o_sid sample_outside)"
  "names_session sample_teardown (o_sid sample_outside)"
proof -
  have "''RTP/AVP/TCP;unicast;interleaved=0-1'' = transport_text (tcp_config \<lparr>rtp_channel = 0, rtcp_channel = 1\<rparr>)"
    by (simp add: transport_text_def transport_params_def params_text_def tcp_config_def range_text_def show_nat.simps digit_char_def char_of_def
        bit_numeral_rec bit_Suc_0_iff)
  then show "asks_interleaved sample_setup \<lparr>rtp_channel = 0, rtcp_channel = 1\<rparr>"
    by (simp add: asks_interleaved_def sample_setup_def sample_request_def header_of_def COMPY_HEADER_TRANSPORT_def
        parse_transport_text del: append.simps) (simp add: tcp_config_def)
  show "Compy_HeaderMap_find (req_header_map sample_setup) COMPY_HEADER_SESSION = None"
    by (simp add: sample_setup_def sample_request_def header_of_def COMPY_HEADER_SESSION_def)
  show "setup_stream_id sample_setup = 1"
    by (simp add: setup_stream_id_def sample_setup_def sample_request_def ends_with_def stream_ids)
  show "names_session sample_play (o_sid sample_outside)" "names_session sample_teardown (o_sid sample_outside)"
    by (simp_all add: names_session_def sample_play_def sample_teardown_def sample_request_def header_of_def
        COMPY_HEADER_SESSION_def sample_outside_def show_nat.simps digit_char_def char_of_def bit_numeral_rec bit_Suc_0_iff)
qed

theorem server_session_life_witness:
  "let con = server_controller LittleEndian compy_string_writer sample_lookup \<lparr>getrandom = [], urandom = None\<rparr>
         sample_server sample_outside;
       st = interleaved_stream sample_outside 1 \<lparr>rtp_channel = 0, rtcp_channel = 1\<rparr>;
       cl' = (one_stream sample_addr sample_kernel 1 (playing 1 st))\<lparr>cl_streams_playing := 1, cl_events := [True, True]\<rparr>
   in \<exists>msg1 msg2 msg3.
       compy_dispatch con (None, Client_new sample_addr sample_kernel) [] sample_setup =
         Some ((None, one_stream sample_addr sample_kernel 1 st), msg1) \<and>
       compy_dispatch con (None, one_stream sample_addr sample_kernel 1 st) msg1 sample_play = Some ((None, cl'), msg1 @ msg2) \<and>
       compy_dispatch con (None, cl') (msg1 @ msg2) sample_teardown =
         Some ((None, cl'\<lparr>cl_events := [False, True]\<rparr>), msg1 @ msg2 @ msg3)"
proof -
  have "rql_method (req_start_line sample_setup) = ''SETUP''" "rql_method (req_start_line sample_play) = ''PLAY''"
    "rql_method (req_start_line sample_teardown) = ''TEARDOWN''" "(1::nat) \<noteq> BACKCHANNEL_STREAM_ID" "o_sid sample_outside \<noteq> 0"
    by (simp_all add: sample_setup_def sample_play_def sample_teardown_def sample_request_def sample_outside_def stream_ids)
  from server_session_life [OF sample_setup_ok(1-3) this(4,5) sample_setup_ok(4,5) this(1-3), of LittleEndian sample_lookup
      "\<lparr>getrandom = [], urandom = None\<rparr>" sample_server sample_addr sample_kernel "[]"]
  show ?thesis unfolding Let_def append_Nil by blast
qed

section \<open>Requests that stop the server\<close>

lemma play_stream_frame:
  assumes "play_stream i cl = Some cl'" "j \<noteq> i"
  shows "cl_streams cl' ! j = cl_streams cl ! j"
  using assms by (auto simp: play_stream_def timer_defs Let_def split: if_splits)

lemma play_stream_fault: "play_stream i cl = None \<longleftrightarrow> i \<noteq> AUDIO_STREAM_ID \<and> sm_transport (cl_streams cl ! i) = None"
  by (auto simp: play_stream_def timer_defs Let_def)

lemma play_loop_fault:
  "distinct is \<Longrightarrow> play_loop sid is played cl = None \<longleftrightarrow>
     (\<exists>i. i \<in> set is \<and> i \<noteq> AUDIO_STREAM_ID \<and> sm_session_id (cl_streams cl ! i) = sid \<and> sm_transport (cl_streams cl ! i) = None)"
proof (induction "is" arbitrary: played cl)
  case (Cons i "is")
  show ?case
  proof (cases "sm_session_id (cl_streams cl ! i) = sid")
    case True
    show ?thesis
    proof (cases "play_stream i cl")
      case None
      then show ?thesis using True play_stream_fault [of i cl] by auto
    next
      case (Some cl')
      then have "sm_transport (cl_streams cl ! i) \<noteq> None \<or> i = AUDIO_STREAM_ID" using play_stream_fault [of i cl] by auto
      moreover have "\<forall>j \<in> set is. cl_streams cl' ! j = cl_streams cl ! j"
        using play_stream_frame [OF Some] Cons.prems by (metis distinct.simps(2))
      ultimately show ?thesis using True Some Cons by auto
    qed
  qed (use Cons in auto)
qed simp

lemma teardown_loop_fault:
  "teardown_loop sid is t cl = None \<longleftrightarrow>
     (\<exists>i. i \<in> set is \<and> sm_session_id (cl_streams cl ! i) = sid \<and> sm_ev (cl_streams cl ! i) = None)"
proof (induction "is" arbitrary: t cl)
  case (Cons i "is")
  show ?case
    by (cases "sm_session_id (cl_streams cl ! i) = sid"; cases "sm_ev (cl_streams cl ! i)") (use Cons in \<open>auto simp: event_del_def\<close>)
qed simp

lemma respond_not_found:
  "\<exists>r. compy_respond compy_string_writer (Compy_Context_new w cseq) COMPY_STATUS_SESSION_NOT_FOUND ''Invalid Session ID'' = Some r"
  by (rule respond_bare [of "''Invalid Session ID''" w cseq COMPY_STATUS_SESSION_NOT_FOUND]) (auto simp: wf_line_def starts_with_def)

lemma play_fault:
  assumes "names_session req sid"
  shows "Client_play compy_string_writer (auth, cl) (Compy_Context_new w cseq) req = None \<longleftrightarrow>
     play_loop sid [0..<MAX_STREAMS] False cl = None"
proof (cases "play_loop sid [0..<MAX_STREAMS] False cl")
  case (Some r)
  obtain played cl' where r: "r = (played, cl')" by (cases r)
  have "\<exists>r. Client_play compy_string_writer (auth, cl) (Compy_Context_new w cseq) req = Some r"
  proof (cases played)
    case True
    with Some r have "play_loop sid [0..<MAX_STREAMS] False cl = Some (True, cl')" by simp
    then show ?thesis by (rule play_session_ok [OF assms, of _ _ auth w cseq]) blast
  next
    case False
    then show ?thesis
      using Some r respond_not_found [of w cseq] by (auto simp: Client_play_def names_session_scanned [OF assms])
  qed
  with Some show ?thesis by simp
qed (simp add: Client_play_def names_session_scanned [OF assms])

lemma teardown_fault:
  assumes "names_session req sid"
  shows "Client_teardown compy_string_writer (auth, cl) (Compy_Context_new w cseq) req = None \<longleftrightarrow>
     teardown_loop sid [0..<MAX_STREAMS] False cl = None"
proof (cases "teardown_loop sid [0..<MAX_STREAMS] False cl")
  case (Some r)
  obtain t cl' where r: "r = (t, cl')" by (cases r)
  have "\<exists>r. Client_teardown compy_string_writer (auth, cl) (Compy_Context_new w cseq) req = Some r"
  proof (cases t)
    case True
    with Some r have "teardown_loop sid [0..<MAX_STREAMS] False cl = Some (True, cl')" by simp
    then show ?thesis by (rule teardown_session_ok [OF assms, of _ _ auth w cseq]) blast
  next
    case False
    then show ?thesis
      using Some r respond_not_found [of w cseq] by (auto simp: Client_teardown_def names_session_scanned [OF assms])
  qed
  with Some show ?thesis by simp
qed (simp add: Client_teardown_def names_session_scanned [OF assms])

text \<open>
  C24. Which sessions a client can name to stop the server, when no authentication is configured: PLAY fails exactly
  when the session is that of a stream other than the audio one which has no transport, and TEARDOWN exactly when it
  is that of a stream that was never played. In particular, a connection that was just accepted fails on both for
  session 0, which all its streams have.
\<close>

theorem server_faults:
  assumes "names_session req sid" "cl_streams cl = [audio, video, back]"
    and "con = server_controller en compy_string_writer lookup e srv out"
  shows "(rql_method (req_start_line req) = ''PLAY'' \<longrightarrow>
       (compy_dispatch con (None, cl) w req = None \<longleftrightarrow>
        (\<exists>s. s \<in> {video, back} \<and> sm_session_id s = sid \<and> sm_transport s = None))) \<and>
     (rql_method (req_start_line req) = ''TEARDOWN'' \<longrightarrow>
       (compy_dispatch con (None, cl) w req = None \<longleftrightarrow>
        (\<exists>s. s \<in> {audio, video, back} \<and> sm_session_id s = sid \<and> sm_ev s = None)))"
proof -
  have ids: "[0..<MAX_STREAMS] = [0, 1, 2]" by (simp add: MAX_STREAMS_def upt_rec)
  have p: "play_loop sid [0..<MAX_STREAMS] False cl = None \<longleftrightarrow>
      (\<exists>s. s \<in> {video, back} \<and> sm_session_id s = sid \<and> sm_transport s = None)"
    unfolding ids
    by (subst play_loop_fault) (simp_all add: assms(2) AUDIO_STREAM_ID_def conj_disj_distribR ex_disj_distrib)
  have t: "teardown_loop sid [0..<MAX_STREAMS] False cl = None \<longleftrightarrow>
      (\<exists>s. s \<in> {audio, video, back} \<and> sm_session_id s = sid \<and> sm_ev s = None)"
    unfolding ids teardown_loop_fault by (simp add: assms(2) conj_disj_distribR ex_disj_distrib)
  have bind: "(r \<bind> (\<lambda>(self, ctx). Some (self, ctx_writer ctx))) = None \<longleftrightarrow> r = None"
    for r :: "(Client client \<times> string Compy_Context) option" by (cases r) auto
  have "compy_dispatch con (None, cl) w req = None \<longleftrightarrow> h (None, cl) (Compy_Context_new w (req_cseq req)) req = None"
    if "map_of (handler_table con) (rql_method (req_start_line req)) = Some h" for h
    using server_dispatch that unfolding assms(3) by (subst server_dispatch) (blast, rule bind)
  from this [of "Client_play compy_string_writer"] this [of "Client_teardown compy_string_writer"] show ?thesis
    unfolding assms(3) server_table play_fault [OF assms(1)] teardown_fault [OF assms(1)] p t by (metis server_table(2,3))
qed

theorem server_faults_witness:
  "compy_dispatch (server_controller LittleEndian compy_string_writer sample_lookup \<lparr>getrandom = [], urandom = None\<rparr>
       sample_server sample_outside) (None, Client_new sample_addr sample_kernel) []
       (sample_request ''PLAY'' ''rtsp://camera/'' [header_of (''Session'', ''0'')] 3) = None"
proof -
  let ?req = "sample_request ''PLAY'' ''rtsp://camera/'' [header_of (''Session'', ''0'')] 3"
  have "names_session ?req 0"
    by (simp add: names_session_def sample_request_def header_of_def COMPY_HEADER_SESSION_def show_nat.simps digit_char_def
        char_of_def bit_numeral_rec bit_Suc_0_iff)
  from server_faults [OF this, of "Client_new sample_addr sample_kernel" Stream_0 Stream_0 Stream_0, OF _ refl] show ?thesis
    by (simp add: Client_new_def MAX_STREAMS_def numeral_3_eq_3 sample_request_def) (simp add: Stream_0_def)
qed

end
