(* ===== verification/Server_Invariant.thy ===== *)
theory Server_Invariant
  imports Server_Properties
begin

text \<open>
  The states of a client that any sequence of requests can lead to, authenticated or not and answered on any writer,
  and their invariant: which streams have transports, where the timers are, and that each stream sends on descriptors
  of its own that are open.
\<close>

section \<open>Reachable states\<close>

definition stream_fds :: "Stream \<Rightarrow> nat list" where
  "stream_fds s =
     (case sm_transport s of None \<Rightarrow> [] | Some t \<Rightarrow> (case transport_fd (rt_transport t) of None \<Rightarrow> [] | Some fd \<Rightarrow> [fd])) @
     (case sm_rtcp s of None \<Rightarrow> [] | Some r \<Rightarrow> (case transport_fd (rs_rtcp_transport r) of None \<Rightarrow> [] | Some fd \<Rightarrow> [fd]))"

definition stream_timers :: "Stream \<Rightarrow> nat list" where
  "stream_timers s =
     (case sm_ev s of None \<Rightarrow> [] | Some e \<Rightarrow> [e]) @ (case sm_rtcp_ev s of None \<Rightarrow> [] | Some e \<Rightarrow> [e])"

text \<open>One request, whatever the server gets from outside while it serves it.\<close>

inductive serves :: "endian \<Rightarrow> 'w Compy_Writer \<Rightarrow> server \<Rightarrow> Client \<Rightarrow> Client \<Rightarrow> bool"
  for en W srv where
  request: "serves en W srv cl cl'"
  if "compy_dispatch (server_controller en W lookup e srv out) (auth, cl) w req = Some ((auth', cl'), w')"

inductive reachable :: "endian \<Rightarrow> 'w Compy_Writer \<Rightarrow> server \<Rightarrow> sockaddr \<Rightarrow> kernel \<Rightarrow> Client \<Rightarrow> bool"
  for en W srv addr k where
  accepted: "reachable en W srv addr k (Client_new addr k)"
| served: "reachable en W srv addr k cl'" if "reachable en W srv addr k cl" "serves en W srv cl cl'"

inductive_cases servesE: "serves en W srv cl cl'"

section \<open>What a request can change\<close>

text \<open>
  The effects of the handlers on the client, without the answers: a flag, the sockets and transports of a stream, and
  timers. \<open>new_sockets\<close> are the descriptors that were opened.
\<close>

definition sockets_for :: "kernel \<Rightarrow> conn_transport \<Rightarrow> conn_transport \<Rightarrow> kernel \<Rightarrow> bool" where
  "sockets_for k t rtcp_t k' \<longleftrightarrow>
     (transport_fd t = None \<and> transport_fd rtcp_t = None \<and> k_open k' = k_open k) \<or>
     (\<exists>fd rtcp_fd. transport_fd t = Some fd \<and> transport_fd rtcp_t = Some rtcp_fd \<and>
        k_open k' = rtcp_fd # fd # k_open k \<and> fd \<noteq> rtcp_fd \<and> fd \<notin> set (k_open k) \<and> rtcp_fd \<notin> set (k_open k))"

lemma udp_transports_fd:
  "transport_fd (fst (udp_transports srv fd rtcp_fd)) = Some fd" "transport_fd (snd (udp_transports srv fd rtcp_fd)) = Some rtcp_fd"
  by (simp_all add: udp_transports_def transport_fd_def compy_transport_srtp_new_def compy_transport_srtcp_new_def
      srtp_derive_keys_def srtcp_derive_keys_def Let_def split: option.split)

lemma setup_udp_sockets:
  assumes "setup_udp en W srv out addr k ctx config = Some (ts, k', ctx')"
  shows "case ts of None \<Rightarrow> k_open k' = k_open k | Some (t, rtcp_t) \<Rightarrow> sockets_for k t rtcp_t k'"
proof (cases "tc_client_port config")
  case (Some p)
  define ip where "ip = (case compy_sockaddr_ip addr of Some ip \<Rightarrow> ip | None \<Rightarrow> [])"
  obtain fd k1 where s1: "compy_dgram_socket en (sa_family addr) ip (rtp_port p) k = (fd, k1)" by fastforce
  obtain rtcp_fd k2 where s2: "compy_dgram_socket en (sa_family addr) ip (rtcp_port p) k1 = (rtcp_fd, k2)" by fastforce
  note open1 = dgram_socket_open [where en = en and af = "sa_family addr" and ip = ip and port = "rtp_port p" and k = k, unfolded s1, simplified]
  note open2 = dgram_socket_open [where en = en and af = "sa_family addr" and ip = ip and port = "rtcp_port p" and k = k1, unfolded s2, simplified]
  note run = assms [unfolded setup_udp_def Some, simplified, folded ip_def, unfolded s1 s2 Let_def, simplified]
  consider "fd = -1" | "fd \<noteq> -1" "rtcp_fd = -1" | "fd \<noteq> -1" "rtcp_fd \<noteq> -1" by blast
  then show ?thesis
  proof cases
    case 1
    then show ?thesis using run open1 by (simp add: opened_def)
  next
    case 2
    then show ?thesis using run open1 open2 by (auto simp: s2 opened_def sys_close_def)
  next
    case 3
    then have "ts = Some (udp_transports srv (nat fd) (nat rtcp_fd))" "k' = k2" using run by (auto simp: s2 split: bind_splits)
    moreover have "sockets_for k (fst (udp_transports srv (nat fd) (nat rtcp_fd))) (snd (udp_transports srv (nat fd) (nat rtcp_fd))) k2"
      using open1 open2 3 by (auto simp: sockets_for_def udp_transports_fd opened_def)
    ultimately show ?thesis by (simp add: case_prod_beta)
  qed
qed (use assms in \<open>auto simp: setup_udp_def split: bind_splits\<close>)

lemma setup_tcp_sockets:
  assumes "setup_tcp W ctx config = Some (ts, ctx')"
  shows "case ts of None \<Rightarrow> True | Some (t, rtcp_t) \<Rightarrow> sockets_for k t rtcp_t k"
  using assms by (auto simp: setup_tcp_def sockets_for_def transport_fd_def split: option.splits bind_splits)

definition sockets_changed :: "Client \<Rightarrow> (conn_transport \<times> conn_transport) option \<Rightarrow> Client \<Rightarrow> bool" where
  "sockets_changed cl ts cl' \<longleftrightarrow> cl' = cl\<lparr>cl_kernel := cl_kernel cl'\<rparr> \<and>
     (case ts of
        None \<Rightarrow> k_open (cl_kernel cl') = k_open (cl_kernel cl)
      | Some (t, rtcp_t) \<Rightarrow> sockets_for (cl_kernel cl) t rtcp_t (cl_kernel cl'))"

lemma setup_transport_sockets:
  assumes "setup_transport en W srv out cl ctx req = Some (ts, cl', ctx')"
  shows "sockets_changed cl ts cl'"
proof -
  have refl: "sockets_changed cl None cl" by (simp add: sockets_changed_def)
  show ?thesis
  proof (cases "Compy_HeaderMap_find (req_header_map req) COMPY_HEADER_TRANSPORT \<bind> compy_parse_transport")
    case None
    then show ?thesis using assms refl by (auto simp: setup_transport_def split: option.splits bind_splits)
  next
    case (Some config)
    define inner where "inner = (case tc_lower config of
        Compy_LowerTransport_TCP \<Rightarrow> setup_tcp W ctx config \<bind> (\<lambda>(t, ctx). Some (t, cl, ctx))
      | Compy_LowerTransport_UDP \<Rightarrow>
          setup_udp en W srv out (cl_addr cl) (cl_kernel cl) ctx config \<bind> (\<lambda>(t, k, ctx). Some (t, cl\<lparr>cl_kernel := k\<rparr>, ctx)))"
    have "sockets_changed cl t c" if run: "inner = Some (t, c, x)" for t c x
    proof (cases "tc_lower config")
      case Compy_LowerTransport_TCP
      then obtain y where "setup_tcp W ctx config = Some (t, y)" "c = cl"
        using run by (auto simp: inner_def split: bind_splits)
      then show ?thesis using setup_tcp_sockets [of W ctx config t y "cl_kernel cl"]
        by (auto simp: sockets_changed_def split: option.splits)
    next
      case Compy_LowerTransport_UDP
      then obtain k y where "setup_udp en W srv out (cl_addr cl) (cl_kernel cl) ctx config = Some (t, k, y)" "c = cl\<lparr>cl_kernel := k\<rparr>"
        using run by (auto simp: inner_def split: bind_splits)
      then show ?thesis using setup_udp_sockets [of en W srv out "cl_addr cl" "cl_kernel cl" ctx config t k y]
        by (auto simp: sockets_changed_def split: option.splits)
    qed
    moreover have "setup_transport en W srv out cl ctx req = inner \<bind> (\<lambda>(t, self, ctx).
        if t = None then compy_respond_internal_error W ctx \<bind> (\<lambda>(_, ctx). Some (None, self, ctx)) else Some (t, self, ctx))"
      using Some by (cases "Compy_HeaderMap_find (req_header_map req) COMPY_HEADER_TRANSPORT") (simp_all add: setup_transport_def inner_def)
    ultimately show ?thesis using assms by (auto split: bind_splits if_splits)
  qed
qed

section \<open>The invariant\<close>

definition client_fds :: "Client \<Rightarrow> nat list" where
  "client_fds cl = concat (map stream_fds (cl_streams cl))"

definition client_timers :: "Client \<Rightarrow> nat list" where
  "client_timers cl = concat (map stream_timers (cl_streams cl))"

definition streams_ok :: "Stream list \<Rightarrow> bool" where
  "streams_ok ss \<longleftrightarrow> length ss = MAX_STREAMS \<and> sm_transport (ss ! BACKCHANNEL_STREAM_ID) = None \<and>
     list_all (\<lambda>s. (sm_transport s = None) = (sm_rtcp s = None) \<and> (sm_ctx s = None) = (sm_ev s = None) \<and>
       (sm_rtcp s = None \<longrightarrow> sm_rtcp_ev s = None)) ss"

definition fds_ok :: "kernel \<Rightarrow> Client \<Rightarrow> bool" where
  "fds_ok k cl \<longleftrightarrow> distinct (client_fds cl) \<and> set (client_fds cl) \<inter> set (k_open k) = {} \<and>
     set (client_fds cl) \<union> set (k_open k) \<subseteq> set (k_open (cl_kernel cl))"

definition timers_ok :: "Client \<Rightarrow> bool" where
  "timers_ok cl \<longleftrightarrow> distinct (client_timers cl) \<and> list_all (\<lambda>t. t < length (cl_events cl)) (client_timers cl)"

definition client_inv :: "kernel \<Rightarrow> Client \<Rightarrow> bool" where
  "client_inv k cl \<longleftrightarrow> streams_ok (cl_streams cl) \<and> fds_ok k cl \<and> timers_ok cl"

lemmas client_inv_defs = client_inv_def fds_ok_def timers_ok_def client_fds_def client_timers_def

lemma concat_update:
  assumes "i < length xs"
  obtains A B where "concat (map f xs) = A @ f (xs ! i) @ B" "\<And>y. concat (map f (xs[i := y])) = A @ f y @ B"
proof
  show "concat (map f xs) = concat (map f (take i xs)) @ f (xs ! i) @ concat (map f (drop (Suc i) xs))"
    by (subst id_take_nth_drop [OF assms]) simp
  show "concat (map f (xs[i := y])) = concat (map f (take i xs)) @ f y @ concat (map f (drop (Suc i) xs))" for y
    by (subst upd_conv_take_nth_drop [OF assms]) simp
qed

lemma inv_new: "client_inv k (Client_new addr k)"
  by (simp add: client_inv_defs streams_ok_def Client_new_def Stream_0_def stream_fds_def stream_timers_def stream_ids
      numeral_3_eq_3 numeral_2_eq_2)

lemma inv_cong:
  assumes "client_inv k cl" "cl_streams cl' = cl_streams cl" "set (k_open (cl_kernel cl)) \<subseteq> set (k_open (cl_kernel cl'))"
    "length (cl_events cl') = length (cl_events cl)"
  shows "client_inv k cl'"
  using assms by (auto simp: client_inv_defs)

text \<open>Replacing a stream by one with the same timers and with descriptors that were opened for it.\<close>

lemma fds_update:
  assumes "fds_ok k cl" "i < length (cl_streams cl)" "distinct (stream_fds s)"
    and "set (stream_fds s) \<inter> set (k_open (cl_kernel cl)) = {}"
    and "set (k_open (cl_kernel cl)) \<union> set (stream_fds s) \<subseteq> set (k_open (cl_kernel cl'))"
    and "cl_streams cl' = (cl_streams cl)[i := s]"
  shows "fds_ok k cl'"
proof -
  obtain A B where "concat (map stream_fds (cl_streams cl)) = A @ stream_fds (cl_streams cl ! i) @ B"
    "\<And>y. concat (map stream_fds ((cl_streams cl)[i := y])) = A @ stream_fds y @ B"
    by (rule concat_update [OF assms(2), of stream_fds]) blast
  then have "client_fds cl = A @ stream_fds (cl_streams cl ! i) @ B" "client_fds cl' = A @ stream_fds s @ B"
    by (simp_all add: client_fds_def assms(6))
  with assms(1,3-5) show ?thesis unfolding fds_ok_def by auto
qed

lemma timers_update:
  assumes "timers_ok cl" "i < length (cl_streams cl)" "distinct (stream_timers s)"
    and "set (stream_timers s) \<subseteq> {length (cl_events cl)..<length (cl_events cl')} \<union> set (stream_timers (cl_streams cl ! i))"
    and "length (cl_events cl) \<le> length (cl_events cl')" "cl_streams cl' = (cl_streams cl)[i := s]"
  shows "timers_ok cl'"
proof -
  obtain A B where "concat (map stream_timers (cl_streams cl)) = A @ stream_timers (cl_streams cl ! i) @ B"
    "\<And>y. concat (map stream_timers ((cl_streams cl)[i := y])) = A @ stream_timers y @ B"
    by (rule concat_update [OF assms(2), of stream_timers]) blast
  then have old: "client_timers cl = A @ stream_timers (cl_streams cl ! i) @ B" and upd: "client_timers cl' = A @ stream_timers s @ B"
    by (simp_all add: client_timers_def assms(6))
  have dist: "distinct A" "distinct B" "set A \<inter> set B = {}" "(set A \<union> set B) \<inter> set (stream_timers (cl_streams cl ! i)) = {}"
    and lt: "set A \<union> set B \<union> set (stream_timers (cl_streams cl ! i)) \<subseteq> {..<length (cl_events cl)}"
    using assms(1) unfolding timers_ok_def old list_all_iff by auto
  then have "(set A \<union> set B) \<inter> set (stream_timers s) = {}"
    "set A \<union> set B \<union> set (stream_timers s) \<subseteq> {..<length (cl_events cl')}"
    using assms(4,5) by fastforce+
  with dist assms(3) show ?thesis unfolding timers_ok_def upd list_all_iff by auto
qed

lemma list_update_same_map: "i < length xs \<Longrightarrow> f y = f (xs ! i) \<Longrightarrow> (map f xs)[i := f y] = map f xs"
  by (simp add: list_update_same_conv)

lemma streams_ok_back: "streams_ok ss \<Longrightarrow> sm_rtcp (ss ! BACKCHANNEL_STREAM_ID) = None"
  by (auto simp: streams_ok_def list_all_length stream_ids)

lemma streams_update:
  assumes "streams_ok ss" "i < MAX_STREAMS" "(sm_transport s = None) = (sm_rtcp s = None) \<and> (sm_ctx s = None) = (sm_ev s = None) \<and> (sm_rtcp s = None \<longrightarrow> sm_rtcp_ev s = None)"
    and "i = BACKCHANNEL_STREAM_ID \<Longrightarrow> sm_transport s = None"
  shows "streams_ok (ss[i := s])"
  using assms by (auto simp: streams_ok_def list_all_length nth_list_update)

section \<open>The handlers keep it\<close>

lemma inv_sockets:
  assumes "client_inv k cl" "sockets_changed cl ts cl'"
  shows "client_inv k cl'"
proof -
  obtain kn where cl': "cl' = cl\<lparr>cl_kernel := kn\<rparr>" using assms(2) unfolding sockets_changed_def by blast
  have "set (k_open (cl_kernel cl)) \<subseteq> set (k_open kn)"
    using assms(2) by (auto simp: cl' sockets_changed_def sockets_for_def split: option.splits)
  then show ?thesis by (intro inv_cong [OF assms(1)]) (simp_all add: cl')
qed

lemma inv_setup_stream:
  assumes "client_inv k cl" "sockets_changed cl (Some (t, rtcp_t)) cl'" "i < MAX_STREAMS"
  shows "client_inv k (setup_stream out i sid t rtcp_t cl')"
proof -
  let ?c = "setup_stream out i sid t rtcp_t cl'"
  obtain kn where cl': "cl' = cl\<lparr>cl_kernel := kn\<rparr>" and fds: "sockets_for (cl_kernel cl) t rtcp_t kn"
    using assms(2) unfolding sockets_changed_def by auto
  define s where "s = cl_streams ?c ! i"
  have ok: "streams_ok (cl_streams cl)" and len: "length (cl_streams cl) = MAX_STREAMS"
    using assms(1) by (simp_all add: client_inv_def streams_ok_def)
  have frame: "cl_streams ?c = (cl_streams cl)[i := s]" "cl_kernel ?c = kn" "cl_events ?c = cl_events cl"
    using assms(3) len by (simp_all add: s_def setup_stream_def cl' Let_def)
  have timers: "stream_timers s = stream_timers (cl_streams cl ! i)"
    using assms(3) len by (auto simp: s_def setup_stream_def cl' Let_def stream_timers_def)
  have "distinct (stream_fds s) \<and> set (stream_fds s) \<inter> set (k_open (cl_kernel cl)) = {} \<and>
      set (k_open (cl_kernel cl)) \<union> set (stream_fds s) \<subseteq> set (k_open kn)"
  proof (cases "i = BACKCHANNEL_STREAM_ID")
    case True
    then have "stream_fds s = []"
      using streams_ok_back [OF ok] len assms(3) by (simp add: s_def setup_stream_def cl' Let_def stream_fds_def)
    then show ?thesis using fds by (auto simp: sockets_for_def)
  next
    case False
    then show ?thesis using fds assms(3) len
      by (auto simp: s_def setup_stream_def cl' Let_def stream_fds_def sockets_for_def Compy_RtpTransport_new_def Compy_Rtcp_new_def)
  qed
  then have "fds_ok k ?c"
    using fds_update [of k cl i s ?c] assms(1,3) len frame by (simp add: client_inv_def)
  moreover have "timers_ok ?c"
    using assms(1,3) len frame timers by (simp add: client_inv_def timers_ok_def client_timers_def map_update list_update_same_map)
  moreover have "streams_ok (cl_streams ?c)"
    using ok assms(3) unfolding frame(1)
  proof (rule streams_update)
    have "(sm_ctx (cl_streams cl ! i) = None) = (sm_ev (cl_streams cl ! i) = None)"
      "sm_rtcp (cl_streams cl ! i) = None \<longrightarrow> sm_rtcp_ev (cl_streams cl ! i) = None"
      using ok assms(3) len by (auto simp: streams_ok_def list_all_length)
    then show "(sm_transport s = None) = (sm_rtcp s = None) \<and> (sm_ctx s = None) = (sm_ev s = None) \<and> (sm_rtcp s = None \<longrightarrow> sm_rtcp_ev s = None)"
      using assms(3) len streams_ok_back [OF ok] by (auto simp: s_def setup_stream_def cl' Let_def)
    show "i = BACKCHANNEL_STREAM_ID \<Longrightarrow> sm_transport s = None"
      using assms(3) len by (simp add: s_def setup_stream_def cl' Let_def)
  qed
  ultimately show ?thesis by (simp add: client_inv_def)
qed

lemma inv_play_stream:
  assumes "client_inv k cl" "i < MAX_STREAMS" "play_stream i cl = Some cl'"
  shows "client_inv k cl'"
proof -
  have ok: "streams_ok (cl_streams cl)" and len: "length (cl_streams cl) = MAX_STREAMS"
    using assms(1) by (simp_all add: client_inv_def streams_ok_def)
  define s where "s = cl_streams cl' ! i"
  let ?s = "cl_streams cl ! i" and ?n = "length (cl_events cl)"
  have frame: "cl_streams cl' = (cl_streams cl)[i := s]" "cl_kernel cl' = cl_kernel cl" "?n \<le> length (cl_events cl')"
    "sm_transport s = sm_transport ?s" "sm_rtcp s = sm_rtcp ?s" "sm_ctx s \<noteq> None" "sm_ev s = Some ?n" "?n < length (cl_events cl')"
    "sm_rtcp_ev s = sm_rtcp_ev ?s \<or> sm_rtcp_ev s = Some (Suc ?n) \<and> Suc ?n < length (cl_events cl') \<and> sm_rtcp ?s \<noteq> None"
    using assms(2,3) len by (auto simp: s_def play_stream_def timer_defs Let_def split: if_splits)
  have "set (stream_timers ?s) \<subseteq> {..<?n}"
    using assms(1,2) len by (auto simp: client_inv_def timers_ok_def client_timers_def list_all_iff)
  then have "sm_rtcp_ev ?s \<noteq> Some ?n" by (auto simp: stream_timers_def)
  then have "distinct (stream_timers s)"
    using frame(7,9) by (auto simp: stream_timers_def split: option.split)
  moreover have "set (stream_timers s) \<subseteq> {?n..<length (cl_events cl')} \<union> set (stream_timers ?s)"
    using frame(7-9) by (auto simp: stream_timers_def split: option.splits)
  ultimately have "timers_ok cl'"
    using timers_update [of cl i s cl'] assms(1,2) len frame by (simp add: client_inv_def)
  moreover have "fds_ok k cl'"
  proof -
    have "stream_fds s = stream_fds ?s" using frame by (simp add: stream_fds_def)
    then show ?thesis
      using assms(1,2) len frame by (simp add: client_inv_def fds_ok_def client_fds_def map_update list_update_same_map)
  qed
  moreover have "streams_ok (cl_streams cl')"
    using ok assms(2) unfolding frame(1)
    by (rule streams_update) (use ok assms(2) frame in \<open>auto simp: streams_ok_def list_all_length\<close>)
  ultimately show ?thesis by (simp add: client_inv_def)
qed

lemma inv_play_loop:
  "play_loop sid is played cl = Some (r, cl') \<Longrightarrow> client_inv k cl \<Longrightarrow> list_all (\<lambda>i. i < MAX_STREAMS) is \<Longrightarrow> client_inv k cl'"
  by (induction sid "is" played cl rule: play_loop.induct) (auto split: if_splits bind_splits intro: inv_play_stream)

lemma inv_teardown_loop:
  "teardown_loop sid is t cl = Some (r, cl') \<Longrightarrow> client_inv k cl \<Longrightarrow> client_inv k cl'"
proof (induction sid "is" t cl rule: teardown_loop.induct)
  case (2 sid i "is" t cl)
  have "client_inv k c" if "event_del (sm_ev (cl_streams cl ! i)) cl = Some c" for c
    using that 2(4) by (auto simp: event_del_def split: option.splits intro: inv_cong)
  with 2 show ?case by (auto split: if_splits bind_splits)
qed simp

text \<open>Every handler of the server, whatever it answers.\<close>

abbreviation keeps_inv :: "kernel \<Rightarrow> (Client client, 'w) handler \<Rightarrow> bool" where
  "keeps_inv k \<equiv> keeps (\<lambda>self. client_inv k (snd self))"

lemma handlers_keep_inv:
  "keeps_inv k (Client_options W)" "keeps_inv k (Client_pause_method W)" "keeps_inv k (Client_get_parameter W)"
  "keeps_inv k (Client_unknown W)" "keeps_inv k (Client_describe W srv)"
  by (auto simp: keeps_def Client_options_def Client_pause_method_def Client_get_parameter_def Client_unknown_def
      Client_describe_def Let_def split: bind_splits if_splits intro: inv_cong)

lemma setup_keeps_inv: "keeps_inv k (Client_setup en W srv out)"
proof (rule keepsI)
  fix self ctx req self' ctx'
  assume run: "Client_setup en W srv out self ctx req = Some (self', ctx')" and inv: "client_inv k (snd self)"
  from run obtain ts cl c where tr: "setup_transport en W srv out (snd self) ctx req = Some (ts, cl, c)"
    unfolding Client_setup_def by (cases "setup_transport en W srv out (snd self) ctx req") auto
  note sockets = setup_transport_sockets [OF tr]
  show "client_inv k (snd self')"
  proof (cases ts)
    case None
    then show ?thesis using run inv_sockets [OF inv sockets] by (auto simp: Client_setup_def tr)
  next
    case (Some ab)
    obtain a b where ab: "ab = (a, b)" by (cases ab)
    have "client_inv k (setup_stream out (setup_stream_id req) sid a b cl)" for sid
      using inv_setup_stream [OF inv _ setup_stream_id_bound] sockets by (simp add: Some ab)
    moreover have "client_inv k cl" by (rule inv_sockets [OF inv sockets])
    ultimately show ?thesis
      using run by (auto simp: Client_setup_def tr Some ab setup_session_cases Let_def split: option.splits bind_splits)
  qed
qed

lemma play_keeps_inv: "keeps_inv k (Client_play W)"
proof (rule keepsI)
  fix self ctx req self' ctx'
  assume "Client_play W self ctx req = Some (self', ctx')" and inv: "client_inv k (snd self)"
  then consider "self' = self" | sid r where "play_loop sid [0..<MAX_STREAMS] False (snd self) = Some (r, snd self')"
    by (fastforce simp: Client_play_def split: option.splits bind_splits if_splits)
  then show "client_inv k (snd self')"
    using inv inv_play_loop by cases (auto simp: list_all_iff)
qed

lemma teardown_keeps_inv: "keeps_inv k (Client_teardown W)"
proof (rule keepsI)
  fix self ctx req self' ctx'
  assume "Client_teardown W self ctx req = Some (self', ctx')" and inv: "client_inv k (snd self)"
  then consider "self' = self" | sid r where "teardown_loop sid [0..<MAX_STREAMS] False (snd self) = Some (r, snd self')"
    by (fastforce simp: Client_teardown_def split: option.splits bind_splits if_splits)
  then show "client_inv k (snd self')" using inv inv_teardown_loop by cases auto
qed

interpretation server_inv: controller_invariant "server_controller en W lookup e srv out" "\<lambda>self. client_inv k (snd self)"
  for en W lookup e srv out k
proof
  fix self ctx req flow self' ctx' ret
  let ?con = "server_controller en W lookup e srv out"
  show "client_inv k (snd self')" if "con_before ?con self ctx req = Some (flow, self', ctx')" "client_inv k (snd self)"
    using that by (auto simp: server_controller_def Client_before_def split: option.splits bind_splits)
  show "client_inv k (snd self')" if "con_after ?con self ret ctx req = Some (self', ctx')" "client_inv k (snd self)"
    using that by (simp add: server_controller_def Client_after_def)
  show "keeps_inv k (con_unknown ?con)" "list_all (\<lambda>(_, h). keeps_inv k h) (handler_table ?con)"
    by (simp_all add: server_controller_def handler_table_def handlers_keep_inv setup_keeps_inv play_keeps_inv teardown_keeps_inv)
qed

lemma reachable_client_inv:
  assumes "reachable en W srv addr k cl"
  shows "client_inv k cl"
  using assms
proof (induction rule: reachable.induct)
  case (served cl cl')
  from served(2) show ?case by (rule servesE) (use server_inv.dispatch_keeps served(3) in fastforce)
qed (rule inv_new)

section \<open>Properties\<close>

text \<open>
  C9. Whatever a client sends, its state stays sound. In every state that requests can lead to from a connection
  that was just accepted, with any answers of the kernel, any credentials and any writer: there are three streams;
  the backchannel has no transport, and any other stream has an RTP transport exactly when it has an RTCP one, a
  player exactly when it has a timer, and a timer for reports only with an RTCP transport; the descriptors of the
  streams' transports are pairwise different, open, and
  none of those that were open before; and their timers are pairwise different and were created.
\<close>

theorem server_reachable_inv:
  assumes "reachable en W srv addr k cl"
  shows "client_inv k cl"
  using assms by (rule reachable_client_inv)

lemma sample_served:
  "serves LittleEndian compy_string_writer sample_server (Client_new sample_addr sample_kernel)
     (one_stream sample_addr sample_kernel 1 (interleaved_stream sample_outside 1 \<lparr>rtp_channel = 0, rtcp_channel = 1\<rparr>))"
proof -
  have ids: "setup_stream_id sample_setup \<noteq> BACKCHANNEL_STREAM_ID" "setup_stream_id sample_setup < MAX_STREAMS"
    by (simp_all add: sample_setup_ok(3) stream_ids)
  have session: "setup_session sample_outside sample_setup = Some (o_sid sample_outside)"
    by (simp add: setup_session_def sample_setup_ok(2))
  have "rql_method (req_start_line sample_setup) = ''SETUP''" by (simp add: sample_setup_def sample_request_def)
  note dispatched = server_dispatch [of LittleEndian compy_string_writer sample_lookup "\<lparr>getrandom = [], urandom = None\<rparr>"
      sample_server sample_outside sample_setup, unfolded this, OF server_table(1)]
  obtain ctx where "Client_setup LittleEndian compy_string_writer sample_server sample_outside
      (None, Client_new sample_addr sample_kernel) (Compy_Context_new [] (req_cseq sample_setup)) sample_setup =
      Some ((None, one_stream sample_addr sample_kernel 1 (interleaved_stream sample_outside 1 \<lparr>rtp_channel = 0, rtcp_channel = 1\<rparr>)), ctx)"
    by (rule setup_interleaved_ok [OF sample_setup_ok(1) session, of LittleEndian sample_server None
        "Client_new sample_addr sample_kernel" "[]" "req_cseq sample_setup"])
      (use setup_fresh_stream [OF ids, unfolded sample_setup_ok(3)] in \<open>simp only: sample_setup_ok(3)\<close>)
  with dispatched [of "Client_new sample_addr sample_kernel" "[]"] show ?thesis by (intro serves.request) simp
qed

theorem server_reachable_inv_witness:
  "client_inv sample_kernel
     (one_stream sample_addr sample_kernel 1 (interleaved_stream sample_outside 1 \<lparr>rtp_channel = 0, rtcp_channel = 1\<rparr>))"
  by (rule server_reachable_inv [OF reachable.served [OF reachable.accepted sample_served]])

end
