(* ===== verification/Server_Setup.thy ===== *)
theory Server_Setup
  imports Server_Invariant
begin

text \<open>
  SETUP over datagrams, and the SETUP requests that the example server answers badly: twice, or with sockets that
  nothing ever closes.
\<close>

section \<open>Sockets when no system call fails\<close>

definition udp_config :: "Compy_PortPair \<Rightarrow> Compy_PortPair \<Rightarrow> Compy_TransportConfig" where
  "udp_config client server = \<lparr>tc_lower = Compy_LowerTransport_UDP, tc_unicast = True, tc_multicast = False,
     tc_interleaved = None, tc_client_port = Some client, tc_server_port = Some server\<rparr>"

lemma dgram_socket_ok:
  assumes "\<forall>n. k_env k n" "new_sockaddr en af ip port = Some dest"
  shows "compy_dgram_socket en af ip port k =
     (int (lowest_fd (k_open k)),
      k\<lparr>k_open := lowest_fd (k_open k) # k_open k, k_peer := (k_peer k)(lowest_fd (k_open k) := Some dest),
        k_bound := (k_bound k)(lowest_fd (k_open k) := None), k_calls := k_calls k + 3\<rparr>)"
  using assms by (simp add: compy_dgram_socket_def sys_defs Let_def)

text \<open>The peers of the two sockets of a client.\<close>

definition connected :: "endian \<Rightarrow> sockaddr \<Rightarrow> kernel \<Rightarrow> nat \<Rightarrow> u16 \<Rightarrow> bool" where
  "connected en addr k fd port \<longleftrightarrow> fd \<in> set (k_open k) \<and> k_peer k fd \<noteq> None \<and>
     k_peer k fd = compy_sockaddr_ip addr \<bind> (\<lambda>ip. new_sockaddr en (sa_family addr) ip port)"

definition two_sockets :: "endian \<Rightarrow> sockaddr \<Rightarrow> Compy_PortPair \<Rightarrow> kernel \<Rightarrow> nat \<Rightarrow> nat \<Rightarrow> kernel \<Rightarrow> bool" where
  "two_sockets en addr p k fd rtcp_fd k' \<longleftrightarrow> k_open k' = [rtcp_fd, fd] @ k_open k \<and> fd \<noteq> rtcp_fd \<and>
     {fd, rtcp_fd} \<inter> set (k_open k) = {} \<and> connected en addr k' fd (rtp_port p) \<and> connected en addr k' rtcp_fd (rtcp_port p)"

lemma setup_udp_ok:
  assumes "\<forall>n. k_env k n" "sa_family addr \<noteq> AF_OTHER" "tc_client_port config = Some p"
    and "length (ctx_header_map ctx) < COMPY_HEADER_MAP_CAPACITY"
  obtains fd rtcp_fd k' where "two_sockets en addr p k fd rtcp_fd k'"
    "setup_udp en W srv out addr k ctx config =
       Some (Some (udp_transports srv fd rtcp_fd), k', ctx\<lparr>ctx_header_map := ctx_header_map ctx @
         [header_of (COMPY_HEADER_TRANSPORT, transport_text (udp_config p
            \<lparr>rtp_port = server_port out fd, rtcp_port = server_port out rtcp_fd\<rparr>))]\<rparr>)"
proof -
  obtain ip where ip: "compy_sockaddr_ip addr = Some ip"
    using assms(2) by (cases "sa_family addr") (auto simp: compy_sockaddr_ip_def)
  obtain d where d: "\<And>port. new_sockaddr en (sa_family addr) ip port = Some (d port)"
    using assms(2) by (cases "sa_family addr") (auto simp: new_sockaddr_def)
  define fd where "fd = lowest_fd (k_open k)"
  define k1 where "k1 = k\<lparr>k_open := fd # k_open k, k_peer := (k_peer k)(fd := Some (d (rtp_port p))),
     k_bound := (k_bound k)(fd := None), k_calls := k_calls k + 3\<rparr>"
  define rtcp_fd where "rtcp_fd = lowest_fd (k_open k1)"
  define k2 where "k2 = k1\<lparr>k_open := rtcp_fd # k_open k1, k_peer := (k_peer k1)(rtcp_fd := Some (d (rtcp_port p))),
     k_bound := (k_bound k1)(rtcp_fd := None), k_calls := k_calls k1 + 3\<rparr>"
  have s1: "compy_dgram_socket en (sa_family addr) ip (rtp_port p) k = (int fd, k1)"
    using dgram_socket_ok [OF assms(1) d] by (simp add: k1_def fd_def)
  have "\<forall>n. k_env k1 n" using assms(1) by (simp add: k1_def)
  from dgram_socket_ok [OF this d] have s2: "compy_dgram_socket en (sa_family addr) ip (rtcp_port p) k1 = (int rtcp_fd, k2)"
    by (simp add: k2_def rtcp_fd_def)
  have "fd \<notin> set (k_open k)" "rtcp_fd \<notin> set (k_open k1)"
    unfolding fd_def rtcp_fd_def by (rule lowest_fd_fresh)+
  then have "two_sockets en addr p k fd rtcp_fd k2"
    by (auto simp: two_sockets_def connected_def ip d k2_def k1_def)
  moreover have "''RTP/AVP/UDP;unicast;client_port='' @ show_nat (unat (rtp_port p)) @ ''-'' @ show_nat (unat (rtcp_port p)) @
      '';server_port='' @ show_nat (unat (server_port out fd)) @ ''-'' @ show_nat (unat (server_port out rtcp_fd)) =
      transport_text (udp_config p \<lparr>rtp_port = server_port out fd, rtcp_port = server_port out rtcp_fd\<rparr>)"
    by (simp add: transport_text_def transport_params_def params_text_def udp_config_def range_text_def)
  ultimately show thesis
    using that compy_header_plain [OF plain_headers(4) assms(4)] by (simp add: setup_udp_def assms(3) ip s1 s2)
qed

section \<open>SETUP over datagrams\<close>

definition transport_asked :: "Compy_Request \<Rightarrow> Compy_TransportConfig option" where
  "transport_asked req = Compy_HeaderMap_find (req_header_map req) COMPY_HEADER_TRANSPORT \<bind> compy_parse_transport"

definition asks_datagrams :: "Compy_Request \<Rightarrow> Compy_PortPair \<Rightarrow> bool" where
  "asks_datagrams req p \<longleftrightarrow>
     (case transport_asked req of
        None \<Rightarrow> False
      | Some config \<Rightarrow> tc_lower config = Compy_LowerTransport_UDP \<and> tc_client_port config = Some p)"

lemma setup_transport_asked:
  assumes "transport_asked req = Some config"
  shows "setup_transport en W srv out cl ctx req =
     (case tc_lower config of
        Compy_LowerTransport_TCP \<Rightarrow> setup_tcp W ctx config \<bind> (\<lambda>(t, ctx). Some (t, cl, ctx))
      | Compy_LowerTransport_UDP \<Rightarrow>
          setup_udp en W srv out (cl_addr cl) (cl_kernel cl) ctx config \<bind> (\<lambda>(t, k, ctx). Some (t, cl\<lparr>cl_kernel := k\<rparr>, ctx))) \<bind>
     (\<lambda>(t, self, ctx).
       if t = None then compy_respond_internal_error W ctx \<bind> (\<lambda>(_, ctx). Some (None, self, ctx)) else Some (t, self, ctx))"
  using assms
  by (cases "Compy_HeaderMap_find (req_header_map req) COMPY_HEADER_TRANSPORT") (simp_all add: setup_transport_def transport_asked_def)

lemma setup_datagrams:
  assumes "asks_datagrams req p" "\<forall>n. k_env (cl_kernel cl) n" "sa_family (cl_addr cl) \<noteq> AF_OTHER"
  obtains fd rtcp_fd k where "two_sockets en (cl_addr cl) p (cl_kernel cl) fd rtcp_fd k"
    "setup_transport en compy_string_writer srv out cl (Compy_Context_new w cseq) req =
       Some (Some (udp_transports srv fd rtcp_fd), cl\<lparr>cl_kernel := k\<rparr>, (Compy_Context_new w cseq)\<lparr>ctx_header_map :=
         [header_of (COMPY_HEADER_TRANSPORT, transport_text (udp_config p
            \<lparr>rtp_port = server_port out fd, rtcp_port = server_port out rtcp_fd\<rparr>))]\<rparr>)"
proof -
  obtain config where config: "transport_asked req = Some config" "tc_lower config = Compy_LowerTransport_UDP"
    "tc_client_port config = Some p"
    using assms(1) by (auto simp: asks_datagrams_def split: option.splits)
  have room: "length (ctx_header_map (Compy_Context_new w cseq)) < COMPY_HEADER_MAP_CAPACITY"
    by (simp add: COMPY_HEADER_MAP_CAPACITY_def)
  obtain fd rtcp_fd k where "two_sockets en (cl_addr cl) p (cl_kernel cl) fd rtcp_fd k"
    "setup_udp en compy_string_writer srv out (cl_addr cl) (cl_kernel cl) (Compy_Context_new w cseq) config =
       Some (Some (udp_transports srv fd rtcp_fd), k, (Compy_Context_new w cseq)\<lparr>ctx_header_map :=
         ctx_header_map (Compy_Context_new w cseq) @ [header_of (COMPY_HEADER_TRANSPORT, transport_text (udp_config p
            \<lparr>rtp_port = server_port out fd, rtcp_port = server_port out rtcp_fd\<rparr>))]\<rparr>)"
    by (rule setup_udp_ok [OF assms(2,3) config(3) room])
  then show thesis by (intro that) (simp_all add: setup_transport_asked [OF config(1)] config(2))
qed

text \<open>
  What SETUP makes of a stream: the media parameters of stream \<open>i\<close>, RTP on the one descriptor and RTCP on the other, in
  the clear or inside SRTP and SRTCP with the server's key, and nothing else changed. A backchannel has no transports.
\<close>

definition stream_on :: "server \<Rightarrow> nat \<Rightarrow> nat \<Rightarrow> nat \<Rightarrow> u64 \<Rightarrow> Stream \<Rightarrow> Stream \<Rightarrow> bool" where
  "stream_on srv i fd rtcp_fd sid old s \<longleftrightarrow>
     (\<exists>rtp rtcp. s = old\<lparr>sm_session_id := sid, sm_transport := Some rtp, sm_rtcp := Some rtcp\<rparr> \<and>
        (rt_payload_ty rtp, rt_clock_rate rtp) = (if i = 0 then (0, 8000) else (96, 90000)) \<and>
        (case sv_srtp_key srv of
           None \<Rightarrow> rt_transport rtp = UdpTransport fd \<and> rs_rtcp_transport rtcp = UdpTransport rtcp_fd
         | Some key \<Rightarrow>
             \<exists>t u. rt_transport rtp = SrtpTransport t \<and> rs_rtcp_transport rtcp = SrtcpTransport u \<and>
               t = compy_transport_srtp_new (sv_srtp_ops srv) fd Compy_SrtpSuite_AES_CM_128_HMAC_SHA1_80 key \<and>
               u = compy_transport_srtcp_new (sv_srtp_ops srv) rtcp_fd Compy_SrtpSuite_AES_CM_128_HMAC_SHA1_80 key))"

definition client_on :: "server \<Rightarrow> string \<Rightarrow> nat \<Rightarrow> nat \<Rightarrow> u64 \<Rightarrow> Client \<Rightarrow> Client \<Rightarrow> bool" where
  "client_on srv uri fd rtcp_fd sid cl cl' \<longleftrightarrow>
     (if ends_with uri ''/audioback''
      then cl' = cl\<lparr>cl_streams := (cl_streams cl)[2 := (cl_streams cl ! 2)\<lparr>sm_session_id := sid, sm_transport := None\<rparr>],
                    cl_backchannel := cl_backchannel cl'\<rparr> \<and> cl_backchannel cl' \<noteq> None
      else \<exists>i s. i = (if ends_with uri ''/audio'' then 0 else 1) \<and> stream_on srv i fd rtcp_fd sid (cl_streams cl ! i) s \<and>
        cl' = cl\<lparr>cl_streams := (cl_streams cl)[i := s]\<rparr>)"

lemma setup_stream_on:
  "client_on srv (rql_uri (req_start_line req)) fd rtcp_fd sid cl
     (setup_stream out (setup_stream_id req) sid (fst (udp_transports srv fd rtcp_fd)) (snd (udp_transports srv fd rtcp_fd)) cl)"
proof (cases "ends_with (rql_uri (req_start_line req)) ''/audioback''")
  case True
  then show ?thesis by (simp add: client_on_def setup_stream_def setup_stream_id_def stream_ids)
next
  case False
  define i :: nat where "i = (if ends_with (rql_uri (req_start_line req)) ''/audio'' then 0 else 1)"
  have id: "setup_stream_id req = i" "i = 0 \<or> i = 1" using False by (simp_all add: setup_stream_id_def i_def stream_ids)
  let ?new = "setup_stream out i sid (fst (udp_transports srv fd rtcp_fd)) (snd (udp_transports srv fd rtcp_fd)) cl"
  define rtp where "rtp = Compy_RtpTransport_new (fst (udp_transports srv fd rtcp_fd)) (if i = 0 then 0 else 96)
    (if i = 0 then 8000 else 90000) (o_rng out) (o_rand1 out) (o_rand2 out) (o_fresh out)"
  define rtcp where "rtcp = Compy_Rtcp_new (snd (udp_transports srv fd rtcp_fd)) cname"
  let ?s = "(cl_streams cl ! i)\<lparr>sm_session_id := sid, sm_transport := Some rtp, sm_rtcp := Some rtcp\<rparr>"
  have fields: "rt_payload_ty rtp = (if i = 0 then 0 else 96)" "rt_clock_rate rtp = (if i = 0 then 8000 else 90000)"
    "rt_transport rtp = fst (udp_transports srv fd rtcp_fd)" "rs_rtcp_transport rtcp = snd (udp_transports srv fd rtcp_fd)"
    by (simp_all add: rtp_def rtcp_def Compy_RtpTransport_new_def Compy_Rtcp_new_def)
  have "?new = cl\<lparr>cl_streams := (cl_streams cl)[i := ?s]\<rparr>"
    using id(2) by (auto simp: setup_stream_def stream_ids Let_def rtp_def rtcp_def AUDIO_PCMU_PAYLOAD_TYPE_def AUDIO_SAMPLE_RATE_def
        VIDEO_PAYLOAD_TYPE_def VIDEO_SAMPLE_RATE_def)
  moreover have "stream_on srv i fd rtcp_fd sid (cl_streams cl ! i) ?s"
    unfolding stream_on_def by (intro exI [of _ rtp] exI [of _ rtcp]) (simp add: fields udp_transports_def split: option.split)
  ultimately have "\<exists>s. ?new = cl\<lparr>cl_streams := (cl_streams cl)[i := s]\<rparr> \<and> stream_on srv i fd rtcp_fd sid (cl_streams cl ! i) s" by blast
  then show ?thesis using False unfolding client_on_def id by (auto simp: i_def)
qed

section \<open>Properties\<close>

text \<open>
  C14. SETUP over datagrams, with no authentication configured and a kernel whose calls succeed, for a client that
  names two ports: the server opens two new sockets, connected to the client's address at the RTP and the RTCP port,
  and answers with a transport that a client reads back as its own ports and the ports of these sockets. When the
  request has no session or a well-formed one, the answer is 200 with the session, and the stream of the URI, audio or
  video, gets its RTP transport on the first socket and its RTCP transport on the second, inside SRTP and SRTCP when a
  key is configured; for the backchannel no stream gets them, and they stay open. When the session is malformed the
  answer is 400, and the two sockets stay open although no stream uses them.
\<close>

theorem server_setup_datagrams:
  assumes "asks_datagrams req p" "\<forall>n. k_env (cl_kernel cl) n" "sa_family (cl_addr cl) \<noteq> AF_OTHER"
    and "rql_method (req_start_line req) = ''SETUP''"
  shows "\<exists>fd rtcp_fd k sp msg cl' code reason hs.
     two_sockets en (cl_addr cl) p (cl_kernel cl) fd rtcp_fd k \<and>
     sp = \<lparr>rtp_port = server_port out fd, rtcp_port = server_port out rtcp_fd\<rparr> \<and>
     compy_parse_transport (transport_text (udp_config p sp)) = Some (udp_config p sp) \<and>
     (case setup_session out req of
        Some sid \<Rightarrow>
          client_on srv (rql_uri (req_start_line req)) fd rtcp_fd sid (cl\<lparr>cl_kernel := k\<rparr>) cl' \<and>
          code = COMPY_STATUS_OK \<and> reason = ''OK'' \<and>
          hs = [(COMPY_HEADER_TRANSPORT, transport_text (udp_config p sp)), (COMPY_HEADER_SESSION, show_nat (unat sid))]
      | None \<Rightarrow>
          cl' = cl\<lparr>cl_kernel := k\<rparr> \<and> code = COMPY_STATUS_BAD_REQUEST \<and> reason = malformed_session \<and>
          hs = [(COMPY_HEADER_TRANSPORT, transport_text (udp_config p sp))]) \<and>
     compy_dispatch (server_controller en compy_string_writer lookup e srv out) (None, cl) w req = Some ((None, cl'), w @ msg) \<and>
     reads_as en msg code reason (req_cseq req) hs []"
proof -
  obtain fd rtcp_fd k where sockets: "two_sockets en (cl_addr cl) p (cl_kernel cl) fd rtcp_fd k"
    and ran: "setup_transport en compy_string_writer srv out cl (Compy_Context_new w (req_cseq req)) req =
       Some (Some (udp_transports srv fd rtcp_fd), cl\<lparr>cl_kernel := k\<rparr>, (Compy_Context_new w (req_cseq req))\<lparr>ctx_header_map :=
         [header_of (COMPY_HEADER_TRANSPORT, transport_text (udp_config p
            \<lparr>rtp_port = server_port out fd, rtcp_port = server_port out rtcp_fd\<rparr>))]\<rparr>)"
    by (rule setup_datagrams [OF assms(1-3)])
  let ?sp = "\<lparr>rtp_port = server_port out fd, rtcp_port = server_port out rtcp_fd\<rparr>"
  let ?h = "(COMPY_HEADER_TRANSPORT, transport_text (udp_config p ?sp))"
  obtain cl' code reason hs where outcome:
    "setup_outcome out req (udp_transports srv fd rtcp_fd) ?h (cl\<lparr>cl_kernel := k\<rparr>) = (cl', code, reason, hs)"
    using prod_cases4 by blast
  obtain ctx msg where msg: "Client_setup en compy_string_writer srv out (None, cl) (Compy_Context_new w (req_cseq req)) req =
      Some ((None, cl'), ctx)" "ctx_writer ctx = w @ msg" "reads_as en msg code reason (req_cseq req) hs []"
    by (rule setup_answers [OF ran plain_headers(4) outcome])
  from msg(1,2) have "compy_dispatch (server_controller en compy_string_writer lookup e srv out) (None, cl) w req = Some ((None, cl'), w @ msg)"
    using server_dispatch [of en compy_string_writer lookup e srv out req "Client_setup en compy_string_writer srv out" cl w]
    by (simp add: assms(4) server_table)
  with sockets msg(3) outcome parse_transport_text setup_stream_on show ?thesis
    by (intro exI [of _ fd] exI [of _ rtcp_fd] exI [of _ k] exI [of _ ?sp] exI [of _ msg] exI [of _ cl'] exI [of _ code]
        exI [of _ reason] exI [of _ hs]) (auto simp: setup_outcome_def split: option.splits)
qed

definition sample_datagrams :: Compy_Request where
  "sample_datagrams = sample_request ''SETUP'' ''rtsp://camera/audio''
     [header_of (''Transport'', ''RTP/AVP/UDP;unicast;client_port=5-6'')] 2"

lemma sample_datagrams_ok:
  "asks_datagrams sample_datagrams \<lparr>rtp_port = 5, rtcp_port = 6\<rparr>" "setup_session sample_outside sample_datagrams = Some (o_sid sample_outside)"
proof -
  let ?c = "\<lparr>tc_lower = Compy_LowerTransport_UDP, tc_unicast = True, tc_multicast = False, tc_interleaved = None,
    tc_client_port = Some \<lparr>rtp_port = 5, rtcp_port = 6\<rparr>, tc_server_port = None\<rparr>"
  have "''RTP/AVP/UDP;unicast;client_port=5-6'' = transport_text ?c"
    by (simp add: transport_text_def transport_params_def params_text_def range_text_def show_nat.simps digit_char_def
        char_of_def bit_numeral_rec bit_Suc_0_iff)
  then have "transport_asked sample_datagrams = Some ?c"
    by (simp add: transport_asked_def sample_datagrams_def sample_request_def header_of_def COMPY_HEADER_TRANSPORT_def
        parse_transport_text del: append.simps)
  then show "asks_datagrams sample_datagrams \<lparr>rtp_port = 5, rtcp_port = 6\<rparr>" by (simp add: asks_datagrams_def)
  show "setup_session sample_outside sample_datagrams = Some (o_sid sample_outside)"
    by (simp add: setup_session_def sample_datagrams_def sample_request_def header_of_def COMPY_HEADER_SESSION_def)
qed

theorem server_setup_datagrams_witness:
  "\<exists>fd rtcp_fd k msg hs s.
     two_sockets LittleEndian sample_addr \<lparr>rtp_port = 5, rtcp_port = 6\<rparr> sample_kernel fd rtcp_fd k \<and>
     stream_on sample_server 0 fd rtcp_fd (o_sid sample_outside) Stream_0 s \<and>
     compy_dispatch (server_controller LittleEndian compy_string_writer sample_lookup \<lparr>getrandom = [], urandom = None\<rparr>
         sample_server sample_outside) (None, Client_new sample_addr sample_kernel) [] sample_datagrams =
       Some ((None, (Client_new sample_addr sample_kernel)\<lparr>cl_kernel := k, cl_streams := [s, Stream_0, Stream_0]\<rparr>), [] @ msg) \<and>
     reads_as LittleEndian msg COMPY_STATUS_OK ''OK'' (req_cseq sample_datagrams) hs []"
proof -
  let ?cl = "Client_new sample_addr sample_kernel"
  have "\<forall>n. k_env (cl_kernel ?cl) n" "sa_family (cl_addr ?cl) \<noteq> AF_OTHER" "rql_method (req_start_line sample_datagrams) = ''SETUP''"
    by (simp_all add: Client_new_def sample_kernel_def sample_addr_def sample_datagrams_def sample_request_def)
  note run = server_setup_datagrams [OF sample_datagrams_ok(1) this, where en = LittleEndian and out = sample_outside and
      srv = sample_server and lookup = sample_lookup and e = "\<lparr>getrandom = [], urandom = None\<rparr>" and w = "[]",
      unfolded sample_datagrams_ok(2) option.case]
  have uri: "\<not> ends_with (rql_uri (req_start_line sample_datagrams)) ''/audioback''"
    "ends_with (rql_uri (req_start_line sample_datagrams)) ''/audio''"
    by (simp_all add: sample_datagrams_def sample_request_def ends_with_def)
  have "\<exists>s. stream_on sample_server 0 fd rtcp_fd (o_sid sample_outside) Stream_0 s \<and>
      cl' = ?cl\<lparr>cl_kernel := k, cl_streams := [s, Stream_0, Stream_0]\<rparr>"
    if "client_on sample_server (rql_uri (req_start_line sample_datagrams)) fd rtcp_fd (o_sid sample_outside) (?cl\<lparr>cl_kernel := k\<rparr>) cl'"
    for fd rtcp_fd k cl'
    using that uri by (auto simp: client_on_def Client_new_def MAX_STREAMS_def numeral_3_eq_3)
  with run show ?thesis by (simp add: Client_new_def) metis
qed

text \<open>
  C25. The server answers a SETUP twice when the transport it asks for lacks its parameters: over the connection with
  no channels, or over datagrams with no client ports, the client gets a 400 response and then a 500 response, both
  with the \<open>CSeq\<close> of its request; nothing else changes.
\<close>

theorem server_setup_answers_twice:
  assumes "transport_asked req = Some config" "rql_method (req_start_line req) = ''SETUP''"
    and "case tc_lower config of Compy_LowerTransport_TCP \<Rightarrow> tc_interleaved config = None
         | Compy_LowerTransport_UDP \<Rightarrow> tc_client_port config = None"
  shows "\<exists>reason msg1 msg2.
     compy_dispatch (server_controller en compy_string_writer lookup e srv out) (None, cl) w req = Some ((None, cl), w @ msg1 @ msg2) \<and>
     reads_as en msg1 COMPY_STATUS_BAD_REQUEST reason (req_cseq req) [] [] \<and>
     reads_as en msg2 COMPY_STATUS_INTERNAL_SERVER_ERROR ''Internal error'' (req_cseq req) [] []"
proof -
  let ?ctx = "Compy_Context_new w (req_cseq req)"
  define reason where "reason = [CHR 0x60] @
    (case tc_lower config of Compy_LowerTransport_TCP \<Rightarrow> ''interleaved'' | Compy_LowerTransport_UDP \<Rightarrow> ''client_port'') @
    [CHR 0x27] @ '' not found''"
  have wf: "wf_line reason" "nul_free reason" "wf_line ''Internal error''" "nul_free ''Internal error''"
    by (simp_all add: reason_def wf_line_def starts_with_def split: Compy_LowerTransport.split)
  obtain msg1 where msg1: "compy_respond compy_string_writer ?ctx COMPY_STATUS_BAD_REQUEST reason =
      Some (int (length msg1), ?ctx\<lparr>ctx_ret := int (length msg1), ctx_writer := w @ msg1\<rparr>)"
    "reads_as en msg1 COMPY_STATUS_BAD_REQUEST reason (req_cseq req) [] []"
    by (rule respond_bare [OF wf(1,2)])
  let ?ctx1 = "?ctx\<lparr>ctx_ret := int (length msg1), ctx_writer := w @ msg1\<rparr>"
  obtain msg2 where msg2: "compy_respond compy_string_writer ?ctx1 COMPY_STATUS_INTERNAL_SERVER_ERROR ''Internal error'' =
      Some (int (length msg2), ?ctx1\<lparr>ctx_ret := int (length msg2), ctx_writer := ctx_writer ?ctx1 @ msg2\<rparr>)"
    "reads_as en msg2 COMPY_STATUS_INTERNAL_SERVER_ERROR ''Internal error'' (ctx_cseq ?ctx1) [] (ctx_body ?ctx1)"
    by (rule respond_reads_as [of ?ctx1 "[]" "''Internal error''"])
      (use wf in \<open>simp_all add: COMPY_HEADER_MAP_CAPACITY_def no_cr_end_def ends_with_def\<close>)
  have "setup_transport en compy_string_writer srv out cl ?ctx req =
      Some (None, cl, ?ctx1\<lparr>ctx_ret := int (length msg2), ctx_writer := ctx_writer ?ctx1 @ msg2\<rparr>)"
    using assms(3) msg1(1) msg2(1)
    by (cases "tc_lower config") (simp_all add: setup_transport_asked [OF assms(1)] setup_tcp_def setup_udp_def reason_def
        compy_respond_internal_error_def)
  then have "compy_dispatch (server_controller en compy_string_writer lookup e srv out) (None, cl) w req =
      Some ((None, cl), w @ msg1 @ msg2)"
    using server_dispatch [of en compy_string_writer lookup e srv out req "Client_setup en compy_string_writer srv out" cl w]
    by (simp add: assms(2) server_table Client_setup_def)
  with msg1(2) msg2(2) show ?thesis by auto
qed

theorem server_setup_answers_twice_witness:
  "\<exists>reason msg1 msg2.
     compy_dispatch (server_controller LittleEndian compy_string_writer sample_lookup \<lparr>getrandom = [], urandom = None\<rparr>
         sample_server sample_outside) (None, Client_new sample_addr sample_kernel) []
       (sample_request ''SETUP'' ''rtsp://camera/video'' [header_of (''Transport'', ''RTP/AVP/TCP;unicast'')] 2) =
       Some ((None, Client_new sample_addr sample_kernel), [] @ msg1 @ msg2) \<and>
     reads_as LittleEndian msg1 COMPY_STATUS_BAD_REQUEST reason
       (req_cseq (sample_request ''SETUP'' ''rtsp://camera/video'' [header_of (''Transport'', ''RTP/AVP/TCP;unicast'')] 2)) [] [] \<and>
     reads_as LittleEndian msg2 COMPY_STATUS_INTERNAL_SERVER_ERROR ''Internal error''
       (req_cseq (sample_request ''SETUP'' ''rtsp://camera/video'' [header_of (''Transport'', ''RTP/AVP/TCP;unicast'')] 2)) [] []"
proof (rule server_setup_answers_twice)
  let ?c = "\<lparr>tc_lower = Compy_LowerTransport_TCP, tc_unicast = True, tc_multicast = False, tc_interleaved = None,
    tc_client_port = None, tc_server_port = None\<rparr>"
  have "''RTP/AVP/TCP;unicast'' = transport_text ?c"
    by (simp add: transport_text_def transport_params_def params_text_def)
  then show "transport_asked (sample_request ''SETUP'' ''rtsp://camera/video'' [header_of (''Transport'', ''RTP/AVP/TCP;unicast'')] 2) = Some ?c"
    by (simp add: transport_asked_def sample_request_def header_of_def COMPY_HEADER_TRANSPORT_def parse_transport_text del: append.simps)
qed (simp_all add: sample_request_def)

end
