(* ===== verification/Server_Describe.thy ===== *)
theory Server_Describe
  imports Server_Properties
begin

text \<open>DESCRIBE: the session description of the example server as a client reads it.\<close>

definition described :: "server \<Rightarrow> Client \<Rightarrow> (Compy_SdpType \<times> string) list" where
  "described srv cl = session_lines cl @ video_lines srv @ audio_lines @
     (if cl_backchannel_supported cl then backchannel_lines else []) @ crypto_lines srv"

text \<open>The frame rate is an \<open>int\<close>, and a key has its lengths.\<close>

definition wf_server :: "server \<Rightarrow> bool" where
  "wf_server srv \<longleftrightarrow> - (2 ^ 31) \<le> sv_video_fps srv \<and> sv_video_fps srv < 2 ^ 31 \<and>
     (case sv_srtp_key srv of None \<Rightarrow> True | Some key \<Rightarrow> length (master_key key) = 16 \<and> length (master_salt key) = 14)"

lemma length_show_nat: "n < 10 ^ Suc k \<Longrightarrow> length (show_nat n) \<le> Suc k"
proof (induction k arbitrary: n)
  case (Suc k)
  then have "n div 10 < 10 ^ Suc k" by (simp add: less_mult_imp_div_less mult.commute)
  then show ?case using Suc.IH [of "n div 10"] by (subst show_nat.simps) simp
qed (simp add: show_nat.simps)

lemma length_show_int:
  assumes "- (2 ^ 31) \<le> n" "n < 2 ^ 31"
  shows "length (show_int n) \<le> 11"
proof -
  have "nat n < 10 ^ Suc 9" "nat (- n) < 10 ^ Suc 9" using assms by auto
  then show ?thesis using length_show_nat [of "nat n" 9] length_show_nat [of "nat (- n)" 9] by (simp add: show_int_def)
qed

lemma show_small:
  "show_nat (unat VIDEO_PAYLOAD_TYPE) = ''96''" "show_nat (unat VIDEO_SAMPLE_RATE) = ''90000''"
  "show_nat (unat AUDIO_PCMU_PAYLOAD_TYPE) = ''0''" "show_nat (unat BACKCHANNEL_PAYLOAD_TYPE) = ''0''"
  "show_nat (unat BACKCHANNEL_SAMPLE_RATE) = ''8000''"
  by (simp_all add: VIDEO_PAYLOAD_TYPE_def VIDEO_SAMPLE_RATE_def AUDIO_PCMU_PAYLOAD_TYPE_def BACKCHANNEL_PAYLOAD_TYPE_def
      BACKCHANNEL_SAMPLE_RATE_def show_nat.simps digit_char_def char_of_def bit_numeral_rec bit_Suc_0_iff)

text \<open>The attribute with the key, when one is configured, fits its buffer and gives the key back.\<close>

lemma crypto_line:
  assumes "wf_server srv" "sv_srtp_key srv = Some key"
  shows "crypto_lines srv = [(COMPY_SDP_ATTR, ''crypto:'' @ crypto_attr_text 1 Compy_SrtpSuite_AES_CM_128_HMAC_SHA1_80 key)]"
    "length (crypto_attr_text 1 Compy_SrtpSuite_AES_CM_128_HMAC_SHA1_80 key) = 73"
proof -
  have key: "length (master_key key) = 16" "length (master_salt key) = 14" using assms by (simp_all add: wf_server_def)
  have one: "length (show_int 1) = 1" by (simp add: show_int_def show_nat.simps)
  note fmt = crypto_attr_format [OF key, where tag = 1 and suite = Compy_SrtpSuite_AES_CM_128_HMAC_SHA1_80]
  show "length (crypto_attr_text 1 Compy_SrtpSuite_AES_CM_128_HMAC_SHA1_80 key) = 73" using fmt(1) one by simp
  show "crypto_lines srv = [(COMPY_SDP_ATTR, ''crypto:'' @ crypto_attr_text 1 Compy_SrtpSuite_AES_CM_128_HMAC_SHA1_80 key)]"
    using fmt(2) [of 128] one crypto_attr_chars(1) [OF key] by (simp add: crypto_lines_def assms(2) c_str_def takeWhile_append)
qed

lemmas line_defs = session_lines_def video_lines_def audio_lines_def backchannel_lines_def show_small
lemmas sdp_types = COMPY_SDP_VERSION_def COMPY_SDP_ORIGIN_def COMPY_SDP_SESSION_NAME_def COMPY_SDP_CONNECTION_def
  COMPY_SDP_TIME_def COMPY_SDP_ATTR_def COMPY_SDP_MEDIA_def

lemma wf_sdp_line: "ty \<notin> {CHR 0x00, CHR 0x0D} \<Longrightarrow> CHR 0x00 \<notin> set v \<Longrightarrow> CHR 0x0D \<notin> set v \<Longrightarrow> wf_sdp (ty, v)"
  by (simp add: wf_sdp_def crlf_free_no_cr nul_free_def)

lemma described_parts:
  assumes "wf_server srv"
  shows "list_all wf_sdp (session_lines cl)" "list_all wf_sdp (video_lines srv)" "list_all wf_sdp audio_lines"
    "list_all wf_sdp backchannel_lines" "list_all wf_sdp (crypto_lines srv)"
proof -
  show "list_all wf_sdp (session_lines cl)" by (auto simp: line_defs Let_def sdp_types intro!: wf_sdp_line)
  show "list_all wf_sdp (video_lines srv)" "list_all wf_sdp audio_lines" "list_all wf_sdp backchannel_lines"
    using show_int_chars by (auto simp: line_defs sdp_types intro!: wf_sdp_line)
  show "list_all wf_sdp (crypto_lines srv)"
  proof (cases "sv_srtp_key srv")
    case (Some key)
    then have "length (master_key key) = 16" "length (master_salt key) = 14" using assms by (simp_all add: wf_server_def)
    from crypto_attr_chars [OF this] show ?thesis
      unfolding crypto_line(1) [OF assms Some] by (auto simp: sdp_types intro!: wf_sdp_line)
  qed (simp add: crypto_lines_def)
qed

lemma described_length:
  assumes "wf_server srv"
  shows "length (concat (map sdp_text (described srv cl))) < 2048" "concat (map sdp_text (described srv cl)) \<noteq> []"
proof -
  have fps: "length (show_int (sv_video_fps srv)) \<le> 11" using assms length_show_int by (simp add: wf_server_def)
  have "length (concat (map sdp_text (session_lines cl))) < 200" "length (concat (map sdp_text (video_lines srv))) < 200"
    "length (concat (map sdp_text audio_lines)) < 200" "length (concat (map sdp_text backchannel_lines)) < 200"
    using fps by (simp_all add: line_defs sdp_text_def Let_def CRLF_def)
  moreover have "length (concat (map sdp_text (crypto_lines srv))) < 200"
  proof (cases "sv_srtp_key srv")
    case (Some key)
    then show ?thesis using crypto_line [OF assms Some] by (simp add: sdp_text_def CRLF_def)
  qed (simp add: crypto_lines_def)
  ultimately show "length (concat (map sdp_text (described srv cl))) < 2048" by (simp add: described_def)
  show "concat (map sdp_text (described srv cl)) \<noteq> []" by (simp add: described_def session_lines_def Let_def sdp_text_def)
qed

lemma sdp_body:
  assumes "list_all wf_sdp ls"
  shows "nul_free (concat (map sdp_text ls))" "no_cr_end (concat (map sdp_text ls))"
proof -
  show "nul_free (concat (map sdp_text ls))"
    using assms by (induction ls) (auto simp: sdp_text_def wf_sdp_def CRLF_def)
  show "no_cr_end (concat (map sdp_text ls))"
    by (cases ls rule: rev_cases) (simp_all add: sdp_text_def no_cr_end_def ends_with_def CRLF_def numeral_3_eq_3)
qed

text \<open>The description is built as one text, which fits its buffer of 2048 octets.\<close>

lemma describe_body:
  assumes "wf_server srv" "cl' = cl\<lparr>cl_backchannel_supported :=
      compy_require_has_tag (req_header_map req) COMPY_REQUIRE_ONVIF_BACKCHANNEL\<rparr>"
    "sdp = concat (map sdp_text (described srv cl'))"
  shows "Client_describe W srv (auth, cl) ctx req =
     compy_header ctx COMPY_HEADER_CONTENT_TYPE ''application/sdp'' \<bind> (\<lambda>ctx.
     compy_respond_ok W (compy_body ctx sdp) \<bind> (\<lambda>(_, ctx). Some ((auth, cl'), ctx)))"
proof -
  note parts = described_parts [OF assms(1)]
  have optional: "(if cl_backchannel_supported cl' then COMPY_SDP_DESCRIBE r compy_string_writer t backchannel_lines else Some (r, t)) =
      COMPY_SDP_DESCRIBE r compy_string_writer t (if cl_backchannel_supported cl' then backchannel_lines else [])" for r t
    by simp
  have run: "COMPY_SDP_DESCRIBE (int n) compy_string_writer t ls =
      Some (int (n + length (concat (map sdp_text ls))), t @ concat (map sdp_text ls))" if "list_all wf_sdp ls" for n t ls
    using describe_text [OF that, of "int n" t] by simp
  have zero: "COMPY_SDP_DESCRIBE 0 compy_string_writer t ls =
      Some (int (length (concat (map sdp_text ls))), t @ concat (map sdp_text ls))" if "list_all wf_sdp ls" for t ls
    using describe_text [OF that, of 0 t] by simp
  have opt: "list_all wf_sdp (if cl_backchannel_supported cl' then backchannel_lines else [])" using parts(4) by simp
  note len = described_length [OF assms(1), of cl', folded assms(3)]
  have sdp: "sdp = (((concat (map sdp_text (session_lines cl')) @ concat (map sdp_text (video_lines srv))) @
      concat (map sdp_text audio_lines)) @ concat (map sdp_text (if cl_backchannel_supported cl' then backchannel_lines else []))) @
      concat (map sdp_text (crypto_lines srv))"
    by (simp add: assms(3) described_def)
  have n: "(((length (concat (map sdp_text (session_lines cl'))) + length (concat (map sdp_text (video_lines srv)))) +
      length (concat (map sdp_text audio_lines))) + length (concat (map sdp_text (if cl_backchannel_supported cl' then backchannel_lines else [])))) +
      length (concat (map sdp_text (crypto_lines srv))) = length sdp"
    unfolding sdp length_append ..
  from len show ?thesis
    unfolding Client_describe_def Let_def fst_conv snd_conv assms(2) [symmetric] optional zero [OF parts(1)] run [OF parts(2)]
      run [OF parts(3)] run [OF opt] run [OF parts(5)] Option.bind.bind_lunit split_conv append_Nil sdp [symmetric] n
    by simp
qed

section \<open>Properties\<close>

text \<open>
  C23. DESCRIBE tells the client what the server sends: with no authentication configured, a frame rate that is an
  \<open>int\<close> and at most one key of the right lengths, the client reads a 200 response of type \<open>application/sdp\<close> whose body
  is read line by line as the description of the session, the video stream, the audio stream, the backchannel exactly
  when the request requires it, and the key when there is one; that line gives the server's key back to a client that
  parses it. The server remembers whether the backchannel was required.
\<close>

theorem server_describes:
  assumes "wf_server srv" "rql_method (req_start_line req) = ''DESCRIBE''"
    and "cl' = cl\<lparr>cl_backchannel_supported := compy_require_has_tag (req_header_map req) COMPY_REQUIRE_ONVIF_BACKCHANNEL\<rparr>"
  shows "\<exists>msg sdp.
     compy_dispatch (server_controller en compy_string_writer lookup e srv out) (None, cl) w req = Some ((None, cl'), w @ msg) \<and>
     reads_as en msg COMPY_STATUS_OK ''OK'' (req_cseq req) [(COMPY_HEADER_CONTENT_TYPE, ''application/sdp'')] sdp \<and>
     sdp_read sdp = Some (described srv cl') \<and>
     (\<forall>key. sv_srtp_key srv = Some key \<longrightarrow> (\<exists>attr. (COMPY_SDP_ATTR, ''crypto:'' @ attr) \<in> set (described srv cl') \<and>
        compy_srtp_parse_crypto_attr attr suite0 \<lparr>master_key = mk, master_salt = ms\<rparr> =
          (0, Compy_SrtpSuite_AES_CM_128_HMAC_SHA1_80, \<lparr>master_key = master_key key, master_salt = master_salt key\<rparr>)))"
proof -
  define sdp where "sdp = concat (map sdp_text (described srv cl'))"
  let ?hs = "[(COMPY_HEADER_CONTENT_TYPE, ''application/sdp'')]"
  let ?ctx = "(Compy_Context_new w (req_cseq req))\<lparr>ctx_header_map := map header_of ?hs, ctx_body := sdp\<rparr>"
  note parts = described_parts [OF assms(1)]
  have wf: "list_all wf_sdp (described srv cl')" using parts by (simp add: described_def)
  have body: "nul_free sdp" "no_cr_end sdp" "length sdp < 2 ^ 63"
    using sdp_body [OF wf] described_length(1) [OF assms(1), of cl'] by (simp_all add: sdp_def)
  obtain msg where msg: "compy_respond compy_string_writer ?ctx COMPY_STATUS_OK ''OK'' =
      Some (int (length msg), ?ctx\<lparr>ctx_ret := int (length msg), ctx_writer := ctx_writer ?ctx @ msg\<rparr>)"
    "reads_as en msg COMPY_STATUS_OK ''OK'' (ctx_cseq ?ctx) ?hs (ctx_body ?ctx)"
    by (rule respond_reads_as [of ?ctx ?hs "''OK''"])
      (use body in \<open>simp_all add: plain_headers COMPY_HEADER_MAP_CAPACITY_def wf_line_def starts_with_def\<close>)
  have "compy_dispatch (server_controller en compy_string_writer lookup e srv out) (None, cl) w req = Some ((None, cl'), w @ msg)"
    using server_dispatch [of en compy_string_writer lookup e srv out req "Client_describe compy_string_writer srv" cl w]
      describe_body [OF assms(1,3) sdp_def, of compy_string_writer None] msg(1)
      compy_header_plain [OF plain_headers(3), of "Compy_Context_new w (req_cseq req)"]
    by (simp add: assms(2) server_table compy_respond_ok_def compy_body_def COMPY_HEADER_MAP_CAPACITY_def)
  moreover have "sdp_read sdp = Some (described srv cl')" unfolding sdp_def by (rule sdp_read_text [OF wf])
  moreover have "\<exists>attr. (COMPY_SDP_ATTR, ''crypto:'' @ attr) \<in> set (described srv cl') \<and>
      compy_srtp_parse_crypto_attr attr suite0 \<lparr>master_key = mk, master_salt = ms\<rparr> =
        (0, Compy_SrtpSuite_AES_CM_128_HMAC_SHA1_80, \<lparr>master_key = master_key key, master_salt = master_salt key\<rparr>)"
    if "sv_srtp_key srv = Some key" for key
    using that assms(1) crypto_line(1) [OF assms(1) that] crypto_attr_parse [of key]
    by (intro exI [of _ "crypto_attr_text 1 Compy_SrtpSuite_AES_CM_128_HMAC_SHA1_80 key"]) (simp add: described_def wf_server_def)
  ultimately show ?thesis using msg(2) by auto
qed

definition sample_secure_server :: server where
  "sample_secure_server = sample_server\<lparr>sv_srtp_key := Some \<lparr>master_key = replicate 16 1, master_salt = replicate 14 2\<rparr>\<rparr>"

theorem server_describes_witness:
  "\<exists>msg sdp attr.
     compy_dispatch (server_controller LittleEndian compy_string_writer sample_lookup \<lparr>getrandom = [], urandom = None\<rparr>
         sample_secure_server sample_outside) (None, Client_new sample_addr sample_kernel) []
         (sample_request ''DESCRIBE'' ''rtsp://camera/'' [] 1) =
       Some ((None, Client_new sample_addr sample_kernel), [] @ msg) \<and>
     reads_as LittleEndian msg COMPY_STATUS_OK ''OK'' 1 [(COMPY_HEADER_CONTENT_TYPE, ''application/sdp'')] sdp \<and>
     sdp_read sdp = Some (described sample_secure_server (Client_new sample_addr sample_kernel)) \<and>
     compy_srtp_parse_crypto_attr attr Compy_SrtpSuite_AES_CM_128_HMAC_SHA1_32 \<lparr>master_key = [], master_salt = []\<rparr> =
       (0, Compy_SrtpSuite_AES_CM_128_HMAC_SHA1_80, \<lparr>master_key = replicate 16 1, master_salt = replicate 14 2\<rparr>)"
proof -
  let ?req = "sample_request ''DESCRIBE'' ''rtsp://camera/'' [] 1" and ?cl = "Client_new sample_addr sample_kernel"
  have "wf_server sample_secure_server" "rql_method (req_start_line ?req) = ''DESCRIBE''"
    "?cl = ?cl\<lparr>cl_backchannel_supported := compy_require_has_tag (req_header_map ?req) COMPY_REQUIRE_ONVIF_BACKCHANNEL\<rparr>"
    by (simp_all add: wf_server_def sample_secure_server_def sample_server_def sample_request_def Client_new_def
        compy_require_has_tag_def)
  from server_describes [OF this, of LittleEndian sample_lookup "\<lparr>getrandom = [], urandom = None\<rparr>" sample_outside "[]"
      Compy_SrtpSuite_AES_CM_128_HMAC_SHA1_32 "[]" "[]"]
  show ?thesis by (auto simp: sample_secure_server_def) (simp add: sample_request_def, blast)
qed

end
