(* ===== verification/Server_Close.thy ===== *)
theory Server_Close
  imports Server_Invariant
begin

text \<open>
  The end of a connection of the example server: \<open>Client_drop\<close> (\<open>examples/server.c\<close>), which stops the timers of the
  streams, says goodbye on their RTCP transports and drops the players. What remains when the client is freed are the
  event loop's timers and the kernel; an object that is dropped is taken out of the state. The drop functions of
  transports free memory and close nothing, but they assert that there is an object. \<open>None\<close> is a failed \<open>assert\<close> or a
  transport without a result.
\<close>

text \<open>The players own their timer, the one the stream has had since it was given to them, and drop their transport.\<close>

definition AudioCtx_drop :: "bool \<Rightarrow> nat option \<Rightarrow> Client \<Rightarrow> Client option" where
  "AudioCtx_drop has_transport ev self = event_del ev self \<bind> (\<lambda>self. if has_transport then Some self else None)"

definition VideoCtx_drop :: "nat option \<Rightarrow> Client \<Rightarrow> Client option" where
  "VideoCtx_drop ev self = event_del ev self"

definition drop_stream :: "endian \<Rightarrow> conn_transport Compy_Transport \<Rightarrow> nat \<Rightarrow> Client \<Rightarrow> Client option" where
  "drop_stream en T i self =
     (let stream = cl_streams self ! i
      in (case sm_ev stream of None \<Rightarrow> Some self | Some e \<Rightarrow> event_del (Some e) self) \<bind> (\<lambda>self.
         (case sm_rtcp stream of
            None \<Rightarrow> Some self
          | Some rtcp \<Rightarrow>
              (case sm_transport stream of
                 None \<Rightarrow> None
               | Some transport \<Rightarrow>
                   Compy_Rtcp_send_bye en T transport rtcp \<bind> (\<lambda>_.
                   (case sm_rtcp_ev stream of None \<Rightarrow> Some self | Some e \<Rightarrow> event_del (Some e) self) \<bind> (\<lambda>self.
                   Some (self\<lparr>cl_streams := (cl_streams self)[i := (cl_streams self ! i)\<lparr>sm_rtcp := None\<rparr>]\<rparr>))))) \<bind> (\<lambda>self.
         (case sm_ctx stream of
            None \<Rightarrow> Some self
          | Some player \<Rightarrow>
              (case player of
                 AudioPlayer has_transport \<Rightarrow> AudioCtx_drop has_transport (sm_ev stream) self
               | VideoPlayer \<Rightarrow> VideoCtx_drop (sm_ev stream) self) \<bind> (\<lambda>self.
              Some (self\<lparr>cl_streams := (cl_streams self)[i := (cl_streams self ! i)\<lparr>sm_ctx := None\<rparr>]\<rparr>))))))"

fun drop_loop :: "endian \<Rightarrow> conn_transport Compy_Transport \<Rightarrow> nat list \<Rightarrow> Client \<Rightarrow> Client option" where
  "drop_loop en T [] self = Some self"
| "drop_loop en T (i # is) self = drop_stream en T i self \<bind> drop_loop en T is"

definition Client_drop :: "endian \<Rightarrow> conn_transport Compy_Transport \<Rightarrow> Client \<Rightarrow> Client option" where
  "Client_drop en T self =
     drop_loop en T [0..<MAX_STREAMS] self \<bind> (\<lambda>self.
     case cl_backchannel self of None \<Rightarrow> Some self | Some _ \<Rightarrow> Some (self\<lparr>cl_backchannel := None\<rparr>))"

definition send_rtcp_sr_cb ::
  "endian \<Rightarrow> conn_transport Compy_Transport \<Rightarrow> u64 option \<Rightarrow> u64 \<times> u64 \<Rightarrow> u64 \<times> u64 \<Rightarrow> u64 \<times> u64 \<Rightarrow>
     conn_transport Compy_RtpTransport \<Rightarrow> conn_transport Compy_Rtcp \<Rightarrow> (conn_transport Compy_Rtcp \<times> u64 option) option" where
  "send_rtcp_sr_cb en T once init now now' rtp rtcp =
     Compy_Rtcp_send_sr en T once init now now' rtp rtcp \<bind> (\<lambda>(_, rtcp, once). Some (rtcp, once))"

section \<open>What is left\<close>

text \<open>Every transport answers, be it with an error.\<close>

definition answers :: "'t Compy_Transport \<Rightarrow> bool" where
  "answers T \<longleftrightarrow> (\<forall>t bufs. t_transmit T t bufs \<noteq> None)"

definition stopped :: "nat list \<Rightarrow> bool list \<Rightarrow> bool list" where
  "stopped ts evs = fold (\<lambda>t evs. evs[t := False]) ts evs"

lemma length_stopped [simp]: "length (stopped ts evs) = length evs"
  by (induction ts arbitrary: evs) (simp_all add: stopped_def)

lemma nth_stopped: "n < length evs \<Longrightarrow> stopped ts evs ! n = (evs ! n \<and> n \<notin> set ts)"
proof (induction ts arbitrary: evs)
  case (Cons t ts)
  have "stopped (t # ts) evs = stopped ts (evs[t := False])" by (simp add: stopped_def)
  then show ?case using Cons by (cases "n = t") auto
qed (simp add: stopped_def)

lemma stopped_append: "stopped (ts @ us) evs = stopped us (stopped ts evs)"
  by (simp add: stopped_def)

lemma stopped_again: "set us \<subseteq> set ts \<Longrightarrow> stopped us (stopped ts evs) = stopped ts evs"
  by (rule nth_equalityI) (auto simp: nth_stopped)

text \<open>A stream as the invariant has it, and the one player that cannot be dropped.\<close>

definition stream_ok :: "Stream \<Rightarrow> bool" where
  "stream_ok s \<longleftrightarrow> (sm_transport s = None) = (sm_rtcp s = None) \<and> (sm_ctx s = None) = (sm_ev s = None) \<and>
     (sm_rtcp s = None \<longrightarrow> sm_rtcp_ev s = None)"

definition null_player :: "Stream \<Rightarrow> bool" where
  "null_player s \<longleftrightarrow> sm_ctx s = Some (AudioPlayer False)"

lemma drop_player:
  assumes "(sm_ctx s = None) = (sm_ev s = None)"
  shows "(case sm_ctx s of
       None \<Rightarrow> Some self
     | Some player \<Rightarrow>
         (case player of
            AudioPlayer has_transport \<Rightarrow> AudioCtx_drop has_transport (sm_ev s) self
          | VideoPlayer \<Rightarrow> VideoCtx_drop (sm_ev s) self) \<bind> (\<lambda>self.
         Some (self\<lparr>cl_streams := (cl_streams self)[i := (cl_streams self ! i)\<lparr>sm_ctx := None\<rparr>]\<rparr>))) =
     (if null_player s then None
      else Some (self\<lparr>cl_events := stopped (case sm_ev s of None \<Rightarrow> [] | Some e \<Rightarrow> [e]) (cl_events self),
        cl_streams := (if sm_ctx s = None then cl_streams self
          else (cl_streams self)[i := (cl_streams self ! i)\<lparr>sm_ctx := None\<rparr>])\<rparr>))"
  using assms
  by (cases "sm_ctx s"; cases "sm_ev s")
    (auto simp: AudioCtx_drop_def VideoCtx_drop_def event_del_def null_player_def stopped_def split: player.splits)

lemma drop_rtcp:
  assumes "answers T" "(sm_transport s = None) = (sm_rtcp s = None)" "sm_rtcp s = None \<longrightarrow> sm_rtcp_ev s = None"
  shows "(case sm_rtcp s of
       None \<Rightarrow> Some self
     | Some rtcp \<Rightarrow>
         (case sm_transport s of
            None \<Rightarrow> None
          | Some transport \<Rightarrow>
              Compy_Rtcp_send_bye en T transport rtcp \<bind> (\<lambda>_.
              (case sm_rtcp_ev s of None \<Rightarrow> Some self | Some e \<Rightarrow> event_del (Some e) self) \<bind> (\<lambda>self.
              Some (self\<lparr>cl_streams := (cl_streams self)[i := (cl_streams self ! i)\<lparr>sm_rtcp := None\<rparr>]\<rparr>))))) =
     Some (self\<lparr>cl_events := stopped (case sm_rtcp_ev s of None \<Rightarrow> [] | Some e \<Rightarrow> [e]) (cl_events self),
       cl_streams := (if sm_rtcp s = None then cl_streams self
         else (cl_streams self)[i := (cl_streams self ! i)\<lparr>sm_rtcp := None\<rparr>])\<rparr>)"
proof (cases "sm_rtcp s")
  case None
  then show ?thesis using assms(3) by (simp add: stopped_def)
next
  case (Some rtcp)
  then obtain rtp where rtp: "sm_transport s = Some rtp" using assms(2) by auto
  obtain ret t where "t_transmit T (rs_rtcp_transport rtcp) [Compy_RtcpBye_serialize en (Compy_RtpTransport_get_ssrc rtp)] = Some (ret, t)"
    using assms(1) unfolding answers_def by (metis not_Some_eq surj_pair)
  then have "Compy_Rtcp_send_bye en T rtp rtcp = Some (ret, rtcp\<lparr>rs_rtcp_transport := t\<rparr>)" by (simp add: Compy_Rtcp_send_bye_def)
  then show ?thesis using Some rtp by (cases "sm_rtcp_ev s") (simp_all add: event_del_def stopped_def)
qed

lemma drop_stream_stops:
  assumes "answers T" "stream_ok s" and s: "s = cl_streams cl ! i"
  obtains ss where "drop_stream en T i cl =
      (if null_player s then None
       else Some (cl\<lparr>cl_streams := ss, cl_events := stopped (stream_timers s) (cl_events cl)\<rparr>))"
    "length ss = length (cl_streams cl)" "\<And>j. j \<noteq> i \<Longrightarrow> ss ! j = cl_streams cl ! j"
proof -
  let ?ev = "case sm_ev s of None \<Rightarrow> [] | Some e \<Rightarrow> [e]" and ?rtcp_ev = "case sm_rtcp_ev s of None \<Rightarrow> [] | Some e \<Rightarrow> [e]"
  have timers: "stopped ?rtcp_ev (stopped ?ev evs) = stopped (stream_timers s) evs" for evs
    by (simp add: stream_timers_def stopped_append)
  have again: "stopped ?ev (stopped (stream_timers s) evs) = stopped (stream_timers s) evs" for evs
    by (rule stopped_again) (auto simp: stream_timers_def)
  have ok: "(sm_transport s = None) = (sm_rtcp s = None)" "sm_rtcp s = None \<longrightarrow> sm_rtcp_ev s = None"
    "(sm_ctx s = None) = (sm_ev s = None)" using assms(2) by (simp_all add: stream_ok_def)
  have ev: "(case sm_ev s of None \<Rightarrow> Some cl | Some e \<Rightarrow> event_del (Some e) cl) = Some (cl\<lparr>cl_events := stopped ?ev (cl_events cl)\<rparr>)"
    by (cases "sm_ev s") (simp_all add: event_del_def stopped_def)
  define ss1 where "ss1 = (if sm_rtcp s = None then cl_streams cl else (cl_streams cl)[i := s\<lparr>sm_rtcp := None\<rparr>])"
  define ss2 where "ss2 = (if sm_ctx s = None then ss1 else ss1[i := (ss1 ! i)\<lparr>sm_ctx := None\<rparr>])"
  have "drop_stream en T i cl = (if null_player s then None
      else Some (cl\<lparr>cl_streams := ss2, cl_events := stopped (stream_timers s) (cl_events cl)\<rparr>))"
    unfolding drop_stream_def Let_def s [symmetric] drop_player [OF ok(3)] drop_rtcp [OF assms(1) ok(1,2)] ev
    by (simp add: timers again ss2_def ss1_def s [symmetric])
  moreover have "length ss2 = length (cl_streams cl)" "\<And>j. j \<noteq> i \<Longrightarrow> ss2 ! j = cl_streams cl ! j"
    by (simp_all add: ss2_def ss1_def)
  ultimately show thesis using that by blast
qed

lemma drop_loop_stops:
  assumes "answers T" "distinct is" and "\<forall>i \<in> set is. stream_ok (cl_streams cl ! i)"
  shows "\<exists>ss. drop_loop en T is cl =
     (if \<exists>i \<in> set is. null_player (cl_streams cl ! i) then None
      else Some (cl\<lparr>cl_streams := ss,
        cl_events := stopped (concat (map (\<lambda>i. stream_timers (cl_streams cl ! i)) is)) (cl_events cl)\<rparr>))"
  using assms(2,3)
proof (induction "is" arbitrary: cl)
  case Nil
  then show ?case by (intro exI [of _ "cl_streams cl"]) (simp add: stopped_def)
next
  case (Cons i "is")
  obtain ss where ss: "drop_stream en T i cl = (if null_player (cl_streams cl ! i) then None
      else Some (cl\<lparr>cl_streams := ss, cl_events := stopped (stream_timers (cl_streams cl ! i)) (cl_events cl)\<rparr>))"
    "\<And>j. j \<noteq> i \<Longrightarrow> ss ! j = cl_streams cl ! j"
    by (rule drop_stream_stops [OF assms(1), of "cl_streams cl ! i" cl i en]) (use Cons.prems in auto)
  let ?cl = "cl\<lparr>cl_streams := ss, cl_events := stopped (stream_timers (cl_streams cl ! i)) (cl_events cl)\<rparr>"
  have same: "\<forall>j \<in> set is. ss ! j = cl_streams cl ! j" using ss(2) Cons.prems(1) by (metis distinct.simps(2))
  then have eq: "map (\<lambda>i. stream_timers (ss ! i)) is = map (\<lambda>i. stream_timers (cl_streams cl ! i)) is" by simp
  have "\<exists>ss'. drop_loop en T is ?cl = (if \<exists>i \<in> set is. null_player (cl_streams ?cl ! i) then None
      else Some (?cl\<lparr>cl_streams := ss',
        cl_events := stopped (concat (map (\<lambda>i. stream_timers (cl_streams ?cl ! i)) is)) (cl_events ?cl)\<rparr>))"
    by (rule Cons.IH) (use Cons.prems same in auto)
  then obtain ss' where "drop_loop en T is ?cl = (if \<exists>i \<in> set is. null_player (cl_streams cl ! i) then None
      else Some (?cl\<lparr>cl_streams := ss',
        cl_events := stopped (concat (map (\<lambda>i. stream_timers (cl_streams cl ! i)) is)) (cl_events ?cl)\<rparr>))"
    using same by (auto simp: eq cong: if_cong)
  then show ?case using ss(1) by (intro exI [of _ ss']) (auto simp: stopped_append)
qed

section \<open>Properties\<close>

text \<open>
  C31. When a connection ends, its streams stop and its sockets stay: in every state that requests can lead to, and
  whatever its transports answer, dropping the client returns, except when the audio player was started on a stream without
  a transport, where an assertion fails. When it returns, a timer is pending afterwards exactly when it was pending
  before and is not the current timer of a stream, so that a timer which a second PLAY has replaced goes on; and the
  kernel is unchanged, so that every descriptor of a stream is still open although nothing refers to it.
\<close>

theorem server_drop_stops:
  assumes "reachable en W srv addr k cl" "answers T"
  shows "if \<exists>s. s \<in> set (cl_streams cl) \<and> sm_ctx s = Some (AudioPlayer False) then Client_drop en' T cl = None
     else \<exists>cl'. Client_drop en' T cl = Some cl' \<and> length (cl_events cl') = length (cl_events cl) \<and>
       (\<forall>n. n < length (cl_events cl) \<longrightarrow> cl_events cl' ! n = (cl_events cl ! n \<and> n \<notin> set (client_timers cl))) \<and>
       cl_kernel cl' = cl_kernel cl \<and> set (client_fds cl) \<subseteq> set (k_open (cl_kernel cl'))"
proof -
  have inv: "client_inv k cl" by (rule reachable_client_inv [OF assms(1)])
  then have len: "length (cl_streams cl) = MAX_STREAMS" by (simp add: client_inv_def streams_ok_def)
  have "\<forall>i \<in> set [0..<MAX_STREAMS]. stream_ok (cl_streams cl ! i)"
    using inv by (auto simp: client_inv_def streams_ok_def list_all_length stream_ok_def)
  from drop_loop_stops [OF assms(2) distinct_upt this, of en'] obtain ss where
    "drop_loop en' T [0..<MAX_STREAMS] cl = (if \<exists>i \<in> set [0..<MAX_STREAMS]. null_player (cl_streams cl ! i) then None
       else Some (cl\<lparr>cl_streams := ss,
         cl_events := stopped (concat (map (\<lambda>i. stream_timers (cl_streams cl ! i)) [0..<MAX_STREAMS])) (cl_events cl)\<rparr>))"
    by blast
  moreover have "concat (map (\<lambda>i. stream_timers (cl_streams cl ! i)) [0..<MAX_STREAMS]) = client_timers cl"
    unfolding client_timers_def len [symmetric] by (intro arg_cong [of _ _ concat] nth_equalityI) simp_all
  moreover have "(\<exists>i \<in> set [0..<MAX_STREAMS]. null_player (cl_streams cl ! i)) \<longleftrightarrow>
      (\<exists>s. s \<in> set (cl_streams cl) \<and> sm_ctx s = Some (AudioPlayer False))"
    unfolding len [symmetric] by (auto simp: null_player_def in_set_conv_nth) blast
  ultimately show ?thesis
    using inv by (auto simp: Client_drop_def nth_stopped client_inv_def fds_ok_def split: option.split)
qed

definition deaf_transport :: "'t Compy_Transport" where
  "deaf_transport = \<lparr>t_transmit = (\<lambda>t bufs. Some (-1, t)), t_is_full = (\<lambda>_. False)\<rparr>"

theorem server_drop_stops_witness:
  "\<exists>cl'. Client_drop LittleEndian deaf_transport
       (one_stream sample_addr sample_kernel 1 (interleaved_stream sample_outside 1 \<lparr>rtp_channel = 0, rtcp_channel = 1\<rparr>)) = Some cl' \<and>
     cl_kernel cl' = sample_kernel"
proof -
  let ?cl = "one_stream sample_addr sample_kernel 1 (interleaved_stream sample_outside 1 \<lparr>rtp_channel = 0, rtcp_channel = 1\<rparr>)"
  have answers: "answers (deaf_transport :: conn_transport Compy_Transport)" by (simp add: answers_def deaf_transport_def)
  have kernel: "cl_kernel ?cl = sample_kernel" by (simp add: one_stream_def Client_new_def)
  have players: "\<not> (\<exists>s. s \<in> set (cl_streams ?cl) \<and> sm_ctx s = Some (AudioPlayer False))"
    by (auto simp: one_stream_def Client_new_def MAX_STREAMS_def Stream_0_def interleaved_stream_def numeral_3_eq_3 in_set_conv_nth)
  from server_drop_stops [OF reachable.served [OF reachable.accepted sample_served] answers, of LittleEndian] show ?thesis
    unfolding if_not_P [OF players] kernel by blast
qed

end
