(* ===== verification/Tls_Backends.thy ===== *)
theory Tls_Backends
  imports Tls
begin

text \<open>
  The TLS operations of the three backends, \<open>src/crypto/openssl.c\<close>, \<open>src/crypto/wolfssl.c\<close> and
  \<open>src/crypto/mbedtls.c\<close>. The cryptographic library behind a backend is a record of its functions on the library's
  objects; nothing is said of it but what a theorem names. A function that gives back an object and may fail
  has that object beside its result when it frees it on the way; a connection also has the receive timeouts it
  set on the socket. \<open>None\<close> is a loop that never ends or a read past the end of the data.
\<close>

definition INT_MAX :: nat where "INT_MAX = 2 ^ 31 - 1"

section \<open>Writing\<close>

text \<open>
  The loop that the three backends share: one call of the library takes some octets, asks to be called again, or
  fails.
\<close>

datatype attempt = Took nat | Again | Failed

partial_function (option) write_all :: "('x \<Rightarrow> string \<Rightarrow> attempt \<times> 'x) \<Rightarrow> 'x \<Rightarrow> string \<Rightarrow> (bool \<times> 'x) option" where
  "write_all att x p =
     (if p = [] then Some (True, x)
      else
        (case att x p of
           (a, x) \<Rightarrow>
             (case a of
                Took n \<Rightarrow> if n \<le> length p then write_all att x (drop n p) else None
              | Again \<Rightarrow> write_all att x p
              | Failed \<Rightarrow> Some (False, x))))"

definition backend_write :: "('x \<Rightarrow> string \<Rightarrow> attempt \<times> 'x) \<Rightarrow> 'x \<Rightarrow> string \<Rightarrow> (int \<times> 'x) option" where
  "backend_write att x data = write_all att x data \<bind> (\<lambda>(all_written, x). Some (if all_written then int (length data) else -1, x))"

section \<open>OpenSSL and wolfSSL\<close>

record ('c, 'x) ssl_lib =
  SSL_CTX_new :: "'c option"
  SSL_CTX_use_certificate_file :: "'c \<Rightarrow> string \<Rightarrow> int \<times> 'c"
  SSL_CTX_use_PrivateKey_file :: "'c \<Rightarrow> string \<Rightarrow> int \<times> 'c"
  SSL_CTX_check_private_key :: "'c \<Rightarrow> int"
  SSL_new :: "'c \<Rightarrow> 'x option"
  SSL_set_fd :: "'x \<Rightarrow> int \<Rightarrow> int \<times> 'x"
  SSL_accept :: "'x \<Rightarrow> int \<times> 'x"
  SSL_write :: "'x \<Rightarrow> string \<Rightarrow> int \<times> 'x"
  SSL_read :: "'x \<Rightarrow> nat \<Rightarrow> int \<times> string \<times> 'x"
  SSL_get_error :: "'x \<Rightarrow> int \<Rightarrow> int"
  SSL_shutdown :: "'x \<Rightarrow> int \<times> 'x"
  SSL_pending :: "'x \<Rightarrow> nat"
  SSL_SUCCESS :: int
  SSL_ERROR_WANT_READ :: int
  SSL_ERROR_WANT_WRITE :: int
  SSL_ERROR_ZERO_RETURN :: int

definition ossl_ctx_new :: "('c, 'x) ssl_lib \<Rightarrow> bool \<Rightarrow> string \<Rightarrow> string \<Rightarrow> 'c option \<times> 'c option" where
  "ossl_ctx_new L allocated cert_path key_path =
     (case SSL_CTX_new L of
        None \<Rightarrow> (None, None)
      | Some ssl_ctx \<Rightarrow>
          (case SSL_CTX_use_certificate_file L ssl_ctx cert_path of
             (ret, ssl_ctx) \<Rightarrow>
               if ret \<noteq> 1 then (None, Some ssl_ctx)
               else
                 (case SSL_CTX_use_PrivateKey_file L ssl_ctx key_path of
                    (ret, ssl_ctx) \<Rightarrow>
                      if ret \<noteq> 1 then (None, Some ssl_ctx)
                      else if SSL_CTX_check_private_key L ssl_ctx \<noteq> 1 then (None, Some ssl_ctx)
                      else if \<not> allocated then (None, Some ssl_ctx)
                      else (Some ssl_ctx, None))))"

definition ossl_accept ::
  "('c, 'x) ssl_lib \<Rightarrow> bool \<Rightarrow> 'c \<Rightarrow> int \<Rightarrow> 'x option \<times> 'x option \<times> nat list" where
  "ossl_accept L allocated c fd =
     (let tv = [10];
          (ssl, freed) =
            (case SSL_new L c of
               None \<Rightarrow> (None, None)
             | Some ssl \<Rightarrow>
                 (case SSL_set_fd L ssl fd of
                    (ret, ssl) \<Rightarrow>
                      if ret \<noteq> 1 then (None, Some ssl)
                      else (case SSL_accept L ssl of (ret, ssl) \<Rightarrow> if ret \<noteq> 1 then (None, Some ssl) else (Some ssl, None))));
          tv = tv @ [0]
      in case ssl of
           None \<Rightarrow> (None, freed, tv)
         | Some ssl \<Rightarrow> if \<not> allocated then (None, Some ssl, tv) else (Some ssl, None, tv))"

definition ossl_attempt :: "('c, 'x) ssl_lib \<Rightarrow> 'x \<Rightarrow> string \<Rightarrow> attempt \<times> 'x" where
  "ossl_attempt L ssl p =
     (let chunk = (if length p > INT_MAX then INT_MAX else length p)
      in case SSL_write L ssl (take chunk p) of
           (ret, ssl) \<Rightarrow>
             if ret > 0 then (Took (nat ret), ssl)
             else
               let err = SSL_get_error L ssl ret
               in if err = SSL_ERROR_WANT_WRITE L \<or> err = SSL_ERROR_WANT_READ L then (Again, ssl) else (Failed, ssl))"

definition ossl_write :: "('c, 'x) ssl_lib \<Rightarrow> 'x \<Rightarrow> string \<Rightarrow> (int \<times> 'x) option" where
  "ossl_write L = backend_write (ossl_attempt L)"

definition ossl_read :: "('c, 'x) ssl_lib \<Rightarrow> 'x \<Rightarrow> nat \<Rightarrow> int \<times> string \<times> 'x" where
  "ossl_read L ssl len =
     (let len = (if len > INT_MAX then INT_MAX else len)
      in case SSL_read L ssl len of
           (ret, buf, ssl) \<Rightarrow>
             if ret > 0 then (ret, buf, ssl)
             else
               let err = SSL_get_error L ssl ret
               in if err = SSL_ERROR_ZERO_RETURN L then (0, buf, ssl) else (-1, buf, ssl))"

definition ossl_shutdown :: "('c, 'x) ssl_lib \<Rightarrow> 'x \<Rightarrow> int \<times> 'x" where
  "ossl_shutdown L ssl = (case SSL_shutdown L ssl of (ret, ssl) \<Rightarrow> (if ret \<ge> 0 then 0 else -1, ssl))"

definition ossl_pending :: "('c, 'x) ssl_lib \<Rightarrow> 'x \<Rightarrow> nat" where
  "ossl_pending L ssl = SSL_pending L ssl"

definition ossl_tls_ops :: "('c, 'x) ssl_lib \<Rightarrow> bool \<Rightarrow> ('c, 'x) Compy_CryptoTlsOps" where
  "ossl_tls_ops L allocated =
     \<lparr>tls_ctx_new = (\<lambda>cert key. fst (ossl_ctx_new L allocated cert key)),
      tls_accept = (\<lambda>c fd. Some (fst (ossl_accept L allocated c fd))), tls_ctx_set_cipher_preference = None,
      tls_write = ossl_write L, tls_read = ossl_read L, tls_shutdown = ossl_shutdown L, tls_pending = ossl_pending L\<rparr>"

text \<open>The functions of wolfSSL have the same shape under other names; its loops and tests are its own.\<close>

definition wolf_ctx_new :: "('c, 'x) ssl_lib \<Rightarrow> bool \<Rightarrow> string \<Rightarrow> string \<Rightarrow> 'c option \<times> 'c option" where
  "wolf_ctx_new L allocated cert_path key_path =
     (case SSL_CTX_new L of
        None \<Rightarrow> (None, None)
      | Some ctx \<Rightarrow>
          (case SSL_CTX_use_certificate_file L ctx cert_path of
             (ret, ctx) \<Rightarrow>
               if ret \<noteq> SSL_SUCCESS L then (None, Some ctx)
               else
                 (case SSL_CTX_use_PrivateKey_file L ctx key_path of
                    (ret, ctx) \<Rightarrow>
                      if ret \<noteq> SSL_SUCCESS L then (None, Some ctx)
                      else if \<not> allocated then (None, Some ctx)
                      else (Some ctx, None))))"

definition wolf_accept ::
  "('c, 'x) ssl_lib \<Rightarrow> bool \<Rightarrow> 'c \<Rightarrow> int \<Rightarrow> 'x option \<times> 'x option \<times> nat list" where
  "wolf_accept L allocated c fd =
     (let tv = [10];
          (ssl, freed) =
            (case SSL_new L c of
               None \<Rightarrow> (None, None)
             | Some ssl \<Rightarrow>
                 let ssl = snd (SSL_set_fd L ssl fd)
                 in case SSL_accept L ssl of
                      (ret, ssl) \<Rightarrow> if ret \<noteq> SSL_SUCCESS L then (None, Some ssl) else (Some ssl, None));
          tv = tv @ [0]
      in case ssl of
           None \<Rightarrow> (None, freed, tv)
         | Some ssl \<Rightarrow> if \<not> allocated then (None, Some ssl, tv) else (Some ssl, None, tv))"

definition wolf_attempt :: "('c, 'x) ssl_lib \<Rightarrow> 'x \<Rightarrow> string \<Rightarrow> attempt \<times> 'x" where
  "wolf_attempt L ssl p =
     (let chunk = (if length p > INT_MAX then INT_MAX else length p)
      in case SSL_write L ssl (take chunk p) of
           (ret, ssl) \<Rightarrow>
             if ret > 0 then (Took (nat ret), ssl)
             else
               let err = SSL_get_error L ssl ret
               in if err = SSL_ERROR_WANT_WRITE L \<or> err = SSL_ERROR_WANT_READ L then (Again, ssl) else (Failed, ssl))"

definition wolf_write :: "('c, 'x) ssl_lib \<Rightarrow> 'x \<Rightarrow> string \<Rightarrow> (int \<times> 'x) option" where
  "wolf_write L = backend_write (wolf_attempt L)"

definition wolf_read :: "('c, 'x) ssl_lib \<Rightarrow> 'x \<Rightarrow> nat \<Rightarrow> int \<times> string \<times> 'x" where
  "wolf_read L ssl len =
     (let len = (if len > INT_MAX then INT_MAX else len)
      in case SSL_read L ssl len of
           (ret, buf, ssl) \<Rightarrow>
             if ret > 0 then (ret, buf, ssl)
             else
               let err = SSL_get_error L ssl ret
               in if err = SSL_ERROR_ZERO_RETURN L then (0, buf, ssl) else (-1, buf, ssl))"

definition wolf_shutdown :: "('c, 'x) ssl_lib \<Rightarrow> 'x \<Rightarrow> int \<times> 'x" where
  "wolf_shutdown L ssl = (case SSL_shutdown L ssl of (ret, ssl) \<Rightarrow> (if ret \<ge> 0 then 0 else -1, ssl))"

definition wolf_pending :: "('c, 'x) ssl_lib \<Rightarrow> 'x \<Rightarrow> nat" where
  "wolf_pending L ssl = SSL_pending L ssl"

definition wolf_tls_ops :: "('c, 'x) ssl_lib \<Rightarrow> bool \<Rightarrow> ('c, 'x) Compy_CryptoTlsOps" where
  "wolf_tls_ops L allocated =
     \<lparr>tls_ctx_new = (\<lambda>cert key. fst (wolf_ctx_new L allocated cert key)),
      tls_accept = (\<lambda>c fd. Some (fst (wolf_accept L allocated c fd))), tls_ctx_set_cipher_preference = None,
      tls_write = wolf_write L, tls_read = wolf_read L, tls_shutdown = wolf_shutdown L, tls_pending = wolf_pending L\<rparr>"

section \<open>mbedTLS\<close>

text \<open>
  Versions before 4 seed a generator of their own, \<open>COMPY_MBEDTLS_LEGACY\<close>; from 3 on the order of the server's
  ciphersuites can be chosen. The configuration and the context of a connection are the library's.
\<close>

record ('c, 'x) mbed_lib =
  mbed_version :: nat
  mbed_ctx_init :: 'c
  mbedtls_ctr_drbg_seed :: "'c \<Rightarrow> int \<times> 'c"
  mbedtls_x509_crt_parse_file :: "'c \<Rightarrow> string \<Rightarrow> int \<times> 'c"
  mbedtls_pk_parse_keyfile :: "'c \<Rightarrow> string \<Rightarrow> int \<times> 'c"
  mbedtls_ssl_config_defaults :: "'c \<Rightarrow> int \<times> 'c"
  mbedtls_ssl_conf_rng :: "'c \<Rightarrow> 'c"
  mbedtls_ssl_conf_ca_chain :: "'c \<Rightarrow> 'c"
  mbedtls_ssl_conf_own_cert :: "'c \<Rightarrow> int \<times> 'c"
  mbedtls_ssl_conf_ciphersuites :: "string list option \<Rightarrow> 'c \<Rightarrow> 'c"
  mbedtls_ssl_conf_preference_order :: "'c \<Rightarrow> 'c"
  mbedtls_ssl_setup :: "'c \<Rightarrow> int \<times> 'x"
  mbedtls_ssl_set_bio :: "'x \<Rightarrow> int \<Rightarrow> 'x"
  mbedtls_ssl_handshake :: "'x \<Rightarrow> int \<times> 'x"
  mbedtls_ssl_write :: "'x \<Rightarrow> string \<Rightarrow> int \<times> 'x"
  mbedtls_ssl_read :: "'x \<Rightarrow> nat \<Rightarrow> int \<times> string \<times> 'x"
  mbedtls_ssl_close_notify :: "'x \<Rightarrow> int \<times> 'x"
  mbedtls_ssl_get_bytes_avail :: "'x \<Rightarrow> nat"
  MBEDTLS_ERR_SSL_WANT_READ :: int
  MBEDTLS_ERR_SSL_WANT_WRITE :: int
  MBEDTLS_ERR_SSL_PEER_CLOSE_NOTIFY :: int
  MBEDTLS_SSL_PROTO_TLS1_3 :: bool

definition COMPY_MBEDTLS_LEGACY :: "('c, 'x) mbed_lib \<Rightarrow> bool" where
  "COMPY_MBEDTLS_LEGACY L \<longleftrightarrow> mbed_version L < 0x04000000"

definition mbed_ctx_new :: "('c, 'x) mbed_lib \<Rightarrow> bool \<Rightarrow> string \<Rightarrow> string \<Rightarrow> 'c option \<times> 'c option" where
  "mbed_ctx_new L allocated cert_path key_path =
     (if \<not> allocated then (None, None)
      else
        case (if COMPY_MBEDTLS_LEGACY L then mbedtls_ctr_drbg_seed L (mbed_ctx_init L) else (0, mbed_ctx_init L)) of
          (ret, self) \<Rightarrow>
            if ret \<noteq> 0 then (None, Some self)
            else
              (case mbedtls_x509_crt_parse_file L self cert_path of
                 (ret, self) \<Rightarrow>
                   if ret \<noteq> 0 then (None, Some self)
                   else
                     (case mbedtls_pk_parse_keyfile L self key_path of
                        (ret, self) \<Rightarrow>
                          if ret \<noteq> 0 then (None, Some self)
                          else
                            (case mbedtls_ssl_config_defaults L self of
                               (ret, self) \<Rightarrow>
                                 if ret \<noteq> 0 then (None, Some self)
                                 else
                                   let self = (if COMPY_MBEDTLS_LEGACY L then mbedtls_ssl_conf_rng L self else self);
                                       self = mbedtls_ssl_conf_ca_chain L self
                                   in case mbedtls_ssl_conf_own_cert L self of
                                        (ret, self) \<Rightarrow> if ret \<noteq> 0 then (None, Some self) else (Some self, None)))))"

definition mbed_cipher_chacha20_only :: "('c, 'x) mbed_lib \<Rightarrow> string list" where
  "mbed_cipher_chacha20_only L =
     (if MBEDTLS_SSL_PROTO_TLS1_3 L then [''TLS1_3_CHACHA20_POLY1305_SHA256''] else []) @
     [''TLS_ECDHE_ECDSA_WITH_AES_128_CBC_SHA256'', ''TLS_ECDHE_ECDSA_WITH_AES_256_CBC_SHA384'',
      ''TLS_ECDHE_ECDSA_WITH_AES_128_CCM_8'', ''TLS_ECDHE_ECDSA_WITH_AES_128_CCM'', ''TLS_ECDHE_ECDSA_WITH_AES_256_CCM_8'',
      ''TLS_ECDHE_ECDSA_WITH_AES_256_CCM'', ''TLS_ECDHE_ECDSA_WITH_AES_128_GCM_SHA256'',
      ''TLS_ECDHE_ECDSA_WITH_AES_256_GCM_SHA384'', ''TLS_ECDHE_RSA_WITH_AES_128_CBC_SHA256'',
      ''TLS_ECDHE_RSA_WITH_AES_256_CBC_SHA384'', ''TLS_ECDHE_RSA_WITH_AES_128_GCM_SHA256'',
      ''TLS_ECDHE_RSA_WITH_AES_256_GCM_SHA384'', ''TLS_RSA_WITH_AES_128_CCM_8'', ''TLS_RSA_WITH_AES_128_CCM'',
      ''TLS_RSA_WITH_AES_128_GCM_SHA256'', ''TLS_RSA_WITH_AES_128_CBC_SHA256'', ''TLS_RSA_WITH_AES_256_CBC_SHA256'']"

definition COMPY_TLS_CIPHER_DEFAULT :: int where "COMPY_TLS_CIPHER_DEFAULT = 0"
definition COMPY_TLS_CIPHER_CHACHA20_ONLY :: int where "COMPY_TLS_CIPHER_CHACHA20_ONLY = 1"

definition mbed_ctx_set_cipher_preference :: "('c, 'x) mbed_lib \<Rightarrow> 'c \<Rightarrow> int \<Rightarrow> int \<times> 'c" where
  "mbed_ctx_set_cipher_preference L c pref =
     (if pref = COMPY_TLS_CIPHER_DEFAULT then (0, mbedtls_ssl_conf_ciphersuites L None c)
      else if pref = COMPY_TLS_CIPHER_CHACHA20_ONLY then
        let c = mbedtls_ssl_conf_ciphersuites L (Some (mbed_cipher_chacha20_only L)) c
        in (0, if mbed_version L \<ge> 0x03000000 then mbedtls_ssl_conf_preference_order L c else c)
      else (-1, c))"

partial_function (option) mbed_handshake_loop :: "('c, 'x) mbed_lib \<Rightarrow> 'x \<Rightarrow> (bool \<times> 'x) option" where
  "mbed_handshake_loop L ssl =
     (case mbedtls_ssl_handshake L ssl of
        (ret, ssl) \<Rightarrow>
          if ret = 0 then Some (True, ssl)
          else if ret \<noteq> MBEDTLS_ERR_SSL_WANT_READ L \<and> ret \<noteq> MBEDTLS_ERR_SSL_WANT_WRITE L then Some (False, ssl)
          else mbed_handshake_loop L ssl)"

definition mbed_accept ::
  "('c, 'x) mbed_lib \<Rightarrow> bool \<Rightarrow> 'c \<Rightarrow> int \<Rightarrow> ('x option \<times> 'x option \<times> nat list) option" where
  "mbed_accept L allocated c fd =
     (let tv = [10]
      in if \<not> allocated then Some (None, None, tv @ [0])
         else
           case mbedtls_ssl_setup L c of
             (ret, ssl) \<Rightarrow>
               if ret \<noteq> 0 then Some (None, None, tv @ [0])
               else
                 mbed_handshake_loop L (mbedtls_ssl_set_bio L ssl fd) \<bind> (\<lambda>(established, ssl).
                 if \<not> established then Some (None, Some ssl, tv @ [0]) else Some (Some ssl, None, tv @ [0])))"

definition mbed_attempt :: "('c, 'x) mbed_lib \<Rightarrow> 'x \<Rightarrow> string \<Rightarrow> attempt \<times> 'x" where
  "mbed_attempt L ssl p =
     (case mbedtls_ssl_write L ssl p of
        (ret, ssl) \<Rightarrow>
          if ret = MBEDTLS_ERR_SSL_WANT_WRITE L \<or> ret = MBEDTLS_ERR_SSL_WANT_READ L then (Again, ssl)
          else if ret < 0 then (Failed, ssl)
          else (Took (nat ret), ssl))"

definition mbed_write :: "('c, 'x) mbed_lib \<Rightarrow> 'x \<Rightarrow> string \<Rightarrow> (int \<times> 'x) option" where
  "mbed_write L = backend_write (mbed_attempt L)"

definition mbed_read :: "('c, 'x) mbed_lib \<Rightarrow> 'x \<Rightarrow> nat \<Rightarrow> int \<times> string \<times> 'x" where
  "mbed_read L ssl len =
     (case mbedtls_ssl_read L ssl len of
        (ret, buf, ssl) \<Rightarrow>
          if ret \<ge> 0 then (ret, buf, ssl)
          else if ret = MBEDTLS_ERR_SSL_PEER_CLOSE_NOTIFY L then (0, buf, ssl)
          else (-1, buf, ssl))"

definition mbed_shutdown :: "('c, 'x) mbed_lib \<Rightarrow> 'x \<Rightarrow> int \<times> 'x" where
  "mbed_shutdown L ssl = (case mbedtls_ssl_close_notify L ssl of (ret, ssl) \<Rightarrow> (if ret = 0 then 0 else -1, ssl))"

definition mbed_pending :: "('c, 'x) mbed_lib \<Rightarrow> 'x \<Rightarrow> nat" where
  "mbed_pending L ssl = mbedtls_ssl_get_bytes_avail L ssl"

definition mbed_tls_ops :: "('c, 'x) mbed_lib \<Rightarrow> bool \<Rightarrow> ('c, 'x) Compy_CryptoTlsOps" where
  "mbed_tls_ops L allocated =
     \<lparr>tls_ctx_new = (\<lambda>cert key. fst (mbed_ctx_new L allocated cert key)),
      tls_accept = (\<lambda>c fd. map_option fst (mbed_accept L allocated c fd)),
      tls_ctx_set_cipher_preference = Some (mbed_ctx_set_cipher_preference L),
      tls_write = mbed_write L, tls_read = mbed_read L, tls_shutdown = mbed_shutdown L, tls_pending = mbed_pending L\<rparr>"

section \<open>The loop returns\<close>

text \<open>
  What the documentation of a library says of one attempt: the octets it takes are the next ones for the peer, at
  least one and at most all; a request to try again and a failure take none; and the library does not ask to try again
  for ever. \<open>out\<close> is what has been given to the peer, \<open>retries\<close> bounds the requests before the next progress,
  \<open>ready n\<close> are the connections that the next \<open>n\<close> octets can be written to, and \<open>may_fail\<close> says whether
  these may still fail.
\<close>

definition attempts_ok ::
  "bool \<Rightarrow> ('x \<Rightarrow> string \<Rightarrow> attempt \<times> 'x) \<Rightarrow> ('x \<Rightarrow> string) \<Rightarrow> ('x \<Rightarrow> nat) \<Rightarrow> (nat \<Rightarrow> 'x \<Rightarrow> bool) \<Rightarrow> bool" where
  "attempts_ok may_fail att out retries ready \<longleftrightarrow>
     (\<forall>x p n a x'. att x p = (a, x') \<longrightarrow> p \<noteq> [] \<longrightarrow> length p \<le> n \<longrightarrow> ready n x \<longrightarrow>
        (case a of
           Took k \<Rightarrow> 0 < k \<and> k \<le> length p \<and> out x' = out x @ take k p \<and> ready (n - k) x'
         | Again \<Rightarrow> out x' = out x \<and> retries x' < retries x \<and> ready n x'
         | Failed \<Rightarrow> out x' = out x \<and> may_fail))"

lemma write_all_returns:
  assumes "attempts_ok may_fail att out retries ready" "ready n x" "length p \<le> n"
  shows "\<exists>all_written x' k. write_all att x p = Some (all_written, x') \<and> out x' = out x @ take k p \<and>
     (if all_written then k = length p \<and> ready (n - length p) x' else may_fail \<and> k < length p)"
  using assms(2,3)
proof (induction "length p" arbitrary: p x n rule: less_induct)
  case (less p)
  note shorter = less.hyps
  show ?case using less.prems
  proof (induction "retries x" arbitrary: x rule: less_induct)
    case (less x)
    show ?case
    proof (cases "p = []")
      case False
      obtain a x' where att: "att x p = (a, x')" by (cases "att x p")
      have law: "case a of
           Took k \<Rightarrow> 0 < k \<and> k \<le> length p \<and> out x' = out x @ take k p \<and> ready (n - k) x'
         | Again \<Rightarrow> out x' = out x \<and> retries x' < retries x \<and> ready n x'
         | Failed \<Rightarrow> out x' = out x \<and> may_fail"
        using assms(1) att False less.prems unfolding attempts_ok_def by blast
      show ?thesis
      proof (cases a)
        case (Took k)
        then have k: "0 < k" "k \<le> length p" "out x' = out x @ take k p" "ready (n - k) x'" using law by simp_all
        then have "length (drop k p) < length p" "length (drop k p) \<le> n - k" using False less.prems(2) by (cases p; auto)+
        from shorter [OF this(1) k(4) this(2)] obtain w y j where
          "write_all att x' (drop k p) = Some (w, y)" "out y = out x' @ take j (drop k p)"
          "if w then j = length (drop k p) \<and> ready (n - k - length (drop k p)) y else may_fail \<and> j < length (drop k p)"
          by blast
        moreover have "take k p @ take j (drop k p) = take (k + j) p" by (simp add: take_add)
        ultimately show ?thesis
          using k False by (intro exI [of _ w] exI [of _ y] exI [of _ "k + j"])
            (subst write_all.simps, auto simp: att Took split: if_splits)
      next
        case Again
        then show ?thesis using less.hyps [of x'] law less.prems False by (subst write_all.simps) (simp add: att)
      next
        case Failed
        then show ?thesis using law False by (subst write_all.simps) (auto simp: att intro: exI [of _ 0])
      qed
    qed (use less.prems in \<open>auto simp: write_all.simps\<close>)
  qed
qed

lemma backend_write_accepts:
  assumes "attempts_ok False att out retries ready" "tls_write ops = backend_write att" "ready n x"
  shows "tls_accepts ops out n x"
  using assms(3)
proof (induction n arbitrary: x rule: less_induct)
  case (less n)
  show ?case
  proof (subst tls_accepts.simps, intro allI impI)
    fix d :: string
    assume d: "length d \<le> n"
    obtain x' where x': "write_all att x d = Some (True, x')" "out x' = out x @ d" "ready (n - length d) x'"
      using write_all_returns [OF assms(1) less.prems d] by (auto split: if_splits)
    moreover have "d = [] \<Longrightarrow> x' = x" using x'(1) by (simp add: write_all.simps)
    ultimately show "case tls_write ops x d of
        None \<Rightarrow> False
      | Some (ret, x') \<Rightarrow>
          ret = int (length d) \<and> out x' = out x @ d \<and>
          (d \<noteq> [] \<longrightarrow> length d \<le> n \<longrightarrow> tls_accepts ops out (n - length d) x') \<and> (d = [] \<longrightarrow> x' = x)"
      using less.IH [of "n - length d" x'] d by (cases d) (auto simp: assms(2) backend_write_def)
  qed
qed

section \<open>Partial delivery\<close>

text \<open>
  A weaker law of an attempt: whatever it answers, it may have delivered a part of the data. \<open>sent\<close> is how
  many octets of the data of an unfinished write the peer already has; such a write goes on with the same data, of
  which the library sees the first \<open>cap\<close> octets.
\<close>

definition attempts_send ::
  "(nat \<Rightarrow> nat) \<Rightarrow> ('x \<Rightarrow> string \<Rightarrow> attempt \<times> 'x) \<Rightarrow> ('x \<Rightarrow> string) \<Rightarrow> ('x \<Rightarrow> nat) \<Rightarrow> bool" where
  "attempts_send cap att out sent \<longleftrightarrow> (\<forall>n. cap n \<le> n) \<and>
     (\<forall>x p a x'. att x p = (a, x') \<longrightarrow> p \<noteq> [] \<longrightarrow> sent x \<le> cap (length p) \<longrightarrow>
        (\<exists>k. sent x \<le> k \<and> k \<le> cap (length p) \<and> out x' = out x @ drop (sent x) (take k p) \<and>
           (case a of Took n \<Rightarrow> n = k \<and> sent x' = 0 | Again \<Rightarrow> sent x' = k | Failed \<Rightarrow> True)))"

lemma write_all_cases [consumes 1, case_names Done Took Again Failed]:
  assumes "write_all att x p = Some r" and "\<And>x. Q x [] (True, x)"
    and "\<And>x p n x' r. p \<noteq> [] \<Longrightarrow> att x p = (Took n, x') \<Longrightarrow> n \<le> length p \<Longrightarrow> Q x' (drop n p) r \<Longrightarrow> Q x p r"
    and "\<And>x p x' r. p \<noteq> [] \<Longrightarrow> att x p = (Again, x') \<Longrightarrow> Q x' p r \<Longrightarrow> Q x p r"
    and "\<And>x p x'. p \<noteq> [] \<Longrightarrow> att x p = (Failed, x') \<Longrightarrow> Q x p (False, x')"
  shows "Q x p r"
proof -
  have "(\<lambda>a x p r. a = att \<longrightarrow> Q x p r) att x p r"
    by (rule write_all.raw_induct [of "\<lambda>a x p r. a = att \<longrightarrow> Q x p r" "((att, x), p)" r, unfolded prod.case, OF _ assms(1)])
      (use assms(2-5) in \<open>fastforce split: if_splits prod.splits attempt.splits\<close>)
  then show ?thesis by simp
qed

lemma drop_take_append: "d \<le> k \<Longrightarrow> drop d (take k p) @ drop k p = drop d p"
  by (metis drop_take append_take_drop_id drop_drop le_add_diff_inverse2)

lemma drop_take_step: "d \<le> k \<Longrightarrow> k \<le> m \<Longrightarrow> drop d (take k p) @ drop k (take m p) = drop d (take m p)"
  using drop_take_append [of d k "take m p"] by (simp add: min_def)

lemma write_all_sends:
  assumes "write_all att x p = Some r" and law: "attempts_send cap att out sent" and "sent x \<le> cap (length p)"
  shows "(\<exists>k. sent x \<le> k \<and> out (snd r) = out x @ drop (sent x) (take k p)) \<and>
     (fst r \<longrightarrow> out (snd r) = out x @ drop (sent x) p \<and> sent (snd r) = 0)"
  using assms(1,3)
proof (induction rule: write_all_cases)
  case (Done x)
  have "cap 0 \<le> 0" using law unfolding attempts_send_def by blast
  then show ?case using Done by auto
next
  case (Took x p n x' r)
  have n: "sent x \<le> n" "out x' = out x @ drop (sent x) (take n p)" "sent x' = 0"
    using law Took unfolding attempts_send_def by fastforce+
  have "(\<exists>k. out (snd r) = out x' @ take k (drop n p)) \<and> (fst r \<longrightarrow> out (snd r) = out x' @ drop n p \<and> sent (snd r) = 0)"
    using Took.IH n(3) by simp
  then obtain k where k: "out (snd r) = out x' @ take k (drop n p)" "fst r \<longrightarrow> out (snd r) = out x' @ drop n p \<and> sent (snd r) = 0"
    by blast
  have "out (snd r) = out x @ drop (sent x) (take (n + k) p)"
    using k(1) n drop_take_step [of "sent x" n "n + k" p] by (simp add: drop_take)
  then show ?case using k(2) n drop_take_append [of "sent x" n p] by (auto intro: exI [of _ "n + k"])
next
  case (Again x p x' r)
  have again: "sent x \<le> sent x'" "sent x' \<le> cap (length p)" "out x' = out x @ drop (sent x) (take (sent x') p)"
    using law Again unfolding attempts_send_def by fastforce+
  then obtain k where "sent x' \<le> k" "out (snd r) = out x' @ drop (sent x') (take k p)"
    "fst r \<longrightarrow> out (snd r) = out x' @ drop (sent x') p \<and> sent (snd r) = 0"
    using Again.IH by blast
  with again show ?case
    using drop_take_step [of "sent x" "sent x'" k p] drop_take_append [of "sent x" "sent x'" p] by (auto intro: exI [of _ k])
next
  case (Failed x p x')
  then show ?case using law unfolding attempts_send_def by fastforce
qed

text \<open>The loop returns when the requests to go on without progress come to an end, and spins when they do not.\<close>

lemma write_all_gives_way:
  fixes retries :: "'x \<Rightarrow> nat"
  assumes law: "attempts_send cap att out sent" and "sent x \<le> cap (length p)"
    and way: "\<And>x p a x'. att x p = (a, x') \<Longrightarrow> p \<noteq> [] \<Longrightarrow> a = Again \<or> a = Took 0 \<Longrightarrow> retries x' < retries x"
  shows "\<exists>r. write_all att x p = Some r"
  using assms(2)
proof (induction "(length p, retries x)" arbitrary: p x rule: wf_induct_rule [OF wf_lex_prod [OF wf_less wf_less]])
  case 1
  show ?case
  proof (cases "p = []")
    case False
    obtain a x' where att: "att x p = (a, x')" by fastforce
    obtain k where k: "sent x \<le> k" "k \<le> cap (length p)" "k \<le> length p"
        "case a of Took n \<Rightarrow> n = k \<and> sent x' = 0 | Again \<Rightarrow> sent x' = k | Failed \<Rightarrow> True"
      using law att False 1(2) unfolding attempts_send_def by (meson le_trans)
    show ?thesis
    proof (cases a)
      case (Took n)
      then have "\<exists>r. write_all att x' (drop n p) = Some r"
        using 1(1) [of "drop n p" x'] way [OF att False] k False by (cases n) auto
      then show ?thesis using Took k by (subst write_all.simps) (auto simp: att)
    next
      case Again
      then have "\<exists>r. write_all att x' p = Some r" using 1(1) [of p x'] way [OF att False] k by simp
      then show ?thesis using Again by (subst write_all.simps) (auto simp: att)
    qed (subst write_all.simps, auto simp: att)
  qed (auto simp: write_all.simps)
qed

lemma write_all_spins:
  assumes "\<And>x. Q x \<Longrightarrow> \<exists>x'. att x p = (Again, x') \<and> Q x'" "Q x" "p \<noteq> []"
  shows "write_all att x p = None"
proof (rule ccontr)
  assume "write_all att x p \<noteq> None"
  then obtain r where "write_all att x p = Some r" by blast
  then have "p \<noteq> [] \<longrightarrow> Q x \<longrightarrow> (\<forall>x. Q x \<longrightarrow> (\<exists>x'. att x p = (Again, x') \<and> Q x')) \<longrightarrow> False"
    by (induction rule: write_all_cases) fastforce+
  then show False using assms by simp
qed

section \<open>What the libraries promise\<close>

text \<open>The law of an attempt, in the terms of the documentation of \<open>SSL_write\<close> and of \<open>mbedtls_ssl_write\<close>.\<close>

definition ssl_lib_ok ::
  "bool \<Rightarrow> ('c, 'x) ssl_lib \<Rightarrow> ('x \<Rightarrow> string) \<Rightarrow> ('x \<Rightarrow> nat) \<Rightarrow> (nat \<Rightarrow> 'x \<Rightarrow> bool) \<Rightarrow> bool" where
  "ssl_lib_ok may_fail L out retries ready \<longleftrightarrow>
     (\<forall>x p n ret x'. SSL_write L x p = (ret, x') \<longrightarrow> p \<noteq> [] \<longrightarrow> ready n x \<longrightarrow> length p \<le> n \<longrightarrow>
        (if ret > 0 then nat ret \<le> length p \<and> out x' = out x @ take (nat ret) p \<and> ready (n - nat ret) x'
         else out x' = out x \<and>
           (if SSL_get_error L x' ret \<in> {SSL_ERROR_WANT_WRITE L, SSL_ERROR_WANT_READ L} then retries x' < retries x \<and> ready n x'
            else may_fail)))"

definition mbed_lib_ok ::
  "bool \<Rightarrow> ('c, 'x) mbed_lib \<Rightarrow> ('x \<Rightarrow> string) \<Rightarrow> ('x \<Rightarrow> nat) \<Rightarrow> (nat \<Rightarrow> 'x \<Rightarrow> bool) \<Rightarrow> bool" where
  "mbed_lib_ok may_fail L out retries ready \<longleftrightarrow>
     MBEDTLS_ERR_SSL_WANT_WRITE L < 0 \<and> MBEDTLS_ERR_SSL_WANT_READ L < 0 \<and>
     (\<forall>x p n ret x'. mbedtls_ssl_write L x p = (ret, x') \<longrightarrow> p \<noteq> [] \<longrightarrow> ready n x \<longrightarrow> length p \<le> n \<longrightarrow>
        (if ret \<ge> 0 then 0 < ret \<and> nat ret \<le> length p \<and> out x' = out x @ take (nat ret) p \<and> ready (n - nat ret) x'
         else out x' = out x \<and>
           (if ret \<in> {MBEDTLS_ERR_SSL_WANT_WRITE L, MBEDTLS_ERR_SSL_WANT_READ L} then retries x' < retries x \<and> ready n x'
            else may_fail)))"

lemma ossl_attempts:
  assumes "ssl_lib_ok may_fail L out retries ready"
  shows "attempts_ok may_fail (ossl_attempt L) out retries ready"
  unfolding attempts_ok_def
proof (intro allI impI)
  fix x p n a x'
  assume att: "ossl_attempt L x p = (a, x')" and p: "p \<noteq> []" "length p \<le> n" "ready n x"
  define chunk where "chunk = (if length p > INT_MAX then INT_MAX else length p)"
  obtain ret y where w: "SSL_write L x (take chunk p) = (ret, y)" by (cases "SSL_write L x (take chunk p)")
  have chunk: "take chunk p \<noteq> []" "length (take chunk p) \<le> n" "length (take chunk p) = chunk" "chunk \<le> length p"
    using p by (auto simp: chunk_def INT_MAX_def)
  have "if ret > 0 then nat ret \<le> chunk \<and> out y = out x @ take (nat ret) (take chunk p) \<and> ready (n - nat ret) y
      else out y = out x \<and>
        (if SSL_get_error L y ret \<in> {SSL_ERROR_WANT_WRITE L, SSL_ERROR_WANT_READ L} then retries y < retries x \<and> ready n y
         else may_fail)"
    using assms w chunk p(3) unfolding ssl_lib_ok_def by metis
  moreover have "ossl_attempt L x p = (if ret > 0 then (Took (nat ret), y)
      else if SSL_get_error L y ret \<in> {SSL_ERROR_WANT_WRITE L, SSL_ERROR_WANT_READ L} then (Again, y) else (Failed, y))"
    unfolding ossl_attempt_def chunk_def [symmetric] Let_def w by simp
  ultimately show "case a of
      Took k \<Rightarrow> 0 < k \<and> k \<le> length p \<and> out x' = out x @ take k p \<and> ready (n - k) x'
    | Again \<Rightarrow> out x' = out x \<and> retries x' < retries x \<and> ready n x'
    | Failed \<Rightarrow> out x' = out x \<and> may_fail"
    using att chunk(4) by (auto split: if_splits)
qed

lemma wolf_attempts:
  assumes "ssl_lib_ok may_fail L out retries ready"
  shows "attempts_ok may_fail (wolf_attempt L) out retries ready"
proof -
  have "wolf_attempt L = ossl_attempt L" by (intro ext) (simp add: wolf_attempt_def ossl_attempt_def)
  then show ?thesis using ossl_attempts [OF assms] by simp
qed

lemma mbed_attempts:
  assumes "mbed_lib_ok may_fail L out retries ready"
  shows "attempts_ok may_fail (mbed_attempt L) out retries ready"
  unfolding attempts_ok_def
proof (intro allI impI)
  fix x p n a x'
  assume att: "mbed_attempt L x p = (a, x')" and p: "p \<noteq> []" "length p \<le> n" "ready n x"
  obtain ret y where w: "mbedtls_ssl_write L x p = (ret, y)" by (cases "mbedtls_ssl_write L x p")
  have "if ret \<ge> 0 then 0 < ret \<and> nat ret \<le> length p \<and> out y = out x @ take (nat ret) p \<and> ready (n - nat ret) y
      else out y = out x \<and>
        (if ret \<in> {MBEDTLS_ERR_SSL_WANT_WRITE L, MBEDTLS_ERR_SSL_WANT_READ L} then retries y < retries x \<and> ready n y
         else may_fail)"
    using assms w p unfolding mbed_lib_ok_def by blast
  then show "case a of
      Took k \<Rightarrow> 0 < k \<and> k \<le> length p \<and> out x' = out x @ take k p \<and> ready (n - k) x'
    | Again \<Rightarrow> out x' = out x \<and> retries x' < retries x \<and> ready n x'
    | Failed \<Rightarrow> out x' = out x \<and> may_fail"
    using att assms by (auto simp: mbed_attempt_def w mbed_lib_ok_def split: if_splits)
qed

text \<open>
  The weaker law of a call. The loop calls again with the same data, as the documentation asks; what a failed or
  unfinished call has sent of the data is open. \<open>ssl_gives_way\<close> and \<open>mbed_gives_way\<close> say that the library does
  not ask for ever.
\<close>

definition ssl_wants :: "('c, 'x) ssl_lib \<Rightarrow> 'x \<Rightarrow> int \<Rightarrow> bool" where
  "ssl_wants L x ret \<longleftrightarrow> ret \<le> 0 \<and> SSL_get_error L x ret \<in> {SSL_ERROR_WANT_WRITE L, SSL_ERROR_WANT_READ L}"

definition ssl_sends :: "('c, 'x) ssl_lib \<Rightarrow> ('x \<Rightarrow> string) \<Rightarrow> ('x \<Rightarrow> nat) \<Rightarrow> bool" where
  "ssl_sends L out sent \<longleftrightarrow>
     (\<forall>x p ret x'. SSL_write L x p = (ret, x') \<longrightarrow> p \<noteq> [] \<longrightarrow> sent x \<le> length p \<longrightarrow>
        (\<exists>k. sent x \<le> k \<and> k \<le> length p \<and> out x' = out x @ drop (sent x) (take k p) \<and>
           (ret > 0 \<longrightarrow> nat ret = k \<and> sent x' = 0) \<and> (ssl_wants L x' ret \<longrightarrow> sent x' = k)))"

definition ssl_gives_way :: "('c, 'x) ssl_lib \<Rightarrow> ('x \<Rightarrow> nat) \<Rightarrow> bool" where
  "ssl_gives_way L retries \<longleftrightarrow>
     (\<forall>x p ret x'. SSL_write L x p = (ret, x') \<longrightarrow> p \<noteq> [] \<longrightarrow> ssl_wants L x' ret \<longrightarrow> retries x' < retries x)"

definition mbed_wants :: "('c, 'x) mbed_lib \<Rightarrow> int \<Rightarrow> bool" where
  "mbed_wants M ret \<longleftrightarrow> ret \<in> {MBEDTLS_ERR_SSL_WANT_WRITE M, MBEDTLS_ERR_SSL_WANT_READ M}"

definition mbed_sends :: "('c, 'x) mbed_lib \<Rightarrow> ('x \<Rightarrow> string) \<Rightarrow> ('x \<Rightarrow> nat) \<Rightarrow> bool" where
  "mbed_sends M out sent \<longleftrightarrow> MBEDTLS_ERR_SSL_WANT_WRITE M < 0 \<and> MBEDTLS_ERR_SSL_WANT_READ M < 0 \<and>
     (\<forall>x p ret x'. mbedtls_ssl_write M x p = (ret, x') \<longrightarrow> p \<noteq> [] \<longrightarrow> sent x \<le> length p \<longrightarrow>
        (\<exists>k. sent x \<le> k \<and> k \<le> length p \<and> out x' = out x @ drop (sent x) (take k p) \<and>
           (ret \<ge> 0 \<longrightarrow> nat ret = k \<and> sent x' = 0) \<and> (mbed_wants M ret \<longrightarrow> sent x' = k)))"

definition mbed_gives_way :: "('c, 'x) mbed_lib \<Rightarrow> ('x \<Rightarrow> nat) \<Rightarrow> bool" where
  "mbed_gives_way M retries \<longleftrightarrow>
     (\<forall>x p ret x'. mbedtls_ssl_write M x p = (ret, x') \<longrightarrow> p \<noteq> [] \<longrightarrow> mbed_wants M ret \<or> ret = 0 \<longrightarrow> retries x' < retries x)"

lemma ossl_attempt_eq:
  "ossl_attempt L x p =
     (case SSL_write L x (take (min INT_MAX (length p)) p) of
        (ret, x') \<Rightarrow> (if ret > 0 then Took (nat ret) else if ssl_wants L x' ret then Again else Failed, x'))"
  by (auto simp: ossl_attempt_def ssl_wants_def Let_def min_def split: prod.split)

lemma wolf_attempt_eq: "wolf_attempt L = ossl_attempt L"
  by (intro ext) (simp add: wolf_attempt_def ossl_attempt_def)

lemma ossl_sends:
  assumes "ssl_sends L out sent"
  shows "attempts_send (min INT_MAX) (ossl_attempt L) out sent"
  unfolding attempts_send_def
proof (intro conjI allI impI)
  fix x p a x'
  assume att: "ossl_attempt L x p = (a, x')" and p: "p \<noteq> []" "sent x \<le> min INT_MAX (length p)"
  define q where "q = take (min INT_MAX (length p)) p"
  have q: "q \<noteq> []" "length q = min INT_MAX (length p)" using p(1) by (auto simp: q_def INT_MAX_def)
  obtain ret where w: "SSL_write L x q = (ret, x')"
    and a: "a = (if ret > 0 then Took (nat ret) else if ssl_wants L x' ret then Again else Failed)"
    using att by (auto simp: ossl_attempt_eq q_def [symmetric] split: prod.splits)
  obtain k where k: "sent x \<le> k" "k \<le> length q" "out x' = out x @ drop (sent x) (take k q)"
    "ret > 0 \<longrightarrow> nat ret = k \<and> sent x' = 0" "ssl_wants L x' ret \<longrightarrow> sent x' = k"
    using assms w q p(2) unfolding ssl_sends_def by metis
  have "take k q = take k p" using k(2) unfolding q(2) by (simp add: q_def min_def)
  with k q(2) a show "\<exists>k. sent x \<le> k \<and> k \<le> min INT_MAX (length p) \<and> out x' = out x @ drop (sent x) (take k p) \<and>
      (case a of Took n \<Rightarrow> n = k \<and> sent x' = 0 | Again \<Rightarrow> sent x' = k | Failed \<Rightarrow> True)"
    by (intro exI [of _ k]) auto
qed simp

lemma mbed_sends_attempts:
  assumes "mbed_sends M out sent"
  shows "attempts_send (\<lambda>n. n) (mbed_attempt M) out sent"
  unfolding attempts_send_def
proof (intro conjI allI impI)
  fix x p a x'
  assume att: "mbed_attempt M x p = (a, x')" and p: "p \<noteq> []" "sent x \<le> length p"
  obtain ret where w: "mbedtls_ssl_write M x p = (ret, x')"
    and a: "a = (if mbed_wants M ret then Again else if ret < 0 then Failed else Took (nat ret))"
    using att by (auto simp: mbed_attempt_def mbed_wants_def split: prod.splits if_splits)
  obtain k where "sent x \<le> k" "k \<le> length p" "out x' = out x @ drop (sent x) (take k p)"
    "ret \<ge> 0 \<longrightarrow> nat ret = k \<and> sent x' = 0" "mbed_wants M ret \<longrightarrow> sent x' = k"
    using assms w p unfolding mbed_sends_def by metis
  with a show "\<exists>k. sent x \<le> k \<and> k \<le> length p \<and> out x' = out x @ drop (sent x) (take k p) \<and>
      (case a of Took n \<Rightarrow> n = k \<and> sent x' = 0 | Again \<Rightarrow> sent x' = k | Failed \<Rightarrow> True)"
    by (intro exI [of _ k]) auto
qed simp

lemma ossl_returns:
  assumes "ssl_sends L out sent" "sent x = 0" "ssl_gives_way L retries"
  shows "ossl_write L x data \<noteq> None"
proof -
  have "\<exists>r. write_all (ossl_attempt L) x data = Some r"
  proof (rule write_all_gives_way [OF ossl_sends [OF assms(1)], where retries = retries])
    fix x p a x'
    assume "ossl_attempt L x p = (a, x')" "p \<noteq> []" "a = Again \<or> a = Took 0"
    moreover from this(2) have "take (min INT_MAX (length p)) p \<noteq> []" by (auto simp: INT_MAX_def)
    ultimately show "retries x' < retries x"
      using assms(3) unfolding ssl_gives_way_def ossl_attempt_eq by (auto split: prod.splits if_splits)
  qed (use assms(2) in simp)
  then show ?thesis by (auto simp: ossl_write_def backend_write_def)
qed

lemma mbed_returns:
  assumes "mbed_sends M out sent" "sent x = 0" "mbed_gives_way M retries"
  shows "mbed_write M x data \<noteq> None"
proof -
  have "\<exists>r. write_all (mbed_attempt M) x data = Some r"
  proof (rule write_all_gives_way [OF mbed_sends_attempts [OF assms(1)], where retries = retries])
    fix x p a x'
    assume "mbed_attempt M x p = (a, x')" "p \<noteq> []" "a = Again \<or> a = Took 0"
    then show "retries x' < retries x"
      using assms(3) unfolding mbed_gives_way_def mbed_attempt_def mbed_wants_def by (auto split: prod.splits if_splits)
  qed (use assms(2) in simp)
  then show ?thesis by (auto simp: mbed_write_def backend_write_def)
qed

section \<open>Properties\<close>

text \<open>
  What a write may have done when it returns: it has given the peer all the data and returns its length, with nothing
  left over for the next write, or it has given the peer a prefix and returns -1.
\<close>

definition writes_prefix ::
  "('x \<Rightarrow> string \<Rightarrow> (int \<times> 'x) option) \<Rightarrow> ('x \<Rightarrow> string) \<Rightarrow> ('x \<Rightarrow> nat) \<Rightarrow> 'x \<Rightarrow> string \<Rightarrow> bool" where
  "writes_prefix f out sent x data \<longleftrightarrow>
     (\<forall>ret x'. f x data = Some (ret, x') \<longrightarrow>
        (\<exists>k. out x' = out x @ take k data) \<and>
        (ret = -1 \<or> ret = int (length data) \<and> out x' = out x @ data \<and> sent x' = 0))"

lemma backend_write_prefix:
  assumes "attempts_send cap att out sent" "sent x = 0"
  shows "writes_prefix (backend_write att) out sent x data"
proof -
  have all: "(\<exists>k. out x' = out x @ take k data) \<and> (w \<longrightarrow> out x' = out x @ data \<and> sent x' = 0)"
    if "write_all att x data = Some (w, x')" for w x'
    using write_all_sends [OF that assms(1)] assms(2) by simp
  show ?thesis
    unfolding writes_prefix_def
  proof (intro allI impI)
    fix ret x'
    assume "backend_write att x data = Some (ret, x')"
    then obtain w where w: "write_all att x data = Some (w, x')" "ret = (if w then int (length data) else -1)"
      by (cases "write_all att x data") (auto simp: backend_write_def split: prod.splits)
    show "(\<exists>k. out x' = out x @ take k data) \<and> (ret = -1 \<or> ret = int (length data) \<and> out x' = out x @ data \<and> sent x' = 0)"
      using all [OF w(1)] w(2) by presburger
  qed
qed

text \<open>
  C27. A write of every backend gives the peer a prefix of what it was given, and says truly whether it is all: over a
  library that may take any part of the data, deliver some of it before it asks to be called again with the same data,
  and deliver some of it before it fails, the call returns the length of the data, and then the peer got exactly the
  data and the next write starts afresh, or -1, and then the peer got a prefix. The call returns if the
  library does not ask to be called again for ever (nor, for mbedTLS, accept nothing for ever); no bound is set on that by
  the code.
\<close>

theorem tls_backends_write:
  assumes "ssl_sends L out sent" "sent x = 0" "mbed_sends M mout msent" "msent y = 0"
  shows "writes_prefix (ossl_write L) out sent x data \<and> writes_prefix (wolf_write L) out sent x data \<and>
     writes_prefix (mbed_write M) mout msent y data \<and>
     ((\<exists>retries. ssl_gives_way L retries) \<longrightarrow> ossl_write L x data \<noteq> None \<and> wolf_write L x data \<noteq> None) \<and>
     ((\<exists>retries. mbed_gives_way M retries) \<longrightarrow> mbed_write M y data \<noteq> None)"
proof -
  have "writes_prefix (ossl_write L) out sent x data"
    unfolding ossl_write_def by (rule backend_write_prefix [OF ossl_sends [OF assms(1)] assms(2)])
  moreover have "writes_prefix (mbed_write M) mout msent y data"
    unfolding mbed_write_def by (rule backend_write_prefix [OF mbed_sends_attempts [OF assms(3)] assms(4)])
  moreover have "wolf_write L = ossl_write L" by (simp add: wolf_write_def ossl_write_def wolf_attempt_eq)
  ultimately show ?thesis using ossl_returns [OF assms(1,2)] mbed_returns [OF assms(3,4)] by auto
qed

text \<open>
  Libraries for the examples: every call asks for one retry, then takes at most three octets. A connection is what was
  sent and whether a retry is due.
\<close>

definition sample_write :: "int \<Rightarrow> bool \<times> string \<Rightarrow> string \<Rightarrow> int \<times> bool \<times> string" where
  "sample_write again x p =
     (if fst x then (again, False, snd x) else (int (min 3 (length p)), True, snd x @ take (min 3 (length p)) p))"

definition sample_ssl :: "(unit, bool \<times> string) ssl_lib" where
  "sample_ssl = \<lparr>SSL_CTX_new = Some (), SSL_CTX_use_certificate_file = (\<lambda>c _. (1, c)), SSL_CTX_use_PrivateKey_file = (\<lambda>c _. (1, c)),
     SSL_CTX_check_private_key = (\<lambda>_. 1), SSL_new = (\<lambda>_. Some (True, [])), SSL_set_fd = (\<lambda>x _. (1, x)), SSL_accept = (\<lambda>x. (1, x)),
     SSL_write = sample_write (-1), SSL_read = (\<lambda>x _. (0, [], x)), SSL_get_error = (\<lambda>_ _. 3), SSL_shutdown = (\<lambda>x. (1, x)),
     SSL_pending = (\<lambda>_. 0), SSL_SUCCESS = 1, SSL_ERROR_WANT_READ = 2, SSL_ERROR_WANT_WRITE = 3, SSL_ERROR_ZERO_RETURN = 6\<rparr>"

definition sample_mbed :: "(unit, bool \<times> string) mbed_lib" where
  "sample_mbed = \<lparr>mbed_version = 0x03000000, mbed_ctx_init = (), mbedtls_ctr_drbg_seed = (\<lambda>c. (0, c)),
     mbedtls_x509_crt_parse_file = (\<lambda>c _. (0, c)), mbedtls_pk_parse_keyfile = (\<lambda>c _. (0, c)), mbedtls_ssl_config_defaults = (\<lambda>c. (0, c)),
     mbedtls_ssl_conf_rng = (\<lambda>c. c), mbedtls_ssl_conf_ca_chain = (\<lambda>c. c), mbedtls_ssl_conf_own_cert = (\<lambda>c. (0, c)),
     mbedtls_ssl_conf_ciphersuites = (\<lambda>_ c. c), mbedtls_ssl_conf_preference_order = (\<lambda>c. c), mbedtls_ssl_setup = (\<lambda>_. (0, (True, []))),
     mbedtls_ssl_set_bio = (\<lambda>x _. x), mbedtls_ssl_handshake = (\<lambda>x. (0, x)), mbedtls_ssl_write = sample_write (-0x6880),
     mbedtls_ssl_read = (\<lambda>x _. (0, [], x)), mbedtls_ssl_close_notify = (\<lambda>x. (0, x)), mbedtls_ssl_get_bytes_avail = (\<lambda>_. 0),
     MBEDTLS_ERR_SSL_WANT_READ = -0x6900, MBEDTLS_ERR_SSL_WANT_WRITE = -0x6880, MBEDTLS_ERR_SSL_PEER_CLOSE_NOTIFY = -0x7880,
     MBEDTLS_SSL_PROTO_TLS1_3 = True\<rparr>"

lemma sample_libs_ok:
  "ssl_lib_ok b sample_ssl snd (\<lambda>x. if fst x then 1 else 0) (\<lambda>_ _. True)"
  "mbed_lib_ok b sample_mbed snd (\<lambda>x. if fst x then 1 else 0) (\<lambda>_ _. True)"
  by (auto simp: ssl_lib_ok_def mbed_lib_ok_def sample_ssl_def sample_mbed_def sample_write_def split: if_splits)

text \<open>
  Libraries that send one octet before they ask for a retry, then take at most three more octets. A connection is
  whether a retry is due, how many octets of the current data went out, and what was sent.
\<close>

definition eager_write :: "int \<Rightarrow> bool \<times> nat \<times> string \<Rightarrow> string \<Rightarrow> int \<times> bool \<times> nat \<times> string" where
  "eager_write again x p =
     (case x of (due, n, s) \<Rightarrow>
        let k = (if due then max n 1 else max n (min 4 (length p)))
        in (if due then again else int k, \<not> due, if due then k else 0, s @ drop n (take k p)))"

definition eager_ssl :: "(unit, bool \<times> nat \<times> string) ssl_lib" where
  "eager_ssl = \<lparr>SSL_CTX_new = Some (), SSL_CTX_use_certificate_file = (\<lambda>c _. (1, c)), SSL_CTX_use_PrivateKey_file = (\<lambda>c _. (1, c)),
     SSL_CTX_check_private_key = (\<lambda>_. 1), SSL_new = (\<lambda>_. Some (True, 0, [])), SSL_set_fd = (\<lambda>x _. (1, x)), SSL_accept = (\<lambda>x. (1, x)),
     SSL_write = eager_write (-1), SSL_read = (\<lambda>x _. (0, [], x)), SSL_get_error = (\<lambda>_ _. 3), SSL_shutdown = (\<lambda>x. (1, x)),
     SSL_pending = (\<lambda>_. 0), SSL_SUCCESS = 1, SSL_ERROR_WANT_READ = 2, SSL_ERROR_WANT_WRITE = 3, SSL_ERROR_ZERO_RETURN = 6\<rparr>"

lemma sample_libs_send:
  "ssl_sends eager_ssl (snd \<circ> snd) (fst \<circ> snd)" "ssl_gives_way eager_ssl (\<lambda>x. if fst x then 1 else 0)"
  "mbed_sends sample_mbed snd (\<lambda>_. 0)" "mbed_gives_way sample_mbed (\<lambda>x. if fst x then 1 else 0)"
proof -
  show "ssl_sends eager_ssl (snd \<circ> snd) (fst \<circ> snd)"
    unfolding ssl_sends_def
  proof (intro allI impI)
    fix x :: "bool \<times> nat \<times> string" and p ret x'
    assume w: "SSL_write eager_ssl x p = (ret, x')" "p \<noteq> []" "(fst \<circ> snd) x \<le> length p"
    then show "\<exists>k. (fst \<circ> snd) x \<le> k \<and> k \<le> length p \<and> (snd \<circ> snd) x' = (snd \<circ> snd) x @ drop ((fst \<circ> snd) x) (take k p) \<and>
        (ret > 0 \<longrightarrow> nat ret = k \<and> (fst \<circ> snd) x' = 0) \<and> (ssl_wants eager_ssl x' ret \<longrightarrow> (fst \<circ> snd) x' = k)"
      by (intro exI [of _ "if fst x then max (fst (snd x)) 1 else max (fst (snd x)) (min 4 (length p))"], cases p)
        (auto simp: eager_ssl_def eager_write_def ssl_wants_def Let_def split: prod.splits)
  qed
  show "ssl_gives_way eager_ssl (\<lambda>x. if fst x then 1 else 0)"
    by (auto simp: ssl_gives_way_def eager_ssl_def eager_write_def ssl_wants_def Let_def neq_Nil_conv split: prod.splits if_splits)
  show "mbed_sends sample_mbed snd (\<lambda>_. 0)"
    by (fastforce simp: mbed_sends_def mbed_wants_def sample_mbed_def sample_write_def)
  show "mbed_gives_way sample_mbed (\<lambda>x. if fst x then 1 else 0)"
    by (auto simp: mbed_gives_way_def mbed_wants_def sample_mbed_def sample_write_def split: if_splits)
qed

theorem tls_backends_write_witness:
  "\<exists>ret x ret' x'. ossl_write eager_ssl (True, 0, []) ''hello'' = Some (ret, x) \<and> (ret = -1 \<or> snd (snd x) = ''hello'') \<and>
     mbed_write sample_mbed (True, []) ''hello'' = Some (ret', x') \<and> (ret' = -1 \<or> snd x' = ''hello'')"
proof -
  note all = tls_backends_write [OF sample_libs_send(1) _ sample_libs_send(3), where x = "(True, 0, [])" and y = "(True, [])" and data = "''hello''"]
  have returns: "ossl_write eager_ssl (True, 0, []) ''hello'' \<noteq> None" "mbed_write sample_mbed (True, []) ''hello'' \<noteq> None"
    using all sample_libs_send(2,4) by auto
  have "writes_prefix (ossl_write eager_ssl) (snd \<circ> snd) (fst \<circ> snd) (True, 0, []) ''hello''"
    "writes_prefix (mbed_write sample_mbed) snd (\<lambda>_. 0) (True, []) ''hello''" using all by simp_all
  then show ?thesis using returns unfolding writes_prefix_def by fastforce
qed

text \<open>
  C28. Interleaved packets reach the client through every backend: packets sent over a TCP transport whose writer is a
  live TLS connection of any of the three backends, on a library that takes the octets in whatever pieces and after
  whatever retries, leave as whole frames that hold exactly the packets, in order, and the connection stays
  alive.
\<close>

theorem tls_backends_stream:
  assumes "(ops = ossl_tls_ops L a \<or> ops = wolf_tls_ops L a) \<and> ssl_lib_ok False L out retries ready \<or>
      ops = mbed_tls_ops M a \<and> mbed_lib_ok False M out retries ready"
    and "\<not> tc_dead (tcp_w t)" "ready (sum_list (map (\<lambda>b. tcp_cost (concat b)) packets)) (tc_crypto_conn (tcp_w t))"
    and "read_frames (map u8_of_char (out (tc_crypto_conn (tcp_w t)))) = Some []" "\<forall>k. tcp_malloc t k"
    and "list_all (\<lambda>b. tcp_fits (concat b)) packets"
  shows "\<exists>t' frames. transmit_all (compy_transport_tcp en (compy_tls_writer ops)) t packets = Some (0, t') \<and>
     \<not> tc_dead (tcp_w t') \<and>
     read_frames (map u8_of_char (out (tc_crypto_conn (tcp_w t')))) = Some frames \<and>
     map snd frames = map concat packets"
proof -
  have accepts: "tls_accepts ops out n x" if "ready n x" for n x
    using assms(1) backend_write_accepts [OF ossl_attempts, of L out retries ready ops n x]
      backend_write_accepts [OF wolf_attempts, of L out retries ready ops n x]
      backend_write_accepts [OF mbed_attempts, of M out retries ready ops n x] that
    by (auto simp: ossl_tls_ops_def wolf_tls_ops_def mbed_tls_ops_def ossl_write_def wolf_write_def mbed_write_def)
  have "tcp_ok (\<lambda>c. out (tc_crypto_conn c)) (tls_good ops out) (sum_list (map (\<lambda>b. tcp_cost (concat b)) packets)) t"
    using assms(2-5) accepts by (simp add: tcp_ok_def tls_good_def)
  moreover have "tcp_log (\<lambda>c. out (tc_crypto_conn c)) t = []" by (simp add: tcp_log_def assms(4))
  ultimately show ?thesis
    using tls_stream_decodes [where ops = ops and out = out and t = t and packets = packets and en = en] assms(6) by simp
qed

theorem tls_backends_stream_witness:
  "\<exists>t' frames. transmit_all (compy_transport_tcp LittleEndian (compy_tls_writer (mbed_tls_ops sample_mbed True)))
       \<lparr>tcp_w = \<lparr>tc_crypto_conn = (True, []), tc_mtx = 0, tc_dead = False\<rparr>, tcp_channel_id = 1,
        tcp_max_buffer = 0, tcp_malloc = \<lambda>_. True\<rparr> [[[1], [2, 3]], [[4]]] = Some (0, t') \<and>
     \<not> tc_dead (tcp_w t') \<and>
     read_frames (map u8_of_char (snd (tc_crypto_conn (tcp_w t')))) = Some frames \<and>
     map snd frames = map concat [[[1], [2, 3]], [[4]]]"
  by (rule tls_backends_stream [where ready = "\<lambda>_ _. True" and retries = "\<lambda>x. if fst x then 1 else 0" and M = sample_mbed and
      L = sample_ssl and a = True])
    (simp_all add: sample_libs_ok read_frames.simps tcp_fits_def)

text \<open>
  A handshake hands out the connection or gives it back to the library, and clears the timeout it set on the socket
  on every path on which it returns.
\<close>

lemma backend_accept_timeouts:
  "snd (snd (ossl_accept L allocated c fd)) = [10, 0]" "snd (snd (wolf_accept L allocated c fd)) = [10, 0]"
  "mbed_accept M allocated c' fd = Some r \<Longrightarrow> snd (snd r) = [10, 0]"
  by (auto simp: ossl_accept_def wolf_accept_def mbed_accept_def Let_def split: option.splits prod.splits if_splits bind_splits)

text \<open>The handshake loop of mbedTLS returns when the library asks for finitely many retries.\<close>

lemma mbed_handshake_returns:
  fixes retries :: "'x \<Rightarrow> nat"
  assumes "\<And>x x' ret. mbedtls_ssl_handshake M x = (ret, x') \<Longrightarrow>
      ret = MBEDTLS_ERR_SSL_WANT_READ M \<or> ret = MBEDTLS_ERR_SSL_WANT_WRITE M \<Longrightarrow> retries x' < retries x"
  shows "\<exists>r. mbed_handshake_loop M x = Some r"
proof (induction "retries x" arbitrary: x rule: less_induct)
  case less
  obtain ret x' where step: "mbedtls_ssl_handshake M x = (ret, x')" by fastforce
  show ?case
  proof (cases "ret = MBEDTLS_ERR_SSL_WANT_READ M \<or> ret = MBEDTLS_ERR_SSL_WANT_WRITE M")
    case True
    with less.hyps [OF assms [OF step True]] show ?thesis by (subst mbed_handshake_loop.simps) (auto simp: step)
  next
    case False
    then show ?thesis by (subst mbed_handshake_loop.simps) (auto simp: step)
  qed
qed

lemma mbed_accept_returns:
  fixes retries :: "'x \<Rightarrow> nat"
  assumes "\<And>x x' ret. mbedtls_ssl_handshake M x = (ret, x') \<Longrightarrow>
      ret = MBEDTLS_ERR_SSL_WANT_READ M \<or> ret = MBEDTLS_ERR_SSL_WANT_WRITE M \<Longrightarrow> retries x' < retries x"
  shows "\<exists>r. mbed_accept M allocated c fd = Some r"
proof -
  obtain ret ssl where set: "mbedtls_ssl_setup M c = (ret, ssl)" by fastforce
  have "\<exists>r. mbed_handshake_loop M (mbedtls_ssl_set_bio M ssl fd) = Some r"
    by (rule mbed_handshake_returns) (rule assms)
  then obtain r where "mbed_handshake_loop M (mbedtls_ssl_set_bio M ssl fd) = Some r" ..
  moreover obtain established ssl' where "r = (established, ssl')" by (cases r)
  ultimately show ?thesis by (simp add: mbed_accept_def Let_def set)
qed

lemma backend_accept_released:
  "(fst (ossl_accept L allocated c fd) = None \<and> fst (snd (ossl_accept L allocated c fd)) = None) = (SSL_new L c = None)"
  "(fst (wolf_accept L allocated c fd) = None \<and> fst (snd (wolf_accept L allocated c fd)) = None) = (SSL_new L c = None)"
  by (auto simp: ossl_accept_def wolf_accept_def Let_def split: option.splits prod.splits if_splits)

lemma backend_ctx_released:
  "(fst (ossl_ctx_new L allocated cert key) = None \<and> snd (ossl_ctx_new L allocated cert key) = None) = (SSL_CTX_new L = None)"
  "(fst (wolf_ctx_new L allocated cert key) = None \<and> snd (wolf_ctx_new L allocated cert key) = None) = (SSL_CTX_new L = None)"
  "(fst (mbed_ctx_new M allocated cert key) = None \<and> snd (mbed_ctx_new M allocated cert key) = None) = (\<not> allocated)"
  by (auto simp: ossl_ctx_new_def wolf_ctx_new_def mbed_ctx_new_def Let_def split: option.splits prod.splits if_splits)

end
