(* ===== verification/Srtp_Backends.thy ===== *)
theory Srtp_Backends
  imports Srtp_Recv Tls_Backends
begin

text \<open>
  The SRTP primitives of the three backends, \<open>src/crypto/openssl.c\<close>, \<open>src/crypto/wolfssl.c\<close> and \<open>src/crypto/mbedtls.c\<close>.
  The cryptographic library is a record of the functions that the code calls. A function that writes into a buffer gives
  the octets it wrote, fewer than asked or none when it fails, and what was in the buffer stays behind them; a result
  that the code ignores is not part of the record. The theory ends with sessions between any two backends.
\<close>

definition overwrite :: "u8 list \<Rightarrow> u8 list \<Rightarrow> u8 list" where
  "overwrite written buf = written @ drop (length written) buf"

section \<open>OpenSSL\<close>

datatype evp = EVP_aes_128_ecb | EVP_aes_128_ctr | EVP_sha1

record 'c ossl_crypto =
  EVP_CIPHER_CTX_new :: "'c option"
  EVP_EncryptInit_ex :: "'c \<Rightarrow> evp \<Rightarrow> u8 list \<Rightarrow> u8 list option \<Rightarrow> 'c"
  EVP_CIPHER_CTX_set_padding :: "'c \<Rightarrow> nat \<Rightarrow> 'c"
  EVP_EncryptUpdate :: "'c \<Rightarrow> u8 list \<Rightarrow> u8 list"
  HMAC :: "evp \<Rightarrow> u8 list \<Rightarrow> int \<Rightarrow> u8 list \<Rightarrow> u8 list"
  RAND_bytes :: "nat \<Rightarrow> int \<times> u8 list"

definition ossl_aes128_ecb :: "'c ossl_crypto \<Rightarrow> u8 list \<Rightarrow> u8 list \<Rightarrow> u8 list \<Rightarrow> u8 list" where
  "ossl_aes128_ecb L out key blk =
     (case EVP_CIPHER_CTX_new L of
        None \<Rightarrow> out
      | Some ctx \<Rightarrow>
          let ctx = EVP_EncryptInit_ex L ctx EVP_aes_128_ecb key None;
              ctx = EVP_CIPHER_CTX_set_padding L ctx 0
          in overwrite (EVP_EncryptUpdate L ctx (take 16 blk)) out)"

definition ossl_aes128_ctr :: "'c ossl_crypto \<Rightarrow> u8 list \<Rightarrow> u8 list \<Rightarrow> u8 list \<Rightarrow> u8 list" where
  "ossl_aes128_ctr L key iv data =
     (case EVP_CIPHER_CTX_new L of
        None \<Rightarrow> data
      | Some ctx \<Rightarrow>
          let ctx = EVP_EncryptInit_ex L ctx EVP_aes_128_ctr key (Some iv)
          in overwrite (EVP_EncryptUpdate L ctx (take (if length data > INT_MAX then INT_MAX else length data) data)) data)"

text \<open>The conversion of a length to \<open>int\<close>.\<close>

definition int_of_size :: "nat \<Rightarrow> int" where
  "int_of_size n = sint (word_of_nat n :: 32 word)"

definition ossl_hmac_sha1 :: "'c ossl_crypto \<Rightarrow> u8 list \<Rightarrow> u8 list \<Rightarrow> u8 list \<Rightarrow> u8 list" where
  "ossl_hmac_sha1 L out key data = overwrite (HMAC L EVP_sha1 key (int_of_size (length key)) data) out"

definition ossl_random_bytes :: "'c ossl_crypto \<Rightarrow> nat \<Rightarrow> u8 list \<Rightarrow> int \<times> u8 list" where
  "ossl_random_bytes L len buf =
     (if len > INT_MAX then (-1, buf)
      else (case RAND_bytes L len of (ret, r) \<Rightarrow> (if ret = 1 then 0 else -1, overwrite r buf)))"

definition ossl_srtp_ops :: "'c ossl_crypto \<Rightarrow> u8 list \<Rightarrow> u8 list \<Rightarrow> Compy_CryptoSrtpOps" where
  "ossl_srtp_ops L out mac =
     \<lparr>aes128_ecb = ossl_aes128_ecb L out, aes128_ctr = ossl_aes128_ctr L, hmac_sha1 = ossl_hmac_sha1 L mac\<rparr>"

section \<open>wolfSSL\<close>

text \<open>\<open>aes\<close> and \<open>hmac\<close> are the structures on the stack; lengths are converted to 32 bits.\<close>

record ('c, 'h) wolf_crypto =
  wc_aes :: 'c
  wc_AesInit :: "'c \<Rightarrow> 'c"
  wc_AesSetKey :: "'c \<Rightarrow> u8 list \<Rightarrow> u8 list option \<Rightarrow> 'c"
  wc_AesEcbEncrypt :: "'c \<Rightarrow> u8 list \<Rightarrow> u8 list"
  wc_AesCtrEncrypt :: "'c \<Rightarrow> u8 list \<Rightarrow> u8 list"
  wc_hmac :: 'h
  wc_HmacInit :: "'h \<Rightarrow> 'h"
  wc_HmacSetKey :: "'h \<Rightarrow> evp \<Rightarrow> u8 list \<Rightarrow> 'h"
  wc_HmacUpdate :: "'h \<Rightarrow> u8 list \<Rightarrow> 'h"
  wc_HmacFinal :: "'h \<Rightarrow> u8 list"
  wc_InitRng :: int
  wc_RNG_GenerateBlock :: "nat \<Rightarrow> int \<times> u8 list"

definition wolf_aes128_ecb :: "('c, 'h) wolf_crypto \<Rightarrow> u8 list \<Rightarrow> u8 list \<Rightarrow> u8 list \<Rightarrow> u8 list" where
  "wolf_aes128_ecb L out key blk =
     (let aes = wc_AesInit L (wc_aes L);
          aes = wc_AesSetKey L aes key None
      in overwrite (wc_AesEcbEncrypt L aes (take 16 blk)) out)"

definition wolf_aes128_ctr :: "('c, 'h) wolf_crypto \<Rightarrow> u8 list \<Rightarrow> u8 list \<Rightarrow> u8 list \<Rightarrow> u8 list" where
  "wolf_aes128_ctr L key iv data =
     (let aes = wc_AesInit L (wc_aes L);
          aes = wc_AesSetKey L aes key (Some iv)
      in overwrite (wc_AesCtrEncrypt L aes (take (length data mod 2 ^ 32) data)) data)"

definition wolf_hmac_sha1 :: "('c, 'h) wolf_crypto \<Rightarrow> u8 list \<Rightarrow> u8 list \<Rightarrow> u8 list \<Rightarrow> u8 list" where
  "wolf_hmac_sha1 L out key data =
     (let hmac = wc_HmacInit L (wc_hmac L);
          hmac = wc_HmacSetKey L hmac EVP_sha1 (take (length key mod 2 ^ 32) key);
          hmac = wc_HmacUpdate L hmac (take (length data mod 2 ^ 32) data)
      in overwrite (wc_HmacFinal L hmac) out)"

definition wolf_random_bytes :: "('c, 'h) wolf_crypto \<Rightarrow> nat \<Rightarrow> u8 list \<Rightarrow> int \<times> u8 list" where
  "wolf_random_bytes L len buf =
     (if wc_InitRng L \<noteq> 0 then (-1, buf)
      else (case wc_RNG_GenerateBlock L (len mod 2 ^ 32) of (ret, r) \<Rightarrow> (if ret = 0 then 0 else -1, overwrite r buf)))"

definition wolf_srtp_ops :: "('c, 'h) wolf_crypto \<Rightarrow> u8 list \<Rightarrow> u8 list \<Rightarrow> Compy_CryptoSrtpOps" where
  "wolf_srtp_ops L out mac =
     \<lparr>aes128_ecb = wolf_aes128_ecb L out, aes128_ctr = wolf_aes128_ctr L, hmac_sha1 = wolf_hmac_sha1 L mac\<rparr>"

section \<open>mbedTLS\<close>

text \<open>Versions before 4 have functions of their own; later ones have those of PSA, with keys that are imported.\<close>

datatype mbed_mode = MBEDTLS_AES_ENCRYPT | MBEDTLS_MD_SHA1
datatype psa_type = PSA_KEY_TYPE_AES | PSA_KEY_TYPE_HMAC
datatype psa_usage = PSA_KEY_USAGE_ENCRYPT | PSA_KEY_USAGE_SIGN_MESSAGE
datatype psa_alg = PSA_ALG_ECB_NO_PADDING | PSA_ALG_CTR | PSA_ALG_HMAC_SHA_1

record psa_key_attributes =
  psa_key_type :: psa_type
  psa_key_bits :: nat
  psa_key_usage_flags :: psa_usage
  psa_key_algorithm :: psa_alg

record ('c, 'k, 'o) mbed_crypto =
  mc_legacy :: bool
  mbedtls_aes_init :: 'c
  mbedtls_aes_setkey_enc :: "'c \<Rightarrow> u8 list \<Rightarrow> nat \<Rightarrow> 'c"
  mbedtls_aes_crypt_ecb :: "'c \<Rightarrow> mbed_mode \<Rightarrow> u8 list \<Rightarrow> u8 list"
  mbedtls_aes_crypt_ctr :: "'c \<Rightarrow> nat \<Rightarrow> u8 list \<Rightarrow> u8 list \<Rightarrow> u8 list \<Rightarrow> u8 list"
  mbedtls_md_hmac :: "mbed_mode \<Rightarrow> u8 list \<Rightarrow> u8 list \<Rightarrow> u8 list"
  mc_drbg_seed :: int
  mc_drbg_random :: "nat \<Rightarrow> int \<times> u8 list"
  PSA_SUCCESS :: int
  psa_import_key :: "psa_key_attributes \<Rightarrow> u8 list \<Rightarrow> int \<times> 'k"
  psa_cipher_encrypt :: "'k \<Rightarrow> psa_alg \<Rightarrow> u8 list \<Rightarrow> u8 list"
  psa_cipher_encrypt_setup :: "'k \<Rightarrow> psa_alg \<Rightarrow> int \<times> 'o"
  psa_cipher_set_iv :: "'o \<Rightarrow> u8 list \<Rightarrow> int \<times> 'o"
  psa_cipher_update :: "'o \<Rightarrow> u8 list \<Rightarrow> int \<times> u8 list \<times> 'o"
  psa_cipher_finish :: "'o \<Rightarrow> u8 list"
  psa_mac_compute :: "'k \<Rightarrow> psa_alg \<Rightarrow> u8 list \<Rightarrow> u8 list"
  psa_generate_random :: "nat \<Rightarrow> int \<times> u8 list"

definition mbed_aes128_ecb :: "('c, 'k, 'o) mbed_crypto \<Rightarrow> u8 list \<Rightarrow> u8 list \<Rightarrow> u8 list \<Rightarrow> u8 list" where
  "mbed_aes128_ecb L out key blk =
     (if mc_legacy L then
        let aes = mbedtls_aes_setkey_enc L (mbedtls_aes_init L) key 128
        in overwrite (mbedtls_aes_crypt_ecb L aes MBEDTLS_AES_ENCRYPT blk) out
      else
        let attr = \<lparr>psa_key_type = PSA_KEY_TYPE_AES, psa_key_bits = 128, psa_key_usage_flags = PSA_KEY_USAGE_ENCRYPT,
              psa_key_algorithm = PSA_ALG_ECB_NO_PADDING\<rparr>;
            kid = snd (psa_import_key L attr (take 16 key))
        in overwrite (psa_cipher_encrypt L kid PSA_ALG_ECB_NO_PADDING (take 16 blk)) out)"

definition mbed_aes128_ctr :: "('c, 'k, 'o) mbed_crypto \<Rightarrow> u8 list \<Rightarrow> u8 list \<Rightarrow> u8 list \<Rightarrow> u8 list" where
  "mbed_aes128_ctr L key iv data =
     (if mc_legacy L then
        let aes = mbedtls_aes_setkey_enc L (mbedtls_aes_init L) key 128;
            nc_off = 0;
            stream_block = replicate 16 0;
            nonce_counter = take 16 iv
        in overwrite (mbedtls_aes_crypt_ctr L aes nc_off nonce_counter stream_block data) data
      else
        let attr = \<lparr>psa_key_type = PSA_KEY_TYPE_AES, psa_key_bits = 128, psa_key_usage_flags = PSA_KEY_USAGE_ENCRYPT,
              psa_key_algorithm = PSA_ALG_CTR\<rparr>
        in case psa_import_key L attr (take 16 key) of
             (ret, kid) \<Rightarrow>
               if ret \<noteq> PSA_SUCCESS L then data
               else
                 (case psa_cipher_encrypt_setup L kid PSA_ALG_CTR of
                    (ret, op) \<Rightarrow>
                      if ret \<noteq> PSA_SUCCESS L then data
                      else
                        (case psa_cipher_set_iv L op (take 16 iv) of
                           (ret, op) \<Rightarrow>
                             if ret \<noteq> PSA_SUCCESS L then data
                             else
                               (case psa_cipher_update L op data of
                                  (ret, out, op) \<Rightarrow>
                                    let data = overwrite out data
                                    in if ret \<noteq> PSA_SUCCESS L then data
                                       else
                                         let olen = length out
                                         in take olen data @ overwrite (psa_cipher_finish L op) (drop olen data)))))"

definition mbed_hmac_sha1 :: "('c, 'k, 'o) mbed_crypto \<Rightarrow> u8 list \<Rightarrow> u8 list \<Rightarrow> u8 list \<Rightarrow> u8 list" where
  "mbed_hmac_sha1 L out key data =
     (if mc_legacy L then overwrite (mbedtls_md_hmac L MBEDTLS_MD_SHA1 key data) out
      else
        let attr = \<lparr>psa_key_type = PSA_KEY_TYPE_HMAC, psa_key_bits = 0, psa_key_usage_flags = PSA_KEY_USAGE_SIGN_MESSAGE,
              psa_key_algorithm = PSA_ALG_HMAC_SHA_1\<rparr>;
            kid = snd (psa_import_key L attr key)
        in overwrite (psa_mac_compute L kid PSA_ALG_HMAC_SHA_1 data) out)"

definition mbed_random_bytes :: "('c, 'k, 'o) mbed_crypto \<Rightarrow> nat \<Rightarrow> u8 list \<Rightarrow> int \<times> u8 list" where
  "mbed_random_bytes L len buf =
     (if mc_legacy L then
        if mc_drbg_seed L = 0
        then (case mc_drbg_random L len of (ret, r) \<Rightarrow> (if ret = 0 then 0 else -1, overwrite r buf))
        else (-1, buf)
      else (case psa_generate_random L len of (ret, r) \<Rightarrow> (if ret = PSA_SUCCESS L then 0 else -1, overwrite r buf)))"

definition mbed_srtp_ops :: "('c, 'k, 'o) mbed_crypto \<Rightarrow> u8 list \<Rightarrow> u8 list \<Rightarrow> Compy_CryptoSrtpOps" where
  "mbed_srtp_ops L out mac =
     \<lparr>aes128_ecb = mbed_aes128_ecb L out, aes128_ctr = mbed_aes128_ctr L, hmac_sha1 = mbed_hmac_sha1 L mac\<rparr>"

text \<open>The backend that is compiled in, with what is in the buffers of a block and of a digest.\<close>

datatype ('c, 'h, 'k, 'o) backend =
    OpenSSL "'c ossl_crypto"
  | WolfSSL "('c, 'h) wolf_crypto"
  | MbedTLS "('c, 'k, 'o) mbed_crypto"

fun compy_crypto_srtp_ops :: "('c, 'h, 'k, 'o) backend \<Rightarrow> u8 list \<Rightarrow> u8 list \<Rightarrow> Compy_CryptoSrtpOps" where
  "compy_crypto_srtp_ops (OpenSSL L) out mac = ossl_srtp_ops L out mac"
| "compy_crypto_srtp_ops (WolfSSL L) out mac = wolf_srtp_ops L out mac"
| "compy_crypto_srtp_ops (MbedTLS L) out mac = mbed_srtp_ops L out mac"

section \<open>What the libraries compute\<close>

text \<open>
  Counter mode of a block cipher (NIST SP 800-38A): the data against the encryptions of the initial counter block and of
  its successors as numbers of 128 bits.
\<close>

definition be_value :: "u8 list \<Rightarrow> nat" where
  "be_value bs = foldl (\<lambda>n b. n * 256 + unat b) 0 bs"

definition counter_block :: "u8 list \<Rightarrow> nat \<Rightarrow> u8 list" where
  "counter_block iv i = map (\<lambda>j. word_of_nat ((be_value iv + i) div 256 ^ (15 - j))) [0..<16]"

definition ctr_mode :: "(u8 list \<Rightarrow> u8 list \<Rightarrow> u8 list) \<Rightarrow> u8 list \<Rightarrow> u8 list \<Rightarrow> u8 list \<Rightarrow> u8 list" where
  "ctr_mode E key iv data =
     map2 (\<lambda>d s. d XOR s) data (concat (map (\<lambda>i. E key (counter_block iv i)) [0..<(length data + 15) div 16]))"

text \<open>
  What the documentation of each library says of these calls, for a block cipher \<open>E\<close> (AES-128) and a message
  authentication code \<open>H\<close> (HMAC-SHA1), when none of them fails.
\<close>

definition ossl_crypto_ok ::
  "(u8 list \<Rightarrow> u8 list \<Rightarrow> u8 list) \<Rightarrow> (u8 list \<Rightarrow> u8 list \<Rightarrow> u8 list) \<Rightarrow> 'c ossl_crypto \<Rightarrow> bool" where
  "ossl_crypto_ok E H L \<longleftrightarrow>
     (\<exists>ctx. EVP_CIPHER_CTX_new L = Some ctx \<and>
        (\<forall>key blk. length key = 16 \<longrightarrow> length blk = 16 \<longrightarrow>
           EVP_EncryptUpdate L (EVP_CIPHER_CTX_set_padding L (EVP_EncryptInit_ex L ctx EVP_aes_128_ecb key None) 0) blk = E key blk) \<and>
        (\<forall>key iv data. length key = 16 \<longrightarrow> length iv = 16 \<longrightarrow> length data \<le> INT_MAX \<longrightarrow>
           EVP_EncryptUpdate L (EVP_EncryptInit_ex L ctx EVP_aes_128_ctr key (Some iv)) data = ctr_mode E key iv data)) \<and>
     (\<forall>key data. HMAC L EVP_sha1 key (int (length key)) data = H key data)"

definition wolf_crypto_ok ::
  "(u8 list \<Rightarrow> u8 list \<Rightarrow> u8 list) \<Rightarrow> (u8 list \<Rightarrow> u8 list \<Rightarrow> u8 list) \<Rightarrow> ('c, 'h) wolf_crypto \<Rightarrow> bool" where
  "wolf_crypto_ok E H L \<longleftrightarrow>
     (\<forall>aes key blk. length key = 16 \<longrightarrow> length blk = 16 \<longrightarrow>
        wc_AesEcbEncrypt L (wc_AesSetKey L (wc_AesInit L aes) key None) blk = E key blk) \<and>
     (\<forall>aes key iv data. length key = 16 \<longrightarrow> length iv = 16 \<longrightarrow> length data < 2 ^ 32 \<longrightarrow>
        wc_AesCtrEncrypt L (wc_AesSetKey L (wc_AesInit L aes) key (Some iv)) data = ctr_mode E key iv data) \<and>
     (\<forall>hmac key data. length key < 2 ^ 32 \<longrightarrow> length data < 2 ^ 32 \<longrightarrow>
        wc_HmacFinal L (wc_HmacUpdate L (wc_HmacSetKey L (wc_HmacInit L hmac) EVP_sha1 key) data) = H key data)"

definition mbed_crypto_ok ::
  "(u8 list \<Rightarrow> u8 list \<Rightarrow> u8 list) \<Rightarrow> (u8 list \<Rightarrow> u8 list \<Rightarrow> u8 list) \<Rightarrow> ('c, 'k, 'o) mbed_crypto \<Rightarrow> bool" where
  "mbed_crypto_ok E H L \<longleftrightarrow>
     (\<forall>key blk. length key = 16 \<longrightarrow> length blk = 16 \<longrightarrow>
        mbedtls_aes_crypt_ecb L (mbedtls_aes_setkey_enc L (mbedtls_aes_init L) key 128) MBEDTLS_AES_ENCRYPT blk = E key blk) \<and>
     (\<forall>key iv data. length key = 16 \<longrightarrow> length iv = 16 \<longrightarrow>
        mbedtls_aes_crypt_ctr L (mbedtls_aes_setkey_enc L (mbedtls_aes_init L) key 128) 0 iv (replicate 16 0) data =
          ctr_mode E key iv data) \<and>
     (\<forall>key data. mbedtls_md_hmac L MBEDTLS_MD_SHA1 key data = H key data)"

text \<open>A cipher operation of PSA may hold octets back until it is finished.\<close>

definition psa_crypto_ok ::
  "(u8 list \<Rightarrow> u8 list \<Rightarrow> u8 list) \<Rightarrow> (u8 list \<Rightarrow> u8 list \<Rightarrow> u8 list) \<Rightarrow> ('c, 'k, 'o) mbed_crypto \<Rightarrow> bool" where
  "psa_crypto_ok E H L \<longleftrightarrow>
     (\<forall>attr key. length key = 16 \<longrightarrow> attr = \<lparr>psa_key_type = PSA_KEY_TYPE_AES, psa_key_bits = 128,
          psa_key_usage_flags = PSA_KEY_USAGE_ENCRYPT, psa_key_algorithm = PSA_ALG_ECB_NO_PADDING\<rparr> \<longrightarrow>
        (\<exists>kid. psa_import_key L attr key = (PSA_SUCCESS L, kid) \<and>
           (\<forall>blk. length blk = 16 \<longrightarrow> psa_cipher_encrypt L kid PSA_ALG_ECB_NO_PADDING blk = E key blk))) \<and>
     (\<forall>attr key. length key = 16 \<longrightarrow> attr = \<lparr>psa_key_type = PSA_KEY_TYPE_AES, psa_key_bits = 128,
          psa_key_usage_flags = PSA_KEY_USAGE_ENCRYPT, psa_key_algorithm = PSA_ALG_CTR\<rparr> \<longrightarrow>
        (\<exists>kid op. psa_import_key L attr key = (PSA_SUCCESS L, kid) \<and>
           psa_cipher_encrypt_setup L kid PSA_ALG_CTR = (PSA_SUCCESS L, op) \<and>
           (\<forall>iv. length iv = 16 \<longrightarrow>
              (\<exists>op'. psa_cipher_set_iv L op iv = (PSA_SUCCESS L, op') \<and>
                 (\<forall>data. \<exists>out op''. psa_cipher_update L op' data = (PSA_SUCCESS L, out, op'') \<and>
                    out @ psa_cipher_finish L op'' = ctr_mode E key iv data))))) \<and>
     (\<forall>attr key. attr = \<lparr>psa_key_type = PSA_KEY_TYPE_HMAC, psa_key_bits = 0,
          psa_key_usage_flags = PSA_KEY_USAGE_SIGN_MESSAGE, psa_key_algorithm = PSA_ALG_HMAC_SHA_1\<rparr> \<longrightarrow>
        (\<exists>kid. psa_import_key L attr key = (PSA_SUCCESS L, kid) \<and>
           (\<forall>data. psa_mac_compute L kid PSA_ALG_HMAC_SHA_1 data = H key data)))"

fun backend_ok ::
  "(u8 list \<Rightarrow> u8 list \<Rightarrow> u8 list) \<Rightarrow> (u8 list \<Rightarrow> u8 list \<Rightarrow> u8 list) \<Rightarrow> ('c, 'h, 'k, 'o) backend \<Rightarrow> bool" where
  "backend_ok E H (OpenSSL L) \<longleftrightarrow> ossl_crypto_ok E H L"
| "backend_ok E H (WolfSSL L) \<longleftrightarrow> wolf_crypto_ok E H L"
| "backend_ok E H (MbedTLS L) \<longleftrightarrow> (if mc_legacy L then mbed_crypto_ok E H L else psa_crypto_ok E H L)"

text \<open>The operations on the functions themselves.\<close>

definition pure_ops :: "(u8 list \<Rightarrow> u8 list \<Rightarrow> u8 list) \<Rightarrow> (u8 list \<Rightarrow> u8 list \<Rightarrow> u8 list) \<Rightarrow> Compy_CryptoSrtpOps" where
  "pure_ops E H = \<lparr>aes128_ecb = E, aes128_ctr = ctr_mode E, hmac_sha1 = H\<rparr>"

definition primitives :: "(u8 list \<Rightarrow> u8 list \<Rightarrow> u8 list) \<Rightarrow> (u8 list \<Rightarrow> u8 list \<Rightarrow> u8 list) \<Rightarrow> bool" where
  "primitives E H \<longleftrightarrow> (\<forall>key blk. length (E key blk) = 16) \<and> (\<forall>key data. length (H key data) = 20)"

lemma length_keystream:
  "(\<And>blk. length (E key blk) = 16) \<Longrightarrow> length (concat (map (\<lambda>i. E key (counter_block iv i)) [0..<n])) = 16 * n"
  by (induction n) simp_all

lemma map2_xor_twice: "length d \<le> length s \<Longrightarrow> map2 (\<lambda>d s. d XOR s) (map2 (\<lambda>d s. d XOR s) d s) s = (d :: u8 list)"
proof (induction d arbitrary: s)
  case (Cons a d)
  then show ?case by (cases s) (simp_all add: xor.assoc)
qed simp

lemma pure_ops_ok:
  assumes "primitives E H"
  shows "srtp_ops_ok (pure_ops E H)"
proof -
  have len: "length data \<le> length (concat (map (\<lambda>i. E key (counter_block iv i)) [0..<(length data + 15) div 16]))" for key iv and data :: "u8 list"
    using assms by (subst length_keystream) (auto simp: primitives_def)
  have keep: "length (ctr_mode E key iv data) = length data" for key iv data
    using len [of data key iv] by (simp add: ctr_mode_def)
  have "ctr_mode E key iv (ctr_mode E key iv data) = data" for key iv data
    using map2_xor_twice [OF len [of data key iv]] keep [of key iv data] by (simp add: ctr_mode_def)
  then show ?thesis using assms keep by (simp add: srtp_ops_ok_def pure_ops_def primitives_def)
qed

section \<open>Every backend computes the functions\<close>

definition ops_agree :: "Compy_CryptoSrtpOps \<Rightarrow> Compy_CryptoSrtpOps \<Rightarrow> bool" where
  "ops_agree A B \<longleftrightarrow>
     (\<forall>key blk. length key = 16 \<longrightarrow> length blk = 16 \<longrightarrow> aes128_ecb A key blk = aes128_ecb B key blk) \<and>
     (\<forall>key iv data. length key = 16 \<longrightarrow> length iv = 16 \<longrightarrow> length data \<le> INT_MAX \<longrightarrow>
        aes128_ctr A key iv data = aes128_ctr B key iv data) \<and>
     (\<forall>key data. length key = 20 \<longrightarrow> length data \<le> INT_MAX \<longrightarrow> hmac_sha1 A key data = hmac_sha1 B key data)"

lemma overwrite_all: "length written = length buf \<Longrightarrow> overwrite written buf = written"
  by (simp add: overwrite_def)

lemma primitives_lengths:
  assumes "primitives E H"
  shows "length (E key blk) = 16" "length (ctr_mode E key iv data) = length data" "length (H key data) = 20"
  using srtp_ops_okD [OF pure_ops_ok [OF assms]] by (simp_all add: pure_ops_def)

lemma ossl_agrees:
  assumes "ossl_crypto_ok E H L" and prim: "primitives E H" and buf: "length out = 16" "length mac = 20"
  shows "ops_agree (ossl_srtp_ops L out mac) (pure_ops E H)"
proof -
  obtain ctx where ctx: "EVP_CIPHER_CTX_new L = Some ctx"
      "\<And>key blk. length key = 16 \<Longrightarrow> length blk = 16 \<Longrightarrow>
        EVP_EncryptUpdate L (EVP_CIPHER_CTX_set_padding L (EVP_EncryptInit_ex L ctx EVP_aes_128_ecb key None) 0) blk = E key blk"
      "\<And>key iv data. length key = 16 \<Longrightarrow> length iv = 16 \<Longrightarrow> length data \<le> INT_MAX \<Longrightarrow>
        EVP_EncryptUpdate L (EVP_EncryptInit_ex L ctx EVP_aes_128_ctr key (Some iv)) data = ctr_mode E key iv data"
    and mac: "\<And>key data. HMAC L EVP_sha1 key (int (length key)) data = H key data"
    using assms(1) unfolding ossl_crypto_ok_def by blast
  note len = primitives_lengths [OF prim]
  have "int_of_size 20 = 20" by (simp add: int_of_size_def)
  then have "ossl_hmac_sha1 L mac key data = H key data" if "length key = 20" for key data
    using mac [of key data] that len(3) buf(2) by (simp add: ossl_hmac_sha1_def overwrite_all)
  moreover have "ossl_aes128_ecb L out key blk = E key blk" if "length key = 16" "length blk = 16" for key blk
    using ctx that len(1) buf(1) by (simp add: ossl_aes128_ecb_def Let_def overwrite_all)
  moreover have "ossl_aes128_ctr L key iv data = ctr_mode E key iv data"
    if "length key = 16" "length iv = 16" "length data \<le> INT_MAX" for key iv data
    using ctx that len(2) by (simp add: ossl_aes128_ctr_def Let_def overwrite_all)
  ultimately show ?thesis by (simp add: ops_agree_def ossl_srtp_ops_def pure_ops_def)
qed

lemma wolf_agrees:
  assumes "wolf_crypto_ok E H L" and prim: "primitives E H" and buf: "length out = 16" "length mac = 20"
  shows "ops_agree (wolf_srtp_ops L out mac) (pure_ops E H)"
proof -
  note len = primitives_lengths [OF prim]
  have small: "n mod 2 ^ 32 = n" "n < 2 ^ 32" if "n \<le> INT_MAX" for n using that by (simp_all add: INT_MAX_def)
  have "wolf_hmac_sha1 L mac key data = H key data" if "length key = 20" "length data \<le> INT_MAX" for key data
    using assms(1) small [OF that(2)] that(1) len(3) buf(2)
    by (simp add: wolf_crypto_ok_def wolf_hmac_sha1_def Let_def overwrite_all)
  moreover have "wolf_aes128_ecb L out key blk = E key blk" if "length key = 16" "length blk = 16" for key blk
    using assms(1) that len(1) buf(1) by (simp add: wolf_crypto_ok_def wolf_aes128_ecb_def Let_def overwrite_all)
  moreover have "wolf_aes128_ctr L key iv data = ctr_mode E key iv data"
    if "length key = 16" "length iv = 16" "length data \<le> INT_MAX" for key iv data
    using assms(1) small [OF that(3)] that(1,2) len(2)
    by (simp add: wolf_crypto_ok_def wolf_aes128_ctr_def Let_def overwrite_all)
  ultimately show ?thesis by (simp add: ops_agree_def wolf_srtp_ops_def pure_ops_def)
qed

lemma mbed_agrees:
  assumes "mbed_crypto_ok E H L" "mc_legacy L" and prim: "primitives E H" and buf: "length out = 16" "length mac = 20"
  shows "ops_agree (mbed_srtp_ops L out mac) (pure_ops E H)"
  using assms(1,2) buf primitives_lengths [OF prim]
  by (simp add: ops_agree_def mbed_srtp_ops_def pure_ops_def mbed_crypto_ok_def mbed_aes128_ecb_def mbed_aes128_ctr_def
      mbed_hmac_sha1_def Let_def overwrite_all)

lemma psa_agrees:
  assumes "psa_crypto_ok E H L" "\<not> mc_legacy L" and prim: "primitives E H" and buf: "length out = 16" "length mac = 20"
  shows "ops_agree (mbed_srtp_ops L out mac) (pure_ops E H)"
proof -
  note len = primitives_lengths [OF prim] and law = assms(1) [unfolded psa_crypto_ok_def]
  have "mbed_hmac_sha1 L mac key data = H key data" for key data
  proof -
    obtain kid where "psa_import_key L \<lparr>psa_key_type = PSA_KEY_TYPE_HMAC, psa_key_bits = 0,
        psa_key_usage_flags = PSA_KEY_USAGE_SIGN_MESSAGE, psa_key_algorithm = PSA_ALG_HMAC_SHA_1\<rparr> key = (PSA_SUCCESS L, kid)"
      "psa_mac_compute L kid PSA_ALG_HMAC_SHA_1 data = H key data"
      using law [THEN conjunct2, THEN conjunct2, rule_format, OF refl, of key] by blast
    then show ?thesis using assms(2) len(3) buf(2) by (simp add: mbed_hmac_sha1_def Let_def overwrite_all)
  qed
  moreover have "mbed_aes128_ecb L out key blk = E key blk" if k: "length key = 16" "length blk = 16" for key blk
  proof -
    obtain kid where "psa_import_key L \<lparr>psa_key_type = PSA_KEY_TYPE_AES, psa_key_bits = 128,
        psa_key_usage_flags = PSA_KEY_USAGE_ENCRYPT, psa_key_algorithm = PSA_ALG_ECB_NO_PADDING\<rparr> key = (PSA_SUCCESS L, kid)"
      "psa_cipher_encrypt L kid PSA_ALG_ECB_NO_PADDING blk = E key blk"
      using law [THEN conjunct1, rule_format, OF k(1) refl] k(2) by blast
    then show ?thesis using assms(2) len(1) buf(1) k by (simp add: mbed_aes128_ecb_def Let_def overwrite_all)
  qed
  moreover have "mbed_aes128_ctr L key iv data = ctr_mode E key iv data" if k: "length key = 16" "length iv = 16" for key iv data
  proof -
    obtain kid op op' w op'' where calls: "psa_import_key L \<lparr>psa_key_type = PSA_KEY_TYPE_AES, psa_key_bits = 128,
        psa_key_usage_flags = PSA_KEY_USAGE_ENCRYPT, psa_key_algorithm = PSA_ALG_CTR\<rparr> key = (PSA_SUCCESS L, kid)"
      "psa_cipher_encrypt_setup L kid PSA_ALG_CTR = (PSA_SUCCESS L, op)" "psa_cipher_set_iv L op iv = (PSA_SUCCESS L, op')"
      "psa_cipher_update L op' data = (PSA_SUCCESS L, w, op'')" and out: "w @ psa_cipher_finish L op'' = ctr_mode E key iv data"
      using law [THEN conjunct2, THEN conjunct1, rule_format, OF k(1) refl] k(2) by blast
    have "length w + length (psa_cipher_finish L op'') = length data" using arg_cong [OF out, of length] len(2) by simp
    then show ?thesis
      using assms(2) calls out k by (simp add: mbed_aes128_ctr_def Let_def overwrite_def)
  qed
  ultimately show ?thesis by (simp add: ops_agree_def mbed_srtp_ops_def pure_ops_def)
qed

lemma backend_agrees:
  assumes "backend_ok E H B" "primitives E H" "length out = 16" "length mac = 20"
  shows "ops_agree (compy_crypto_srtp_ops B out mac) (pure_ops E H)"
  using assms ossl_agrees wolf_agrees mbed_agrees psa_agrees by (cases B) (auto split: if_splits)

section \<open>The transports need nothing else\<close>

lemma kdf_agree:
  assumes "ops_agree A B" "length mkey = 16" "length msalt = 14"
  shows "srtp_kdf A mkey msalt label n = srtp_kdf B mkey msalt label n"
proof -
  have "srtp_kdf_loop A mkey x len g c out = srtp_kdf_loop B mkey x len g c out" if "length x = 16" for x len g c out
    using that
  proof (induction "len - g" arbitrary: g c out rule: less_induct)
    case less
    have "aes128_ecb A mkey (x[14 := a, 15 := b]) = aes128_ecb B mkey (x[14 := a, 15 := b])" for a b
      using assms(1,2) less.prems by (simp add: ops_agree_def)
    then show ?case
      using less.hyps less.prems
      by (subst (1 2) srtp_kdf_loop.simps) (simp add: Let_def AES_BLOCK_SIZE_def)
  qed
  then show ?thesis using assms(3) by (simp add: srtp_kdf_def)
qed

lemma encrypt_agree:
  assumes "ops_agree A B" "length key = 16" "length salt = 14" "length data \<le> INT_MAX"
  shows "srtp_encrypt_payload en A key salt ssrc index data = srtp_encrypt_payload en B key salt ssrc index data"
  using assms by (simp add: srtp_encrypt_payload_def ops_agree_def srtp_iv_def Let_def)

definition sender_keys :: "'t Compy_SrtpTransport \<Rightarrow> bool" where
  "sender_keys self \<longleftrightarrow> length (st_session_key self) = 16 \<and> length (st_session_salt self) = 14 \<and> length (st_auth_key self) = 20"

lemma transmit_agree:
  assumes "ops_agree A B" "srtp_ops_ok B" "sender_keys self"
  shows "Compy_SrtpTransport_transmit en A T self bufs = Compy_SrtpTransport_transmit en B T self bufs"
proof (cases "length (concat bufs) + st_auth_tag_len self > SRTP_MAX_PACKET_SIZE")
  case True
  then show ?thesis by (simp add: Compy_SrtpTransport_transmit_def)
next
  case False
  then have room: "length (drop hl (concat bufs)) \<le> INT_MAX" for hl by (simp add: SRTP_MAX_PACKET_SIZE_def INT_MAX_def)
  have payload: "srtp_encrypt_payload en A (st_session_key self) (st_session_salt self) ssrc index (drop hl (concat bufs)) =
      srtp_encrypt_payload en B (st_session_key self) (st_session_salt self) ssrc index (drop hl (concat bufs))" for ssrc index hl
    using assms(1,3) room by (intro encrypt_agree) (simp_all add: sender_keys_def)
  have tag: "hmac_sha1 A (st_auth_key self) (take hl (concat bufs) @
        srtp_encrypt_payload en B (st_session_key self) (st_session_salt self) ssrc index (drop hl (concat bufs)) @ r) =
      hmac_sha1 B (st_auth_key self) (take hl (concat bufs) @
        srtp_encrypt_payload en B (st_session_key self) (st_session_salt self) ssrc index (drop hl (concat bufs)) @ r)"
    if "length r = 4" for hl ssrc index r
  proof -
    have "length (take hl (concat bufs) @ srtp_encrypt_payload en B (st_session_key self) (st_session_salt self) ssrc index
        (drop hl (concat bufs)) @ r) \<le> INT_MAX"
      using False assms(2) that by (simp add: SRTP_MAX_PACKET_SIZE_def INT_MAX_def)
    then show ?thesis using assms(1,3) by (simp only: ops_agree_def sender_keys_def)
  qed
  show ?thesis
    unfolding Compy_SrtpTransport_transmit_def Let_def
    by (simp add: payload tag cong: if_cong split: option.split)
qed

lemma transmit_keys:
  assumes "Compy_SrtpTransport_transmit en ops T self bufs = Some (ret, self')" "sender_keys self"
  shows "sender_keys self'"
  using assms by (auto simp: Compy_SrtpTransport_transmit_def sender_keys_def Let_def split: if_splits option.splits prod.splits)

lemma transmit_all_agree:
  assumes "ops_agree A B" "srtp_ops_ok B"
  shows "sender_keys self \<Longrightarrow>
     transmit_all (compy_transport_srtp en A T) self packets = transmit_all (compy_transport_srtp en B T) self packets"
proof (induction packets arbitrary: self)
  case (Cons p packets)
  then show ?case
    using transmit_agree [OF assms Cons.prems, of en T p] transmit_keys [of en B T self p, OF _ Cons.prems]
    by (auto simp: compy_transport_srtp_def split: option.splits prod.splits)
qed simp

definition receiver_keys :: "Compy_SrtpRecvCtx \<Rightarrow> bool" where
  "receiver_keys ctx \<longleftrightarrow> length (srtp_key ctx) = 16 \<and> length (srtp_salt ctx) = 14 \<and> length (srtp_auth_key ctx) = 20"

lemma unprotect_agree:
  assumes "ops_agree A B" "receiver_keys ctx"
  shows "compy_srtp_recv_unprotect en A ctx data = compy_srtp_recv_unprotect en B ctx data"
proof (cases "length data - rc_auth_tag_len ctx + 4 > SRTP_MAX_PACKET_SIZE + 4")
  case True
  then show ?thesis by (simp add: compy_srtp_recv_unprotect_def Let_def cong: if_cong split: prod.split)
next
  case False
  let ?n = "length data - rc_auth_tag_len ctx"
  have room: "length (drop hl (take ?n data)) \<le> INT_MAX" "length r = 4 \<Longrightarrow> length (take ?n data @ r) \<le> INT_MAX" for r :: "u8 list" and hl
    using False by (simp_all add: SRTP_MAX_PACKET_SIZE_def INT_MAX_def)
  have "hmac_sha1 A (srtp_auth_key ctx) (take ?n data @ r) = hmac_sha1 B (srtp_auth_key ctx) (take ?n data @ r)" if "length r = 4" for r
    using assms room(2) [OF that] by (simp only: ops_agree_def receiver_keys_def)
  moreover have "srtp_encrypt_payload en A (srtp_key ctx) (srtp_salt ctx) ssrc index (drop hl (take ?n data)) =
     srtp_encrypt_payload en B (srtp_key ctx) (srtp_salt ctx) ssrc index (drop hl (take ?n data))" for hl ssrc index
    using assms room(1) by (intro encrypt_agree) (simp_all add: receiver_keys_def)
  moreover have "srtp_key (replay_update ctx s v) = srtp_key ctx" "srtp_salt (replay_update ctx s v) = srtp_salt ctx" for s v
    by (simp_all add: replay_update_def Let_def)
  ultimately show ?thesis unfolding compy_srtp_recv_unprotect_def Let_def by (simp cong: if_cong split: prod.split option.split)
qed

lemma unprotect_keys:
  assumes "compy_srtp_recv_unprotect en ops ctx data = Some (ret, ctx', data')" "receiver_keys ctx"
  shows "receiver_keys ctx'"
proof -
  have "receiver_keys (replay_update ctx s v)" for s v
    using assms(2) by (simp add: receiver_keys_def replay_update_def Let_def)
  then show ?thesis
    using assms by (auto simp: compy_srtp_recv_unprotect_def Let_def split: if_splits option.splits prod.splits)
qed

lemma receive_all_agree:
  assumes "ops_agree A B"
  shows "receiver_keys ctx \<Longrightarrow> srtp_receive_all en A ctx ds = srtp_receive_all en B ctx ds"
proof (induction ds arbitrary: ctx)
  case (Cons d ds)
  then show ?case
    using unprotect_agree [OF assms Cons.prems, of en d] unprotect_keys [of en B ctx d, OF _ Cons.prems]
    by (auto split: option.split)
qed simp

text \<open>The states that the constructors make.\<close>

lemma new_agree:
  assumes "ops_agree A B" "srtp_ops_ok B" "length (master_key key) = 16" "length (master_salt key) = 14"
  shows "compy_transport_srtp_new A inner suite key = compy_transport_srtp_new B inner suite key"
    "sender_keys (compy_transport_srtp_new B inner suite key)"
    "compy_srtp_recv_new A suite key = compy_srtp_recv_new B suite key" "receiver_keys (compy_srtp_recv_new B suite key)"
  using kdf_agree [OF assms(1,3,4)] length_srtp_kdf [OF assms(2,4)]
  by (simp_all add: compy_transport_srtp_new_def srtp_derive_keys_def sender_keys_def compy_srtp_recv_new_def
      receiver_keys_def Let_def)

section \<open>Properties\<close>

text \<open>
  C29. Any two backends can talk to each other: an SRTP sender and a receiver that are compiled with OpenSSL, wolfSSL,
  mbedTLS before version 4 or PSA, not necessarily the same one, with the same suite and keys. When the calls of the
  libraries do not fail and compute the same block cipher and the same message authentication code, whatever these are,
  then every packet that the sender accepts is opened by the receiver as it was given to the sender, over UDP and with
  losses and reordering as in a session of one backend. So each backend passes the right key, initial counter, mode,
  data and lengths to its library and puts the result into the right buffer.
\<close>

theorem srtp_backends_interoperate:
  assumes "primitives E H" "backend_ok E H sender" "backend_ok E H receiver"
    and "length out = 16" "length mac = 20" "length out' = 16" "length mac' = 20"
    and "length (master_key key) = 16" "length (master_salt key) = 14" and "udp_ok 0 udp" "udp_sent udp = []"
    and "srtp_stream en (suite_tag_len suite) 0 stream"
    and "\<forall>n \<in> set arrival. n < length stream" "deliverable None [] (map (\<lambda>n. fst (stream ! n)) arrival)"
    and A: "A = compy_crypto_srtp_ops sender out mac" and B: "B = compy_crypto_srtp_ops receiver out' mac'"
  shows "\<exists>s. transmit_all (compy_transport_srtp en A compy_transport_udp)
        (compy_transport_srtp_new A udp suite key) (map snd stream) = Some (0, s) \<and>
     length (udp_sent (st_inner s)) = length stream \<and>
     srtp_receive_all en B (compy_srtp_recv_new B suite key) (map (\<lambda>n. udp_sent (st_inner s) ! n) arrival) =
       Some (map (\<lambda>n. Some (concat (snd (stream ! n)))) arrival)"
proof -
  note ok = pure_ops_ok [OF assms(1)]
  have a: "ops_agree A (pure_ops E H)" unfolding A by (rule backend_agrees [OF assms(2,1,4,5)])
  have b: "ops_agree B (pure_ops E H)" unfolding B by (rule backend_agrees [OF assms(3,1,6,7)])
  note na = new_agree [OF a ok assms(8,9)] and nb = new_agree [OF b ok assms(8,9)]
  show ?thesis
    unfolding na(1) nb(3) transmit_all_agree [OF a ok na(2)] receive_all_agree [OF b nb(4)]
    by (rule srtp_session_udp [OF ok assms(10-14)])
qed

text \<open>Libraries for the example: an OpenSSL, and a PSA that holds back all octets but the first until the end.\<close>

definition sample_ossl :: "(evp \<times> u8 list \<times> u8 list) ossl_crypto" where
  "sample_ossl = \<lparr>EVP_CIPHER_CTX_new = Some (EVP_sha1, [], []),
     EVP_EncryptInit_ex = (\<lambda>_ mode key iv. (mode, key, case iv of None \<Rightarrow> [] | Some iv \<Rightarrow> iv)),
     EVP_CIPHER_CTX_set_padding = (\<lambda>ctx _. ctx),
     EVP_EncryptUpdate = (\<lambda>(mode, key, iv) data.
       if mode = EVP_aes_128_ecb then aes128_ecb toy_ops key data else ctr_mode (aes128_ecb toy_ops) key iv data),
     HMAC = (\<lambda>_ key n data. hmac_sha1 toy_ops (take (nat n) key) data), RAND_bytes = (\<lambda>n. (1, replicate n 7))\<rparr>"

definition sample_psa :: "(unit, u8 list, u8 list \<times> u8 list \<times> u8 list) mbed_crypto" where
  "sample_psa = \<lparr>mc_legacy = False, mbedtls_aes_init = (), mbedtls_aes_setkey_enc = (\<lambda>_ _ _. ()), mbedtls_aes_crypt_ecb = (\<lambda>_ _ _. []),
     mbedtls_aes_crypt_ctr = (\<lambda>_ _ _ _ _. []), mbedtls_md_hmac = (\<lambda>_ _ _. []), mc_drbg_seed = 1, mc_drbg_random = (\<lambda>_. (1, [])),
     PSA_SUCCESS = 0, psa_import_key = (\<lambda>_ key. (0, key)), psa_cipher_encrypt = (\<lambda>kid _. aes128_ecb toy_ops kid),
     psa_cipher_encrypt_setup = (\<lambda>kid _. (0, kid, [], [])), psa_cipher_set_iv = (\<lambda>(kid, _, _) iv. (0, kid, iv, [])),
     psa_cipher_update = (\<lambda>(kid, iv, _) data.
       let out = ctr_mode (aes128_ecb toy_ops) kid iv data in (0, take 1 out, kid, iv, drop 1 out)),
     psa_cipher_finish = (\<lambda>(_, _, held). held), psa_mac_compute = (\<lambda>kid _. hmac_sha1 toy_ops kid),
     psa_generate_random = (\<lambda>n. (0, replicate n 7))\<rparr>"

lemma sample_backends_ok:
  "primitives (aes128_ecb toy_ops) (hmac_sha1 toy_ops)"
  "backend_ok (aes128_ecb toy_ops) (hmac_sha1 toy_ops) (OpenSSL sample_ossl :: (_, unit, unit, unit) backend)"
  "backend_ok (aes128_ecb toy_ops) (hmac_sha1 toy_ops) (MbedTLS sample_psa :: (_, unit, _, _) backend)"
proof -
  show "primitives (aes128_ecb toy_ops) (hmac_sha1 toy_ops)" using toy_ops_ok by (simp add: primitives_def)
  show "backend_ok (aes128_ecb toy_ops) (hmac_sha1 toy_ops) (OpenSSL sample_ossl :: (_, unit, unit, unit) backend)"
    by (simp add: ossl_crypto_ok_def sample_ossl_def)
  show "backend_ok (aes128_ecb toy_ops) (hmac_sha1 toy_ops) (MbedTLS sample_psa :: (_, unit, _, _) backend)"
    by (simp add: psa_crypto_ok_def sample_psa_def Let_def)
qed

theorem srtp_backends_interoperate_witness:
  "let A = ossl_srtp_ops sample_ossl (replicate 16 1) (replicate 20 2);
       B = mbed_srtp_ops sample_psa (replicate 16 3) (replicate 20 4)
   in \<exists>s. transmit_all (compy_transport_srtp LittleEndian A compy_transport_udp)
        (compy_transport_srtp_new A sample_udp Compy_SrtpSuite_AES_CM_128_HMAC_SHA1_80 sample_key)
        (map snd sample_srtp_stream) = Some (0, s) \<and>
     length (udp_sent (st_inner s)) = length sample_srtp_stream \<and>
     srtp_receive_all LittleEndian B (compy_srtp_recv_new B Compy_SrtpSuite_AES_CM_128_HMAC_SHA1_80 sample_key)
       (map (\<lambda>n. udp_sent (st_inner s) ! n) [1, 2, 0]) =
       Some (map (\<lambda>n. Some (concat (snd (sample_srtp_stream ! n)))) [1, 2, 0])"
  unfolding Let_def
proof (rule srtp_backends_interoperate [OF sample_backends_ok _ _ _ _ _ _ sample_udp_ok sample_srtp_stream_ok])
  show "\<forall>n \<in> set [1, 2, 0]. n < length sample_srtp_stream"
    "deliverable None [] (map (\<lambda>n. fst (sample_srtp_stream ! n)) [1, 2, 0])"
    by (simp_all add: sample_srtp_stream_def)
qed (simp_all add: sample_key_def)

text \<open>
  The operations have no result: when a library gives no context, or does not take the key, counter mode leaves the
  payload as it was, and the transport sends it in the clear.
\<close>

lemma ctr_unprepared:
  "EVP_CIPHER_CTX_new L = None \<Longrightarrow> aes128_ctr (ossl_srtp_ops L out mac) key iv data = data"
  "\<not> mc_legacy M \<Longrightarrow> (\<And>attr k. fst (psa_import_key M attr k) \<noteq> PSA_SUCCESS M) \<Longrightarrow>
     aes128_ctr (mbed_srtp_ops M out mac) key iv data = data"
proof -
  show "EVP_CIPHER_CTX_new L = None \<Longrightarrow> aes128_ctr (ossl_srtp_ops L out mac) key iv data = data"
    by (simp add: ossl_srtp_ops_def ossl_aes128_ctr_def)
  assume "\<not> mc_legacy M" "\<And>attr k. fst (psa_import_key M attr k) \<noteq> PSA_SUCCESS M"
  then show "aes128_ctr (mbed_srtp_ops M out mac) key iv data = data"
    by (simp add: mbed_srtp_ops_def mbed_aes128_ctr_def Let_def split: prod.split) (metis fst_conv)
qed

end
