(* ===== verification/File_Writer.thy ===== *)
theory File_Writer
  imports Transport
begin

text \<open>
  The writer over a stream of the C library, \<open>src/writer/file.c\<close>. A \<open>FILE\<close> is what was written to it, the room that is
  left for more, and its error indicator: a write that does not fit is cut short and sets the indicator, which
  stays set.
\<close>

section \<open>Definitions\<close>

record FileWriter =
  fp_out :: string
  fp_room :: nat
  fp_error :: bool

definition fwrite :: "FileWriter \<Rightarrow> string \<Rightarrow> nat \<times> FileWriter" where
  "fwrite self data =
     (let n = min (length data) (fp_room self)
      in (n, self\<lparr>fp_out := fp_out self @ take n data, fp_room := fp_room self - n, fp_error := fp_error self \<or> n < length data\<rparr>))"

text \<open>\<open>vfprintf\<close> returns a negative value when its output was cut short.\<close>

definition vfprintf :: "FileWriter \<Rightarrow> string \<Rightarrow> int \<times> FileWriter" where
  "vfprintf self formatted =
     (case fwrite self formatted of (n, self) \<Rightarrow> (if n < length formatted then -1 else int n, self))"

definition FileWriter_write :: "FileWriter \<Rightarrow> string \<Rightarrow> (int \<times> FileWriter) option" where
  "FileWriter_write self data =
     (case fwrite self data of (ret, self) \<Rightarrow> if fp_error self then Some (-1, self) else Some (int ret, self))"

definition FileWriter_lock :: "FileWriter \<Rightarrow> FileWriter" where
  "FileWriter_lock self = self"

definition FileWriter_unlock :: "FileWriter \<Rightarrow> FileWriter" where
  "FileWriter_unlock self = self"

definition FileWriter_filled :: "FileWriter \<Rightarrow> nat" where
  "FileWriter_filled self = 0"

definition FileWriter_vwritef :: "FileWriter \<Rightarrow> string \<Rightarrow> (int \<times> FileWriter) option" where
  "FileWriter_vwritef self formatted = Some (vfprintf self formatted)"

definition FileWriter_writef :: "FileWriter \<Rightarrow> string \<Rightarrow> (int \<times> FileWriter) option" where
  "FileWriter_writef self formatted = FileWriter_vwritef self formatted"

definition compy_file_writer :: "FileWriter Compy_Writer" where
  "compy_file_writer =
     \<lparr>w_write = FileWriter_write, w_lock = FileWriter_lock, w_unlock = FileWriter_unlock, w_filled = FileWriter_filled,
      w_writef = FileWriter_writef, w_vwritef = FileWriter_vwritef\<rparr>"

section \<open>The writer's contract\<close>

lemmas file_defs = compy_file_writer_def FileWriter_write_def FileWriter_lock_def FileWriter_unlock_def FileWriter_vwritef_def
  FileWriter_writef_def vfprintf_def fwrite_def

definition file_good :: "nat \<Rightarrow> FileWriter \<Rightarrow> bool" where
  "file_good n w \<longleftrightarrow> \<not> fp_error w \<and> n \<le> fp_room w"

interpretation file_writer: binary_writer compy_file_writer fp_out file_good
  by unfold_locales (auto simp: file_good_def file_defs Let_def)

text \<open>
  Packets framed into a file are read back from it; after the first write that does not fit every write returns -1,
  also one that would fit.
\<close>

lemma file_stream_decodes:
  assumes "tcp_ok fp_out file_good (sum_list (map (\<lambda>b. tcp_cost (concat b)) packets)) t"
    and "list_all (\<lambda>b. tcp_fits (concat b)) packets"
  shows "\<exists>t' frames. transmit_all (compy_transport_tcp en compy_file_writer) t packets = Some (0, t') \<and>
     read_frames (map u8_of_char (fp_out (tcp_w t'))) = Some frames \<and> map snd frames = tcp_log fp_out t @ map concat packets"
  using file_writer.tcp.transmit_all_ok [of packets 0 t en] assms by (auto simp: tcp_ok_def tcp_log_def)

lemma file_error_sticky:
  assumes "FileWriter_write w d = Some (-1, w')"
  shows "fst (the (FileWriter_write w' e)) = -1"
  using assms by (auto simp: file_defs Let_def split: if_splits)

end
