(* ===== verification/Spec2Isabelle.thy ===== *)
theory Spec2Isabelle
  imports Base64 Nal_Transport Srtp_Recv Srtp_Keys Jpeg_File Auth_Gate Rtcp_Session Sdp Tls Libevent Server_Media
    Server_Setup Server_Describe Server_Close Srtp_Backends File_Writer
begin

text \<open>
  A verification library for Compy, the RTSP/RTP server library of this repository, and for the example server built on
  it. Paths below are relative to the root of the repository.

  \<^bold>\<open>The program.\<close> A client's octets arrive on a connection (\<open>examples/compy-libevent.c\<close>), where they are collected and
  parsed as RTSP requests (\<open>src/types\<close>). A request is dispatched to the controller of the application
  (\<open>src/controller.c\<close>) with a context that collects the answer (\<open>src/context.c\<close>) and serialises it into a writer
  (\<open>src/writer\<close>, \<open>src/tls.c\<close>). The hooks of the example server (\<open>examples/server.c\<close>) ask for digest authentication
  (\<open>src/auth.c\<close>, \<open>src/md5.c\<close>) before a handler runs. SETUP gives a stream a stack of transports: NAL units
  (\<open>src/nal_transport.c\<close>) or JPEG frames (\<open>src/jpeg_transport.c\<close>) are cut into RTP packets (\<open>src/rtp_transport.c\<close>),
  encrypted or not (\<open>src/transport/srtp.c\<close>, over a backend of \<open>src/crypto\<close>), and sent as datagrams or interleaved into
  the connection (\<open>src/transport/udp.c\<close>, \<open>src/transport/tcp.c\<close>). Beside it an RTCP session (\<open>src/rtcp.c\<close>) reports on the
  stream; packets of the client go to a receiver (\<open>src/receiver.c\<close>, \<open>src/backchannel.c\<close>).

  \<^bold>\<open>How it is modelled.\<close> A structure is a record, an enumeration or tagged union a datatype, a fixed-width integer a
  word, \<open>size_t\<close> a natural number where it measures an object. A function that changes an object returns it updated;
  one that changes a caller's buffer returns its new contents. Interfaces of the code (\<open>Compy_Writer\<close>,
  \<open>Compy_Transport\<close>, \<open>Compy_Controller\<close>, the crypto operations) are records of functions, as they are virtual tables
  there. \<open>None\<close> is undefined behaviour, a failed assertion or a call that does not return. What comes from
  outside (clocks, random numbers, results of system calls, crypto libraries, fresh memory) is an argument or a part of the
  state that no definition fixes. Byte order is a parameter, so both kinds of hosts are covered. Formatted output gets
  the text its format produces; that \<open>vsnprintf\<close> itself fails, with a negative result, is not modelled.

  \<^bold>\<open>The theories\<close>, each with the definitions, invariants and properties of its part:

  \<^item> \<open>Prelude\<close>, \<open>CLib\<close>: integers in memory, \<open>htons\<close>, the conversions of \<open>printf\<close> and \<open>sscanf\<close>; lemmas on bits and lists.
  \<^item> \<open>Parsing\<close>, \<open>Messages\<close>, \<open>Requests\<close>, \<open>Parse_Prefix\<close>, \<open>Transport_Header\<close> (\<open>src/types\<close>, \<open>src/util.c\<close>): the parsers
    fulfil \<open>incremental_parser\<close>: a complete result stays as it is when data is appended, and its
    offset is inside the buffer; \<open>rejecting_parser\<close> adds that an error stays one. Requests and responses are read
    back from their texts; where the request parser reads out of bounds is characterised exactly.
  \<^item> \<open>Writers\<close>, \<open>File_Writer\<close>, \<open>Sdp\<close> (\<open>src/writer\<close>, \<open>src/writer.c\<close>, \<open>src/types/sdp.c\<close>, \<open>src/types/error.c\<close>): the contracts
    \<open>reliable_writer\<close> and \<open>binary_writer\<close>, provided by the writers over strings, descriptors, streams, TLS
    connections and bufferevents, and the serialisers proved on the contracts.
  \<^item> \<open>Base64\<close>, \<open>Md5\<close>, \<open>Srtp_Keys\<close>: round trips of the codec and of the SDP crypto attribute; the digest equals the one of
    RFC 1321 however the message is cut into updates.
  \<^item> \<open>Context\<close>, \<open>Controller\<close>, \<open>Auth\<close>, \<open>Auth_Gate\<close>: an answer is what the client parses; dispatch keeps every invariant
    its handlers keep (\<open>controller_invariant\<close>); a header written in the grammar of RFC 2617 passes exactly with the
    digest defined there, whatever header passes states one, a client with the password gets in, and no handler runs
    before.
  \<^item> \<open>Rtp\<close>, \<open>Rtcp\<close>, \<open>Nal\<close> (\<open>src/types/rtp.c\<close>, \<open>src/types/rtcp.c\<close>, \<open>src/nal\<close>): headers and reports, read back.
  \<^item> \<open>Transport\<close>, \<open>Sockets\<close>: the contract \<open>reliable_transport\<close>, provided by datagrams and by the framing over
    any binary writer (a sublocale), and the opening of sockets over a small kernel.
  \<^item> \<open>Rtp_Transport\<close>, \<open>Nal_Transport\<close>, \<open>Jpeg_Transport\<close>, \<open>Jpeg_File\<close>: sending is equal to a reference run of packets, and
    a receiver written from RFC 3550, 6184, 7798 or 2435 reassembles from the datagrams what was sent; the parser of JPEG
    files finds the parts that a file was printed from.
  \<^item> \<open>Srtp\<close>, \<open>Srtp_Recv\<close>: protected sessions are unprotected packet by packet, the packets of a session have different
    initialisation vectors, nothing is decrypted that is not authentic, and no index is accepted twice: the 64-bit
    windows refine the set of accepted indices, and \<open>replay_receiver\<close> is what both receivers have in common.
  \<^item> \<open>Tls\<close>, \<open>Tls_Backends\<close>, \<open>Srtp_Backends\<close> (\<open>src/tls.c\<close>, \<open>src/crypto\<close>): a connection dies with its first error; a
    backend's write gives the peer a prefix of the data and says truly whether it is all, also over a library that
    delivers a part before it fails or asks to be called again; over each backend the framing is read back; and an SRTP
    sender and a receiver on any two backends understand each other. The libraries are records of the functions that
    the code calls, with what they document as hypotheses.
  \<^item> \<open>Rtcp_Session\<close>: sender reports describe the stream that was sent; a receiver hands on what arrives.
  \<^item> \<open>Libevent\<close>, \<open>Server_Media\<close>, \<open>Server_Session\<close>, \<open>Server_Properties\<close>, \<open>Server_Invariant\<close>, \<open>Server_Setup\<close>, \<open>Server_Describe\<close>,
    \<open>Server_Close\<close> (\<open>examples\<close>): the receive loop serves every request once; the players send the files; the handlers answer
    and leave the streams, sockets and timers that are stated; a step relation over requests gives the states a
    client can reach, with their invariant by rule induction; and when dropping a client fails and what it leaves.

  \<^bold>\<open>Loops and bounds.\<close> There is no fuel. A loop over data is a structural or measured recursion. The loops that may run
  for ever are partial functions into options: the extension loop of the RTP header, which returns exactly below 16384
  words; the sending loop of JPEG frames, which is proved to return whenever a fragment has room for data; the write loop
  of the crypto backends and the handshake loop of mbedTLS, which return when the library asks for finitely many
  retries. Faults are proved where the code has them, not assumed away: the empty slice of the matchers, the buffer of
  the SRTP receiver, the 1024 octets of formatted TLS output, the assertions and null pointers of the example
  server.

  \<^bold>\<open>Not modelled.\<close> Freeing memory, so that the drop and free functions appear only where they do more; the start
  of the example server (command line, listener, mapping of media files, signals), which is calls of the operating system
  and of libevent; the constants of the public headers that no code branches on; the tests. The cryptographic libraries,
  libevent, the C library's streams and the kernel are parameters or small models of their documented behaviour.
\<close>

end
